(* ===== verification/Prelude.thy ===== *)
theory Prelude
  imports Complex_Main "HOL-Library.AList"
begin

text \<open>
  What the component theories share: names for the Python types the code is written with, the
  collections of simplification facts the components add to, and generic lemmas on lists,
  insertion-ordered dictionaries and results.

  A Python \<open>dict\<close> is an association list with distinct keys: it is iterated in the order
  of first insertion, storing under an existing key keeps the key's place, and deleting removes the
  entry. These are \<open>AList.update\<close> and \<open>AList.delete\<close> of the library. A Python \<open>str\<close>
  is the list of its code points, restricted to the first 256, which is what \<open>char\<close> holds;
  \<open>bytes\<close> are the same type. A Python \<open>float\<close> is a rational number: arithmetic is exact,
  and NaN and the infinities are left out. A \<open>datetime\<close> is an integer, the microseconds since
  the epoch in UTC, the resolution the Python type has. A call that may raise returns
  \<open>error + result\<close>, with \<open>Inl\<close> for the exception.
\<close>

type_synonym pystr = string
type_synonym bytes = string
type_synonym pyfloat = rat
type_synonym datetime = int
type_synonym uuid = string
type_synonym ('k, 'v) dict = "('k \<times> 'v) list"

named_theorems table_simps \<open>what the table operations do to rows, keys and sequence numbers\<close>
named_theorems spool_simps \<open>what the operations of the agent's spool do to its parts\<close>
named_theorems db_simps \<open>what the operations of the server do to the parts of its database\<close>

definition ascii :: "bytes \<Rightarrow> bool" where
  "ascii bs \<longleftrightarrow> list_all (\<lambda>c. (of_char c :: nat) < 128) bs"

section \<open>Results\<close>

definition bind_result :: "'e + 'a \<Rightarrow> ('a \<Rightarrow> 'e + 'b) \<Rightarrow> 'e + 'b" where
  "bind_result m f = (case m of Inl e \<Rightarrow> Inl e | Inr x \<Rightarrow> f x)"

lemma bind_result_simps [simp]:
  "bind_result (Inl e) f = Inl e"
  "bind_result (Inr x) f = f x"
  by (simp_all add: bind_result_def)

lemma bind_result_Inr_iff: "bind_result m f = Inr y \<longleftrightarrow> (\<exists>x. m = Inr x \<and> f x = Inr y)"
  by (cases m) simp_all

lemma bind_result_Inl_iff: "bind_result m f = Inl e \<longleftrightarrow> m = Inl e \<or> (\<exists>x. m = Inr x \<and> f x = Inl e)"
  by (cases m) simp_all

lemma bind_result_assoc: "bind_result (bind_result m f) g = bind_result m (\<lambda>x. bind_result (f x) g)"
  by (cases m) simp_all

text \<open>The exceptions of the Python library the code raises or catches by name.\<close>

datatype exn = TypeError | AttributeError | KeyError | IndexError | ValueError | OverflowError
  | FileNotFoundError | PermissionError | ProcessLookupError | OSError
  | ProgrammingError | ConnectionError pystr | RuntimeError pystr | HttpError pystr

text \<open>A comprehension and a loop whose body may raise: the first exception ends them.\<close>

fun map_result :: "('a \<Rightarrow> 'e + 'b) \<Rightarrow> 'a list \<Rightarrow> 'e + 'b list" where
  "map_result f [] = Inr []"
| "map_result f (x # xs) = bind_result (f x) (\<lambda>y. bind_result (map_result f xs) (\<lambda>ys. Inr (y # ys)))"

fun fold_result :: "('a \<Rightarrow> 's \<Rightarrow> 'e + 's) \<Rightarrow> 'a list \<Rightarrow> 's \<Rightarrow> 'e + 's" where
  "fold_result f [] s = Inr s"
| "fold_result f (x # xs) s = bind_result (f x s) (fold_result f xs)"

lemma map_result_Inr: "map_result f xs = Inr ys \<longleftrightarrow> map f xs = map Inr ys"
  by (induction xs arbitrary: ys) (auto simp: bind_result_Inr_iff)

lemma map_result_Inl: "map_result f xs = Inl e \<Longrightarrow> \<exists>x \<in> set xs. f x = Inl e"
  by (induction xs) (auto simp: bind_result_Inl_iff)

lemma fold_result_append: "fold_result f (xs @ ys) s = bind_result (fold_result f xs s) (fold_result f ys)"
  by (induction xs arbitrary: s) (simp_all add: bind_result_def split: sum.split)

section \<open>Dictionaries\<close>

abbreviation dict_get :: "('k, 'v) dict \<Rightarrow> 'k \<Rightarrow> 'v option" where
  "dict_get d k \<equiv> map_of d k"

abbreviation dict_set :: "'k \<Rightarrow> 'v \<Rightarrow> ('k, 'v) dict \<Rightarrow> ('k, 'v) dict" where
  "dict_set k v d \<equiv> AList.update k v d"

abbreviation dict_del :: "'k \<Rightarrow> ('k, 'v) dict \<Rightarrow> ('k, 'v) dict" where
  "dict_del k d \<equiv> AList.delete k d"

abbreviation dict_ok :: "('k, 'v) dict \<Rightarrow> bool" where
  "dict_ok d \<equiv> distinct (map fst d)"

definition dict_setdefault :: "'k \<Rightarrow> 'v \<Rightarrow> ('k, 'v) dict \<Rightarrow> ('k, 'v) dict" where
  "dict_setdefault k v d = (if k \<in> fst ` set d then d else d @ [(k, v)])"

text \<open>\<open>d.update(items)\<close> and the upserts of a key-value table.\<close>

definition dict_update :: "('k \<times> 'v) list \<Rightarrow> ('k, 'v) dict \<Rightarrow> ('k, 'v) dict" where
  "dict_update items d = fold (\<lambda>(k, v). AList.update k v) items d"

lemma map_of_append_option:
  "map_of (d @ e) k = (case map_of d k of None \<Rightarrow> map_of e k | Some v \<Rightarrow> Some v)"
  by (simp add: map_add_def split: option.splits)

lemma dict_set_keys:
  "map fst (dict_set k v d) = (if k \<in> fst ` set d then map fst d else map fst d @ [k])"
  by (simp add: AList.update_keys)

lemma dict_set_ok [simp]: "dict_ok d \<Longrightarrow> dict_ok (dict_set k v d)"
  by (simp add: AList.distinct_update)

lemma dict_del_ok [simp]: "dict_ok d \<Longrightarrow> dict_ok (dict_del k d)"
  by (simp add: AList.distinct_delete)

lemma dict_setdefault_keys:
  "map fst (dict_setdefault k v d) = (if k \<in> fst ` set d then map fst d else map fst d @ [k])"
  by (simp add: dict_setdefault_def)

lemma dict_setdefault_ok [simp]: "dict_ok d \<Longrightarrow> dict_ok (dict_setdefault k v d)"
  by (auto simp: dict_setdefault_def)

lemma dict_setdefault_get:
  "dict_get (dict_setdefault k v d) k' =
     (if k' = k \<and> k \<notin> fst ` set d then Some v else dict_get d k')"
proof (cases "k \<in> fst ` set d")
  case False
  then have "map_of d k = None" by (simp add: map_of_eq_None_iff)
  with False show ?thesis
    by (simp add: dict_setdefault_def map_of_append_option del: map_of_append split: option.splits)
qed (simp add: dict_setdefault_def)

lemma dict_update_simps [simp]:
  "dict_update [] d = d"
  "dict_update ((k, v) # items) d = dict_update items (dict_set k v d)"
  by (simp_all add: dict_update_def)

lemma dict_update_append: "dict_update (xs @ ys) d = dict_update ys (dict_update xs d)"
  by (simp add: dict_update_def)

lemma dict_update_ok [simp]: "dict_ok d \<Longrightarrow> dict_ok (dict_update items d)"
  by (induction items arbitrary: d) auto

lemma dict_update_get: "dict_get (dict_update items d) = dict_get d ++ map_of (rev items)"
proof (induction items arbitrary: d)
  case (Cons kv items)
  obtain k v where kv: "kv = (k, v)" by (cases kv)
  show ?case
    by (simp add: kv Cons.IH AList.update_conv' map_add_upd_left fun_upd_def map_add_def fun_eq_iff
        split: option.splits)
qed simp

lemma dict_update_same: "distinct (map fst items) \<Longrightarrow> set (map fst items) \<inter> fst ` set d = {} \<Longrightarrow> dict_update items d = d @ items"
proof (induction items arbitrary: d)
  case (Cons e items)
  obtain k v where e: "e = (k, v)" by (cases e)
  have "dict_set k v d = d @ [(k, v)]" using Cons.prems(2) e by (induction d) auto
  then show ?case using Cons.IH [of "d @ [(k, v)]"] Cons.prems e by auto
qed simp

lemma dict_update_keys: "fst ` set (dict_update items d) = fst ` set items \<union> fst ` set d"
proof (induction items arbitrary: d)
  case (Cons kv items)
  obtain k v where kv: "kv = (k, v)" by (cases kv)
  have "fst ` set (dict_set k v d) = insert k (fst ` set d)"
    using arg_cong [OF dict_set_keys [of k v d], of set] by (auto split: if_splits)
  then show ?case using Cons.IH by (simp add: kv)
qed simp

lemma dict_get_in: "dict_get d k = Some v \<Longrightarrow> (k, v) \<in> set d"
  by (rule map_of_SomeD)

lemma dict_get_keys: "dict_get d k \<noteq> None \<longleftrightarrow> k \<in> fst ` set d"
  by (simp add: map_of_eq_None_iff)

section \<open>Lists\<close>

lemma filter_in_self: "filter (\<lambda>x. x \<in> set xs) xs = xs"
  by (rule filter_True) simp

lemma sum_list_filter_split:
  "sum_list (map f xs) = sum_list (map f (filter P xs)) + sum_list (map f (filter (\<lambda>x. \<not> P x) xs))"
  for f :: "'a \<Rightarrow> 'b::comm_monoid_add"
  by (induction xs) (simp_all add: ac_simps)

lemma sum_list_filter_le: "sum_list (map f (filter P xs)) \<le> sum_list (map f xs)"
  for f :: "'a \<Rightarrow> nat"
  by (induction xs) auto

lemma sum_list_take_le: "sum_list (map f (take n xs)) \<le> sum_list (map f xs)"
  for f :: "'a \<Rightarrow> nat"
  by (metis append_take_drop_id le_add1 map_append sum_list_append)

lemma distinct_map_filter: "distinct (map f xs) \<Longrightarrow> distinct (map f (filter P xs))"
  by (induction xs) auto

lemma find_distinct_key:
  "distinct (map f xs) \<Longrightarrow> x \<in> set xs \<Longrightarrow> find (\<lambda>y. f y = f x) xs = Some x"
  by (induction xs) (auto simp: rev_image_eqI)

lemma find_SomeD: "find P xs = Some x \<Longrightarrow> x \<in> set xs \<and> P x"
  by (induction xs) (auto split: if_splits)

lemma find_None_key: "find (\<lambda>y. f y = k) xs = None \<longleftrightarrow> k \<notin> f ` set xs"
  by (auto simp: find_None_iff)

end
