(* ===== verification/Tables.thy ===== *)
theory Tables
  imports Prelude
begin

text \<open>
  The relational tables the agent's SQLite spool and the server's database keep: rows in order of
  an increasing integer id, one unique key, and the two statements the code writes into such a
  table, \<open>INSERT OR IGNORE\<close> / \<open>ON CONFLICT DO NOTHING\<close> and \<open>DELETE ... WHERE\<close>. The locale
  \<open>unique_table\<close> is the contract of a table with an assigned id and a unique key; every such
  table of the model interprets it.
\<close>

record 'r table =
  trows :: "'r list"
  tseq :: nat

definition empty_table :: "'r table" where
  "empty_table = \<lparr>trows = [], tseq = 0\<rparr>"

text \<open>
  Insert a row built from its columns \<open>c\<close> with the next id, or leave the table alone when the
  unique key is taken.
\<close>

definition insert_ignore ::
  "('r \<Rightarrow> 'k) \<Rightarrow> ('c \<Rightarrow> 'k) \<Rightarrow> (nat \<Rightarrow> 'c \<Rightarrow> 'r) \<Rightarrow> 'c \<Rightarrow> 'r table \<Rightarrow> 'r table" where
  "insert_ignore key ckey mk c t =
     (if ckey c \<in> key ` set (trows t) then t
      else t\<lparr>trows := trows t @ [mk (Suc (tseq t)) c], tseq := Suc (tseq t)\<rparr>)"

definition insert_all ::
  "('r \<Rightarrow> 'k) \<Rightarrow> ('c \<Rightarrow> 'k) \<Rightarrow> (nat \<Rightarrow> 'c \<Rightarrow> 'r) \<Rightarrow> 'c list \<Rightarrow> 'r table \<Rightarrow> 'r table" where
  "insert_all key ckey mk cs t = fold (insert_ignore key ckey mk) cs t"

definition delete_where :: "('r \<Rightarrow> bool) \<Rightarrow> 'r table \<Rightarrow> 'r table" where
  "delete_where P t = t\<lparr>trows := filter (\<lambda>r. \<not> P r) (trows t)\<rparr>"

definition find_key :: "('r \<Rightarrow> 'k) \<Rightarrow> 'k \<Rightarrow> 'r table \<Rightarrow> 'r option" where
  "find_key key k t = find (\<lambda>r. key r = k) (trows t)"

text \<open>
  A table is in order when its ids increase, none is beyond the sequence counter, and no key
  occurs twice.
\<close>

definition table_ok :: "('r \<Rightarrow> nat) \<Rightarrow> ('r \<Rightarrow> 'k) \<Rightarrow> 'r table \<Rightarrow> bool" where
  "table_ok rid key t \<longleftrightarrow>
     sorted_wrt (<) (map rid (trows t)) \<and> (\<forall>r \<in> set (trows t). rid r \<le> tseq t)
     \<and> distinct (map key (trows t))"

text \<open>The first of the columns with each key, in order: what a loop over \<open>setdefault\<close> keeps.\<close>

fun first_by :: "('c \<Rightarrow> 'k) \<Rightarrow> 'c list \<Rightarrow> 'c list" where
  "first_by f [] = []"
| "first_by f (c # cs) = c # filter (\<lambda>d. f d \<noteq> f c) (first_by f cs)"

lemma set_first_by_subset: "set (first_by f cs) \<subseteq> set cs"
  by (induction cs) auto

lemma keys_first_by [simp]: "f ` set (first_by f cs) = f ` set cs"
proof (induction cs)
  case (Cons c cs)
  have "f ` set (first_by f (c # cs)) = insert (f c) (f ` set (first_by f cs))" by auto
  with Cons.IH show ?case by simp
qed simp

lemma set_first_by_id [simp]: "set (first_by id cs) = set cs"
  using keys_first_by [of id cs] by simp

lemma first_by_map: "first_by f (map g cs) = map g (first_by (\<lambda>c. f (g c)) cs)"
  by (induction cs) (simp_all add: filter_map o_def)

lemma fold_setdefault_first_by:
  "fold (\<lambda>c. dict_setdefault (f c) (g c)) cs d =
     d @ map (\<lambda>c. (f c, g c)) (filter (\<lambda>c. f c \<notin> fst ` set d) (first_by f cs))"
proof (induction cs arbitrary: d)
  case (Cons c cs)
  show ?case
  proof (cases "f c \<in> fst ` set d")
    case True
    then have "filter (\<lambda>x. f x \<notin> fst ` set d) (filter (\<lambda>x. f x \<noteq> f c) xs)
        = filter (\<lambda>x. f x \<notin> fst ` set d) xs" for xs
      unfolding filter_filter by (metis (mono_tags, lifting))
    with True Cons.IH [of d] show ?thesis by (simp add: dict_setdefault_def)
  next
    case False
    have "filter (\<lambda>x. f x \<notin> fst ` set (d @ [(f c, g c)])) xs
        = filter (\<lambda>x. f x \<notin> fst ` set d) (filter (\<lambda>x. f x \<noteq> f c) xs)" for xs
      by (auto intro!: filter_cong)
    with False Cons.IH [of "d @ [(f c, g c)]"] show ?thesis
      by (simp add: dict_setdefault_def)
  qed
qed simp

lemma distinct_first_by [simp]: "distinct (map f (first_by f cs))"
  by (induction cs) (auto simp: distinct_map_filter)

lemma empty_table_simps [simp, table_simps]: "trows empty_table = []" "tseq empty_table = 0"
  by (simp_all add: empty_table_def)

lemma table_ok_empty [simp]: "table_ok rid key empty_table"
  by (simp add: table_ok_def)

lemma table_okI:
  "sorted_wrt (<) (map rid (trows t)) \<Longrightarrow> (\<And>r. r \<in> set (trows t) \<Longrightarrow> rid r \<le> tseq t) \<Longrightarrow>
   distinct (map key (trows t)) \<Longrightarrow> table_ok rid key t"
  by (simp add: table_ok_def)

lemma table_ok_keys: "table_ok rid key t \<Longrightarrow> distinct (map key (trows t))"
  by (simp add: table_ok_def)

lemma table_ok_sorted: "table_ok rid key t \<Longrightarrow> sorted_wrt (<) (map rid (trows t))"
  by (simp add: table_ok_def)

lemma table_ok_ids: "table_ok rid key t \<Longrightarrow> distinct (map rid (trows t))"
  by (simp add: table_ok_def strict_sorted_iff)

lemma rows_delete_where [simp, table_simps]:
  "trows (delete_where P t) = filter (\<lambda>r. \<not> P r) (trows t)"
  "tseq (delete_where P t) = tseq t"
  by (simp_all add: delete_where_def)

lemma sorted_wrt_map_filter: "sorted_wrt Q (map f xs) \<Longrightarrow> sorted_wrt Q (map f (filter P xs))"
  by (induction xs) auto

lemma table_ok_delete: "table_ok rid key t \<Longrightarrow> table_ok rid key (delete_where P t)"
  by (auto simp: table_ok_def sorted_wrt_map_filter distinct_map_filter)

lemma delete_where_twice:
  "delete_where P (delete_where Q t) = delete_where (\<lambda>r. P r \<or> Q r) t"
  by (simp add: delete_where_def conj_commute)

lemma insert_all_simps [simp, table_simps]:
  "insert_all key ckey mk [] t = t"
  "insert_all key ckey mk (c # cs) t = insert_all key ckey mk cs (insert_ignore key ckey mk c t)"
  by (simp_all add: insert_all_def)

lemma insert_all_append:
  "insert_all key ckey mk (cs @ ds) t = insert_all key ckey mk ds (insert_all key ckey mk cs t)"
  by (simp add: insert_all_def)

lemma find_key_in: "find_key key k t = Some r \<Longrightarrow> r \<in> set (trows t) \<and> key r = k"
  unfolding find_key_def by (drule find_SomeD) simp

lemma find_key_None: "find_key key k t = None \<longleftrightarrow> k \<notin> key ` set (trows t)"
  by (simp add: find_key_def find_None_key)

lemma find_key_Some:
  "distinct (map key (trows t)) \<Longrightarrow> r \<in> set (trows t) \<Longrightarrow> find_key key (key r) t = Some r"
  by (simp add: find_key_def find_distinct_key)

locale unique_table =
  fixes rid :: "'r \<Rightarrow> nat" and key :: "'r \<Rightarrow> 'k" and ckey :: "'c \<Rightarrow> 'k" and mk :: "nat \<Rightarrow> 'c \<Rightarrow> 'r"
  assumes rid_mk: "rid (mk i c) = i"
    and key_mk: "key (mk i c) = ckey c"
begin

abbreviation ins :: "'c \<Rightarrow> 'r table \<Rightarrow> 'r table" where
  "ins \<equiv> insert_ignore key ckey mk"

abbreviation ins_all :: "'c list \<Rightarrow> 'r table \<Rightarrow> 'r table" where
  "ins_all \<equiv> insert_all key ckey mk"

lemma keys_ins [simp]: "key ` set (trows (ins c t)) = insert (ckey c) (key ` set (trows t))"
  by (auto simp: insert_ignore_def key_mk)

lemma ok_ins: "table_ok rid key t \<Longrightarrow> table_ok rid key (ins c t)"
  by (auto simp: table_ok_def insert_ignore_def sorted_wrt_append rid_mk key_mk le_Suc_eq)

lemma ok_ins_all: "table_ok rid key t \<Longrightarrow> table_ok rid key (ins_all cs t)"
  by (induction cs arbitrary: t) (auto simp: ok_ins)

lemma keys_ins_all: "key ` set (trows (ins_all cs t)) = key ` set (trows t) \<union> ckey ` set cs"
  by (induction cs arbitrary: t) auto

lemma ins_present: "ckey c \<in> key ` set (trows t) \<Longrightarrow> ins c t = t"
  by (simp add: insert_ignore_def)

lemma ins_all_present: "ckey ` set cs \<subseteq> key ` set (trows t) \<Longrightarrow> ins_all cs t = t"
  by (induction cs arbitrary: t) (auto simp: ins_present)

lemma ins_all_again: "ins_all cs (ins_all cs t) = ins_all cs t"
  by (rule ins_all_present) (auto simp: keys_ins_all)

lemma rows_ins_prefix: "\<exists>new. trows (ins c t) = trows t @ new"
  by (simp add: insert_ignore_def)

lemma rows_ins_all_prefix: "\<exists>new. trows (ins_all cs t) = trows t @ new"
proof (induction cs arbitrary: t)
  case (Cons c cs)
  obtain a where a: "trows (ins c t) = trows t @ a" using rows_ins_prefix by blast
  obtain b where "trows (ins_all cs (ins c t)) = trows (ins c t) @ b" using Cons.IH by blast
  with a show ?case by auto
qed simp

lemma rows_ins_all_mono: "set (trows t) \<subseteq> set (trows (ins_all cs t))"
proof -
  obtain new where "trows (ins_all cs t) = trows t @ new" using rows_ins_all_prefix by blast
  then show ?thesis by simp
qed

lemma seq_ins_all_mono: "tseq t \<le> tseq (ins_all cs t)"
proof (induction cs arbitrary: t)
  case (Cons c cs)
  have "tseq t \<le> tseq (ins c t)" by (simp add: insert_ignore_def)
  also have "\<dots> \<le> tseq (ins_all cs (ins c t))" by (rule Cons.IH)
  finally show ?case by simp
qed simp

text \<open>A key that was there keeps its row; a new key gets the row of its first columns.\<close>

lemma find_ins: "find_key key k (ins c t) =
    (case find_key key k t of Some r \<Rightarrow> Some r
     | None \<Rightarrow> if ckey c = k then Some (mk (Suc (tseq t)) c) else None)"
proof -
  have app: "find P (xs @ ys) = (case find P xs of Some x \<Rightarrow> Some x | None \<Rightarrow> find P ys)"
    for P :: "'r \<Rightarrow> bool" and xs ys
    by (induction xs) auto
  have "find_key key k t = None \<longleftrightarrow> k \<notin> key ` set (trows t)" by (rule find_key_None)
  then show ?thesis
    by (auto simp: insert_ignore_def find_key_def app key_mk split: option.splits)
qed

lemma find_ins_all_old:
  "find_key key k t = Some r \<Longrightarrow> find_key key k (ins_all cs t) = Some r"
  by (induction cs arbitrary: t) (auto simp: find_ins)

lemma find_ins_all_isSome:
  "c \<in> set cs \<Longrightarrow> \<exists>r. find_key key (ckey c) (ins_all cs t) = Some r"
proof -
  assume "c \<in> set cs"
  then have "ckey c \<in> key ` set (trows (ins_all cs t))" by (auto simp: keys_ins_all)
  then show ?thesis
    using find_key_None [of key "ckey c" "ins_all cs t"] by blast
qed

text \<open>The keys of the new rows are the missing keys in the order they first occur.\<close>

lemma ckeys_ins_all: "map key (trows (ins_all cs t)) =
    map key (trows t) @ filter (\<lambda>k. k \<notin> key ` set (trows t)) (first_by id (map ckey cs))"
proof (induction cs arbitrary: t)
  case (Cons c cs)
  show ?case
  proof (cases "ckey c \<in> key ` set (trows t)")
    case True
    then have "filter (\<lambda>k. k \<notin> key ` set (trows t)) (filter (\<lambda>k. k \<noteq> ckey c) xs)
        = filter (\<lambda>k. k \<notin> key ` set (trows t)) xs" for xs
      by (auto intro!: filter_cong)
    with True Cons show ?thesis by (simp add: ins_present)
  next
    case False
    then have "map key (trows (ins c t)) = map key (trows t) @ [ckey c]"
      by (simp add: insert_ignore_def key_mk)
    moreover have "filter (\<lambda>k. k \<notin> key ` set (trows (ins c t))) xs =
        filter (\<lambda>k. k \<notin> key ` set (trows t)) (filter (\<lambda>k. k \<noteq> ckey c) xs)" for xs
      by (auto intro!: filter_cong)
    ultimately show ?thesis using False Cons.IH [of "ins c t"] by simp
  qed
qed simp

text \<open>
  Inserting only the columns whose key is missing, and of those only the first with each key, is
  inserting all of them: the bulk path of a batch does what the row-by-row path does.
\<close>

lemma ins_all_skip: "K \<subseteq> key ` set (trows t) \<Longrightarrow>
    ins_all (filter (\<lambda>c. ckey c \<notin> K) cs) t = ins_all cs t"
proof (induction cs arbitrary: t)
  case (Cons c cs)
  show ?case
  proof (cases "ckey c \<in> K")
    case True
    with Cons.prems have "ins c t = t" by (auto intro: ins_present)
    with True Cons show ?thesis by simp
  next
    case False
    have "K \<subseteq> key ` set (trows (ins c t))" using Cons.prems by auto
    with False show ?thesis by (simp add: Cons.IH)
  qed
qed simp

lemma ins_all_first_by: "ins_all (first_by ckey cs) t = ins_all cs t"
proof (induction cs arbitrary: t)
  case (Cons c cs)
  have "ins_all (filter (\<lambda>d. ckey d \<noteq> ckey c) (first_by ckey cs)) (ins c t)
      = ins_all (filter (\<lambda>d. ckey d \<notin> {ckey c}) (first_by ckey cs)) (ins c t)" by simp
  also have "\<dots> = ins_all (first_by ckey cs) (ins c t)" by (rule ins_all_skip) simp
  finally show ?case by (simp add: Cons.IH)
qed simp

lemma ins_all_missing:
  "ins_all (filter (\<lambda>c. ckey c \<notin> key ` set (trows t)) (first_by ckey cs)) t = ins_all cs t"
  by (simp add: ins_all_skip ins_all_first_by)

end

end
