(* ===== verification/Spool.thy ===== *)
theory Spool
  imports Tables
begin

text \<open>
  The agent's durable event queue, \<open>SQLiteSpool\<close> of \<open>agent/src/temporalrca_agent/spool.py\<close>:
  its three tables, one definition per method body (the \<open>_sync\<close> functions, which run under the
  spool's lock and so one at a time), the well-formedness invariant, what eviction, batching,
  acknowledgement and quarantine do to the queue, and the interface the sender relies on.
\<close>

section \<open>State\<close>

text \<open>
  A row of \<open>events\<close>: \<open>size\<close> is the length of the payload in bytes, \<open>created\<close> the clock
  when the event was encoded. \<open>AUTOINCREMENT\<close> ids only grow.
\<close>

record spool_row =
  row_id :: nat
  row_event_id :: pystr
  row_created :: pyfloat
  row_payload :: bytes
  row_size :: nat

record quarantine_row =
  q_event_id :: pystr
  q_quarantined :: pyfloat
  q_reason :: pystr
  q_payload :: bytes

record spool =
  sp_max_bytes :: int
  sp_max_age_seconds :: int
  sp_events :: "spool_row table"
  sp_quarantine :: "quarantine_row list"
  sp_state :: "(pystr, pystr) dict"

record eviction =
  ev_event_id :: pystr
  ev_reason :: pystr
  ev_bytes :: nat

record 'p spool_record =
  rec_id :: nat
  rec_event_id :: pystr
  rec_payload :: 'p
  rec_size :: nat

text \<open>What \<open>_open_sync\<close> leaves of a file that did not exist: three empty tables.\<close>

definition new_spool :: "int \<Rightarrow> int \<Rightarrow> spool" where
  "new_spool max_bytes max_age =
     \<lparr>sp_max_bytes = max_bytes, sp_max_age_seconds = max_age, sp_events = empty_table,
      sp_quarantine = [], sp_state = []\<rparr>"

abbreviation queue :: "spool \<Rightarrow> spool_row list" where
  "queue s \<equiv> trows (sp_events s)"

abbreviation queue_ids :: "spool \<Rightarrow> pystr list" where
  "queue_ids s \<equiv> map row_event_id (queue s)"

abbreviation quarantine_ids :: "spool \<Rightarrow> pystr list" where
  "quarantine_ids s \<equiv> map q_event_id (sp_quarantine s)"

definition total_size :: "spool_row list \<Rightarrow> int" where
  "total_size rs = int (sum_list (map row_size rs))"

section \<open>Appending and eviction\<close>

text \<open>An encoded event is the tuple \<open>append\<close> builds: the id, the clock and the payload.\<close>

type_synonym encoded = "pystr \<times> pyfloat \<times> bytes"

definition row_of :: "nat \<Rightarrow> encoded \<Rightarrow> spool_row" where
  "row_of i e = (case e of (event_id, created, payload) \<Rightarrow>
     \<lparr>row_id = i, row_event_id = event_id, row_created = created, row_payload = payload,
      row_size = length payload\<rparr>)"

definition append_rows :: "encoded list \<Rightarrow> (pystr \<times> pystr) list \<Rightarrow> spool \<Rightarrow> spool" where
  "append_rows encoded state_updates s =
     s\<lparr>sp_events := insert_all row_event_id fst row_of encoded (sp_events s),
       sp_state := dict_update state_updates (sp_state s)\<rparr>"

text \<open>
  The loop of \<open>_enforce_limits_sync\<close>: \<open>tot\<close> is what is left after the rows selected
  so far; a row selected before (because it expired) is not selected again, but its size is
  subtracted again.
\<close>

fun evict_loop :: "int \<Rightarrow> int \<Rightarrow> spool_row list \<Rightarrow> spool_row list \<Rightarrow> spool_row list" where
  "evict_loop max_bytes tot selected [] = selected"
| "evict_loop max_bytes tot selected (row # rest) =
     (if tot \<le> max_bytes then selected
      else evict_loop max_bytes (tot - int (row_size row))
             (if row_id row \<in> row_id ` set selected then selected else selected @ [row]) rest)"

definition expired :: "pyfloat \<Rightarrow> spool \<Rightarrow> spool_row list" where
  "expired now s =
     (let cutoff = now - of_int (sp_max_age_seconds s)
      in filter (\<lambda>r. row_created r < cutoff) (queue s))"

definition select_evictions :: "pyfloat \<Rightarrow> spool \<Rightarrow> spool_row list" where
  "select_evictions now s =
     (let old = expired now s
      in evict_loop (sp_max_bytes s) (total_size (queue s) - total_size old) old (queue s))"

definition eviction_of :: "spool_row \<Rightarrow> eviction" where
  "eviction_of row =
     \<lparr>ev_event_id = row_event_id row, ev_reason = ''spool_capacity_eviction'',
      ev_bytes = row_size row\<rparr>"

definition enforce_limits :: "pyfloat \<Rightarrow> spool \<Rightarrow> spool \<times> eviction list" where
  "enforce_limits now s =
     (let selected = select_evictions now s
      in (s\<lparr>sp_events := delete_where (\<lambda>r. row_id r \<in> row_id ` set selected) (sp_events s)\<rparr>,
          map eviction_of selected))"

definition append_sync ::
  "pyfloat \<Rightarrow> encoded list \<Rightarrow> (pystr \<times> pystr) list \<Rightarrow> spool \<Rightarrow> spool \<times> eviction list" where
  "append_sync now encoded state_updates s =
     enforce_limits now (append_rows encoded state_updates s)"

section \<open>Reading batches, settling events, state\<close>

fun take_batch :: "nat \<Rightarrow> nat \<Rightarrow> spool_row list \<Rightarrow> spool_row list \<Rightarrow> spool_row list" where
  "take_batch max_bytes tot records [] = records"
| "take_batch max_bytes tot records (row # rest) =
     (if records \<noteq> [] \<and> max_bytes < tot + row_size row then records
      else take_batch max_bytes (tot + row_size row) (records @ [row]) rest)"

definition record_of :: "(bytes \<Rightarrow> 'p) \<Rightarrow> spool_row \<Rightarrow> 'p spool_record" where
  "record_of loads row =
     \<lparr>rec_id = row_id row, rec_event_id = row_event_id row, rec_payload = loads (row_payload row),
      rec_size = row_size row\<rparr>"

definition batch_rows :: "nat \<Rightarrow> nat \<Rightarrow> bool \<Rightarrow> spool \<Rightarrow> spool_row list" where
  "batch_rows max_events max_bytes newest s =
     (let ordered = (if newest then rev (queue s) else queue s);
          records = take_batch max_bytes 0 [] (take max_events ordered)
      in if newest then rev records else records)"

definition batch_sync ::
  "(bytes \<Rightarrow> 'p) \<Rightarrow> nat \<Rightarrow> nat \<Rightarrow> bool \<Rightarrow> spool \<Rightarrow> 'p spool_record list" where
  "batch_sync loads max_events max_bytes newest s =
     map (record_of loads) (batch_rows max_events max_bytes newest s)"

definition acknowledge :: "pystr list \<Rightarrow> spool \<Rightarrow> spool" where
  "acknowledge event_ids s =
     s\<lparr>sp_events := delete_where (\<lambda>r. row_event_id r \<in> set event_ids) (sp_events s)\<rparr>"

definition quarantine_one :: "pyfloat \<Rightarrow> pystr \<times> pystr \<Rightarrow> spool \<Rightarrow> spool" where
  "quarantine_one now item s =
     (case item of (event_id, reason) \<Rightarrow>
        (case find_key row_event_id event_id (sp_events s) of
           None \<Rightarrow> s
         | Some row \<Rightarrow>
             s\<lparr>sp_quarantine := sp_quarantine s @
                 [\<lparr>q_event_id = event_id, q_quarantined = now, q_reason = reason,
                   q_payload = row_payload row\<rparr>],
               sp_events := delete_where (\<lambda>r. row_event_id r = event_id) (sp_events s)\<rparr>))"

definition quarantine_sync :: "pyfloat \<Rightarrow> (pystr, pystr) dict \<Rightarrow> spool \<Rightarrow> spool" where
  "quarantine_sync now rejections s = fold (quarantine_one now) rejections s"

record usage =
  u_events :: nat
  u_bytes :: int
  u_quarantine :: nat

definition usage_of :: "spool \<Rightarrow> usage" where
  "usage_of s =
     \<lparr>u_events = length (queue s), u_bytes = total_size (queue s),
      u_quarantine = length (sp_quarantine s)\<rparr>"

definition get_state :: "pystr \<Rightarrow> spool \<Rightarrow> pystr option" where
  "get_state key s = dict_get (sp_state s) key"

definition set_state :: "pystr \<Rightarrow> pystr \<Rightarrow> spool \<Rightarrow> spool" where
  "set_state key value s = s\<lparr>sp_state := dict_set key value (sp_state s)\<rparr>"

section \<open>Well-formedness\<close>

definition spool_ok :: "spool \<Rightarrow> bool" where
  "spool_ok s \<longleftrightarrow>
     table_ok row_id row_event_id (sp_events s)
     \<and> (\<forall>r \<in> set (queue s). row_size r = length (row_payload r))
     \<and> dict_ok (sp_state s)"

text \<open>The spool's events table is a table with a unique key, the event id.\<close>

lemma row_of_simps [simp]:
  "row_id (row_of i e) = i" "row_event_id (row_of i e) = fst e"
  "row_created (row_of i e) = fst (snd e)" "row_payload (row_of i e) = snd (snd e)"
  "row_size (row_of i e) = length (snd (snd e))"
  by (cases e; simp add: row_of_def)+

interpretation events_table: unique_table row_id row_event_id fst row_of
  by unfold_locales simp_all

lemma append_rows_simps [simp, spool_simps]:
  "sp_events (append_rows enc upd s) = insert_all row_event_id fst row_of enc (sp_events s)"
  "sp_state (append_rows enc upd s) = dict_update upd (sp_state s)"
  "sp_quarantine (append_rows enc upd s) = sp_quarantine s"
  "sp_max_bytes (append_rows enc upd s) = sp_max_bytes s"
  "sp_max_age_seconds (append_rows enc upd s) = sp_max_age_seconds s"
  by (simp_all add: append_rows_def)

lemma queue_enforce_limits:
  "queue (fst (enforce_limits now s)) =
     filter (\<lambda>r. row_id r \<notin> row_id ` set (select_evictions now s)) (queue s)"
  by (simp add: enforce_limits_def Let_def)

lemma enforce_limits_simps [simp, spool_simps]:
  "sp_state (fst (enforce_limits now s)) = sp_state s"
  "sp_quarantine (fst (enforce_limits now s)) = sp_quarantine s"
  "sp_max_bytes (fst (enforce_limits now s)) = sp_max_bytes s"
  "sp_max_age_seconds (fst (enforce_limits now s)) = sp_max_age_seconds s"
  "snd (enforce_limits now s) = map eviction_of (select_evictions now s)"
  by (simp_all add: enforce_limits_def Let_def)

lemma acknowledge_simps [simp, spool_simps]:
  "queue (acknowledge ids s) = filter (\<lambda>r. row_event_id r \<notin> set ids) (queue s)"
  "sp_state (acknowledge ids s) = sp_state s"
  "sp_quarantine (acknowledge ids s) = sp_quarantine s"
  "sp_max_bytes (acknowledge ids s) = sp_max_bytes s"
  "sp_max_age_seconds (acknowledge ids s) = sp_max_age_seconds s"
  by (simp_all add: acknowledge_def)

lemma set_state_simps [simp, spool_simps]:
  "sp_events (set_state k v s) = sp_events s"
  "sp_quarantine (set_state k v s) = sp_quarantine s"
  "sp_max_bytes (set_state k v s) = sp_max_bytes s"
  "sp_max_age_seconds (set_state k v s) = sp_max_age_seconds s"
  "get_state k' (set_state k v s) = (if k' = k then Some v else get_state k' s)"
  by (simp_all add: set_state_def get_state_def AList.update_conv')

lemma spool_ok_new [simp]: "spool_ok (new_spool mb ma)"
  by (simp add: spool_ok_def new_spool_def)

lemma spool_ok_ids: "spool_ok s \<Longrightarrow> distinct (map row_id (queue s))"
  unfolding spool_ok_def by (blast intro: table_ok_ids)

lemma spool_ok_event_ids: "spool_ok s \<Longrightarrow> distinct (queue_ids s)"
  unfolding spool_ok_def by (blast intro: table_ok_keys)

lemma size_row_insert_all:
  "\<forall>r \<in> set (trows t). row_size r = length (row_payload r) \<Longrightarrow>
   \<forall>r \<in> set (trows (insert_all row_event_id fst row_of enc t)). row_size r = length (row_payload r)"
proof (induction enc arbitrary: t)
  case (Cons e enc)
  have "\<forall>r \<in> set (trows (insert_ignore row_event_id fst row_of e t)). row_size r = length (row_payload r)"
    using Cons.prems by (auto simp: insert_ignore_def)
  then show ?case by (simp add: Cons.IH)
qed simp

lemma spool_ok_append_rows: "spool_ok s \<Longrightarrow> spool_ok (append_rows enc upd s)"
  using size_row_insert_all [of "sp_events s" enc] by (simp add: spool_ok_def events_table.ok_ins_all)

lemma spool_ok_enforce_limits: "spool_ok s \<Longrightarrow> spool_ok (fst (enforce_limits now s))"
  by (auto simp: enforce_limits_def Let_def spool_ok_def table_ok_delete)

lemma spool_ok_append_sync: "spool_ok s \<Longrightarrow> spool_ok (fst (append_sync now enc upd s))"
  by (simp add: append_sync_def spool_ok_enforce_limits spool_ok_append_rows)

lemma spool_ok_acknowledge: "spool_ok s \<Longrightarrow> spool_ok (acknowledge ids s)"
  by (auto simp: spool_ok_def acknowledge_def table_ok_delete)

lemma spool_ok_quarantine_one: "spool_ok s \<Longrightarrow> spool_ok (quarantine_one now item s)"
  by (auto simp: quarantine_one_def spool_ok_def table_ok_delete split: prod.splits option.splits)

lemma spool_ok_quarantine_sync: "spool_ok s \<Longrightarrow> spool_ok (quarantine_sync now rej s)"
  unfolding quarantine_sync_def by (induction rej arbitrary: s) (auto simp: spool_ok_quarantine_one)

lemma spool_ok_set_state: "spool_ok s \<Longrightarrow> spool_ok (set_state k v s)"
  by (simp add: spool_ok_def set_state_def)

end
