(* ===== verification/Spool_Eviction.thy ===== *)
theory Spool_Eviction
  imports Spool "HOL-Library.Multiset"
begin

text \<open>
  What \<open>_enforce_limits_sync\<close> keeps and drops. The loop is given a closed form: it selects the
  expired rows and then a prefix of the queue; everything after is read off the length of that
  prefix, \<open>evict_len\<close>.
\<close>

section \<open>The eviction loop in closed form\<close>

fun evict_count :: "int \<Rightarrow> int \<Rightarrow> spool_row list \<Rightarrow> nat" where
  "evict_count max_bytes tot [] = 0"
| "evict_count max_bytes tot (row # rest) =
     (if tot \<le> max_bytes then 0 else Suc (evict_count max_bytes (tot - int (row_size row)) rest))"

lemma total_size_simps [simp]:
  "total_size [] = 0"
  "total_size (r # rs) = int (row_size r) + total_size rs"
  "total_size (rs @ rs') = total_size rs + total_size rs'"
  by (simp_all add: total_size_def)

lemma total_size_nonneg [simp]: "0 \<le> total_size rs"
  by (simp add: total_size_def)

lemma total_size_filter_split:
  "total_size rs = total_size (filter P rs) + total_size (filter (\<lambda>r. \<not> P r) rs)"
  by (induction rs) auto

lemma total_size_filter_le: "total_size (filter P rs) \<le> total_size rs"
  by (induction rs) auto

lemma total_size_take_drop: "total_size (take n rs) + total_size (drop n rs) = total_size rs"
  using total_size_simps(3) [of "take n rs" "drop n rs"] by simp

lemma evict_count_le: "evict_count mb tot rs \<le> length rs"
  by (induction mb tot rs rule: evict_count.induct) auto

lemma evict_count_stop:
  "evict_count mb tot rs = length rs \<or> tot - total_size (take (evict_count mb tot rs) rs) \<le> mb"
  by (induction mb tot rs rule: evict_count.induct) (auto simp: algebra_simps)

lemma evict_count_needed:
  "j < evict_count mb tot rs \<Longrightarrow> mb < tot - total_size (take j rs)"
proof (induction mb tot rs arbitrary: j rule: evict_count.induct)
  case (2 mb tot row rest)
  then have gt: "mb < tot" by (auto split: if_splits)
  show ?case
  proof (cases j)
    case (Suc i)
    with 2 gt have "mb < tot - int (row_size row) - total_size (take i rest)" by simp
    with Suc show ?thesis by simp
  qed (use gt in simp)
qed simp

lemma evict_loop_eq:
  "distinct (map row_id rs) \<Longrightarrow>
   evict_loop mb tot sel rs =
     sel @ filter (\<lambda>r. row_id r \<notin> row_id ` set sel) (take (evict_count mb tot rs) rs)"
proof (induction mb tot sel rs rule: evict_loop.induct)
  case (2 mb tot sel row rest)
  show ?case
  proof (cases "tot \<le> mb")
    case False
    let ?k = "evict_count mb (tot - int (row_size row)) rest"
    have notin: "\<forall>r \<in> set (take ?k rest). row_id r \<noteq> row_id row"
    proof
      fix r assume "r \<in> set (take ?k rest)"
      then have "row_id r \<in> row_id ` set rest" by (blast dest: in_set_takeD)
      with "2.prems" show "row_id r \<noteq> row_id row" by auto
    qed
    show ?thesis
    proof (cases "row_id row \<in> row_id ` set sel")
      case True
      with False 2 show ?thesis by simp
    next
      case fresh: False
      have "filter (\<lambda>r. row_id r \<notin> row_id ` set (sel @ [row])) (take ?k rest)
          = filter (\<lambda>r. row_id r \<notin> row_id ` set sel) (take ?k rest)"
        using notin by (intro filter_cong) auto
      with False fresh 2 show ?thesis by simp
    qed
  qed simp
qed simp

section \<open>What is kept\<close>

definition is_expired :: "pyfloat \<Rightarrow> spool \<Rightarrow> spool_row \<Rightarrow> bool" where
  "is_expired now s r \<longleftrightarrow> row_created r < now - of_int (sp_max_age_seconds s)"

definition evict_len :: "pyfloat \<Rightarrow> spool \<Rightarrow> nat" where
  "evict_len now s =
     evict_count (sp_max_bytes s) (total_size (queue s) - total_size (expired now s)) (queue s)"

lemma expired_eq: "expired now s = filter (is_expired now s) (queue s)"
  by (simp add: expired_def is_expired_def [abs_def])

lemma select_evictions_eq:
  assumes "spool_ok s"
  shows "select_evictions now s = filter (is_expired now s) (queue s) @
           filter (\<lambda>r. \<not> is_expired now s r) (take (evict_len now s) (queue s))"
proof -
  let ?Q = "queue s"
  let ?T = "take (evict_len now s) ?Q"
  have d: "distinct (map row_id ?Q)" using assms by (rule spool_ok_ids)
  have "filter (\<lambda>r. row_id r \<notin> row_id ` set (expired now s)) ?T = filter (\<lambda>r. \<not> is_expired now s r) ?T"
  proof (rule filter_cong [OF refl])
    fix r assume "r \<in> set ?T"
    then have "r \<in> set ?Q" by (rule in_set_takeD)
    with d show "row_id r \<notin> row_id ` set (expired now s) \<longleftrightarrow> \<not> is_expired now s r"
      by (auto simp: expired_eq distinct_map dest: inj_onD)
  qed
  with d show ?thesis
    by (simp add: select_evictions_def Let_def evict_loop_eq evict_len_def expired_eq)
qed

lemma set_select_evictions:
  "spool_ok s \<Longrightarrow> set (select_evictions now s) =
     {r \<in> set (queue s). is_expired now s r \<or> r \<in> set (take (evict_len now s) (queue s))}"
  by (auto simp: select_evictions_eq dest: in_set_takeD)

lemma filter_notin_take: "distinct xs \<Longrightarrow> filter (\<lambda>x. x \<notin> set (take n xs)) xs = drop n xs"
proof -
  have gen: "distinct (ys @ zs) \<Longrightarrow> filter (\<lambda>x. x \<notin> set ys) (ys @ zs) = zs" for ys zs :: "'a list"
    by (auto simp: filter_id_conv)
  assume "distinct xs"
  then show ?thesis using gen [of "take n xs" "drop n xs"] by simp
qed

lemma selected_ids_iff:
  assumes "spool_ok s" and "r \<in> set (queue s)"
  shows "row_id r \<in> row_id ` set (select_evictions now s) \<longleftrightarrow> r \<in> set (select_evictions now s)"
  using assms spool_ok_ids [OF assms(1)] set_select_evictions [OF assms(1)]
  by (auto simp: distinct_map dest: inj_onD)

theorem kept_queue:
  assumes "spool_ok s"
  shows "queue (fst (enforce_limits now s)) =
           filter (\<lambda>r. \<not> is_expired now s r) (drop (evict_len now s) (queue s))"
proof -
  let ?Q = "queue s" and ?T = "take (evict_len now s) (queue s)"
  have "distinct ?Q" using spool_ok_ids [OF assms] by (simp add: distinct_map)
  then have suffix: "drop (evict_len now s) ?Q = filter (\<lambda>r. r \<notin> set ?T) ?Q"
    by (rule filter_notin_take [symmetric])
  have "queue (fst (enforce_limits now s))
      = filter (\<lambda>r. \<not> is_expired now s r \<and> r \<notin> set ?T) ?Q"
    unfolding queue_enforce_limits
  proof (rule filter_cong [OF refl])
    fix r assume r: "r \<in> set ?Q"
    then show "row_id r \<notin> row_id ` set (select_evictions now s) \<longleftrightarrow>
        \<not> is_expired now s r \<and> r \<notin> set ?T"
      unfolding selected_ids_iff [OF assms r] by (simp add: set_select_evictions [OF assms])
  qed
  then show ?thesis by (simp add: suffix conj_commute)
qed

lemma kept_mset:
  assumes "spool_ok s"
  shows "mset (select_evictions now s) + mset (queue (fst (enforce_limits now s))) = mset (queue s)"
proof -
  let ?k = "evict_len now s" and ?Q = "queue s" and ?X = "is_expired now s"
  have "mset (filter ?X ?Q) = mset (filter ?X (take ?k ?Q)) + mset (filter ?X (drop ?k ?Q))"
    by (metis append_take_drop_id filter_append mset_append)
  then have "mset (select_evictions now s) + mset (queue (fst (enforce_limits now s))) =
      (filter_mset ?X (mset (take ?k ?Q)) + filter_mset (\<lambda>r. \<not> ?X r) (mset (take ?k ?Q))) +
      (filter_mset ?X (mset (drop ?k ?Q)) + filter_mset (\<lambda>r. \<not> ?X r) (mset (drop ?k ?Q)))"
    by (simp only: select_evictions_eq [OF assms] kept_queue [OF assms] mset_append mset_filter ac_simps)
  also have "\<dots> = mset (take ?k ?Q) + mset (drop ?k ?Q)"
    by (simp only: multiset_partition [symmetric])
  also have "\<dots> = mset ?Q"
    by (metis append_take_drop_id mset_append)
  finally show ?thesis .
qed

section \<open>Bounds\<close>

lemma kept_total:
  assumes "spool_ok s"
  shows "total_size (queue (fst (enforce_limits now s))) =
           total_size (drop (evict_len now s) (queue s))
           - total_size (filter (is_expired now s) (drop (evict_len now s) (queue s)))"
  using total_size_filter_split [of "drop (evict_len now s) (queue s)" "is_expired now s"]
  by (simp add: kept_queue [OF assms])

lemma kept_within_double_count:
  assumes "spool_ok s" and "0 \<le> sp_max_bytes s"
  shows "total_size (queue (fst (enforce_limits now s))) \<le> sp_max_bytes s + total_size (expired now s)"
proof -
  let ?k = "evict_len now s" and ?Q = "queue s"
  from evict_count_stop [of "sp_max_bytes s" "total_size ?Q - total_size (expired now s)" ?Q]
  consider (all) "?k = length ?Q"
    | (fits) "total_size ?Q - total_size (expired now s) - total_size (take ?k ?Q) \<le> sp_max_bytes s"
    unfolding evict_len_def by blast
  then show ?thesis
  proof cases
    case all
    with assms show ?thesis by (simp add: kept_queue)
  next
    case fits
    then have "total_size (drop ?k ?Q) \<le> sp_max_bytes s + total_size (expired now s)"
      using total_size_take_drop [of ?k ?Q] by linarith
    then show ?thesis
      using kept_total [OF assms(1), of now]
        total_size_nonneg [of "filter (is_expired now s) (drop ?k ?Q)"] by linarith
  qed
qed

lemma enforce_limits_nothing_expired:
  "spool_ok s \<Longrightarrow> expired now (fst (enforce_limits now s)) = []"
  by (auto simp: expired_eq is_expired_def kept_queue filter_empty_conv)

lemma append_sync_mset:
  assumes "spool_ok s"
  shows "mset (queue_ids (fst (append_sync now enc upd s)))
         + mset (map ev_event_id (snd (append_sync now enc upd s)))
       = mset (queue_ids s)
         + mset (filter (\<lambda>i. i \<notin> set (queue_ids s)) (first_by id (map fst enc)))"
proof -
  have fresh: "queue_ids (append_rows enc upd s) =
      queue_ids s @ filter (\<lambda>i. i \<notin> set (queue_ids s)) (first_by id (map fst enc))"
    by (simp add: events_table.ckeys_ins_all)
  have "mset (map row_event_id (select_evictions now (append_rows enc upd s)))
        + mset (queue_ids (fst (append_sync now enc upd s)))
      = mset (queue_ids (append_rows enc upd s))"
    using kept_mset [OF spool_ok_append_rows [OF assms], of now enc upd]
    unfolding append_sync_def mset_map by (metis image_mset_union)
  moreover have "map ev_event_id (snd (append_sync now enc upd s))
      = map row_event_id (select_evictions now (append_rows enc upd s))"
    by (simp add: append_sync_def eviction_of_def)
  ultimately show ?thesis by (simp only: fresh mset_append add.commute)
qed

lemma append_sync_set:
  "spool_ok s \<Longrightarrow> set (queue_ids (fst (append_sync now enc upd s))) \<union> set (map ev_event_id (snd (append_sync now enc upd s)))
     = set (queue_ids s) \<union> set (map fst enc)"
  using append_sync_mset [THEN arg_cong [where f = set_mset], of s now enc upd] by auto

lemma append_sync_disjoint:
  assumes "spool_ok s"
  shows "set (queue_ids (fst (append_sync now enc upd s))) \<inter> set (map ev_event_id (snd (append_sync now enc upd s))) = {}"
proof -
  have "mset (queue_ids (fst (append_sync now enc upd s)) @ map ev_event_id (snd (append_sync now enc upd s)))
      = mset (queue_ids s @ filter (\<lambda>i. i \<notin> set (queue_ids s)) (first_by id (map fst enc)))"
    using append_sync_mset [OF assms, of now enc upd] by simp
  then have "distinct (queue_ids (fst (append_sync now enc upd s)) @ map ev_event_id (snd (append_sync now enc upd s)))
      \<longleftrightarrow> distinct (queue_ids s @ filter (\<lambda>i. i \<notin> set (queue_ids s)) (first_by id (map fst enc)))"
    by (rule mset_eq_imp_distinct_iff)
  moreover have "distinct (queue_ids (append_rows enc upd s))"
    using assms by (intro spool_ok_event_ids spool_ok_append_rows)
  then have "distinct (queue_ids s @ filter (\<lambda>i. i \<notin> set (queue_ids s)) (first_by id (map fst enc)))"
    by (simp add: events_table.ckeys_ins_all)
  ultimately show ?thesis by simp
qed

text \<open>
  C8. Nothing leaves the queue unreported: after an append, the events in the queue and the events
  in the returned eviction report are, as multisets, exactly the events that were queued plus the
  events of the call that were not queued yet, each counted once.
\<close>

theorem append_sync_accounts:
  assumes "spool_ok s"
  shows "mset (queue_ids (fst (append_sync now enc upd s)))
         + mset (map ev_event_id (snd (append_sync now enc upd s)))
       = mset (queue_ids s)
         + mset (filter (\<lambda>i. i \<notin> set (queue_ids s)) (first_by id (map fst enc)))"
  using assms by (rule append_sync_mset)

theorem append_sync_accounts_witness:
  "mset (queue_ids (fst (append_sync 10 [(''a'', 9, ''xx''), (''a'', 9, ''y'')] [] (new_spool 100 60))))
   + mset (map ev_event_id (snd (append_sync 10 [(''a'', 9, ''xx''), (''a'', 9, ''y'')] [] (new_spool 100 60))))
   = {#''a''#}"
  unfolding append_sync_accounts [OF spool_ok_new] by (simp add: new_spool_def)

lemma evicted_prefix:
  assumes "spool_ok s" and "0 \<le> sp_max_bytes s" and "expired now s = []"
  shows "\<exists>k. queue (fst (enforce_limits now s)) = drop k (queue s)
           \<and> snd (enforce_limits now s) = map eviction_of (take k (queue s))
           \<and> total_size (drop k (queue s)) \<le> sp_max_bytes s
           \<and> (\<forall>j < k. sp_max_bytes s < total_size (drop j (queue s)))"
proof (intro exI conjI allI impI)
  let ?k = "evict_len now s"
  from assms(3) have none: "r \<in> set (queue s) \<Longrightarrow> \<not> is_expired now s r" for r
    by (simp add: expired_eq filter_empty_conv)
  then show kept: "queue (fst (enforce_limits now s)) = drop ?k (queue s)"
    by (auto simp: kept_queue [OF assms(1)] filter_id_conv
        dest: in_set_dropD)
  have "filter (is_expired now s) (queue s) = []"
    and "filter (\<lambda>r. \<not> is_expired now s r) (take ?k (queue s)) = take ?k (queue s)"
    using none by (auto simp: filter_empty_conv filter_id_conv dest: in_set_takeD)
  then show "snd (enforce_limits now s) = map eviction_of (take ?k (queue s))"
    by (simp add: select_evictions_eq [OF assms(1)])
  show "total_size (drop ?k (queue s)) \<le> sp_max_bytes s"
    using kept_within_double_count [OF assms(1,2), of now] kept assms(3) by simp
  fix j assume "j < ?k"
  then have "sp_max_bytes s < total_size (queue s) - total_size (take j (queue s))"
    using evict_count_needed assms(3) by (simp add: evict_len_def)
  then show "sp_max_bytes s < total_size (drop j (queue s))"
    using total_size_take_drop [of j "queue s"] by linarith
qed

text \<open>
  C9. Eviction is exact when no queued event is older than the age limit: what is evicted is the
  shortest prefix of the queue (oldest ids first) after whose removal the payload bytes are within
  \<open>max_bytes\<close>, and the report lists exactly that prefix in order.
\<close>

theorem eviction_exact:
  assumes "spool_ok s" and "0 \<le> sp_max_bytes s" and "expired now s = []"
  shows "\<exists>k. queue (fst (enforce_limits now s)) = drop k (queue s)
           \<and> snd (enforce_limits now s) = map eviction_of (take k (queue s))
           \<and> total_size (drop k (queue s)) \<le> sp_max_bytes s
           \<and> (\<forall>j < k. sp_max_bytes s < total_size (drop j (queue s)))"
  using assms by (rule evicted_prefix)

theorem eviction_exact_witness:
  "\<exists>k. queue (fst (enforce_limits 10 (append_rows [(''a'', 9, ''xx''), (''b'', 9, ''yy'')] [] (new_spool 3 60))))
       = drop k (queue (append_rows [(''a'', 9, ''xx''), (''b'', 9, ''yy'')] [] (new_spool 3 60)))
     \<and> 0 < k"
proof -
  let ?s = "append_rows [(''a'', 9, ''xx''), (''b'', 9, ''yy'')] [] (new_spool 3 60)"
  have ok: "spool_ok ?s" by (rule spool_ok_append_rows) simp
  have e: "expired 10 ?s = []"
    by (simp add: expired_eq is_expired_def new_spool_def insert_ignore_def)
  have m: "0 \<le> sp_max_bytes ?s" by (simp add: new_spool_def)
  obtain k where k: "queue (fst (enforce_limits 10 ?s)) = drop k (queue ?s)"
    and fits: "total_size (drop k (queue ?s)) \<le> sp_max_bytes ?s"
    using eviction_exact [OF ok m e] by blast
  have "k \<noteq> 0"
  proof
    assume "k = 0"
    with fits show False by (simp add: new_spool_def insert_ignore_def)
  qed
  with k show ?thesis by blast
qed

text \<open>
  No event older than the age limit stays queued, and what stays is within \<open>max_bytes\<close>
  plus the bytes of the events that had expired: the loop subtracts an expired row's size a second
  time when it meets it again.
\<close>

theorem eviction_bound:
  assumes "spool_ok s" and "0 \<le> sp_max_bytes s"
  shows "expired now (fst (enforce_limits now s)) = []
         \<and> total_size (queue (fst (enforce_limits now s)))
             \<le> sp_max_bytes s + total_size (expired now s)"
  using enforce_limits_nothing_expired [OF assms(1)] kept_within_double_count [OF assms] by blast

text \<open>
  The byte limit itself can be exceeded: with a limit of 3 bytes, appending two events of two
  bytes each after one event has expired leaves both in the queue, 4 bytes.
\<close>

theorem eviction_can_exceed_limit:
  "\<exists>s. s = fst (append_sync 100 [(''b'', 100, ''12''), (''c'', 100, ''34'')] []
                (fst (append_sync 0 [(''a'', 0, ''00'')] [] (new_spool 3 60))))
     \<and> spool_ok s \<and> queue_ids s = [''b'', ''c''] \<and> sp_max_bytes s < total_size (queue s)"
proof (intro exI conjI)
  let ?one = "fst (append_sync 0 [(''a'', 0, ''00'')] [] (new_spool 3 60))"
  let ?s = "fst (append_sync 100 [(''b'', 100, ''12''), (''c'', 100, ''34'')] [] ?one)"
  show "spool_ok ?s" by (simp add: spool_ok_append_sync)
  have one: "sp_events ?one = \<lparr>trows = [row_of 1 (''a'', 0, ''00'')], tseq = 1\<rparr>"
    by (simp add: append_sync_def enforce_limits_def select_evictions_def expired_def new_spool_def
        append_rows_def insert_ignore_def delete_where_def empty_table_def)
  have lims: "sp_max_bytes ?one = 3" "sp_max_age_seconds ?one = 60" "sp_max_bytes ?s = 3"
    by (simp_all add: append_sync_def new_spool_def)
  have two: "queue ?s = [row_of 2 (''b'', 100, ''12''), row_of 3 (''c'', 100, ''34'')]"
    by (simp add: append_sync_def [of 100] queue_enforce_limits select_evictions_def expired_def one lims
        insert_ignore_def)
  show "queue_ids ?s = [''b'', ''c'']" by (simp add: two)
  show "sp_max_bytes ?s < total_size (queue ?s)" by (simp add: two lims)
qed (rule refl)

text \<open>The next pass, with nothing left to expire, is back within the limit.\<close>

lemma second_pass_within_limit:
  assumes "spool_ok s" and "0 \<le> sp_max_bytes s"
  shows "total_size (queue (fst (enforce_limits now (fst (enforce_limits now s))))) \<le> sp_max_bytes s"
  using kept_within_double_count [OF spool_ok_enforce_limits [OF assms(1)], of now now] assms(2)
  by (simp add: enforce_limits_nothing_expired [OF assms(1)])

theorem eviction_bound_witness:
  "total_size (queue (fst (enforce_limits 100 (append_rows [(''a'', 0, ''00'')] [] (new_spool 3 60))))) \<le> 5"
proof -
  let ?s = "append_rows [(''a'', 0, ''00'')] [] (new_spool 3 60)"
  have ok: "spool_ok ?s" by (rule spool_ok_append_rows) simp
  have "total_size (expired 100 ?s) = 2"
    by (simp add: expired_eq is_expired_def new_spool_def insert_ignore_def)
  then show ?thesis
    using eviction_bound [OF ok, of 100] by (simp add: new_spool_def)
qed

end
