(* ===== verification/Spool_Queue.thy ===== *)
theory Spool_Queue
  imports Spool_Eviction "HOL-Library.Sublist"
begin

text \<open>
  The spool as a queue: what \<open>batch\<close> hands to the sender, and what acknowledging and
  quarantining do to the events waiting. The locale \<open>settling_queue\<close> is the interface the sender
  uses to settle a batch; it is interpreted on the spool.
\<close>

section \<open>Batches\<close>

fun batch_count :: "nat \<Rightarrow> nat \<Rightarrow> bool \<Rightarrow> spool_row list \<Rightarrow> nat" where
  "batch_count mb tot started [] = 0"
| "batch_count mb tot started (row # rest) =
     (if started \<and> mb < tot + row_size row then 0
      else Suc (batch_count mb (tot + row_size row) True rest))"

lemma take_batch_eq:
  "take_batch mb tot acc rs = acc @ take (batch_count mb tot (acc \<noteq> []) rs) rs"
  by (induction mb tot acc rs rule: take_batch.induct) auto

lemma batch_count_le: "batch_count mb tot started rs \<le> length rs"
  by (induction mb tot started rs rule: batch_count.induct) auto

lemma batch_count_started_fits:
  "tot \<le> mb \<Longrightarrow> int tot + total_size (take (batch_count mb tot True rs) rs) \<le> int mb"
  by (induction mb tot True rs rule: batch_count.induct) (auto simp: algebra_simps)

lemma batch_count_started_over:
  "mb < tot \<Longrightarrow> batch_count mb tot True rs = 0"
  by (cases rs) auto

lemma batch_count_started_full:
  "batch_count mb tot True rs < length rs \<Longrightarrow>
   int mb < int tot + total_size (take (Suc (batch_count mb tot True rs)) rs)"
  by (induction mb tot True rs rule: batch_count.induct) (auto simp: algebra_simps)

lemma batch_count_pos: "rs \<noteq> [] \<Longrightarrow> 0 < batch_count mb tot False rs"
  by (cases rs) auto

lemma batch_count_fits:
  "batch_count mb 0 False rs \<le> 1 \<or> total_size (take (batch_count mb 0 False rs) rs) \<le> int mb"
proof (cases rs)
  case (Cons row rest)
  show ?thesis
  proof (cases "row_size row \<le> mb")
    case True
    then show ?thesis using Cons batch_count_started_fits [OF True, of rest] by simp
  qed (simp add: Cons batch_count_started_over)
qed simp

lemma batch_count_full:
  "batch_count mb 0 False rs < length rs \<Longrightarrow>
   int mb < total_size (take (Suc (batch_count mb 0 False rs)) rs)"
proof (cases rs)
  case (Cons row rest)
  assume "batch_count mb 0 False rs < length rs"
  with Cons show ?thesis using batch_count_started_full [of mb "row_size row" rest] by simp
qed simp

lemma batch_rows_eq:
  "batch_rows me mb newest s =
     (let ordered = (if newest then rev (queue s) else queue s);
          taken = take (batch_count mb 0 False (take me ordered)) (take me ordered)
      in if newest then rev taken else taken)"
  by (simp add: batch_rows_def take_batch_eq)

definition batch_len :: "nat \<Rightarrow> nat \<Rightarrow> bool \<Rightarrow> spool \<Rightarrow> nat" where
  "batch_len me mb newest s =
     batch_count mb 0 False (take me (if newest then rev (queue s) else queue s))"

lemma batch_len_le: "batch_len me mb newest s \<le> me" "batch_len me mb newest s \<le> length (queue s)"
  using batch_count_le [of mb 0 False "take me (if newest then rev (queue s) else queue s)"]
  by (auto simp: batch_len_def split: if_splits)

lemma batch_rows_oldest: "batch_rows me mb False s = take (batch_len me mb False s) (queue s)"
  using batch_len_le(1) [of me mb False s] by (simp add: batch_rows_eq batch_len_def Let_def min_def)

lemma batch_rows_newest:
  "batch_rows me mb True s = drop (length (queue s) - batch_len me mb True s) (queue s)"
  using batch_len_le(1) [of me mb True s]
  by (simp add: batch_rows_eq batch_len_def Let_def min_def rev_take)

lemma batch_rows_subseq: "subseq (batch_rows me mb newest s) (queue s)"
  by (cases newest) (simp_all add: batch_rows_oldest batch_rows_newest
      prefix_imp_subseq take_is_prefix suffix_imp_subseq suffix_drop)

lemma set_batch_rows: "set (batch_rows me mb newest s) \<subseteq> set (queue s)"
  by (cases newest) (auto simp: batch_rows_oldest batch_rows_newest dest: in_set_takeD in_set_dropD)

lemma length_batch_rows: "length (batch_rows me mb newest s) = batch_len me mb newest s"
  using batch_len_le(2) [of me mb newest s]
  by (cases newest) (auto simp: batch_rows_oldest batch_rows_newest)

lemma batch_ids [simp]:
  "map rec_event_id (batch_sync loads me mb newest s) = map row_event_id (batch_rows me mb newest s)"
  "map rec_payload (batch_sync loads me mb newest s) =
     map (loads \<circ> row_payload) (batch_rows me mb newest s)"
  by (simp_all add: batch_sync_def record_of_def)

text \<open>
  C10. A batch is a window at one end of the queue, in queue order: the oldest \<open>k\<close> events, or
  the newest \<open>k\<close> when \<open>newest\<close> is set. It holds at most \<open>max_events\<close> events, never
  none while the queue has some, no more than \<open>max_bytes\<close> unless it is a single event, and it is
  maximal: one more event would break one of the two limits.
\<close>

theorem batch_is_maximal_window:
  assumes "0 < me"
  shows "\<exists>k. let ordered = (if newest then rev (queue s) else queue s) in
     batch_rows me mb newest s = (if newest then rev (take k ordered) else take k ordered)
     \<and> k \<le> me \<and> k \<le> length (queue s)
     \<and> (queue s \<noteq> [] \<longrightarrow> 0 < k)
     \<and> (k \<le> 1 \<or> total_size (take k ordered) \<le> int mb)
     \<and> (k < me \<and> k < length (queue s) \<longrightarrow> int mb < total_size (take (Suc k) ordered))"
proof (intro exI, unfold Let_def, intro conjI impI)
  let ?ord = "if newest then rev (queue s) else queue s"
  let ?k = "batch_len me mb newest s"
  show "batch_rows me mb newest s = (if newest then rev (take ?k ?ord) else take ?k ?ord)"
    by (simp add: batch_rows_oldest batch_rows_newest rev_take)
  show le: "?k \<le> me" "?k \<le> length (queue s)" by (rule batch_len_le)+
  show "0 < ?k" if "queue s \<noteq> []"
    unfolding batch_len_def using that assms by (intro batch_count_pos) auto
  have take_take: "take n ?ord = take n (take me ?ord)" if "n \<le> me" for n
    using that by (simp add: min_def)
  show "?k \<le> 1 \<or> total_size (take ?k ?ord) \<le> int mb"
    unfolding take_take [OF le(1)] unfolding batch_len_def by (rule batch_count_fits)
  show "int mb < total_size (take (Suc ?k) ?ord)" if "?k < me \<and> ?k < length (queue s)"
  proof -
    have lt: "?k < length (take me ?ord)" using that by (cases newest) simp_all
    have "Suc ?k \<le> me" using that by simp
    then show ?thesis
      unfolding take_take [OF \<open>Suc ?k \<le> me\<close>] using lt
      unfolding batch_len_def by (intro batch_count_full)
  qed
qed

theorem batch_is_maximal_window_witness:
  "\<exists>k. batch_rows 2 3 True (append_rows [(''a'', 9, ''xx''), (''b'', 9, ''yy'')] [] (new_spool 9 60))
        = rev (take k (rev (queue (append_rows [(''a'', 9, ''xx''), (''b'', 9, ''yy'')] [] (new_spool 9 60)))))
      \<and> 0 < k"
proof -
  let ?s = "append_rows [(''a'', 9, ''xx''), (''b'', 9, ''yy'')] [] (new_spool 9 60)"
  have "queue ?s \<noteq> []" by (simp add: new_spool_def insert_ignore_def)
  then show ?thesis
    using batch_is_maximal_window [of 2 True ?s 3] by (auto simp: Let_def)
qed

section \<open>Settling a batch\<close>

text \<open>
  What the sender needs of a queue: an operation that drops acknowledged events and one that
  moves rejected events aside, each of which leaves the order of the rest alone.
\<close>

locale settling_queue =
  fixes wf :: "'s \<Rightarrow> bool"
    and pending :: "'s \<Rightarrow> pystr list"
    and held :: "'s \<Rightarrow> pystr list"
    and ack :: "pystr list \<Rightarrow> 's \<Rightarrow> 's"
    and hold :: "(pystr, pystr) dict \<Rightarrow> 's \<Rightarrow> 's"
  assumes wf_ack: "wf s \<Longrightarrow> wf (ack ids s)"
    and wf_hold: "wf s \<Longrightarrow> wf (hold rej s)"
    and pending_ack: "pending (ack ids s) = filter (\<lambda>i. i \<notin> set ids) (pending s)"
    and held_ack: "held (ack ids s) = held s"
    and pending_hold: "pending (hold rej s) = filter (\<lambda>i. i \<notin> fst ` set rej) (pending s)"
    and held_hold: "held (hold rej s) =
          held s @ filter (\<lambda>i. i \<in> set (pending s)) (first_by id (map fst rej))"
begin

definition settle :: "pystr list \<Rightarrow> (pystr, pystr) dict \<Rightarrow> 's \<Rightarrow> 's" where
  "settle ids rej s = hold rej (ack ids s)"

lemma wf_settle: "wf s \<Longrightarrow> wf (settle ids rej s)"
  by (simp add: settle_def wf_ack wf_hold)

lemma pending_settle:
  "pending (settle ids rej s) = filter (\<lambda>i. i \<notin> set ids \<and> i \<notin> fst ` set rej) (pending s)"
  by (simp add: settle_def pending_hold pending_ack conj_commute)

lemma set_held_settle:
  "set (held (settle ids rej s)) = set (held s) \<union> {i \<in> set (pending s). i \<notin> set ids \<and> i \<in> fst ` set rej}"
  using keys_first_by [of id "map fst rej"] by (auto simp: settle_def held_hold held_ack pending_ack)

lemma settle_conserves:
  "set (pending s) \<union> set (held s)
     \<subseteq> set (pending (settle ids rej s)) \<union> set (held (settle ids rej s)) \<union> set ids"
  by (auto simp: pending_settle set_held_settle)

lemma settle_keeps_held: "set (held s) \<subseteq> set (held (settle ids rej s))"
  by (auto simp: set_held_settle)

end

lemma quarantine_one_ids:
  "queue_ids (quarantine_one now (e, r) s) = filter (\<lambda>i. i \<noteq> e) (queue_ids s)"
  "quarantine_ids (quarantine_one now (e, r) s) =
     quarantine_ids s @ (if e \<in> set (queue_ids s) then [e] else [])"
proof -
  have "filter (\<lambda>i. i \<noteq> e) (queue_ids s) = queue_ids s" if "e \<notin> row_event_id ` set (queue s)"
    using that by (auto simp: filter_id_conv)
  then show "queue_ids (quarantine_one now (e, r) s) = filter (\<lambda>i. i \<noteq> e) (queue_ids s)"
    by (auto simp: quarantine_one_def filter_map o_def find_key_None split: option.splits)
  show "quarantine_ids (quarantine_one now (e, r) s) =
     quarantine_ids s @ (if e \<in> set (queue_ids s) then [e] else [])"
    by (auto simp: quarantine_one_def find_key_None dest: find_key_in split: option.splits)
qed

lemma quarantine_sync_simps [simp]:
  "quarantine_sync now [] s = s"
  "quarantine_sync now (item # rej) s = quarantine_sync now rej (quarantine_one now item s)"
  by (simp_all add: quarantine_sync_def)

lemma queue_ids_quarantine_sync:
  "queue_ids (quarantine_sync now rej s) = filter (\<lambda>i. i \<notin> fst ` set rej) (queue_ids s)"
proof (induction rej arbitrary: s)
  case (Cons item rej)
  obtain e r where "item = (e, r)" by (cases item)
  then show ?case by (auto simp: Cons.IH quarantine_one_ids intro!: filter_cong)
qed simp

lemma quarantine_ids_quarantine_sync:
  "quarantine_ids (quarantine_sync now rej s) =
     quarantine_ids s @ filter (\<lambda>i. i \<in> set (queue_ids s)) (first_by id (map fst rej))"
proof (induction rej arbitrary: s)
  case (Cons item rej)
  obtain e r where item: "item = (e, r)" by (cases item)
  have "filter (\<lambda>i. i \<in> set (filter (\<lambda>i. i \<noteq> e) (queue_ids s))) xs =
        filter (\<lambda>i. i \<in> set (queue_ids s)) (filter (\<lambda>i. i \<noteq> e) xs)" for xs
    by (auto intro!: filter_cong)
  with item show ?case by (simp add: Cons.IH quarantine_one_ids)
qed simp

interpretation spool_queue: settling_queue spool_ok queue_ids quarantine_ids acknowledge
  "quarantine_sync now" for now
  by unfold_locales
    (simp_all add: spool_ok_acknowledge spool_ok_quarantine_sync queue_ids_quarantine_sync
      quarantine_ids_quarantine_sync filter_map o_def)

section \<open>Every history of the spool\<close>

text \<open>One step is one of the methods that write, with any arguments and any clock.\<close>

inductive spool_step :: "spool \<Rightarrow> spool \<Rightarrow> bool" where
  append: "spool_step s (fst (append_sync now enc upd s))"
| acknowledge: "spool_step s (acknowledge ids s)"
| quarantine: "spool_step s (quarantine_sync now rej s)"
| set_state: "spool_step s (set_state k v s)"



end
