(* ===== verification/Json.thy ===== *)
theory Json
  imports Prelude "HOL-Library.List_Lexorder" "HOL-Library.Char_ord" "HOL-Library.Multiset"
begin

text \<open>
  JSON values and \<open>json.dumps\<close>, which the agent's spool, the attribute bounds on both sides of the
  wire and the server's digests are written with. The rendering is the one of the Python library:
  \<open>ensure_ascii\<close> escapes, compact or default separators, \<open>sort_keys\<close> as a separate
  recursive sort. The decimal rendering of a float is the parameter \<open>frepr\<close>.
\<close>

datatype json =
    JNull
  | JBool bool
  | JInt int
  | JFloat rat
  | JStr string
  | JArr "json list"
  | JObj "(string \<times> json) list"

section \<open>Decimal and escaped text\<close>

definition digit_char :: "nat \<Rightarrow> char" where
  "digit_char d = char_of (48 + d)"

fun nat_str :: "nat \<Rightarrow> string" where
  "nat_str n = (if n < 10 then [digit_char n] else nat_str (n div 10) @ [digit_char (n mod 10)])"

declare nat_str.simps [simp del]

definition int_str :: "int \<Rightarrow> string" where
  "int_str i = (if i < 0 then ''-'' @ nat_str (nat (- i)) else nat_str (nat i))"

definition hex_char :: "nat \<Rightarrow> char" where
  "hex_char d = char_of (if d < 10 then 48 + d else 87 + d)"

text \<open>
  The escape of one character: the seven short escapes, \<open>\u00XX\<close> for every other character
  outside the printable ASCII range, the character itself otherwise.
\<close>

definition escape_char :: "char \<Rightarrow> string" where
  "escape_char c =
     (let n = of_char c :: nat in
      if n = 34 then [CHR 0x5C, CHR 0x22]
      else if n = 92 then [CHR 0x5C, CHR 0x5C]
      else if n = 10 then [CHR 0x5C, CHR ''n'']
      else if n = 13 then [CHR 0x5C, CHR ''r'']
      else if n = 9 then [CHR 0x5C, CHR ''t'']
      else if n = 8 then [CHR 0x5C, CHR ''b'']
      else if n = 12 then [CHR 0x5C, CHR ''f'']
      else if n < 32 \<or> 126 < n
        then [CHR 0x5C, CHR ''u'', CHR ''0'', CHR ''0'', hex_char (n div 16), hex_char (n mod 16)]
      else [c])"

definition quote_str :: "string \<Rightarrow> string" where
  "quote_str s = [CHR 0x22] @ concat (map escape_char s) @ [CHR 0x22]"

fun join_with :: "string \<Rightarrow> string list \<Rightarrow> string" where
  "join_with sep [] = []"
| "join_with sep [x] = x"
| "join_with sep (x # y # zs) = x @ sep @ join_with sep (y # zs)"

section \<open>Rendering\<close>

text \<open>\<open>isep\<close> separates items and \<open>ksep\<close> a key from its value.\<close>

primrec json_dumps_with :: "string \<Rightarrow> string \<Rightarrow> (rat \<Rightarrow> string) \<Rightarrow> json \<Rightarrow> string" where
  "json_dumps_with isep ksep frepr JNull = ''null''"
| "json_dumps_with isep ksep frepr (JBool b) = (if b then ''true'' else ''false'')"
| "json_dumps_with isep ksep frepr (JInt i) = int_str i"
| "json_dumps_with isep ksep frepr (JFloat q) = frepr q"
| "json_dumps_with isep ksep frepr (JStr s) = quote_str s"
| "json_dumps_with isep ksep frepr (JArr xs) =
     ''['' @ join_with isep (map (json_dumps_with isep ksep frepr) xs) @ '']''"
| "json_dumps_with isep ksep frepr (JObj kvs) =
     ''{'' @ join_with isep (map (\<lambda>(k, t). quote_str k @ ksep @ t)
        (map (map_prod id (json_dumps_with isep ksep frepr)) kvs)) @ ''}''"

text \<open>\<open>json.dumps(v, separators=(",", ":"))\<close> and \<open>json.dumps(v)\<close>.\<close>

abbreviation json_dumps :: "(rat \<Rightarrow> string) \<Rightarrow> json \<Rightarrow> string" where
  "json_dumps \<equiv> json_dumps_with '','' '':''"

abbreviation json_dumps_spaced :: "(rat \<Rightarrow> string) \<Rightarrow> json \<Rightarrow> string" where
  "json_dumps_spaced \<equiv> json_dumps_with '', '' '': ''"

text \<open>What \<open>sort_keys=True\<close> renders: every object with its keys in order.\<close>

primrec json_sort :: "json \<Rightarrow> json" where
  "json_sort JNull = JNull"
| "json_sort (JBool b) = JBool b"
| "json_sort (JInt i) = JInt i"
| "json_sort (JFloat q) = JFloat q"
| "json_sort (JStr s) = JStr s"
| "json_sort (JArr xs) = JArr (map json_sort xs)"
| "json_sort (JObj kvs) = JObj (sort_key fst (map (map_prod id json_sort) kvs))"

definition json_dumps_sorted :: "(rat \<Rightarrow> string) \<Rightarrow> json \<Rightarrow> string" where
  "json_dumps_sorted frepr v = json_dumps frepr (json_sort v)"

section \<open>Access\<close>

text \<open>\<open>v.get(key)\<close> on a value that is a dictionary; \<open>None\<close> for a missing key.\<close>

fun obj_get :: "json \<Rightarrow> string \<Rightarrow> json option" where
  "obj_get (JObj kvs) k = map_of kvs k"
| "obj_get _ k = None"

text \<open>The truth value of a JSON value, as \<open>if\<close> and \<open>or\<close> read it.\<close>

fun json_truthy :: "json \<Rightarrow> bool" where
  "json_truthy JNull = False"
| "json_truthy (JBool b) = b"
| "json_truthy (JInt i) = (i \<noteq> 0)"
| "json_truthy (JFloat q) = (q \<noteq> 0)"
| "json_truthy (JStr s) = (s \<noteq> [])"
| "json_truthy (JArr xs) = (xs \<noteq> [])"
| "json_truthy (JObj kvs) = (kvs \<noteq> [])"

text \<open>The truth value of an optional text.\<close>

definition truthy :: "pystr option \<Rightarrow> bool" where
  "truthy v = (v \<noteq> None \<and> v \<noteq> Some [])"

text \<open>\<open>v\<close> as JSON when it is a string or \<open>None\<close>; \<open>str(v)\<close> with the text of the other values a parameter.\<close>

definition opt_str :: "pystr option \<Rightarrow> json" where
  "opt_str v = (case v of None \<Rightarrow> JNull | Some s \<Rightarrow> JStr s)"

fun py_str :: "(json \<Rightarrow> pystr) \<Rightarrow> json \<Rightarrow> pystr" where
  "py_str pstr (JStr s) = s"
| "py_str pstr v = pstr v"

section \<open>Sizes\<close>

definition entry_len :: "(rat \<Rightarrow> string) \<Rightarrow> string \<times> json \<Rightarrow> nat" where
  "entry_len frepr e = length (quote_str (fst e)) + 1 + length (json_dumps frepr (snd e))"

lemma length_join_with:
  "length (join_with sep xs) = sum_list (map length xs) + length sep * (length xs - 1)"
  by (induction sep xs rule: join_with.induct) auto

lemma length_dumps_obj:
  "length (json_dumps frepr (JObj kvs)) = 2 + sum_list (map (entry_len frepr) kvs) + (length kvs - 1)"
proof -
  have "sum_list (map length (map (\<lambda>(k, t). quote_str k @ '':'' @ t) (map (map_prod id (json_dumps frepr)) kvs)))
      = sum_list (map (entry_len frepr) kvs)"
    by (induction kvs) (auto simp: entry_len_def)
  then show ?thesis by (simp add: length_join_with o_def)
qed

lemma length_dumps_obj_filter:
  "length (json_dumps frepr (JObj (filter P kvs))) \<le> length (json_dumps frepr (JObj kvs))"
proof -
  have "sum_list (map (entry_len frepr) (filter P kvs)) \<le> sum_list (map (entry_len frepr) kvs)"
    by (rule sum_list_filter_le)
  moreover have "length (filter P kvs) \<le> length kvs" by (rule length_filter_le)
  ultimately show ?thesis
    unfolding length_dumps_obj by (intro add_mono diff_le_mono order_refl)
qed

lemma length_dumps_obj_append:
  "length (json_dumps frepr (JObj kvs)) \<le> length (json_dumps frepr (JObj (kvs @ more)))"
  unfolding length_dumps_obj by simp

lemma length_dumps_obj_del:
  "length (json_dumps frepr (JObj (dict_del k kvs))) \<le> length (json_dumps frepr (JObj kvs))"
  by (simp add: AList.delete_eq length_dumps_obj_filter del: json_dumps_with.simps)

text \<open>Sorted rendering does not see the order of a dictionary.\<close>

lemma sort_key_perm:
  "distinct (map f xs) \<Longrightarrow> mset xs = mset ys \<Longrightarrow> sort_key f xs = sort_key f ys"
proof (rule properties_for_sort_key)
  assume d: "distinct (map f xs)" and m: "mset xs = mset ys"
  show "mset (sort_key f ys) = mset xs" using m by simp
  show "sorted (map f (sort_key f ys))" by simp
  fix k assume k: "k \<in> set (sort_key f ys)"
  have dy: "distinct (map f ys)" using d m by (metis mset_eq_imp_distinct_iff mset_map)
  have one: "distinct (map f zs) \<Longrightarrow> k \<in> set zs \<Longrightarrow> filter (\<lambda>x. f k = f x) zs = [k]" for zs
    by (induction zs) (auto simp: filter_empty_conv rev_image_eqI)
  have "set xs = set ys" using m by (metis set_mset_mset)
  moreover have "distinct (map f (sort_key f ys))"
    using dy by (metis mset_eq_imp_distinct_iff mset_map mset_sort)
  ultimately show "filter (\<lambda>x. f k = f x) (sort_key f ys) = filter (\<lambda>x. f k = f x) xs"
    using one [of "sort_key f ys"] one [of xs] d k by simp
qed

end
