(* ===== verification/Contracts.thy ===== *)
theory Contracts
  imports Json
begin

text \<open>
  The wire contract of \<open>shared/temporalrca_contracts/models.py\<close>: the telemetry envelope, the
  batch, and the validators the contract itself writes down (required time zone, bounded
  attributes, the fields a signal needs, ordered sequences, the declared lengths). Reading JSON
  into typed fields is Pydantic's, a parameter \<open>decode\<close> of every definition that uses it; where a
  field cannot be read, \<open>decode\<close> returns the whole list of errors.
\<close>

section \<open>Data\<close>

datatype source_type = SYSTEM | PROCESS | APPLICATION | DEPENDENCY

datatype signal_type = METRIC | LOG | LIFECYCLE | COLLECTOR_HEALTH | GROUND_TRUTH

primrec source_value :: "source_type \<Rightarrow> string" where
  "source_value SYSTEM = ''system''"
| "source_value PROCESS = ''process''"
| "source_value APPLICATION = ''application''"
| "source_value DEPENDENCY = ''dependency''"

primrec signal_value :: "signal_type \<Rightarrow> string" where
  "signal_value METRIC = ''metric''"
| "signal_value LOG = ''log''"
| "signal_value LIFECYCLE = ''lifecycle''"
| "signal_value COLLECTOR_HEALTH = ''collector-health''"
| "signal_value GROUND_TRUTH = ''ground-truth''"

text \<open>A timestamp as Pydantic hands it to the validator: with or without a time zone.\<close>

datatype wire_time = Naive int | Aware datetime

text \<open>
  The envelope, over the type of its two timestamps: \<open>wire_time\<close> before validation,
  \<open>datetime\<close> (UTC) after it.
\<close>

record 't event_fields =
  te_event_id :: uuid
  te_timestamp :: 't
  te_observed :: 't
  te_sequence :: int
  te_host_id :: "uuid option"
  te_service_id :: "uuid option"
  te_process_id :: "uuid option"
  te_container_id :: "uuid option"
  te_dependency_id :: "uuid option"
  te_experiment_id :: "uuid option"
  te_source_type :: source_type
  te_signal_type :: signal_type
  te_name :: pystr
  te_value :: "pyfloat option"
  te_unit :: "pystr option"
  te_severity :: "pystr option"
  te_event_type :: "pystr option"
  te_message :: "pystr option"
  te_attributes :: "(pystr, json) dict"

type_synonym wire_event = "wire_time event_fields"
type_synonym telemetry_event = "datetime event_fields"

text \<open>One entry of \<open>exc.errors()\<close>: its type and its message.\<close>

record error_item =
  err_type :: pystr
  err_msg :: pystr

definition value_error :: "pystr \<Rightarrow> error_item" where
  "value_error m = \<lparr>err_type = ''value_error'', err_msg = m\<rparr>"

definition MAX_ATTRIBUTES :: nat where "MAX_ATTRIBUTES = 64"
definition MAX_ATTRIBUTES_BYTES :: nat where "MAX_ATTRIBUTES_BYTES = 16384"

section \<open>Validators of the envelope\<close>

primrec timezone_required :: "wire_time \<Rightarrow> error_item + datetime" where
  "timezone_required (Naive t) = Inl (value_error ''timestamp must include a timezone'')"
| "timezone_required (Aware t) = Inr t"

definition bounded_attributes ::
  "(rat \<Rightarrow> string) \<Rightarrow> (pystr, json) dict \<Rightarrow> error_item + (pystr, json) dict" where
  "bounded_attributes frepr value =
     (if MAX_ATTRIBUTES < length value
        then Inl (value_error ''attributes may contain at most 64 keys'')
      else if \<exists>kv \<in> set value. 128 < length (fst kv)
        then Inl (value_error ''attribute keys may not exceed 128 characters'')
      else if MAX_ATTRIBUTES_BYTES < length (json_dumps frepr (JObj value))
        then Inl (value_error ''attributes may not exceed 16384 bytes'')
      else Inr value)"

text \<open>The bounds declared on the fields.\<close>

definition fits_in :: "nat \<Rightarrow> pystr option \<Rightarrow> bool" where
  "fits_in n v = (case v of None \<Rightarrow> True | Some s \<Rightarrow> length s \<le> n)"

definition field_errors :: "'t event_fields \<Rightarrow> error_item list" where
  "field_errors e =
     (if te_sequence e < 0 then [\<lparr>err_type = ''greater_than_equal'', err_msg = ''sequence''\<rparr>] else [])
     @ (if te_name e = [] then [\<lparr>err_type = ''string_too_short'', err_msg = ''name''\<rparr>] else [])
     @ (if 255 < length (te_name e) then [\<lparr>err_type = ''string_too_long'', err_msg = ''name''\<rparr>] else [])
     @ (if fits_in 64 (te_unit e) then [] else [\<lparr>err_type = ''string_too_long'', err_msg = ''unit''\<rparr>])
     @ (if fits_in 32 (te_severity e) then [] else [\<lparr>err_type = ''string_too_long'', err_msg = ''severity''\<rparr>])
     @ (if fits_in 128 (te_event_type e) then [] else [\<lparr>err_type = ''string_too_long'', err_msg = ''event_type''\<rparr>])
     @ (if fits_in 65536 (te_message e) then [] else [\<lparr>err_type = ''string_too_long'', err_msg = ''message''\<rparr>])"

text \<open>The validator of the whole model, run once every field is valid.\<close>

definition signal_fields :: "'t event_fields \<Rightarrow> error_item + 't event_fields" where
  "signal_fields e =
     (if te_signal_type e = METRIC \<and> te_value e = None
        then Inl (value_error ''metric events require value'')
      else if te_signal_type e = LOG \<and> te_message e = None
        then Inl (value_error ''log events require message'')
      else if te_source_type e = PROCESS \<and> te_process_id e = None
        then Inl (value_error ''process events require process_id'')
      else if te_source_type e = DEPENDENCY \<and> te_dependency_id e = None
        then Inl (value_error ''dependency events require dependency_id'')
      else Inr e)"

definition errors_of :: "error_item + 'a \<Rightarrow> error_item list" where
  "errors_of r = (case r of Inl e \<Rightarrow> [e] | Inr _ \<Rightarrow> [])"

definition with_times :: "datetime \<Rightarrow> datetime \<Rightarrow> wire_event \<Rightarrow> telemetry_event" where
  "with_times t obs w =
     \<lparr>te_event_id = te_event_id w, te_timestamp = t, te_observed = obs, te_sequence = te_sequence w,
      te_host_id = te_host_id w, te_service_id = te_service_id w, te_process_id = te_process_id w,
      te_container_id = te_container_id w, te_dependency_id = te_dependency_id w,
      te_experiment_id = te_experiment_id w, te_source_type = te_source_type w,
      te_signal_type = te_signal_type w, te_name = te_name w, te_value = te_value w,
      te_unit = te_unit w, te_severity = te_severity w, te_event_type = te_event_type w,
      te_message = te_message w, te_attributes = te_attributes w\<rparr>"

text \<open>
  \<open>TelemetryEvent.model_validate\<close>: the decoded fields, every field's validator with all its
  errors collected, then the model's validator.
\<close>

type_synonym decoder = "json \<Rightarrow> error_item list + wire_event"

definition validate_event ::
  "decoder \<Rightarrow> (rat \<Rightarrow> string) \<Rightarrow> json \<Rightarrow> error_item list + telemetry_event" where
  "validate_event decode frepr raw =
     bind_result (decode raw) (\<lambda>w.
       let t = timezone_required (te_timestamp w); obs = timezone_required (te_observed w);
           attrs = bounded_attributes frepr (te_attributes w);
           errs = errors_of t @ errors_of obs @ field_errors w @ errors_of attrs
       in case (t, obs) of
            (Inr t', Inr obs') \<Rightarrow>
              if errs \<noteq> [] then Inl errs
              else (case signal_fields (with_times t' obs' w) of Inl e \<Rightarrow> Inl [e] | Inr e \<Rightarrow> Inr e)
          | _ \<Rightarrow> Inl errs)"

section \<open>Batches\<close>

record telemetry_batch =
  tb_batch_id :: uuid
  tb_created_at :: wire_time
  tb_first_sequence :: int
  tb_last_sequence :: int
  tb_backfill :: bool
  tb_events :: "json list"

definition sequences_are_valid :: "telemetry_batch \<Rightarrow> error_item + telemetry_batch" where
  "sequences_are_valid b =
     (if tb_last_sequence b < tb_first_sequence b
        then Inl (value_error ''last_sequence must be >= first_sequence'') else Inr b)"

definition validate_batch ::
  "(json \<Rightarrow> error_item list + telemetry_batch) \<Rightarrow> json \<Rightarrow> error_item list + telemetry_batch" where
  "validate_batch decode_batch payload =
     bind_result (decode_batch payload) (\<lambda>b.
       let errs = (if tb_first_sequence b < 0
                     then [\<lparr>err_type = ''greater_than_equal'', err_msg = ''first_sequence''\<rparr>] else [])
                  @ (if tb_last_sequence b < 0
                     then [\<lparr>err_type = ''greater_than_equal'', err_msg = ''last_sequence''\<rparr>] else [])
                  @ (if 2000 < length (tb_events b)
                     then [\<lparr>err_type = ''too_long'', err_msg = ''events''\<rparr>] else [])
       in if errs \<noteq> [] then Inl errs
          else (case sequences_are_valid b of Inl e \<Rightarrow> Inl [e] | Inr b' \<Rightarrow> Inr b'))"

record rejected_event =
  rj_index :: nat
  rj_event_id :: "pystr option"
  rj_errors :: "error_item list"

record batch_response =
  br_batch_id :: uuid
  br_duplicate_batch :: bool
  br_accepted :: "uuid list"
  br_duplicates :: "uuid list"
  br_rejected :: "rejected_event list"
  br_commit_watermark :: "int option"

section \<open>What a validated event satisfies\<close>

lemma bounded_attributes_Inr:
  "bounded_attributes frepr value = Inr v \<longleftrightarrow>
     v = value \<and> length value \<le> MAX_ATTRIBUTES \<and> (\<forall>kv \<in> set value. length (fst kv) \<le> 128)
     \<and> length (json_dumps frepr (JObj value)) \<le> MAX_ATTRIBUTES_BYTES"
  by (auto simp: bounded_attributes_def not_less simp del: json_dumps_with.simps)
    (metis fst_conv linorder_not_le)

lemma errors_of_simps [simp]: "errors_of (Inl e) = [e]" "errors_of (Inr x) = []"
  by (simp_all add: errors_of_def)

lemma errors_of_Nil: "errors_of r = [] \<longleftrightarrow> (\<exists>x. r = Inr x)"
  by (cases r) (simp_all add: errors_of_def)

lemma timezone_required_Inr: "timezone_required w = Inr t \<longleftrightarrow> w = Aware t"
  by (cases w) auto

lemma signal_fields_Inr: "signal_fields e = Inr e' \<longleftrightarrow> e' = e
    \<and> (te_signal_type e = METRIC \<longrightarrow> te_value e \<noteq> None) \<and> (te_signal_type e = LOG \<longrightarrow> te_message e \<noteq> None)
    \<and> (te_source_type e = PROCESS \<longrightarrow> te_process_id e \<noteq> None)
    \<and> (te_source_type e = DEPENDENCY \<longrightarrow> te_dependency_id e \<noteq> None)"
  by (auto simp: signal_fields_def)

lemma with_times_simps [simp]:
  "te_event_id (with_times t u w) = te_event_id w" "te_timestamp (with_times t u w) = t"
  "te_observed (with_times t u w) = u" "te_sequence (with_times t u w) = te_sequence w"
  "te_host_id (with_times t u w) = te_host_id w" "te_service_id (with_times t u w) = te_service_id w"
  "te_process_id (with_times t u w) = te_process_id w"
  "te_container_id (with_times t u w) = te_container_id w"
  "te_dependency_id (with_times t u w) = te_dependency_id w"
  "te_experiment_id (with_times t u w) = te_experiment_id w"
  "te_source_type (with_times t u w) = te_source_type w"
  "te_signal_type (with_times t u w) = te_signal_type w" "te_name (with_times t u w) = te_name w"
  "te_value (with_times t u w) = te_value w" "te_unit (with_times t u w) = te_unit w"
  "te_severity (with_times t u w) = te_severity w" "te_event_type (with_times t u w) = te_event_type w"
  "te_message (with_times t u w) = te_message w" "te_attributes (with_times t u w) = te_attributes w"
  by (simp_all add: with_times_def)

text \<open>Validation succeeds exactly on these inputs, and changes only the type of the timestamps.\<close>

lemma validate_event_Inr:
  "validate_event decode frepr raw = Inr e \<longleftrightarrow>
     (\<exists>w t obs. decode raw = Inr w \<and> te_timestamp w = Aware t \<and> te_observed w = Aware obs
        \<and> bounded_attributes frepr (te_attributes w) = Inr (te_attributes w)
        \<and> field_errors w = [] \<and> signal_fields (with_times t obs w) = Inr e \<and> e = with_times t obs w)"
proof (cases "decode raw")
  case (Inr w)
  show ?thesis
  proof (cases "\<exists>t obs. te_timestamp w = Aware t \<and> te_observed w = Aware obs")
    case True
    then obtain t obs where ts: "te_timestamp w = Aware t" "te_observed w = Aware obs" by blast
    have a: "errors_of (bounded_attributes frepr (te_attributes w)) = [] \<longleftrightarrow>
        bounded_attributes frepr (te_attributes w) = Inr (te_attributes w)"
      by (auto simp: errors_of_Nil bounded_attributes_Inr)
    have "validate_event decode frepr raw =
        (if field_errors w @ errors_of (bounded_attributes frepr (te_attributes w)) \<noteq> []
         then Inl (field_errors w @ errors_of (bounded_attributes frepr (te_attributes w)))
         else (case signal_fields (with_times t obs w) of Inl e \<Rightarrow> Inl [e] | Inr e \<Rightarrow> Inr e))"
      by (simp add: validate_event_def Inr ts Let_def)
    then have "validate_event decode frepr raw = Inr e \<longleftrightarrow>
        errors_of (bounded_attributes frepr (te_attributes w)) = [] \<and> field_errors w = []
        \<and> signal_fields (with_times t obs w) = Inr e"
      by (auto split: if_splits sum.splits)
    moreover have "signal_fields (with_times t obs w) = Inr e \<Longrightarrow> e = with_times t obs w"
      unfolding signal_fields_Inr by blast
    ultimately show ?thesis using ts Inr a by auto
  next
    case False
    then show ?thesis
      by (cases "te_timestamp w"; cases "te_observed w")
        (simp_all add: validate_event_def Inr Let_def)
  qed
qed (simp add: validate_event_def)

end
