(* ===== verification/PyText.thy ===== *)
theory PyText
  imports Json
begin

text \<open>
  The operations of Python's \<open>str\<close> the parsers use, on characters of the first 256 code points:
  \<open>split\<close>, \<open>strip\<close>, \<open>splitlines\<close>, \<open>partition\<close>, \<open>find\<close>, \<open>rfind\<close>,
  \<open>isdigit\<close>, \<open>lower\<close> and \<open>int\<close>.
\<close>

definition is_space :: "char \<Rightarrow> bool" where
  "is_space c = (let n = of_char c :: nat in 9 \<le> n \<and> n \<le> 13 \<or> 28 \<le> n \<and> n \<le> 32 \<or> n = 133 \<or> n = 160)"

definition is_newline :: "char \<Rightarrow> bool" where
  "is_newline c = (let n = of_char c :: nat in 10 \<le> n \<and> n \<le> 13 \<or> 28 \<le> n \<and> n \<le> 30 \<or> n = 133)"

definition is_digit :: "char \<Rightarrow> bool" where
  "is_digit c = (let n = of_char c :: nat in 48 \<le> n \<and> n \<le> 57)"

text \<open>\<open>isdigit\<close> also holds of the superscripts one, two and three, which \<open>int\<close> refuses.\<close>

definition isdigit :: "pystr \<Rightarrow> bool" where
  "isdigit s \<longleftrightarrow> s \<noteq> [] \<and> list_all (\<lambda>c. is_digit c \<or> (of_char c :: nat) \<in> {178, 179, 185}) s"

definition lstrip :: "pystr \<Rightarrow> pystr" where
  "lstrip s = dropWhile is_space s"

definition strip :: "pystr \<Rightarrow> pystr" where
  "strip s = rev (dropWhile is_space (rev (dropWhile is_space s)))"

fun split_ws_acc :: "pystr \<Rightarrow> pystr \<Rightarrow> pystr list" where
  "split_ws_acc w [] = (if w = [] then [] else [rev w])"
| "split_ws_acc w (c # cs) =
     (if is_space c then (if w = [] then split_ws_acc [] cs else rev w # split_ws_acc [] cs)
      else split_ws_acc (c # w) cs)"

definition split_ws :: "pystr \<Rightarrow> pystr list" where
  "split_ws s = split_ws_acc [] s"

fun split_on :: "char \<Rightarrow> pystr \<Rightarrow> pystr list" where
  "split_on d [] = [[]]"
| "split_on d (c # cs) =
     (if c = d then [] # split_on d cs
      else (case split_on d cs of [] \<Rightarrow> [[c]] | w # ws \<Rightarrow> (c # w) # ws))"

fun splitlines_acc :: "pystr \<Rightarrow> pystr \<Rightarrow> pystr list" where
  "splitlines_acc l [] = (if l = [] then [] else [rev l])"
| "splitlines_acc l (c # cs) =
     (if c = CHR 0x0D \<and> cs \<noteq> [] \<and> hd cs = CHR 0x0A then splitlines_acc l cs
      else if is_newline c then rev l # splitlines_acc [] cs
      else splitlines_acc (c # l) cs)"

definition splitlines :: "pystr \<Rightarrow> pystr list" where
  "splitlines s = splitlines_acc [] s"

text \<open>\<open>s.partition(d)\<close> for a one-character separator: before, whether it was found, after.\<close>

definition partition_on :: "char \<Rightarrow> pystr \<Rightarrow> pystr \<times> bool \<times> pystr" where
  "partition_on d s =
     (takeWhile (\<lambda>c. c \<noteq> d) s, d \<in> set s, drop (Suc (length (takeWhile (\<lambda>c. c \<noteq> d) s))) s)"

fun find_char :: "char \<Rightarrow> pystr \<Rightarrow> nat option" where
  "find_char d [] = None"
| "find_char d (c # cs) = (if c = d then Some 0 else map_option Suc (find_char d cs))"

fun rfind_char :: "char \<Rightarrow> pystr \<Rightarrow> nat option" where
  "rfind_char d [] = None"
| "rfind_char d (c # cs) =
     (case rfind_char d cs of Some i \<Rightarrow> Some (Suc i) | None \<Rightarrow> if c = d then Some 0 else None)"

text \<open>\<open>sub in s\<close> and \<open>s.startswith(p)\<close>.\<close>

definition startswith :: "pystr \<Rightarrow> pystr \<Rightarrow> bool" where
  "startswith p s \<longleftrightarrow> take (length p) s = p"

fun contains :: "pystr \<Rightarrow> pystr \<Rightarrow> bool" where
  "contains sub [] \<longleftrightarrow> sub = []"
| "contains sub (c # cs) \<longleftrightarrow> startswith sub (c # cs) \<or> contains sub cs"

definition lower_char :: "char \<Rightarrow> char" where
  "lower_char c = (let n = of_char c :: nat in
     if 65 \<le> n \<and> n \<le> 90 \<or> 192 \<le> n \<and> n \<le> 222 \<and> n \<noteq> 215 then char_of (n + 32) else c)"

abbreviation lower :: "pystr \<Rightarrow> pystr" where
  "lower \<equiv> map lower_char"

section \<open>\<open>int\<close>\<close>

text \<open>Digits, with single underscores between them allowed.\<close>

fun digits_value :: "int \<Rightarrow> bool \<Rightarrow> pystr \<Rightarrow> int option" where
  "digits_value acc after_digit [] = (if after_digit then Some acc else None)"
| "digits_value acc after_digit (c # cs) =
     (if is_digit c then digits_value (10 * acc + int (of_char c - 48)) True cs
      else if c = CHR ''_'' \<and> after_digit then digits_value acc False cs
      else None)"

definition py_int :: "pystr \<Rightarrow> int option" where
  "py_int s =
     (case strip s of
        [] \<Rightarrow> None
      | c # cs \<Rightarrow> if c = CHR ''-'' then map_option uminus (digits_value 0 False cs)
                 else if c = CHR ''+'' then digits_value 0 False cs
                 else digits_value 0 False (c # cs))"

text \<open>The value of a hexadecimal digit.\<close>

definition hex_value :: "char \<Rightarrow> nat option" where
  "hex_value c = (let n = of_char c in if 48 \<le> n \<and> n \<le> 57 then Some (n - 48)
     else if 97 \<le> n \<and> n \<le> 102 then Some (n - 87) else if 65 \<le> n \<and> n \<le> 70 then Some (n - 55) else None)"

section \<open>\<open>float\<close>\<close>

text \<open>
  \<open>float(s)\<close> of decimal notation, as the exact value written; the words for infinities and NaN,
  which the files and protocols parsed here do not contain, are refused.
\<close>

definition digit_count :: "pystr \<Rightarrow> nat" where
  "digit_count s = length (filter is_digit s)"

definition unsigned_decimal :: "pystr \<Rightarrow> rat option" where
  "unsigned_decimal s =
     (case partition_on (CHR ''.'') s of (whole, point, decimals) \<Rightarrow>
        (case (if whole = [] \<and> decimals \<noteq> [] then Some 0 else digits_value 0 False whole,
               if decimals = [] then Some 0 else digits_value 0 False decimals) of
           (Some w, Some f) \<Rightarrow> Some (of_int w + of_int f / 10 ^ digit_count decimals)
         | _ \<Rightarrow> None))"

definition py_float :: "pystr \<Rightarrow> rat option" where
  "py_float s =
     (let t = lower (strip s);
          (sign, u) = (case t of [] \<Rightarrow> (1, []) | c # cs \<Rightarrow>
             if c = CHR ''-'' then (-1, cs) else if c = CHR ''+'' then (1, cs) else (1, c # cs))
      in (case partition_on (CHR ''e'') u of (mantissa, has_exp, expo) \<Rightarrow>
            (case (unsigned_decimal mantissa, if has_exp then (if expo \<noteq> [] \<and> is_space (hd expo) then None else py_int expo) else Some 0) of
               (Some m, Some e) \<Rightarrow> Some (sign * m * (if 0 \<le> e then 10 ^ nat e else 1 / 10 ^ nat (- e)))
             | _ \<Rightarrow> None)))"

definition int_of :: "pystr \<Rightarrow> exn + int" where
  "int_of s = (case py_int s of None \<Rightarrow> Inl ValueError | Some i \<Rightarrow> Inr i)"

definition float_of :: "pystr \<Rightarrow> exn + rat" where
  "float_of s = (case py_float s of None \<Rightarrow> Inl ValueError | Some q \<Rightarrow> Inr q)"

section \<open>Facts\<close>

lemma is_digit_digit_char [simp]: "d < 10 \<Longrightarrow> is_digit (digit_char d)"
  by (simp add: is_digit_def digit_char_def)

lemma digit_char_value [simp]: "d < 10 \<Longrightarrow> (of_char (digit_char d) :: nat) = 48 + d"
  by (simp add: digit_char_def)

lemma digits_not_special: "is_digit c \<Longrightarrow> \<not> is_space c \<and> \<not> is_newline c \<and> c \<noteq> CHR ''_'' \<and> c \<noteq> CHR ''-'' \<and> c \<noteq> CHR ''+''"
  by (auto simp: is_digit_def is_space_def is_newline_def Let_def)

lemma digits_value_digits:
  "list_all is_digit s \<Longrightarrow> digits_value acc b s =
     (if s = [] \<and> \<not> b then None else Some (foldl (\<lambda>a c. 10 * a + int (of_char c - 48)) acc s))"
  by (induction s arbitrary: acc b) auto

lemma nat_str_digits: "nat_str n \<noteq> [] \<and> list_all is_digit (nat_str n)
    \<and> foldl (\<lambda>a c. 10 * a + int (of_char c - 48)) 0 (nat_str n) = int n"
proof (induction n rule: nat_str.induct)
  case (1 n)
  show ?case
  proof (cases "n < 10")
    case False
    have "foldl (\<lambda>a c. 10 * a + int (of_char c - 48)) 0 (nat_str (n div 10)) = int (n div 10)"
      "list_all is_digit (nat_str (n div 10))"
      using 1 False by blast+
    moreover have "10 * int (n div 10) + int (n mod 10) = int n" by presburger
    ultimately show ?thesis using False by (subst (1 2 3) nat_str.simps) simp
  qed (subst (1 2 3) nat_str.simps, simp)
qed

lemma strip_no_space: "s \<noteq> [] \<Longrightarrow> \<not> is_space (hd s) \<Longrightarrow> \<not> is_space (last s) \<Longrightarrow> strip s = s"
  by (simp add: strip_def dropWhile_eq_self_iff [THEN iffD2] hd_rev)

lemma strip_digits: "list_all (\<lambda>c. \<not> is_space c) s \<Longrightarrow> strip s = s"
proof (cases "s = []")
  case False
  assume "list_all (\<lambda>c. \<not> is_space c) s"
  then have "\<not> is_space (hd s)" "\<not> is_space (last s)" using False by (simp_all add: list_all_iff)
  with False show ?thesis by (rule strip_no_space)
qed (simp add: strip_def)

text \<open>\<open>int\<close> reads back what \<open>str\<close> writes.\<close>

lemma py_int_nat_str: "py_int (nat_str n) = Some (int n)"
proof -
  have d: "list_all is_digit (nat_str n)" and ne: "nat_str n \<noteq> []" using nat_str_digits by blast+
  have "strip (nat_str n) = nat_str n"
    using d by (intro strip_digits) (auto simp: list_all_iff dest: digits_not_special)
  moreover obtain c cs where c: "nat_str n = c # cs" using ne by (cases "nat_str n") auto
  moreover have "is_digit c" using d c by simp
  ultimately show ?thesis
    using digits_value_digits [OF d, of 0 False] nat_str_digits [of n]
    by (simp add: py_int_def digits_not_special del: digits_value.simps)
qed

lemma py_int_int_str: "py_int (int_str i) = Some i"
proof (cases "i < 0")
  case True
  have d: "list_all is_digit (nat_str (nat (- i)))" and ne: "nat_str (nat (- i)) \<noteq> []"
    using nat_str_digits by blast+
  have "\<not> is_space (CHR ''-'')" by (simp add: is_space_def)
  then have "list_all (\<lambda>c. \<not> is_space c) (''-'' @ nat_str (nat (- i)))"
    using d by (auto simp: list_all_iff dest: digits_not_special)
  then have "strip (''-'' @ nat_str (nat (- i))) = ''-'' @ nat_str (nat (- i))" by (rule strip_digits)
  moreover have "digits_value 0 False (nat_str (nat (- i))) = Some (- i)"
    using digits_value_digits [OF d, of 0 False] nat_str_digits [of "nat (- i)"] ne True by simp
  ultimately show ?thesis using True by (simp add: py_int_def int_str_def)
qed (simp add: int_str_def py_int_nat_str)

lemma int_of_int_str [simp]: "int_of (int_str i) = Inr i"
  by (simp add: int_of_def py_int_int_str)

text \<open>Words without spaces, joined by single spaces, are what \<open>split\<close> returns.\<close>

lemma hex_value_char: "n < 16 \<Longrightarrow> hex_value (hex_char n) = Some n \<and> \<not> is_space (hex_char n)"
  by (auto simp: hex_value_def hex_char_def is_space_def Let_def)

lemma split_ws_acc_word:
  "list_all (\<lambda>c. \<not> is_space c) w \<Longrightarrow> split_ws_acc acc (w @ rest) = split_ws_acc (rev w @ acc) rest"
  by (induction w arbitrary: acc) auto

lemma split_ws_join:
  "list_all (\<lambda>w. w \<noteq> [] \<and> list_all (\<lambda>c. \<not> is_space c) w) ws \<Longrightarrow> split_ws (join_with '' '' ws) = ws"
proof (induction "'' ''" ws rule: join_with.induct)
  case (2 x)
  then show ?case using split_ws_acc_word [of x "[]" "[]"] by (simp add: split_ws_def)
next
  case (3 x y zs)
  have sp: "is_space (CHR '' '')" by (simp add: is_space_def)
  have "split_ws_acc [] (x @ '' '' @ join_with '' '' (y # zs)) = x # split_ws_acc [] (join_with '' '' (y # zs))"
    using 3(2) sp split_ws_acc_word [of x "[]" "'' '' @ join_with '' '' (y # zs)"] by simp
  with 3 show ?case by (simp add: split_ws_def)
qed (simp add: split_ws_def)

lemma find_char_eq: "find_char d s = (if d \<in> set s then Some (length (takeWhile (\<lambda>c. c \<noteq> d) s)) else None)"
  by (induction s) auto

lemma rfind_char_None: "rfind_char d s = None \<longleftrightarrow> d \<notin> set s"
  by (induction s) (auto split: option.splits)

lemma rfind_char_last: "d \<notin> set b \<Longrightarrow> rfind_char d (a @ d # b) = Some (length a)"
proof (induction a)
  case Nil
  then have "rfind_char d b = None" by (simp add: rfind_char_None)
  then show ?case by simp
qed simp

lemma split_on_ne [simp]: "split_on d s \<noteq> []"
  by (cases s) (auto split: list.splits)

lemma split_on_no_sep: "w \<in> set (split_on d s) \<Longrightarrow> d \<notin> set w"
  by (induction s arbitrary: w) (auto split: if_splits list.splits)

lemma join_split_on: "join_with [d] (split_on d s) = s"
proof (induction s)
  case (Cons c cs)
  obtain w ws where w: "split_on d cs = w # ws" by (cases "split_on d cs") auto
  with Cons show ?case by (cases ws) auto
qed simp

end
