(* ===== verification/Clock.thy ===== *)
theory Clock
  imports Json
begin

text \<open>
  The calendar the code reads from \<open>datetime\<close>: an instant is an integer number of microseconds
  since 1970-01-01 UTC, \<open>isoformat\<close> writes it in the proleptic Gregorian calendar.
\<close>

definition second :: datetime where "second = 1000000"
definition minute :: datetime where "minute = 60 * second"
definition hour :: datetime where "hour = 60 * minute"
definition day :: datetime where "day = 24 * hour"

lemmas time_units = second_def minute_def hour_def day_def

text \<open>The civil date (year, month, day) of a day number counted from 1970-01-01.\<close>

definition civil :: "int \<Rightarrow> int \<times> int \<times> int" where
  "civil n =
     (let z = n + 719468;
          era = z div 146097;
          doe = z mod 146097;
          yoe = (doe - doe div 1460 + doe div 36524 - doe div 146096) div 365;
          doy = doe - (365 * yoe + yoe div 4 - yoe div 100);
          mp = (5 * doy + 2) div 153;
          d = doy - (153 * mp + 2) div 5 + 1;
          m = (if mp < 10 then mp + 3 else mp - 9)
      in (yoe + era * 400 + (if m \<le> 2 then 1 else 0), m, d))"

definition pad :: "nat \<Rightarrow> int \<Rightarrow> pystr" where
  "pad w i = (let s = nat_str (nat i) in replicate (w - length s) (CHR ''0'') @ s)"

definition date_str :: "pystr \<Rightarrow> datetime \<Rightarrow> pystr" where
  "date_str sep t = (case civil (t div day) of (y, m, d) \<Rightarrow> pad 4 y @ sep @ pad 2 m @ sep @ pad 2 d)"

text \<open>\<open>isoformat\<close> of an aware UTC datetime ends in \<open>+00:00\<close>, which the agent writes as \<open>Z\<close>.\<close>

definition iso_time :: "datetime \<Rightarrow> pystr" where
  "iso_time t =
     (let r = t mod day; us = r mod second
      in date_str ''-'' t @ ''T'' @ pad 2 (r div hour) @ '':'' @ pad 2 (r mod hour div minute) @ '':''
         @ pad 2 (r mod minute div second) @ (if us = 0 then [] else ''.'' @ pad 6 us))"

definition isoformat :: "datetime \<Rightarrow> pystr" where
  "isoformat t = iso_time t @ ''+00:00''"

definition iso_utc :: "datetime \<Rightarrow> pystr" where
  "iso_utc t = iso_time t @ ''Z''"

lemma time_units_pos [simp]: "0 < second" "0 < minute" "0 < hour" "0 < day"
  by (simp_all add: time_units)

end
