(* ===== verification/Database.thy ===== *)
theory Database
  imports Tables Contracts Clock
begin

text \<open>
  The server's tables, \<open>server/temporalrca_server/models.py\<close>: one record per mapped class, the
  database as the record of its tables, the unique keys that a commit checks, and the partitions
  the timestamps are stored in. A table with an integer id the database assigns is a \<open>table\<close>; the
  others are lists of rows in the order of insertion.
\<close>

section \<open>Agents, hosts and inventory\<close>

record agent_row =
  ag_id :: uuid
  ag_installation_id :: pystr
  ag_credential_hash :: bytes
  ag_credential_version :: int
  ag_version :: "pystr option"
  ag_registered_at :: datetime
  ag_last_seen_at :: "datetime option"
  ag_active :: bool

record host_row =
  ho_id :: uuid
  ho_agent_id :: uuid
  ho_external_id :: pystr
  ho_name :: pystr
  ho_attributes :: "(pystr, json) dict"
  ho_first_seen_at :: datetime
  ho_last_seen_at :: datetime
  ho_active :: bool

text \<open>The columns of \<open>InventoryMixin\<close>, extended by each kind of resource.\<close>

record inventory_row =
  iv_id :: uuid
  iv_host_id :: uuid
  iv_external_id :: pystr
  iv_name :: pystr
  iv_attributes :: "(pystr, json) dict"
  iv_first_seen_at :: datetime
  iv_last_seen_at :: datetime
  iv_lease_expires_at :: datetime
  iv_active :: bool

type_synonym service_instance = inventory_row

record container_instance = inventory_row +
  cn_runtime :: "pystr option"
  cn_image :: "pystr option"
  cn_service_id :: "uuid option"

record process_instance = inventory_row +
  pr_boot_id :: uuid
  pr_pid :: int
  pr_start_time_ticks :: int
  pr_command :: "pystr option"
  pr_service_id :: "uuid option"
  pr_container_id :: "uuid option"

record dependency_row = inventory_row +
  dp_kind :: pystr

record service_dependency =
  sd_service_id :: uuid
  sd_dependency_id :: uuid
  sd_first_seen_at :: datetime
  sd_last_seen_at :: datetime
  sd_active :: bool

section \<open>Receipts and telemetry\<close>

record event_receipt =
  rc_agent_id :: uuid
  rc_event_id :: uuid
  rc_event_timestamp :: datetime
  rc_received_at :: datetime

record batch_receipt =
  bt_agent_id :: uuid
  bt_batch_id :: uuid
  bt_payload_digest :: bytes
  bt_received_at :: datetime
  bt_response :: batch_response

record metric_definition =
  md_id :: nat
  md_name :: pystr
  md_unit :: "pystr option"

record metric_series =
  ms_id :: nat
  ms_metric_definition_id :: nat
  ms_host_id :: uuid
  ms_service_id :: "uuid option"
  ms_process_id :: "uuid option"
  ms_container_id :: "uuid option"
  ms_dependency_id :: "uuid option"
  ms_source_type :: pystr
  ms_attributes :: "(pystr, json) dict"
  ms_fingerprint :: pystr

record metric_sample =
  sm_timestamp :: datetime
  sm_event_id :: uuid
  sm_series_id :: nat
  sm_observed :: datetime
  sm_sequence :: int
  sm_value :: pyfloat
  sm_experiment_id :: "uuid option"

record log_event =
  le_timestamp :: datetime
  le_event_id :: uuid
  le_host_id :: uuid
  le_service_id :: "uuid option"
  le_process_id :: "uuid option"
  le_container_id :: "uuid option"
  le_dependency_id :: "uuid option"
  le_experiment_id :: "uuid option"
  le_observed :: datetime
  le_sequence :: int
  le_source_type :: pystr
  le_severity :: "pystr option"
  le_event_type :: "pystr option"
  le_message :: pystr
  le_attributes :: "(pystr, json) dict"

record timeline_event =
  tl_timestamp :: datetime
  tl_event_id :: uuid
  tl_host_id :: uuid
  tl_service_id :: "uuid option"
  tl_process_id :: "uuid option"
  tl_dependency_id :: "uuid option"
  tl_experiment_id :: "uuid option"
  tl_observed :: datetime
  tl_sequence :: int
  tl_source_type :: pystr
  tl_signal_type :: pystr
  tl_name :: pystr
  tl_event_type :: "pystr option"
  tl_message :: "pystr option"
  tl_attributes :: "(pystr, json) dict"

section \<open>Rollups, heartbeats, experiments\<close>

record metric_rollup =
  mr_bucket :: datetime
  mr_series_id :: nat
  mr_count :: nat
  mr_sum :: pyfloat
  mr_minimum :: pyfloat
  mr_maximum :: pyfloat
  mr_average :: pyfloat
  mr_last :: pyfloat
  mr_last_timestamp :: datetime
  mr_completed_at :: datetime

record log_rollup =
  lr_bucket :: datetime
  lr_host_id :: uuid
  lr_severity :: pystr
  lr_count :: nat
  lr_completed_at :: datetime

record maintenance_state =
  mt_rolled_through :: "datetime option"
  mt_completed_at :: "datetime option"

record experiment_row =
  ex_id :: uuid
  ex_name :: pystr
  ex_status :: pystr
  ex_started_at :: datetime
  ex_ended_at :: "datetime option"
  ex_configuration :: "(pystr, json) dict"

record agent_heartbeat =
  hb_agent_id :: uuid
  hb_observed_at :: datetime
  hb_agent_version :: pystr
  hb_spool_bytes :: int
  hb_spool_events :: int
  hb_collectors :: "json list"

record inventory_snapshot =
  sn_host_id :: uuid
  sn_observed_at :: datetime
  sn_inventory :: json
  sn_resource_ids :: json

section \<open>The database\<close>

datatype partitioned = METRIC_SAMPLES | LOG_EVENTS | TIMELINE_EVENTS | METRIC_ROLLUPS | LOG_ROLLUPS

text \<open>A partition: the parent table and the half-open interval of timestamps it holds.\<close>

record partition =
  pt_parent :: partitioned
  pt_start :: datetime
  pt_end :: datetime

record database =
  db_agents :: "agent_row list"
  db_hosts :: "host_row list"
  db_services :: "service_instance list"
  db_containers :: "container_instance list"
  db_processes :: "process_instance list"
  db_dependencies :: "dependency_row list"
  db_links :: "service_dependency list"
  db_heartbeats :: "agent_heartbeat list"
  db_snapshots :: "inventory_snapshot list"
  db_batch_receipts :: "batch_receipt list"
  db_event_receipts :: "event_receipt list"
  db_definitions :: "metric_definition table"
  db_series :: "metric_series table"
  db_samples :: "metric_sample list"
  db_logs :: "log_event list"
  db_timeline :: "timeline_event list"
  db_metric_rollups :: "metric_rollup list"
  db_log_rollups :: "log_rollup list"
  db_maintenance :: "maintenance_state option"
  db_experiments :: "experiment_row list"
  db_partitions :: "partition list"

definition empty_database :: database where
  "empty_database =
     \<lparr>db_agents = [], db_hosts = [], db_services = [], db_containers = [], db_processes = [],
      db_dependencies = [], db_links = [], db_heartbeats = [], db_snapshots = [],
      db_batch_receipts = [], db_event_receipts = [], db_definitions = empty_table,
      db_series = empty_table, db_samples = [], db_logs = [], db_timeline = [],
      db_metric_rollups = [], db_log_rollups = [], db_maintenance = None, db_experiments = [],
      db_partitions = []\<rparr>"

section \<open>Primary keys\<close>

definition receipt_key :: "event_receipt \<Rightarrow> uuid \<times> uuid" where
  "receipt_key r = (rc_agent_id r, rc_event_id r)"

definition batch_key :: "batch_receipt \<Rightarrow> uuid \<times> uuid" where
  "batch_key r = (bt_agent_id r, bt_batch_id r)"

definition sample_key :: "metric_sample \<Rightarrow> datetime \<times> uuid" where
  "sample_key r = (sm_timestamp r, sm_event_id r)"

definition log_key :: "log_event \<Rightarrow> datetime \<times> uuid" where
  "log_key r = (le_timestamp r, le_event_id r)"

definition timeline_key :: "timeline_event \<Rightarrow> datetime \<times> uuid" where
  "timeline_key r = (tl_timestamp r, tl_event_id r)"

definition keys_ok :: "database \<Rightarrow> bool" where
  "keys_ok db \<longleftrightarrow>
     distinct (map receipt_key (db_event_receipts db)) \<and> distinct (map batch_key (db_batch_receipts db))
     \<and> distinct (map sample_key (db_samples db)) \<and> distinct (map log_key (db_logs db))
     \<and> distinct (map timeline_key (db_timeline db))"

definition definition_row :: "nat \<Rightarrow> pystr \<times> pystr option \<Rightarrow> metric_definition" where
  "definition_row i c = \<lparr>md_id = i, md_name = fst c, md_unit = snd c\<rparr>"

text \<open>The columns of a new series and the row they become: the id is the database's.\<close>

definition series_row :: "nat \<Rightarrow> metric_series \<Rightarrow> metric_series" where
  "series_row i c = c\<lparr>ms_id := i\<rparr>"

lemma definition_row_simps [simp]:
  "md_id (definition_row i c) = i" "md_name (definition_row i c) = fst c" "md_unit (definition_row i c) = snd c"
  by (simp_all add: definition_row_def)

lemma series_row_simps [simp]:
  "ms_id (series_row i c) = i" "ms_fingerprint (series_row i c) = ms_fingerprint c"
  "ms_metric_definition_id (series_row i c) = ms_metric_definition_id c"
  "ms_host_id (series_row i c) = ms_host_id c"
  by (simp_all add: series_row_def)

interpretation definitions_table: unique_table md_id md_name fst definition_row
  by unfold_locales simp_all

interpretation series_table: unique_table ms_id ms_fingerprint ms_fingerprint series_row
  by unfold_locales simp_all

section \<open>Partitions\<close>

definition floor_hour :: "datetime \<Rightarrow> datetime" where
  "floor_hour t = t - t mod hour"

definition floor_day :: "datetime \<Rightarrow> datetime" where
  "floor_day t = t - t mod day"

datatype period = Hourly | Daily

definition partition_of :: "partitioned \<Rightarrow> period \<Rightarrow> datetime \<Rightarrow> partition" where
  "partition_of parent period t =
     (let start = (case period of Hourly \<Rightarrow> floor_hour t | Daily \<Rightarrow> floor_day t)
      in \<lparr>pt_parent = parent, pt_start = start,
          pt_end = start + (case period of Hourly \<Rightarrow> hour | Daily \<Rightarrow> day)\<rparr>)"

text \<open>\<open>CREATE TABLE IF NOT EXISTS\<close> for each timestamp: the name is a function of parent and start.\<close>

definition create_partition :: "partition \<Rightarrow> database \<Rightarrow> database" where
  "create_partition p db =
     (if \<exists>q \<in> set (db_partitions db). pt_parent q = pt_parent p \<and> pt_start q = pt_start p \<and> pt_end q = pt_end p
      then db else db\<lparr>db_partitions := db_partitions db @ [p]\<rparr>)"

definition ensure_partitions :: "partitioned \<Rightarrow> period \<Rightarrow> datetime list \<Rightarrow> database \<Rightarrow> database" where
  "ensure_partitions parent period timestamps db =
     fold (\<lambda>t. create_partition (partition_of parent period t)) timestamps db"

definition has_partition :: "partitioned \<Rightarrow> datetime \<Rightarrow> database \<Rightarrow> bool" where
  "has_partition parent t db \<longleftrightarrow>
     (\<exists>p \<in> set (db_partitions db). pt_parent p = parent \<and> pt_start p \<le> t \<and> t < pt_end p)"

lemma partition_of_covers:
  "pt_parent (partition_of parent period t) = parent"
  "pt_start (partition_of parent period t) \<le> t" "t < pt_end (partition_of parent period t)"
  using pos_mod_bound [of hour t] pos_mod_sign [of hour t] pos_mod_bound [of day t] pos_mod_sign [of day t]
  by (auto simp: partition_of_def Let_def floor_hour_def floor_day_def split: period.splits
      simp del: pos_mod_bound pos_mod_sign)

lemma create_partition_frame:
  "\<exists>ps. create_partition p db = db\<lparr>db_partitions := db_partitions db @ ps\<rparr>"
  by (auto simp: create_partition_def intro: exI [of _ "[]"])

lemma ensure_partitions_frame:
  "\<exists>ps. ensure_partitions parent period ts db = db\<lparr>db_partitions := db_partitions db @ ps\<rparr>"
proof (induction ts arbitrary: db)
  case Nil
  then show ?case by (auto simp: ensure_partitions_def intro: exI [of _ "[]"])
next
  case (Cons t ts)
  obtain ps where 1: "create_partition (partition_of parent period t) db
      = db\<lparr>db_partitions := db_partitions db @ ps\<rparr>"
    using create_partition_frame by blast
  obtain qs where "ensure_partitions parent period ts (db\<lparr>db_partitions := db_partitions db @ ps\<rparr>)
      = db\<lparr>db_partitions := db_partitions db @ ps\<rparr>\<lparr>db_partitions := (db_partitions db @ ps) @ qs\<rparr>"
    using Cons [of "db\<lparr>db_partitions := db_partitions db @ ps\<rparr>"] by auto
  with 1 show ?case by (auto simp: ensure_partitions_def intro!: exI [of _ "ps @ qs"])
qed

lemma has_partition_mono:
  "has_partition parent t db \<Longrightarrow> has_partition parent t (ensure_partitions parent' period ts db)"
  using ensure_partitions_frame [of parent' period ts db] by (auto simp: has_partition_def)

lemma ensure_partitions_covers:
  "t \<in> set ts \<Longrightarrow> has_partition parent t (ensure_partitions parent period ts db)"
proof (induction ts arbitrary: db)
  case (Cons u ts)
  have step: "ensure_partitions parent period (u # ts) db
      = ensure_partitions parent period ts (create_partition (partition_of parent period u) db)"
    by (simp add: ensure_partitions_def)
  show ?case
  proof (cases "t = u")
    case True
    have "has_partition parent u (create_partition (partition_of parent period u) db)"
      using partition_of_covers [where parent = parent and period = period and t = u]
      by (fastforce simp: has_partition_def create_partition_def)
    then show ?thesis unfolding step True by (rule has_partition_mono)
  qed (use Cons in \<open>simp add: step\<close>)
qed simp

end
