(* ===== verification/Transport.thy ===== *)
theory Transport
  imports Contracts PyText
begin

text \<open>
  The agent's HTTP client, \<open>agent/src/temporalrca_agent/transport.py\<close>: which statuses are worth a
  retry, the back-off delay, the body of a telemetry batch, and the exceptions its calls raise. The
  request itself is a function from the body to a response or an exception; SHA-256 and UUIDv5 are
  the parameter \<open>digest_id\<close>.
\<close>

section \<open>Errors and results\<close>

record http_result =
  hr_status :: int
  hr_body :: json

type_synonym endpoint = "json \<Rightarrow> exn + http_result"

section \<open>Retry and back-off\<close>

definition retryable :: "int option \<Rightarrow> bool" where
  "retryable status = (case status of None \<Rightarrow> True
     | Some s \<Rightarrow> s \<in> {401, 403, 408, 429} \<or> 500 \<le> s)"

text \<open>
  \<open>float(i)\<close>, exact where the code uses it (powers of two): an integer that rounds to
  \<open>2 ^ 1024\<close> or more raises.
\<close>

definition int_to_float :: "int \<Rightarrow> exn + pyfloat" where
  "int_to_float i = (if 2 ^ 1024 - 2 ^ 970 \<le> \<bar>i\<bar> then Inl OverflowError else Inr (of_int i))"

text \<open>\<open>backoff_delay(attempt)\<close> with the default base 0.5 and cap 30; \<open>random\<close> is in [0, 1).\<close>

definition backoff_delay :: "int \<Rightarrow> pyfloat \<Rightarrow> exn + pyfloat" where
  "backoff_delay attempt random =
     bind_result (int_to_float (2 ^ nat (max 0 attempt))) (\<lambda>p.
       let ceiling = min 30 (1 / 2 * p) in Inr (ceiling * random))"

section \<open>The batch body\<close>

text \<open>\<open>int(v)\<close> of a value read from JSON.\<close>

fun int_of_json :: "json \<Rightarrow> exn + int" where
  "int_of_json (JInt i) = Inr i"
| "int_of_json (JBool b) = Inr (if b then 1 else 0)"
| "int_of_json (JFloat q) = Inr (if 0 \<le> q then \<lfloor>q\<rfloor> else \<lceil>q\<rceil>)"
| "int_of_json (JStr s) = (case py_int s of None \<Rightarrow> Inl ValueError | Some i \<Rightarrow> Inr i)"
| "int_of_json _ = Inl TypeError"

definition obj_item :: "json \<Rightarrow> pystr \<Rightarrow> exn + json" where
  "obj_item v key = (case v of
       JObj kvs \<Rightarrow> (case map_of kvs key of None \<Rightarrow> Inl KeyError | Some x \<Rightarrow> Inr x)
     | _ \<Rightarrow> Inl TypeError)"

text \<open>
  \<open>send\<close>: the batch id is derived from the sorted rendering of the events, so a retried batch has
  the same id.
\<close>

definition send_body :: "(rat \<Rightarrow> string) \<Rightarrow> (string \<Rightarrow> uuid) \<Rightarrow> json list \<Rightarrow> exn + json" where
  "send_body frepr digest_id events =
     (let digest = json_dumps_sorted frepr (JArr events) in
      bind_result (map_result (\<lambda>e. bind_result (obj_item e ''sequence'') int_of_json) events) (\<lambda>sequences.
        case events of
          [] \<Rightarrow> Inl IndexError
        | first # _ \<Rightarrow>
            bind_result (obj_item first ''observed_timestamp'') (\<lambda>created.
              Inr (JObj [(''schema_version'', JStr ''1.0''), (''batch_id'', JStr (digest_id digest)),
                 (''created_at'', created), (''first_sequence'', JInt (Min (set sequences))),
                 (''last_sequence'', JInt (Max (set sequences))),
                 (''backfill'', JBool (500 < length events)), (''events'', JArr events)]))))"

definition send ::
  "(rat \<Rightarrow> string) \<Rightarrow> (string \<Rightarrow> uuid) \<Rightarrow> endpoint \<Rightarrow> json list \<Rightarrow> exn + http_result" where
  "send frepr digest_id post events = bind_result (send_body frepr digest_id events) post"

section \<open>Registration, inventory and heartbeat\<close>

definition register_body :: "pystr \<Rightarrow> pystr \<Rightarrow> pystr \<Rightarrow> (pystr \<times> pystr) list \<Rightarrow> json" where
  "register_body enrollment_token installation_id host_name host_attributes =
     JObj [(''enrollment_token'', JStr enrollment_token), (''installation_id'', JStr installation_id),
       (''host_external_id'', JStr installation_id), (''host_name'', JStr host_name), (''agent_version'', JStr ''0.1.0''),
       (''host_attributes'', JObj (map (\<lambda>(k, v). (k, JStr v)) host_attributes))]"

text \<open>\<open>show\<close> is Python's rendering of the body in the message of the error.\<close>

definition client_register ::
  "(json \<Rightarrow> pystr) \<Rightarrow> endpoint \<Rightarrow> pystr \<Rightarrow> pystr \<Rightarrow> pystr \<Rightarrow> (pystr \<times> pystr) list \<Rightarrow> exn + json \<times> json" where
  "client_register show post enrollment_token installation_id host_name host_attributes =
     bind_result (post (register_body enrollment_token installation_id host_name host_attributes)) (\<lambda>result.
       if hr_status result \<notin> {200, 201}
       then Inl (RuntimeError (''registration failed ('' @ int_str (hr_status result) @ ''): '' @ show (hr_body result)))
       else bind_result (obj_item (hr_body result) ''credential'') (\<lambda>credential. Inr (credential, hr_body result)))"

definition client_inventory :: "endpoint \<Rightarrow> json \<Rightarrow> exn + json" where
  "client_inventory put report = bind_result (put report) (\<lambda>result.
     if hr_status result \<notin> {200, 204} then Inl (RuntimeError (''inventory failed ('' @ int_str (hr_status result) @ '')''))
     else Inr (hr_body result))"

definition client_heartbeat :: "endpoint \<Rightarrow> json \<Rightarrow> exn + unit" where
  "client_heartbeat post body = bind_result (post body) (\<lambda>result.
     if hr_status result \<notin> {200, 202, 204} then Inl (RuntimeError (''heartbeat failed ('' @ int_str (hr_status result) @ '')''))
     else Inr ())"

section \<open>Facts\<close>

lemma int_to_float_pow2: "int_to_float (2 ^ n) = (if n \<ge> 1024 then Inl OverflowError else Inr (2 ^ n))"
proof (cases "n \<ge> 1024")
  case True
  then have "(2::int) ^ 1024 \<le> 2 ^ n" by (intro power_increasing) simp_all
  with True show ?thesis by (simp add: int_to_float_def)
next
  case False
  then have "(2::int) ^ n \<le> 2 ^ 1023" by (intro power_increasing) simp_all
  moreover have "(2::int) ^ 1023 < 2 ^ 1024 - 2 ^ 970" by simp
  ultimately show ?thesis using False by (simp add: int_to_float_def not_le)
qed

lemma backoff_delay_eq:
  "backoff_delay attempt random =
     (if 1024 \<le> attempt then Inl OverflowError
      else Inr ((if 6 \<le> attempt then 30 else 2 ^ nat attempt / 2) * random))"
proof (cases "1024 \<le> attempt")
  case True
  then have "1024 \<le> nat (max 0 attempt)" by simp
  with True show ?thesis by (simp add: backoff_delay_def int_to_float_pow2)
next
  case False
  then have n: "nat (max 0 attempt) = nat attempt" "\<not> 1024 \<le> nat attempt" by simp_all
  have "min 30 (1 / 2 * (2::rat) ^ nat attempt) = (if 6 \<le> attempt then 30 else 2 ^ nat attempt / 2)"
  proof (cases "6 \<le> attempt")
    case True
    then have "(2::rat) ^ 6 \<le> 2 ^ nat attempt" by (intro power_increasing) simp_all
    with True show ?thesis by simp
  next
    case False
    then have "(2::rat) ^ nat attempt \<le> 2 ^ 5" by (intro power_increasing) simp_all
    with False show ?thesis by simp
  qed
  with False n show ?thesis by (simp add: backoff_delay_def int_to_float_pow2 Let_def)
qed

lemma backoff_delay_fits: "case backoff_delay attempt random of
    Inl e \<Rightarrow> 1024 \<le> attempt | Inr d \<Rightarrow> attempt < 1024"
  by (simp add: backoff_delay_eq)

text \<open>
  The back-off delay grows as \<open>2 ^ attempt / 2\<close> seconds up to 30, scaled by the jitter, and is
  defined for attempts below 1024 only: from there on the power no longer converts to a float and
  the call raises.
\<close>

theorem backoff_delay_value:
  "backoff_delay attempt random =
     (if 1024 \<le> attempt then Inl OverflowError
      else Inr ((if 6 \<le> attempt then 30 else 2 ^ nat attempt / 2) * random))"
  by (rule backoff_delay_eq)

lemma send_body_Inr:
  "send_body frepr digest_id events = Inr body \<longleftrightarrow>
     (\<exists>sequences created. events \<noteq> []
        \<and> map (\<lambda>e. bind_result (obj_item e ''sequence'') int_of_json) events = map Inr sequences
        \<and> obj_item (hd events) ''observed_timestamp'' = Inr created
        \<and> body = JObj [(''schema_version'', JStr ''1.0''),
             (''batch_id'', JStr (digest_id (json_dumps_sorted frepr (JArr events)))),
             (''created_at'', created), (''first_sequence'', JInt (Min (set sequences))),
             (''last_sequence'', JInt (Max (set sequences))),
             (''backfill'', JBool (500 < length events)), (''events'', JArr events)])"
  unfolding send_body_def Let_def bind_result_Inr_iff map_result_Inr
  by (cases "events = []") (auto simp: neq_Nil_conv bind_result_Inr_iff)

end
