(* ===== verification/Ingestion.thy ===== *)
theory Ingestion
  imports Database Transport
begin

text \<open>
  The transaction that stores a telemetry batch, \<open>server/temporalrca_server/ingestion.py\<close>: digests
  and fingerprints, the bulk resolution of metric definitions and series, the checks of each event,
  deduplication by receipts, the rows stored, and the commit. SHA-256 is the parameter \<open>sha\<close>
  (its hexadecimal digest) and Pydantic's reading of an event the parameter \<open>decode\<close>.

  Two databases are passed: \<open>seen\<close>, what the transaction reads, and \<open>current\<close>, what is committed
  when it writes, which other agents' transactions may have extended in between. Deliveries of one
  agent are serialised by the lock on its row.
\<close>

section \<open>Identity and failures\<close>

record agent_identity =
  ai_agent_id :: uuid
  ai_host_id :: uuid

datatype failure = HTTPException int pystr | Unhandled pystr

section \<open>Digests\<close>

definition canonical_digest :: "(string \<Rightarrow> bytes) \<Rightarrow> (rat \<Rightarrow> string) \<Rightarrow> json \<Rightarrow> bytes" where
  "canonical_digest sha frepr payload = sha (json_dumps_sorted frepr payload)"

definition series_fingerprint ::
  "(string \<Rightarrow> string) \<Rightarrow> (rat \<Rightarrow> string) \<Rightarrow> telemetry_event \<Rightarrow> uuid \<Rightarrow> pystr" where
  "series_fingerprint sha frepr e host_id =
     sha (json_dumps_sorted frepr (JObj
       [(''name'', JStr (te_name e)), (''host_id'', JStr host_id), (''service_id'', opt_str (te_service_id e)),
        (''process_id'', opt_str (te_process_id e)), (''container_id'', opt_str (te_container_id e)),
        (''dependency_id'', opt_str (te_dependency_id e)),
        (''source_type'', JStr (source_value (te_source_type e))),
        (''attributes'', JObj (te_attributes e))]))"

section \<open>Metric definitions and series of a batch\<close>

text \<open>\<open>{key(row): row for row in rows}\<close>.\<close>

definition by_key :: "('r \<Rightarrow> 'k) \<Rightarrow> 'r list \<Rightarrow> ('k, 'r) dict" where
  "by_key key rows = dict_update (map (\<lambda>r. (key r, r)) rows) []"

definition series_columns :: "telemetry_event \<Rightarrow> uuid \<Rightarrow> nat \<Rightarrow> pystr \<Rightarrow> metric_series" where
  "series_columns e host_id definition_id fingerprint =
     \<lparr>ms_id = 0, ms_metric_definition_id = definition_id, ms_host_id = host_id,
      ms_service_id = te_service_id e, ms_process_id = te_process_id e,
      ms_container_id = te_container_id e, ms_dependency_id = te_dependency_id e,
      ms_source_type = source_value (te_source_type e), ms_attributes = te_attributes e,
      ms_fingerprint = fingerprint\<rparr>"

definition select_definitions :: "pystr list \<Rightarrow> database \<Rightarrow> (pystr, metric_definition) dict" where
  "select_definitions names db =
     by_key md_name (filter (\<lambda>d. md_name d \<in> set names) (trows (db_definitions db)))"

definition select_series :: "pystr list \<Rightarrow> database \<Rightarrow> (pystr, metric_series) dict" where
  "select_series fingerprints db =
     by_key ms_fingerprint (filter (\<lambda>s. ms_fingerprint s \<in> set fingerprints) (trows (db_series db)))"

definition batch_units :: "telemetry_event list \<Rightarrow> (pystr, pystr option) dict" where
  "batch_units events = fold (\<lambda>e. dict_setdefault (te_name e) (te_unit e)) events []"

definition batch_fingerprints ::
  "(telemetry_event \<Rightarrow> pystr) \<Rightarrow> telemetry_event list \<Rightarrow> (pystr, telemetry_event) dict" where
  "batch_fingerprints fp events = fold (\<lambda>e. dict_setdefault (fp e) e) events []"

definition metric_series_batch ::
  "(telemetry_event \<Rightarrow> pystr) \<Rightarrow> telemetry_event list \<Rightarrow> uuid \<Rightarrow> database \<Rightarrow> database
    \<Rightarrow> failure + (pystr, metric_series) dict \<times> database" where
  "metric_series_batch fp events host_id seen current =
     (if events = [] then Inr ([], current)
      else
        let units = batch_units events;
            fingerprints = batch_fingerprints fp events;
            names = map fst units;
            definitions = select_definitions names seen;
            missing_definitions = filter (\<lambda>nu. fst nu \<notin> fst ` set definitions) units;
            current1 = current\<lparr>db_definitions :=
              insert_all md_name fst definition_row missing_definitions (db_definitions current)\<rparr>;
            definitions1 = (if missing_definitions \<noteq> [] then select_definitions names current1 else definitions);
            series = select_series (map fst fingerprints) seen
        in bind_result
             (map_result (\<lambda>(fingerprint, e). case dict_get definitions1 (te_name e) of
                  None \<Rightarrow> Inl (Unhandled ''KeyError'')
                | Some d \<Rightarrow> Inr (series_columns e host_id (md_id d) fingerprint))
               (filter (\<lambda>fe. fst fe \<notin> fst ` set series) fingerprints))
             (\<lambda>missing_series.
               let current2 = current1\<lparr>db_series :=
                     insert_all ms_fingerprint ms_fingerprint series_row missing_series (db_series current1)\<rparr>;
                   series1 = (if missing_series \<noteq> [] then select_series (map fst fingerprints) current2 else series)
               in Inr (series1, current2)))"

section \<open>Checking the events\<close>

definition owned_ids :: "uuid \<Rightarrow> ('a inventory_row_scheme) list \<Rightarrow> uuid list" where
  "owned_ids host_id rows = map iv_id (filter (\<lambda>r. iv_host_id r = host_id) rows)"

definition foreign :: "uuid option \<Rightarrow> uuid list \<Rightarrow> bool" where
  "foreign reference owned = (case reference of None \<Rightarrow> False | Some r \<Rightarrow> r \<notin> set owned)"

definition identity_error :: "pystr \<Rightarrow> error_item list" where
  "identity_error msg = [\<lparr>err_type = ''identity'', err_msg = msg\<rparr>]"

definition check_event ::
  "decoder \<Rightarrow> (rat \<Rightarrow> string) \<Rightarrow> agent_identity \<Rightarrow> database \<Rightarrow> json \<Rightarrow> error_item list + telemetry_event" where
  "check_event decode frepr ident db raw =
     bind_result (validate_event decode frepr raw) (\<lambda>e.
       if te_host_id e \<noteq> None \<and> te_host_id e \<noteq> Some (ai_host_id ident)
         then Inl (identity_error ''host_id does not match authenticated agent'')
       else if foreign (te_service_id e) (owned_ids (ai_host_id ident) (db_services db))
         then Inl (identity_error ''service_id does not belong to authenticated agent'')
       else if foreign (te_process_id e) (owned_ids (ai_host_id ident) (db_processes db))
         then Inl (identity_error ''process_id does not belong to authenticated agent'')
       else if foreign (te_container_id e) (owned_ids (ai_host_id ident) (db_containers db))
         then Inl (identity_error ''container_id does not belong to authenticated agent'')
       else if foreign (te_dependency_id e) (owned_ids (ai_host_id ident) (db_dependencies db))
         then Inl (identity_error ''dependency_id does not belong to authenticated agent'')
       else Inr e)"

definition raw_event_id :: "(json \<Rightarrow> pystr) \<Rightarrow> json \<Rightarrow> pystr option" where
  "raw_event_id pstr raw = (case obj_get raw ''event_id'' of None \<Rightarrow> None
     | Some v \<Rightarrow> if json_truthy v then Some (py_str pstr v) else None)"

fun check_events ::
  "(json \<Rightarrow> error_item list + telemetry_event) \<Rightarrow> (json \<Rightarrow> pystr option) \<Rightarrow> nat \<Rightarrow> json list
    \<Rightarrow> telemetry_event list \<times> rejected_event list" where
  "check_events check event_id index [] = ([], [])"
| "check_events check event_id index (raw # raws) =
     (case check_events check event_id (Suc index) raws of (valid, rejected) \<Rightarrow>
        (case check raw of
           Inr e \<Rightarrow> (e # valid, rejected)
         | Inl errors \<Rightarrow>
             (valid, \<lparr>rj_index = index, rj_event_id = event_id raw, rj_errors = errors\<rparr> # rejected)))"

section \<open>Rows\<close>

definition receipt_row :: "agent_identity \<Rightarrow> datetime \<Rightarrow> telemetry_event \<Rightarrow> event_receipt" where
  "receipt_row ident now e =
     \<lparr>rc_agent_id = ai_agent_id ident, rc_event_id = te_event_id e,
      rc_event_timestamp = te_timestamp e, rc_received_at = now\<rparr>"

text \<open>A validated metric event has a value.\<close>

definition sample_row :: "telemetry_event \<Rightarrow> nat \<Rightarrow> metric_sample" where
  "sample_row e series_id =
     \<lparr>sm_timestamp = te_timestamp e, sm_event_id = te_event_id e, sm_series_id = series_id,
      sm_observed = te_observed e, sm_sequence = te_sequence e, sm_value = the (te_value e),
      sm_experiment_id = te_experiment_id e\<rparr>"

definition log_row :: "agent_identity \<Rightarrow> telemetry_event \<Rightarrow> log_event" where
  "log_row ident e =
     \<lparr>le_timestamp = te_timestamp e, le_event_id = te_event_id e, le_host_id = ai_host_id ident,
      le_service_id = te_service_id e, le_process_id = te_process_id e,
      le_container_id = te_container_id e, le_dependency_id = te_dependency_id e,
      le_experiment_id = te_experiment_id e, le_observed = te_observed e,
      le_sequence = te_sequence e, le_source_type = source_value (te_source_type e),
      le_severity = te_severity e, le_event_type = te_event_type e,
      le_message = (case te_message e of None \<Rightarrow> [] | Some m \<Rightarrow> m), le_attributes = te_attributes e\<rparr>"

definition timeline_row :: "agent_identity \<Rightarrow> telemetry_event \<Rightarrow> timeline_event" where
  "timeline_row ident e =
     \<lparr>tl_timestamp = te_timestamp e, tl_event_id = te_event_id e, tl_host_id = ai_host_id ident,
      tl_service_id = te_service_id e, tl_process_id = te_process_id e,
      tl_dependency_id = te_dependency_id e, tl_experiment_id = te_experiment_id e,
      tl_observed = te_observed e, tl_sequence = te_sequence e,
      tl_source_type = source_value (te_source_type e),
      tl_signal_type = signal_value (te_signal_type e), tl_name = te_name e,
      tl_event_type = te_event_type e, tl_message = te_message e, tl_attributes = te_attributes e\<rparr>"

abbreviation metrics_of :: "telemetry_event list \<Rightarrow> telemetry_event list" where
  "metrics_of es \<equiv> filter (\<lambda>e. te_signal_type e = METRIC) es"

abbreviation logs_of :: "telemetry_event list \<Rightarrow> telemetry_event list" where
  "logs_of es \<equiv> filter (\<lambda>e. te_signal_type e = LOG) es"

abbreviation others_of :: "telemetry_event list \<Rightarrow> telemetry_event list" where
  "others_of es \<equiv> filter (\<lambda>e. te_signal_type e \<noteq> METRIC \<and> te_signal_type e \<noteq> LOG) es"

definition store_events ::
  "agent_identity \<Rightarrow> datetime \<Rightarrow> (telemetry_event \<Rightarrow> metric_series option) \<Rightarrow> telemetry_event list
    \<Rightarrow> database \<Rightarrow> failure + database" where
  "store_events ident now series_of accepted db =
     bind_result
       (map_result (\<lambda>e. case series_of e of
            None \<Rightarrow> Inl (Unhandled ''KeyError'') | Some s \<Rightarrow> Inr (sample_row e (ms_id s)))
          (metrics_of accepted))
       (\<lambda>samples. Inr (db\<lparr>
          db_event_receipts := db_event_receipts db @ map (receipt_row ident now) accepted,
          db_samples := db_samples db @ samples,
          db_logs := db_logs db @ map (log_row ident) (logs_of accepted),
          db_timeline := db_timeline db @ map (timeline_row ident) (others_of accepted)\<rparr>))"

section \<open>The transaction\<close>

definition find_receipt :: "uuid \<Rightarrow> uuid \<Rightarrow> database \<Rightarrow> batch_receipt option" where
  "find_receipt agent_id batch_id db =
     find (\<lambda>r. batch_key r = (agent_id, batch_id)) (db_batch_receipts db)"

definition replay :: "batch_receipt \<Rightarrow> batch_response" where
  "replay r = (bt_response r)\<lparr>br_duplicate_batch := True\<rparr>"

definition duplicate_ids :: "agent_identity \<Rightarrow> database \<Rightarrow> telemetry_event list \<Rightarrow> uuid list" where
  "duplicate_ids ident db valid =
     sort (remdups (map rc_event_id (filter (\<lambda>r. rc_agent_id r = ai_agent_id ident
        \<and> rc_event_id r \<in> te_event_id ` set valid) (db_event_receipts db))))"

text \<open>The part inside \<open>try\<close>, up to the commit: partitions, series, rows, the batch's receipt.\<close>

definition write_batch ::
  "(telemetry_event \<Rightarrow> pystr) \<Rightarrow> agent_identity \<Rightarrow> datetime \<Rightarrow> bytes \<Rightarrow> batch_response \<Rightarrow> telemetry_event list
    \<Rightarrow> database \<Rightarrow> database \<Rightarrow> failure + database" where
  "write_batch fp ident now digest response accepted seen current =
     (let parts = ensure_partitions TIMELINE_EVENTS Hourly (map te_timestamp (others_of accepted))
            (ensure_partitions LOG_EVENTS Hourly (map te_timestamp (logs_of accepted))
              (ensure_partitions METRIC_SAMPLES Hourly (map te_timestamp (metrics_of accepted)) current))
      in bind_result (metric_series_batch fp (metrics_of accepted) (ai_host_id ident) seen parts)
           (\<lambda>(series, db). bind_result (store_events ident now (\<lambda>e. dict_get series (fp e)) accepted db)
             (\<lambda>db'. Inr (db'\<lparr>db_batch_receipts := db_batch_receipts db' @
                 [\<lparr>bt_agent_id = ai_agent_id ident, bt_batch_id = br_batch_id response,
                   bt_payload_digest = digest, bt_received_at = now, bt_response = response\<rparr>]\<rparr>))))"

definition ingest_batch ::
  "(string \<Rightarrow> string) \<Rightarrow> (rat \<Rightarrow> string) \<Rightarrow> (json \<Rightarrow> pystr) \<Rightarrow> decoder \<Rightarrow> agent_identity \<Rightarrow> telemetry_batch \<Rightarrow> json
    \<Rightarrow> int \<Rightarrow> datetime \<Rightarrow> database \<Rightarrow> database \<Rightarrow> (failure + batch_response) \<times> database" where
  "ingest_batch sha frepr pstr decode ident batch raw_payload normal_limit now seen current =
     (if \<not> tb_backfill batch \<and> normal_limit < int (length (tb_events batch))
        then (Inl (HTTPException 413 (''normal batches may contain at most '' @ int_str normal_limit @ '' events'')), current)
      else
        let digest = canonical_digest sha frepr raw_payload in
        case find_receipt (ai_agent_id ident) (tb_batch_id batch) seen of
          Some r \<Rightarrow>
            if bt_payload_digest r \<noteq> digest
              then (Inl (HTTPException 409 ''batch_id was already used with a different payload''), current)
            else (Inr (replay r), current)
        | None \<Rightarrow>
          (case check_events (check_event decode frepr ident seen) (raw_event_id pstr) 0 (tb_events batch) of
            (valid, rejected) \<Rightarrow>
              let duplicates = duplicate_ids ident seen valid;
                  accepted = filter (\<lambda>e. te_event_id e \<notin> set duplicates) valid;
                  response = \<lparr>br_batch_id = tb_batch_id batch, br_duplicate_batch = False,
                    br_accepted = map te_event_id accepted, br_duplicates = duplicates,
                    br_rejected = rejected, br_commit_watermark = None\<rparr>;
                  fp = (\<lambda>e. series_fingerprint sha frepr e (ai_host_id ident))
              in (case write_batch fp ident now digest response accepted seen current of
                    Inl f \<Rightarrow> (Inl f, current)
                  | Inr db \<Rightarrow>
                      if keys_ok db then (Inr response, db)
                      else (case find_receipt (ai_agent_id ident) (tb_batch_id batch) current of
                          Some winner \<Rightarrow>
                            if bt_payload_digest winner = digest then (Inr (replay winner), current)
                            else (Inl (Unhandled ''IntegrityError''), current)
                        | None \<Rightarrow> (Inl (Unhandled ''IntegrityError''), current)))))"

end
