(* ===== verification/Metric_Series.thy ===== *)
theory Metric_Series
  imports Ingestion
begin

text \<open>
  The bulk resolution of metric definitions and series does what handling the events one by one
  would do: the same rows with the same ids in the same order, and every event finds its series.
  The comparison is with \<open>resolve_one\<close>, the per-event path that
  \<open>_metric_series_batch\<close> says it replaces.
\<close>

section \<open>Lookups\<close>

lemma map_of_key_find: "map_of (map (\<lambda>r. (key r, r)) rows) k = find (\<lambda>r. key r = k) rows"
  by (induction rows) auto

lemma by_key_get: "distinct (map key rows) \<Longrightarrow> dict_get (by_key key rows) k = find (\<lambda>r. key r = k) rows"
proof -
  assume d: "distinct (map key rows)"
  have ks: "map fst (map (\<lambda>r. (key r, r)) rows) = map key rows" by simp
  have "map_of (rev (map (\<lambda>r. (key r, r)) rows)) = map_of (map (\<lambda>r. (key r, r)) rows)"
    using d by (intro map_of_inject_set [THEN iffD2])
      (simp_all only: ks rev_map [symmetric] distinct_rev set_rev)
  then show ?thesis by (simp add: by_key_def dict_update_get map_of_key_find)
qed

lemma by_key_keys: "fst ` set (by_key key rows) = key ` set rows"
  by (force simp: by_key_def dict_update_keys)

lemma find_filter_key: "find (\<lambda>r. key r = k) (filter (\<lambda>r. key r \<in> K) rows)
    = (if k \<in> K then find (\<lambda>r. key r = k) rows else None)"
  by (induction rows) auto

lemma select_definitions_get:
  "distinct (map md_name (trows (db_definitions db))) \<Longrightarrow>
   dict_get (select_definitions names db) n = (if n \<in> set names then find_key md_name n (db_definitions db) else None)"
  by (simp add: select_definitions_def by_key_get distinct_map_filter find_filter_key find_key_def)

lemma select_definitions_keys:
  "fst ` set (select_definitions names db) = set names \<inter> md_name ` set (trows (db_definitions db))"
  by (auto simp: select_definitions_def by_key_keys)

lemma select_series_get:
  "distinct (map ms_fingerprint (trows (db_series db))) \<Longrightarrow>
   dict_get (select_series fps db) f = (if f \<in> set fps then find_key ms_fingerprint f (db_series db) else None)"
  by (simp add: select_series_def by_key_get distinct_map_filter find_filter_key find_key_def)

lemma select_series_keys:
  "fst ` set (select_series fps db) = set fps \<inter> ms_fingerprint ` set (trows (db_series db))"
  by (auto simp: select_series_def by_key_keys)

lemma batch_units_eq: "batch_units events = map (\<lambda>e. (te_name e, te_unit e)) (first_by te_name events)"
  by (simp add: batch_units_def fold_setdefault_first_by)

lemma batch_fingerprints_eq: "batch_fingerprints fp events = map (\<lambda>e. (fp e, e)) (first_by fp events)"
  by (simp add: batch_fingerprints_def fold_setdefault_first_by)

section \<open>The rows that come out\<close>

definition new_definitions :: "telemetry_event list \<Rightarrow> metric_definition table \<Rightarrow> metric_definition table" where
  "new_definitions events t =
     insert_all md_name fst definition_row (map (\<lambda>e. (te_name e, te_unit e)) events) t"

definition columns_of ::
  "(telemetry_event \<Rightarrow> pystr) \<Rightarrow> uuid \<Rightarrow> metric_definition table \<Rightarrow> telemetry_event \<Rightarrow> metric_series" where
  "columns_of fp host_id defs e =
     series_columns e host_id (case find_key md_name (te_name e) defs of None \<Rightarrow> 0 | Some d \<Rightarrow> md_id d) (fp e)"

definition new_series ::
  "(telemetry_event \<Rightarrow> pystr) \<Rightarrow> uuid \<Rightarrow> metric_definition table \<Rightarrow> telemetry_event list \<Rightarrow> metric_series table
    \<Rightarrow> metric_series table" where
  "new_series fp host_id defs events t =
     insert_all ms_fingerprint ms_fingerprint series_row (map (columns_of fp host_id defs) events) t"

text \<open>What was committed since the transaction's reads only added definitions and series.\<close>

definition extends :: "database \<Rightarrow> database \<Rightarrow> bool" where
  "extends seen current \<longleftrightarrow>
     (\<forall>n r. find_key md_name n (db_definitions seen) = Some r \<longrightarrow> find_key md_name n (db_definitions current) = Some r)
     \<and> (\<forall>f r. find_key ms_fingerprint f (db_series seen) = Some r \<longrightarrow> find_key ms_fingerprint f (db_series current) = Some r)"

definition series_ok :: "database \<Rightarrow> bool" where
  "series_ok db \<longleftrightarrow> table_ok md_id md_name (db_definitions db) \<and> table_ok ms_id ms_fingerprint (db_series db)"

lemma extends_refl [simp]: "extends db db"
  by (simp add: extends_def)

lemma series_okD:
  "series_ok db \<Longrightarrow> distinct (map md_name (trows (db_definitions db)))"
  "series_ok db \<Longrightarrow> distinct (map ms_fingerprint (trows (db_series db)))"
  unfolding series_ok_def using table_ok_keys by blast+

lemma columns_of_fingerprint [simp]: "ms_fingerprint (columns_of fp host_id defs e) = fp e"
  by (simp add: columns_of_def series_columns_def)

lemma key_in_iff: "k \<in> key ` set (trows t) \<longleftrightarrow> (\<exists>r. find_key key k t = Some r)"
  using find_key_None [of key k t] by (cases "find_key key k t") auto

lemma extends_keys:
  "extends seen current \<Longrightarrow> md_name ` set (trows (db_definitions seen)) \<subseteq> md_name ` set (trows (db_definitions current))"
  "extends seen current \<Longrightarrow> ms_fingerprint ` set (trows (db_series seen)) \<subseteq> ms_fingerprint ` set (trows (db_series current))"
  by (auto simp only: extends_def key_in_iff subset_iff)

lemma new_definitions_missing:
  assumes "K \<subseteq> md_name ` set (trows t)"
  shows "insert_all md_name fst definition_row (filter (\<lambda>nu. fst nu \<notin> K) (batch_units events)) t
       = new_definitions events t"
proof -
  have "batch_units events = first_by fst (map (\<lambda>e. (te_name e, te_unit e)) events)"
    by (simp add: batch_units_eq first_by_map)
  with assms show ?thesis
    by (simp add: new_definitions_def definitions_table.ins_all_skip definitions_table.ins_all_first_by)
qed

lemma new_series_missing:
  assumes "K \<subseteq> ms_fingerprint ` set (trows t)"
  shows "insert_all ms_fingerprint ms_fingerprint series_row
      (map (\<lambda>(f, e). columns_of fp host_id defs e) (filter (\<lambda>fe. fst fe \<notin> K) (batch_fingerprints fp events))) t
    = new_series fp host_id defs events t"
proof -
  have "map (\<lambda>(f, e). columns_of fp host_id defs e) (filter (\<lambda>fe. fst fe \<notin> K) (batch_fingerprints fp events))
      = filter (\<lambda>c. ms_fingerprint c \<notin> K) (first_by ms_fingerprint (map (columns_of fp host_id defs) events))"
    by (simp add: batch_fingerprints_eq first_by_map filter_map o_def)
  with assms show ?thesis
    by (simp add: new_series_def series_table.ins_all_skip series_table.ins_all_first_by)
qed

lemma find_new_definitions:
  "e \<in> set events \<Longrightarrow> \<exists>r. find_key md_name (te_name e) (new_definitions events t) = Some r"
  using definitions_table.find_ins_all_isSome [of "(te_name e, te_unit e)" "map (\<lambda>e. (te_name e, te_unit e)) events" t]
  by (simp add: new_definitions_def image_eqI)

lemma find_new_series:
  "e \<in> set events \<Longrightarrow> \<exists>r. find_key ms_fingerprint (fp e) (new_series fp host_id defs events t) = Some r"
  using series_table.find_ins_all_isSome [of "columns_of fp host_id defs e" "map (columns_of fp host_id defs) events" t]
  by (simp add: new_series_def image_eqI)

lemma map_result_all: "(\<And>x. x \<in> set xs \<Longrightarrow> f x = Inr (g x)) \<Longrightarrow> map_result f xs = Inr (map g xs)"
  by (induction xs) auto

text \<open>What the second selection answers: the definition each event gets, whether it was there or is new.\<close>

lemma selected_definition:
  fixes events seen current
  defines "names \<equiv> map fst (batch_units events)" and "D \<equiv> new_definitions events (db_definitions current)"
  assumes "series_ok seen" "series_ok current" "extends seen current" and e: "e \<in> set events"
  shows "dict_get (if filter (\<lambda>nu. fst nu \<notin> fst ` set (select_definitions names seen)) (batch_units events) \<noteq> []
        then select_definitions names (current\<lparr>db_definitions := D\<rparr>) else select_definitions names seen) (te_name e)
    = find_key md_name (te_name e) D"
proof (cases "filter (\<lambda>nu. fst nu \<notin> fst ` set (select_definitions names seen)) (batch_units events) = []")
  case True
  have names: "te_name e \<in> set names" using e by (simp add: names_def batch_units_eq image_image)
  then obtain nu where "nu \<in> set (batch_units events)" "te_name e = fst nu" unfolding names_def set_map by blast
  with True have "te_name e \<in> fst ` set (select_definitions names seen)" by (auto simp: filter_empty_conv)
  then obtain r where r: "find_key md_name (te_name e) (db_definitions seen) = Some r"
    by (auto simp: select_definitions_keys key_in_iff [symmetric]) (metis key_in_iff imageI)
  then have "find_key md_name (te_name e) (db_definitions current) = Some r"
    using assms(5) by (simp add: extends_def)
  then have "find_key md_name (te_name e) D = Some r"
    unfolding D_def new_definitions_def by (rule definitions_table.find_ins_all_old)
  with r True names show ?thesis by (simp add: select_definitions_get series_okD(1) [OF assms(3)])
next
  case False
  have "distinct (map md_name (trows D))"
    using assms(4) definitions_table.ok_ins_all [THEN table_ok_keys]
    unfolding series_ok_def D_def new_definitions_def by blast
  moreover have "te_name e \<in> set names" using e by (simp add: names_def batch_units_eq image_image)
  ultimately show ?thesis using False by (simp add: select_definitions_get)
qed

text \<open>The columns of the series that are missing: every definition is found.\<close>

lemma missing_columns:
  assumes "\<And>e. e \<in> set events \<Longrightarrow> dict_get defs (te_name e) = find_key md_name (te_name e) (new_definitions events t)"
  shows "map_result (\<lambda>(fingerprint, e). case dict_get defs (te_name e) of
          None \<Rightarrow> Inl (Unhandled ''KeyError'')
        | Some d \<Rightarrow> Inr (series_columns e host_id (md_id d) fingerprint)) (filter P (batch_fingerprints fp events))
     = Inr (map (\<lambda>(f, e). columns_of fp host_id (new_definitions events t) e) (filter P (batch_fingerprints fp events)))"
proof (rule map_result_all)
  fix x assume "x \<in> set (filter P (batch_fingerprints fp events))"
  then obtain e where x: "x = (fp e, e)" "e \<in> set events"
    using set_first_by_subset [of fp events] by (auto simp: batch_fingerprints_eq)
  obtain d where "find_key md_name (te_name e) (new_definitions events t) = Some d" using find_new_definitions [OF x(2)] by blast
  with assms [OF x(2)] show "(\<lambda>(fingerprint, e). case dict_get defs (te_name e) of
          None \<Rightarrow> Inl (Unhandled ''KeyError'')
        | Some d \<Rightarrow> Inr (series_columns e host_id (md_id d) fingerprint)) x
      = Inr ((\<lambda>(f, e). columns_of fp host_id (new_definitions events t) e) x)"
    by (simp add: x columns_of_def)
qed

lemma selected_series:
  fixes fp events seen current host_id defs
  defines "fps \<equiv> map fst (batch_fingerprints fp events)" and "S \<equiv> new_series fp host_id defs events (db_series current)"
  assumes "series_ok seen" "series_ok current" "extends seen current" and e: "e \<in> set events"
  shows "dict_get (if map f (filter (\<lambda>fe. fst fe \<notin> fst ` set (select_series fps seen)) (batch_fingerprints fp events)) \<noteq> []
        then select_series fps (c\<lparr>db_series := S\<rparr>) else select_series fps seen) (fp e)
    = find_key ms_fingerprint (fp e) S"
proof (cases "filter (\<lambda>fe. fst fe \<notin> fst ` set (select_series fps seen)) (batch_fingerprints fp events) = []")
  case True
  have fps: "fp e \<in> set fps" using e by (simp add: fps_def batch_fingerprints_eq image_image)
  then obtain fe where "fe \<in> set (batch_fingerprints fp events)" "fp e = fst fe" unfolding fps_def set_map by blast
  with True have "fp e \<in> fst ` set (select_series fps seen)" by (auto simp: filter_empty_conv)
  then obtain r where r: "find_key ms_fingerprint (fp e) (db_series seen) = Some r"
    by (auto simp: select_series_keys key_in_iff [symmetric]) (metis key_in_iff imageI)
  then have "find_key ms_fingerprint (fp e) (db_series current) = Some r"
    using assms(5) by (simp add: extends_def)
  then have "find_key ms_fingerprint (fp e) S = Some r"
    unfolding S_def new_series_def by (rule series_table.find_ins_all_old)
  with r True fps show ?thesis by (simp add: select_series_get series_okD(2) [OF assms(3)])
next
  case False
  have "distinct (map ms_fingerprint (trows S))"
    using assms(4) series_table.ok_ins_all [THEN table_ok_keys]
    unfolding series_ok_def S_def new_series_def by blast
  moreover have "fp e \<in> set fps" using e by (simp add: fps_def batch_fingerprints_eq image_image)
  ultimately show ?thesis using False by (simp add: select_series_get)
qed

text \<open>The bulk resolution always succeeds; its tables and its answer in closed form.\<close>

lemma metric_series_batch_eq:
  assumes "series_ok seen" "series_ok current" "extends seen current"
  shows "\<exists>series. metric_series_batch fp events host_id seen current =
      Inr (series, current\<lparr>db_definitions := new_definitions events (db_definitions current),
        db_series := new_series fp host_id (new_definitions events (db_definitions current)) events (db_series current)\<rparr>)
    \<and> (\<forall>e \<in> set events. dict_get series (fp e) =
         find_key ms_fingerprint (fp e)
           (new_series fp host_id (new_definitions events (db_definitions current)) events (db_series current)))"
proof (cases "events = []")
  case True
  then show ?thesis by (simp add: metric_series_batch_def new_definitions_def new_series_def)
next
  case False
  let ?names = "map fst (batch_units events)" and ?fps = "map fst (batch_fingerprints fp events)"
  let ?D = "new_definitions events (db_definitions current)"
  let ?S = "new_series fp host_id ?D events (db_series current)"
  let ?defs = "select_definitions ?names seen" and ?ser = "select_series ?fps seen"
  let ?missing = "filter (\<lambda>nu. fst nu \<notin> fst ` set ?defs) (batch_units events)"
  let ?new = "map (\<lambda>(f, e). columns_of fp host_id ?D e) (filter (\<lambda>fe. fst fe \<notin> fst ` set ?ser) (batch_fingerprints fp events))"
  let ?c1 = "current\<lparr>db_definitions := ?D\<rparr>"
  have kd: "fst ` set ?defs \<subseteq> md_name ` set (trows (db_definitions current))"
    using extends_keys(1) [OF assms(3)] by (auto simp: select_definitions_keys)
  have ks: "fst ` set ?ser \<subseteq> ms_fingerprint ` set (trows (db_series current))"
    using extends_keys(2) [OF assms(3)] by (auto simp: select_series_keys)
  note D = new_definitions_missing [OF kd, of events] and S = new_series_missing [OF ks, of fp host_id ?D events]
  define defs1 where "defs1 = (if ?missing \<noteq> [] then select_definitions ?names ?c1 else ?defs)"
  define ser1 where "ser1 = (if ?new \<noteq> [] then select_series ?fps (?c1\<lparr>db_series := ?S\<rparr>) else ?ser)"
  have "\<And>e. e \<in> set events \<Longrightarrow> dict_get defs1 (te_name e) = find_key md_name (te_name e) ?D"
    unfolding defs1_def by (rule selected_definition [OF assms])
  note cols = missing_columns [OF this, of host_id "\<lambda>fe. fst fe \<notin> fst ` set ?ser" fp]
  have c1: "db_series ?c1 = db_series current" by simp
  have "metric_series_batch fp events host_id seen current = Inr (ser1, ?c1\<lparr>db_series := ?S\<rparr>)"
    unfolding metric_series_batch_def if_not_P [OF False] Let_def
    by (simp only: D defs1_def [symmetric] cols bind_result_simps c1 S ser1_def)
  moreover have "\<forall>e \<in> set events. dict_get ser1 (fp e) = find_key ms_fingerprint (fp e) ?S"
    unfolding ser1_def using selected_series [OF assms] by blast
  ultimately show ?thesis by auto
qed

section \<open>The per-event path\<close>

definition resolve_one :: "(telemetry_event \<Rightarrow> pystr) \<Rightarrow> uuid \<Rightarrow> telemetry_event \<Rightarrow> database \<Rightarrow> database" where
  "resolve_one fp host_id e db =
     (let db1 = db\<lparr>db_definitions :=
            insert_ignore md_name fst definition_row (te_name e, te_unit e) (db_definitions db)\<rparr>
      in db1\<lparr>db_series := insert_ignore ms_fingerprint ms_fingerprint series_row
            (columns_of fp host_id (db_definitions db1) e) (db_series db1)\<rparr>)"

lemma resolve_one_fold:
  "fold (resolve_one fp host_id) events db =
     db\<lparr>db_definitions := new_definitions events (db_definitions db),
       db_series := new_series fp host_id (new_definitions events (db_definitions db)) events (db_series db)\<rparr>"
proof (induction events arbitrary: db)
  case Nil
  then show ?case by (simp add: new_definitions_def new_series_def)
next
  case (Cons e events)
  let ?D1 = "insert_ignore md_name fst definition_row (te_name e, te_unit e) (db_definitions db)"
  let ?D = "new_definitions events ?D1"
  have D: "new_definitions (e # events) (db_definitions db) = ?D" by (simp add: new_definitions_def)
  obtain d where d: "find_key md_name (te_name e) ?D1 = Some d"
    using find_new_definitions [of e "[e]" "db_definitions db"] by (auto simp: new_definitions_def)
  then have "find_key md_name (te_name e) ?D = Some d"
    unfolding new_definitions_def by (rule definitions_table.find_ins_all_old)
  with d have c: "columns_of fp host_id ?D e = columns_of fp host_id ?D1 e" by (simp add: columns_of_def)
  let ?db1 = "db\<lparr>db_definitions := ?D1, db_series := insert_ignore ms_fingerprint ms_fingerprint series_row
      (columns_of fp host_id ?D1 e) (db_series db)\<rparr>"
  have "resolve_one fp host_id e db = ?db1" by (simp add: resolve_one_def)
  then have "fold (resolve_one fp host_id) (e # events) db = fold (resolve_one fp host_id) events ?db1" by simp
  also have "\<dots> = ?db1\<lparr>db_definitions := ?D,
      db_series := new_series fp host_id ?D events (db_series ?db1)\<rparr>"
    using Cons.IH [of ?db1] by simp
  also have "\<dots> = db\<lparr>db_definitions := ?D, db_series := new_series fp host_id ?D (e # events) (db_series db)\<rparr>"
    by (simp add: new_series_def c)
  finally show ?case by (simp add: D)
qed

text \<open>
  C6. The bulk resolution of a batch's metric definitions and series is equivalent to resolving its
  events one at a time, in order: the same tables with the same ids, first-seen units and series
  columns, and every event's fingerprint maps to the series row of that fingerprint. It never fails.
\<close>

theorem bulk_series_equals_per_event:
  assumes "series_ok db"
  shows "\<exists>series. metric_series_batch fp events host_id db db =
             Inr (series, fold (resolve_one fp host_id) events db)
           \<and> (\<forall>e \<in> set events. \<exists>row. dict_get series (fp e) = Some row
                \<and> find_key ms_fingerprint (fp e) (db_series (fold (resolve_one fp host_id) events db)) = Some row)"
  using metric_series_batch_eq [OF assms assms extends_refl, of fp events host_id]
    find_new_series [of _ events fp host_id]
  unfolding resolve_one_fold by fastforce

lemma series_ok_empty [simp]: "series_ok empty_database"
  by (simp add: series_ok_def empty_database_def)

text \<open>A CPU sample, for the examples.\<close>

definition cpu_event :: "uuid \<Rightarrow> pystr option \<Rightarrow> telemetry_event" where
  "cpu_event i u = \<lparr>te_event_id = i, te_timestamp = 0, te_observed = 0, te_sequence = 1, te_host_id = None,
     te_service_id = None, te_process_id = None, te_container_id = None, te_dependency_id = None,
     te_experiment_id = None, te_source_type = SYSTEM, te_signal_type = METRIC, te_name = ''cpu'',
     te_value = Some 1, te_unit = u, te_severity = None, te_event_type = None, te_message = None,
     te_attributes = []\<rparr>"

theorem bulk_series_equals_per_event_witness:
  "\<exists>series row. metric_series_batch te_name [cpu_event ''a'' (Some ''%''), cpu_event ''b'' None] ''h''
       empty_database empty_database
     = Inr (series, fold (resolve_one te_name ''h'') [cpu_event ''a'' (Some ''%''), cpu_event ''b'' None] empty_database)
     \<and> dict_get series ''cpu'' = Some row"
proof -
  have "te_name (cpu_event ''b'' None) = ''cpu''" by (simp add: cpu_event_def)
  then show ?thesis
    using bulk_series_equals_per_event [OF series_ok_empty, of te_name
        "[cpu_event ''a'' (Some ''%''), cpu_event ''b'' None]" "''h''"] by auto
qed

text \<open>
  Racing writers do no harm: whatever definitions and series other agents commit between this
  transaction's reads and its inserts, the resolution succeeds, keeps every row that was there, and
  maps each event to a row of the final series table with the event's fingerprint.
\<close>

theorem series_resolution_survives_races:
  assumes "series_ok seen" "series_ok current" "extends seen current"
  shows "\<exists>series db. metric_series_batch fp events host_id seen current = Inr (series, db)
     \<and> series_ok db \<and> extends current db
     \<and> (\<forall>e \<in> set events. \<exists>row. dict_get series (fp e) = Some row \<and> ms_fingerprint row = fp e
          \<and> row \<in> set (trows (db_series db)))"
proof -
  let ?D = "new_definitions events (db_definitions current)"
  let ?S = "new_series fp host_id ?D events (db_series current)"
  let ?db = "current\<lparr>db_definitions := ?D, db_series := ?S\<rparr>"
  have "series_ok ?db"
    using assms(2) by (simp add: series_ok_def new_definitions_def new_series_def
        definitions_table.ok_ins_all series_table.ok_ins_all)
  moreover have "extends current ?db"
    by (simp add: extends_def new_definitions_def new_series_def definitions_table.find_ins_all_old
        series_table.find_ins_all_old)
  moreover have "\<exists>row. find_key ms_fingerprint (fp e) ?S = Some row \<and> ms_fingerprint row = fp e
      \<and> row \<in> set (trows ?S)" if "e \<in> set events" for e
    using find_new_series [OF that] find_key_in [of ms_fingerprint "fp e" ?S] by blast
  ultimately show ?thesis
    using metric_series_batch_eq [OF assms, of fp events host_id] by fastforce
qed

text \<open>A definition that another agent committed in between, with its own unit.\<close>

definition raced_database :: database where
  "raced_database = empty_database\<lparr>db_definitions :=
     insert_all md_name fst definition_row [(''cpu'', Some ''%'')] (db_definitions empty_database)\<rparr>"

theorem series_resolution_survives_races_witness:
  "\<exists>series db row. metric_series_batch te_name [cpu_event ''a'' None] ''h'' empty_database raced_database = Inr (series, db)
     \<and> dict_get series ''cpu'' = Some row \<and> row \<in> set (trows (db_series db))"
proof -
  have "series_ok raced_database"
    by (simp add: series_ok_def raced_database_def empty_database_def definitions_table.ok_ins)
  moreover have "extends empty_database raced_database"
    by (simp add: extends_def raced_database_def empty_database_def find_key_def)
  moreover have "te_name (cpu_event ''a'' None) = ''cpu''" by (simp add: cpu_event_def)
  ultimately show ?thesis
    using series_resolution_survives_races [OF series_ok_empty, of raced_database te_name
        "[cpu_event ''a'' None]" "''h''"] by auto
qed

end
