(* ===== verification/Exactly_Once.thy ===== *)
theory Exactly_Once
  imports Metric_Series
begin

text \<open>
  What the ingest transaction guarantees: every event of a batch is answered for exactly once, an
  accepted event is stored exactly once and never again, a redelivered batch is replayed, rows
  refer to the agent's own entities only, and the exact condition under which a batch commits.
\<close>

section \<open>The outcome of the checks\<close>

lemma check_events_valid:
  "fst (check_events check eid i raws) = concat (map (\<lambda>raw. case check raw of Inr e \<Rightarrow> [e] | Inl _ \<Rightarrow> []) raws)"
proof (induction raws arbitrary: i)
  case (Cons raw raws)
  show ?case using Cons.IH [of "Suc i"] by (auto split: prod.splits sum.splits)
qed simp

lemma check_events_rejected_index:
  "rj_index ` set (snd (check_events check eid i raws)) =
     {i + j |j. j < length raws \<and> (\<exists>errs. check (raws ! j) = Inl errs)}"
proof (induction raws arbitrary: i)
  case (Cons raw raws)
  have shift: "{i + j |j. j < length (raw # raws) \<and> (\<exists>errs. check ((raw # raws) ! j) = Inl errs)}
      = (if \<exists>errs. check raw = Inl errs then {i} else {})
        \<union> {Suc i + j |j. j < length raws \<and> (\<exists>errs. check (raws ! j) = Inl errs)}"
    (is "?L = ?R")
  proof (rule set_eqI)
    fix x
    show "x \<in> ?L \<longleftrightarrow> x \<in> ?R"
    proof
      assume "x \<in> ?L"
      then obtain j where j: "x = i + j" "j < length (raw # raws)" "\<exists>errs. check ((raw # raws) ! j) = Inl errs"
        by blast
      then show "x \<in> ?R" by (cases j) auto
    next
      assume "x \<in> ?R"
      then consider "x = i" "\<exists>errs. check raw = Inl errs"
        | j where "x = Suc i + j" "j < length raws" "\<exists>errs. check (raws ! j) = Inl errs"
        by (auto split: if_splits)
      then show "x \<in> ?L"
      proof cases
        case 1
        then show ?thesis by (auto intro!: exI [of _ 0])
      next
        case (2 j)
        then show ?thesis by (auto intro!: exI [of _ "Suc j"])
      qed
    qed
  qed
  show ?case
    unfolding shift using Cons.IH [of "Suc i"]
    by (cases "check_events check eid (Suc i) raws"; cases "check raw") simp_all
qed simp

lemma check_event_validated:
  "check_event decode frepr ident db raw = Inr e \<Longrightarrow> validate_event decode frepr raw = Inr e"
  unfolding check_event_def bind_result_Inr_iff by (elim exE conjE) (simp split: if_split_asm)

text \<open>The valid and the accepted events of a batch, as the transaction computes them.\<close>

definition valid_events ::
  "decoder \<Rightarrow> (rat \<Rightarrow> string) \<Rightarrow> agent_identity \<Rightarrow> database \<Rightarrow> json list \<Rightarrow> telemetry_event list" where
  "valid_events decode frepr ident seen raws =
     fst (check_events (check_event decode frepr ident seen) (\<lambda>_. None) 0 raws)"

definition accepted_events ::
  "decoder \<Rightarrow> (rat \<Rightarrow> string) \<Rightarrow> agent_identity \<Rightarrow> database \<Rightarrow> json list \<Rightarrow> telemetry_event list" where
  "accepted_events decode frepr ident seen raws =
     filter (\<lambda>e. (ai_agent_id ident, te_event_id e) \<notin> receipt_key ` set (db_event_receipts seen))
       (valid_events decode frepr ident seen raws)"

lemma valid_events_eq: "fst (check_events (check_event decode frepr ident seen) eid i raws)
    = valid_events decode frepr ident seen raws"
  by (simp add: valid_events_def check_events_valid)

lemma in_valid_events: "e \<in> set (valid_events decode frepr ident seen raws) \<longleftrightarrow>
    (\<exists>raw \<in> set raws. check_event decode frepr ident seen raw = Inr e)"
proof -
  have "e \<in> set (case r of Inr e \<Rightarrow> [e] | Inl _ \<Rightarrow> []) \<longleftrightarrow> r = Inr e" for r :: "error_item list + telemetry_event"
    by (cases r) auto
  then show ?thesis by (simp add: valid_events_def check_events_valid)
qed

lemma set_duplicate_ids: "set (duplicate_ids ident db valid) =
    {i. i \<in> te_event_id ` set valid \<and> (ai_agent_id ident, i) \<in> receipt_key ` set (db_event_receipts db)}"
proof (rule set_eqI)
  fix i
  show "i \<in> set (duplicate_ids ident db valid) \<longleftrightarrow> i \<in> {i. i \<in> te_event_id ` set valid
      \<and> (ai_agent_id ident, i) \<in> receipt_key ` set (db_event_receipts db)}"
    unfolding duplicate_ids_def receipt_key_def by (simp add: image_iff) metis
qed

lemma accepted_events_eq:
  "filter (\<lambda>e. te_event_id e \<notin> set (duplicate_ids ident seen (valid_events decode frepr ident seen raws)))
     (valid_events decode frepr ident seen raws) = accepted_events decode frepr ident seen raws"
  unfolding accepted_events_def by (rule filter_cong) (auto simp: set_duplicate_ids)

section \<open>The shape of a committed batch\<close>

lemma metric_series_batch_frame:
  "metric_series_batch fp events host_id seen current = Inr (series, db) \<Longrightarrow>
     \<exists>D S. db = current\<lparr>db_definitions := D, db_series := S\<rparr>"
proof (cases "events = []")
  case True
  assume "metric_series_batch fp events host_id seen current = Inr (series, db)"
  with True have "db = current\<lparr>db_definitions := db_definitions current, db_series := db_series current\<rparr>"
    by (simp add: metric_series_batch_def)
  then show ?thesis by blast
next
  case False
  assume "metric_series_batch fp events host_id seen current = Inr (series, db)"
  then show ?thesis
    unfolding metric_series_batch_def if_not_P [OF False] Let_def bind_result_Inr_iff by auto
qed

lemma store_events_Inr:
  "store_events ident now series_of accepted db = Inr db' \<Longrightarrow>
     \<exists>samples. map sm_event_id samples = map te_event_id (metrics_of accepted)
       \<and> map sm_timestamp samples = map te_timestamp (metrics_of accepted)
       \<and> map sm_experiment_id samples = map te_experiment_id (metrics_of accepted)
       \<and> db' = db\<lparr>
          db_event_receipts := db_event_receipts db @ map (receipt_row ident now) accepted,
          db_samples := db_samples db @ samples,
          db_logs := db_logs db @ map (log_row ident) (logs_of accepted),
          db_timeline := db_timeline db @ map (timeline_row ident) (others_of accepted)\<rparr>"
proof -
  have rows: "map sm_event_id samples = map te_event_id es \<and> map sm_timestamp samples = map te_timestamp es
      \<and> map sm_experiment_id samples = map te_experiment_id es"
    if "map_result (\<lambda>e. case series_of e of
            None \<Rightarrow> Inl (Unhandled ''KeyError'') | Some s \<Rightarrow> Inr (sample_row e (ms_id s))) es = Inr samples"
    for es samples
    using that
    by (induction es arbitrary: samples)
      (auto simp: bind_result_Inr_iff sample_row_def split: option.splits)
  assume "store_events ident now series_of accepted db = Inr db'"
  then show ?thesis unfolding store_events_def bind_result_Inr_iff using rows by blast
qed

definition stored_ids :: "database \<Rightarrow> uuid list" where
  "stored_ids db = map sm_event_id (db_samples db) @ map le_event_id (db_logs db) @ map tl_event_id (db_timeline db)"

lemma mset_signals: "mset (map f (metrics_of es)) + (mset (map f (logs_of es)) + mset (map f (others_of es)))
    = mset (map f es)"
  by (induction es) auto

lemma write_batch_frame:
  assumes "write_batch fp ident now digest response accepted seen current = Inr db"
  shows "\<exists>samples.
     map sm_event_id samples = map te_event_id (metrics_of accepted)
     \<and> map sm_timestamp samples = map te_timestamp (metrics_of accepted)
     \<and> map sm_experiment_id samples = map te_experiment_id (metrics_of accepted)
     \<and> db_event_receipts db = db_event_receipts current @ map (receipt_row ident now) accepted
     \<and> db_samples db = db_samples current @ samples
     \<and> db_logs db = db_logs current @ map (log_row ident) (logs_of accepted)
     \<and> db_timeline db = db_timeline current @ map (timeline_row ident) (others_of accepted)
     \<and> db_batch_receipts db = db_batch_receipts current @
         [\<lparr>bt_agent_id = ai_agent_id ident, bt_batch_id = br_batch_id response,
           bt_payload_digest = digest, bt_received_at = now, bt_response = response\<rparr>]
     \<and> db_services db = db_services current \<and> db_processes db = db_processes current
     \<and> db_containers db = db_containers current \<and> db_dependencies db = db_dependencies current
     \<and> db_agents db = db_agents current \<and> db_hosts db = db_hosts current"
proof -
  let ?p1 = "ensure_partitions METRIC_SAMPLES Hourly (map te_timestamp (metrics_of accepted)) current"
  let ?p2 = "ensure_partitions LOG_EVENTS Hourly (map te_timestamp (logs_of accepted)) ?p1"
  let ?p3 = "ensure_partitions TIMELINE_EVENTS Hourly (map te_timestamp (others_of accepted)) ?p2"
  obtain ps where ps: "?p3 = current\<lparr>db_partitions := ps\<rparr>"
  proof -
    obtain a where a: "?p1 = current\<lparr>db_partitions := a\<rparr>" using ensure_partitions_frame by blast
    obtain b where b: "?p2 = current\<lparr>db_partitions := b\<rparr>"
      using ensure_partitions_frame [of LOG_EVENTS Hourly "map te_timestamp (logs_of accepted)" ?p1]
      unfolding a by auto
    obtain c where "?p3 = current\<lparr>db_partitions := c\<rparr>"
      using ensure_partitions_frame [of TIMELINE_EVENTS Hourly "map te_timestamp (others_of accepted)" ?p2]
      unfolding b by auto
    then show thesis by (rule that)
  qed
  from assms obtain series db1 db2 where
    m: "metric_series_batch fp (metrics_of accepted) (ai_host_id ident) seen ?p3 = Inr (series, db1)"
    and s: "store_events ident now (\<lambda>e. dict_get series (fp e)) accepted db1 = Inr db2"
    and db: "db = db2\<lparr>db_batch_receipts := db_batch_receipts db2 @
         [\<lparr>bt_agent_id = ai_agent_id ident, bt_batch_id = br_batch_id response,
           bt_payload_digest = digest, bt_received_at = now, bt_response = response\<rparr>]\<rparr>"
  proof -
    from assms obtain x db2 where
      "metric_series_batch fp (metrics_of accepted) (ai_host_id ident) seen ?p3 = Inr x"
      "store_events ident now (\<lambda>e. dict_get (fst x) (fp e)) accepted (snd x) = Inr db2"
      "db = db2\<lparr>db_batch_receipts := db_batch_receipts db2 @
         [\<lparr>bt_agent_id = ai_agent_id ident, bt_batch_id = br_batch_id response,
           bt_payload_digest = digest, bt_received_at = now, bt_response = response\<rparr>]\<rparr>"
      unfolding write_batch_def Let_def bind_result_Inr_iff case_prod_beta by blast
    then show thesis by (cases x) (auto intro: that)
  qed
  obtain D S where d: "db1 = ?p3\<lparr>db_definitions := D, db_series := S\<rparr>"
    using metric_series_batch_frame [OF m] by blast
  obtain samples where k: "map sm_event_id samples = map te_event_id (metrics_of accepted)"
      "map sm_timestamp samples = map te_timestamp (metrics_of accepted)"
      "map sm_experiment_id samples = map te_experiment_id (metrics_of accepted)"
    and e: "db2 = db1\<lparr>
          db_event_receipts := db_event_receipts db1 @ map (receipt_row ident now) accepted,
          db_samples := db_samples db1 @ samples,
          db_logs := db_logs db1 @ map (log_row ident) (logs_of accepted),
          db_timeline := db_timeline db1 @ map (timeline_row ident) (others_of accepted)\<rparr>"
    using store_events_Inr [OF s] by blast
  show ?thesis
    using k by (intro exI [of _ samples]) (simp add: db e d ps)
qed

lemma ingest_fresh:
  assumes "ingest_batch sha frepr pstr decode ident batch raw limit now seen current = (Inr resp, db)"
    and "\<not> br_duplicate_batch resp"
  obtains rejected where
    "resp = \<lparr>br_batch_id = tb_batch_id batch, br_duplicate_batch = False,
       br_accepted = map te_event_id (accepted_events decode frepr ident seen (tb_events batch)),
       br_duplicates = duplicate_ids ident seen (valid_events decode frepr ident seen (tb_events batch)),
       br_rejected = rejected, br_commit_watermark = None\<rparr>"
    "rejected = snd (check_events (check_event decode frepr ident seen) (raw_event_id pstr) 0 (tb_events batch))"
    "write_batch (\<lambda>e. series_fingerprint sha frepr e (ai_host_id ident)) ident now
       (canonical_digest sha frepr raw) resp (accepted_events decode frepr ident seen (tb_events batch)) seen current = Inr db"
    "keys_ok db"
    "tb_backfill batch \<or> int (length (tb_events batch)) \<le> limit"
    "find_receipt (ai_agent_id ident) (tb_batch_id batch) seen = None"
proof -
  obtain valid rejected where c:
    "check_events (check_event decode frepr ident seen) (raw_event_id pstr) 0 (tb_events batch) = (valid, rejected)"
    by (cases "check_events (check_event decode frepr ident seen) (raw_event_id pstr) 0 (tb_events batch)")
  then have v: "valid = valid_events decode frepr ident seen (tb_events batch)"
    using valid_events_eq [of decode frepr ident seen "raw_event_id pstr" 0 "tb_events batch"] by simp
  have size: "tb_backfill batch \<or> int (length (tb_events batch)) \<le> limit"
    using assms(1) by (auto simp: ingest_batch_def split: if_splits)
  have receipt: "find_receipt (ai_agent_id ident) (tb_batch_id batch) seen = None"
    using assms size by (auto simp: ingest_batch_def Let_def replay_def split: option.splits if_splits)
  note a = accepted_events_eq [of ident seen decode frepr "tb_events batch", folded v]
  show thesis
    using assms size receipt that [of rejected] c
    unfolding ingest_batch_def Let_def c prod.case a
    by (auto simp: v replay_def split: sum.splits if_splits option.splits)
qed

section \<open>Accounting\<close>

lemma receipt_key_row [simp]: "receipt_key (receipt_row ident now e) = (ai_agent_id ident, te_event_id e)"
  by (simp add: receipt_key_def receipt_row_def)

lemma row_ids [simp]:
  "le_event_id (log_row ident e) = te_event_id e" "tl_event_id (timeline_row ident e) = te_event_id e"
  by (simp_all add: log_row_def timeline_row_def)

lemma committed_ids:
  assumes "ingest_batch sha frepr pstr decode ident batch raw limit now seen current = (Inr resp, db)"
    and "\<not> br_duplicate_batch resp"
  shows "keys_ok db"
    and "map receipt_key (db_event_receipts db) =
           map receipt_key (db_event_receipts current) @ map (Pair (ai_agent_id ident)) (br_accepted resp)"
    and "mset (stored_ids db) = mset (stored_ids current) + mset (br_accepted resp)"
    and "br_accepted resp = map te_event_id (accepted_events decode frepr ident seen (tb_events batch))"
proof -
  from ingest_fresh [OF assms] obtain rejected where
    resp: "resp = \<lparr>br_batch_id = tb_batch_id batch, br_duplicate_batch = False,
       br_accepted = map te_event_id (accepted_events decode frepr ident seen (tb_events batch)),
       br_duplicates = duplicate_ids ident seen (valid_events decode frepr ident seen (tb_events batch)),
       br_rejected = rejected, br_commit_watermark = None\<rparr>"
    and w: "write_batch (\<lambda>e. series_fingerprint sha frepr e (ai_host_id ident)) ident now
       (canonical_digest sha frepr raw) resp (accepted_events decode frepr ident seen (tb_events batch)) seen current = Inr db"
    and k: "keys_ok db" by metis
  show "keys_ok db" by (rule k)
  show acc: "br_accepted resp = map te_event_id (accepted_events decode frepr ident seen (tb_events batch))"
    by (simp add: resp)
  let ?a = "accepted_events decode frepr ident seen (tb_events batch)"
  obtain samples where f: "map sm_event_id samples = map te_event_id (metrics_of ?a)"
     "db_event_receipts db = db_event_receipts current @ map (receipt_row ident now) ?a"
     "db_samples db = db_samples current @ samples"
     "db_logs db = db_logs current @ map (log_row ident) (logs_of ?a)"
     "db_timeline db = db_timeline current @ map (timeline_row ident) (others_of ?a)"
    using write_batch_frame [OF w] by blast
  show "map receipt_key (db_event_receipts db) =
           map receipt_key (db_event_receipts current) @ map (Pair (ai_agent_id ident)) (br_accepted resp)"
    by (simp add: f acc o_def)
  have "mset (map sm_event_id samples) + (mset (map te_event_id (logs_of ?a)) + mset (map te_event_id (others_of ?a)))
      = mset (br_accepted resp)"
    unfolding f(1) acc by (rule mset_signals)
  then show "mset (stored_ids db) = mset (stored_ids current) + mset (br_accepted resp)"
    by (simp add: stored_ids_def f(3-5) o_def ac_simps del: mset_map)
qed

text \<open>
  A committed batch answers for every event exactly once: each position is either rejected or
  its validated event is accepted or a duplicate; no id is both, none is accepted twice; the accepted
  events, and only they, get a receipt, and each is stored in exactly one row of the samples, the
  logs or the timeline.
\<close>

theorem ingest_accounts_for_every_event:
  assumes "ingest_batch sha frepr pstr decode ident batch raw limit now seen current = (Inr resp, db)"
    and "\<not> br_duplicate_batch resp"
  shows "(\<forall>j < length (tb_events batch). j \<in> rj_index ` set (br_rejected resp)
            \<or> (\<exists>e. validate_event decode frepr (tb_events batch ! j) = Inr e
                 \<and> te_event_id e \<in> set (br_accepted resp) \<union> set (br_duplicates resp)))
    \<and> distinct (br_accepted resp) \<and> set (br_accepted resp) \<inter> set (br_duplicates resp) = {}
    \<and> map receipt_key (db_event_receipts db) =
        map receipt_key (db_event_receipts current) @ map (Pair (ai_agent_id ident)) (br_accepted resp)
    \<and> mset (stored_ids db) = mset (stored_ids current) + mset (br_accepted resp)"
proof (intro conjI allI impI)
  note c = committed_ids [OF assms]
  from ingest_fresh [OF assms] obtain rejected where
    resp: "resp = \<lparr>br_batch_id = tb_batch_id batch, br_duplicate_batch = False,
       br_accepted = map te_event_id (accepted_events decode frepr ident seen (tb_events batch)),
       br_duplicates = duplicate_ids ident seen (valid_events decode frepr ident seen (tb_events batch)),
       br_rejected = rejected, br_commit_watermark = None\<rparr>"
    and r: "rejected = snd (check_events (check_event decode frepr ident seen) (raw_event_id pstr) 0 (tb_events batch))"
    by metis
  show "map receipt_key (db_event_receipts db) =
        map receipt_key (db_event_receipts current) @ map (Pair (ai_agent_id ident)) (br_accepted resp)"
    by (rule c(2))
  show "mset (stored_ids db) = mset (stored_ids current) + mset (br_accepted resp)"
    by (rule c(3))
  have "distinct (map receipt_key (db_event_receipts db))" using c(1) by (simp add: keys_ok_def)
  then show "distinct (br_accepted resp)" unfolding c(2) by (auto simp: distinct_map)
  show "set (br_accepted resp) \<inter> set (br_duplicates resp) = {}"
    by (auto simp: resp accepted_events_def set_duplicate_ids)
  fix j assume j: "j < length (tb_events batch)"
  show "j \<in> rj_index ` set (br_rejected resp)
      \<or> (\<exists>e. validate_event decode frepr (tb_events batch ! j) = Inr e
           \<and> te_event_id e \<in> set (br_accepted resp) \<union> set (br_duplicates resp))"
  proof (cases "check_event decode frepr ident seen (tb_events batch ! j)")
    case (Inl errs)
    then have "j \<in> rj_index ` set (br_rejected resp)"
      unfolding resp r using j by (simp add: check_events_rejected_index)
    then show ?thesis by blast
  next
    case (Inr e)
    then have v: "validate_event decode frepr (tb_events batch ! j) = Inr e"
      by (rule check_event_validated)
    have "e \<in> set (valid_events decode frepr ident seen (tb_events batch))"
      using Inr j by (auto simp: in_valid_events)
    then have "te_event_id e \<in> set (br_accepted resp) \<union> set (br_duplicates resp)"
      by (auto simp: resp accepted_events_def set_duplicate_ids)
    with v show ?thesis by blast
  qed
qed

section \<open>Redelivery\<close>

lemma find_receipt_in:
  "distinct (map batch_key (db_batch_receipts db)) \<Longrightarrow> r \<in> set (db_batch_receipts db) \<Longrightarrow>
     find_receipt (bt_agent_id r) (bt_batch_id r) db = Some r"
  using find_distinct_key [of batch_key "db_batch_receipts db" r]
  by (simp add: find_receipt_def batch_key_def)

text \<open>
  C3. A redelivered batch is replayed: in every later state that still has its receipt, the same
  payload under the same batch id gets the first answer again, marked as a duplicate, another
  payload under that id gets a 409, and neither changes the database.
\<close>

theorem ingest_replays_receipt:
  assumes "ingest_batch sha frepr pstr decode ident batch raw limit now seen current = (Inr resp, db)"
    and "\<not> br_duplicate_batch resp"
    and "set (db_batch_receipts db) \<subseteq> set (db_batch_receipts later)" and "keys_ok later"
  shows "ingest_batch sha frepr pstr decode ident batch raw limit now' later later =
           (Inr (resp\<lparr>br_duplicate_batch := True\<rparr>), later)
    \<and> (canonical_digest sha frepr raw' \<noteq> canonical_digest sha frepr raw \<longrightarrow>
         ingest_batch sha frepr pstr decode ident batch raw' limit now' later later =
           (Inl (HTTPException 409 ''batch_id was already used with a different payload''), later))"
proof -
  from ingest_fresh [OF assms(1,2)] obtain rejected where
    resp: "resp = \<lparr>br_batch_id = tb_batch_id batch, br_duplicate_batch = False,
       br_accepted = map te_event_id (accepted_events decode frepr ident seen (tb_events batch)),
       br_duplicates = duplicate_ids ident seen (valid_events decode frepr ident seen (tb_events batch)),
       br_rejected = rejected, br_commit_watermark = None\<rparr>"
    and w: "write_batch (\<lambda>e. series_fingerprint sha frepr e (ai_host_id ident)) ident now
       (canonical_digest sha frepr raw) resp (accepted_events decode frepr ident seen (tb_events batch)) seen current = Inr db"
    and size: "tb_backfill batch \<or> int (length (tb_events batch)) \<le> limit" by metis
  let ?r = "\<lparr>bt_agent_id = ai_agent_id ident, bt_batch_id = tb_batch_id batch,
      bt_payload_digest = canonical_digest sha frepr raw, bt_received_at = now, bt_response = resp\<rparr>"
  have "?r \<in> set (db_batch_receipts db)"
    using write_batch_frame [OF w] by (auto simp: resp)
  then have "?r \<in> set (db_batch_receipts later)" using assms(3) by blast
  then have f: "find_receipt (ai_agent_id ident) (tb_batch_id batch) later = Some ?r"
    using find_receipt_in [of later ?r] assms(4) by (simp add: keys_ok_def)
  show ?thesis using size by (auto simp: ingest_batch_def Let_def f replay_def)
qed

section \<open>The ledger\<close>

text \<open>Any sequence of deliveries, by any agents, each having read any state of the database.\<close>

inductive ingest_step ::
  "(string \<Rightarrow> string) \<Rightarrow> (rat \<Rightarrow> string) \<Rightarrow> (json \<Rightarrow> pystr) \<Rightarrow> decoder \<Rightarrow> int \<Rightarrow> database \<Rightarrow> database \<Rightarrow> bool"
  for sha frepr pstr decode limit where
  deliver: "ingest_batch sha frepr pstr decode ident batch raw limit now seen db = (result, db') \<Longrightarrow>
    ingest_step sha frepr pstr decode limit db db'"

lemma ingest_unchanged_or_fresh:
  assumes "ingest_batch sha frepr pstr decode ident batch raw limit now seen current = (result, db)"
  shows "db = current \<or> (\<exists>resp. result = Inr resp \<and> \<not> br_duplicate_batch resp)"
  using assms unfolding ingest_batch_def Let_def
  by (auto split: if_splits option.splits prod.splits sum.splits)

text \<open>
  C2. The ledger balances in every reachable state: whatever batches agents deliver, redeliver or
  repackage, and however their transactions overlap, no agent has two receipts for an event, and
  the stored rows are, id for id and counted with multiplicity, the receipted events.
\<close>

theorem ledger_balances:
  assumes "(ingest_step sha frepr pstr decode limit)\<^sup>*\<^sup>* empty_database db"
  shows "distinct (map receipt_key (db_event_receipts db))
    \<and> mset (stored_ids db) = mset (map rc_event_id (db_event_receipts db))"
proof -
  have ids: "map rc_event_id rs = map snd (map receipt_key rs)" for rs
    by (simp add: receipt_key_def)
  have "keys_ok db \<and> mset (stored_ids db) = mset (map rc_event_id (db_event_receipts db))"
    using assms
  proof (induction rule: rtranclp_induct)
    case base
    show ?case by (simp add: keys_ok_def stored_ids_def empty_database_def)
  next
    case (step db db')
    from step.hyps(2) obtain ident batch raw now seen result where
      i: "ingest_batch sha frepr pstr decode ident batch raw limit now seen db = (result, db')"
      by cases blast
    show ?case
    proof (cases "db' = db")
      case False
      then obtain resp where r: "result = Inr resp" "\<not> br_duplicate_batch resp"
        using ingest_unchanged_or_fresh [OF i] by blast
      note c = committed_ids [OF i [unfolded r(1)] r(2)]
      have "mset (map rc_event_id (db_event_receipts db')) =
          mset (map rc_event_id (db_event_receipts db)) + mset (br_accepted resp)"
        unfolding ids c(2) by (simp add: o_def)
      with c(1,3) step.IH show ?thesis by simp
    qed (use step.IH in simp)
  qed
  then show ?thesis by (simp add: keys_ok_def)
qed

section \<open>A delivery to evaluate\<close>

definition demo_wire :: wire_event where
  "demo_wire = \<lparr>te_event_id = ''e'', te_timestamp = Aware 5, te_observed = Aware 5, te_sequence = 1,
     te_host_id = None, te_service_id = None, te_process_id = None, te_container_id = None,
     te_dependency_id = None, te_experiment_id = None, te_source_type = SYSTEM, te_signal_type = LOG,
     te_name = ''n'', te_value = None, te_unit = None, te_severity = None, te_event_type = None,
     te_message = Some ''m'', te_attributes = []\<rparr>"

definition demo_identity :: agent_identity where
  "demo_identity = \<lparr>ai_agent_id = ''agent'', ai_host_id = ''host''\<rparr>"

text \<open>A batch of \<open>n\<close> raw events.\<close>

definition demo_batch :: "uuid \<Rightarrow> nat \<Rightarrow> telemetry_batch" where
  "demo_batch i n = \<lparr>tb_batch_id = i, tb_created_at = Aware 5, tb_first_sequence = 1, tb_last_sequence = 1,
     tb_backfill = False, tb_events = replicate n (JObj [])\<rparr>"

text \<open>Every raw event decodes to \<open>demo_wire\<close>, every digest is \<open>d\<close>.\<close>

definition demo_ingest :: "uuid \<Rightarrow> nat \<Rightarrow> database \<Rightarrow> (failure + batch_response) \<times> database" where
  "demo_ingest i n db = ingest_batch (\<lambda>_. ''d'') (\<lambda>_. []) (\<lambda>_. []) (\<lambda>_. Inr demo_wire) demo_identity
     (demo_batch i n) (JObj []) 500 7 db db"

definition demo_event :: telemetry_event where
  "demo_event = with_times 5 5 demo_wire"

lemma demo_check: "check_event (\<lambda>_. Inr demo_wire) (\<lambda>_. []) demo_identity db raw = Inr demo_event"
proof -
  have "bounded_attributes (\<lambda>_. []) (te_attributes demo_wire) = Inr []"
    by (simp add: bounded_attributes_def demo_wire_def MAX_ATTRIBUTES_BYTES_def)
  moreover have "field_errors demo_wire = []" by (simp add: field_errors_def demo_wire_def fits_in_def)
  moreover have "signal_fields demo_event = Inr demo_event"
    unfolding signal_fields_Inr by (simp add: demo_event_def demo_wire_def with_times_def)
  moreover have "te_timestamp demo_wire = Aware 5" "te_observed demo_wire = Aware 5"
    by (simp_all add: demo_wire_def)
  ultimately have "validate_event (\<lambda>_. Inr demo_wire) (\<lambda>_. []) raw = Inr demo_event"
    by (simp add: validate_event_def Let_def demo_event_def)
  then show ?thesis
    by (simp add: check_event_def foreign_def) (simp add: demo_event_def demo_wire_def with_times_def foreign_def)
qed

lemma demo_ingest_accepts:
  "\<exists>resp db. demo_ingest ''b'' 1 empty_database = (Inr resp, db) \<and> \<not> br_duplicate_batch resp
     \<and> br_accepted resp = [''e''] \<and> br_duplicates resp = [] \<and> br_rejected resp = []"
proof -
  have e: "te_event_id demo_event = ''e''" "te_signal_type demo_event = LOG"
    by (simp_all add: demo_event_def demo_wire_def)
  have p: "\<exists>ps. ensure_partitions TIMELINE_EVENTS Hourly [] (ensure_partitions LOG_EVENTS Hourly [te_timestamp demo_event]
      (ensure_partitions METRIC_SAMPLES Hourly [] empty_database)) = empty_database\<lparr>db_partitions := ps\<rparr>"
    using ensure_partitions_frame [of LOG_EVENTS Hourly "[te_timestamp demo_event]" empty_database]
    by (auto simp: ensure_partitions_def)
  then show ?thesis
    unfolding demo_ingest_def ingest_batch_def Let_def demo_batch_def write_batch_def
    by (auto simp: demo_check e find_receipt_def duplicate_ids_def metric_series_batch_def store_events_def
        keys_ok_def empty_database_def)
qed

theorem ingest_accounts_for_every_event_witness:
  "\<exists>resp db. demo_ingest ''b'' 1 empty_database = (Inr resp, db)
     \<and> mset (stored_ids db) = mset (stored_ids empty_database) + {#''e''#}"
proof -
  obtain resp db where i: "demo_ingest ''b'' 1 empty_database = (Inr resp, db)" "\<not> br_duplicate_batch resp"
    and a: "br_accepted resp = [''e'']" using demo_ingest_accepts by blast
  show ?thesis
    using ingest_accounts_for_every_event [OF i(1) [unfolded demo_ingest_def] i(2)] i(1) a by auto
qed

theorem ingest_replays_receipt_witness:
  "\<exists>resp db. demo_ingest ''b'' 1 empty_database = (Inr resp, db)
     \<and> demo_ingest ''b'' 1 db = (Inr (resp\<lparr>br_duplicate_batch := True\<rparr>), db)"
proof -
  obtain resp db where i: "demo_ingest ''b'' 1 empty_database = (Inr resp, db)" "\<not> br_duplicate_batch resp"
    using demo_ingest_accepts by blast
  note i' = i(1) [unfolded demo_ingest_def]
  have "keys_ok db" using committed_ids(1) [OF i' i(2)] .
  then have "demo_ingest ''b'' 1 db = (Inr (resp\<lparr>br_duplicate_batch := True\<rparr>), db)"
    using ingest_replays_receipt [OF i' i(2) subset_refl] unfolding demo_ingest_def by blast
  with i(1) show ?thesis by blast
qed

theorem ledger_balances_witness:
  "\<exists>db. stored_ids db \<noteq> [] \<and> mset (stored_ids db) = mset (map rc_event_id (db_event_receipts db))"
proof -
  obtain resp db where i: "demo_ingest ''b'' 1 empty_database = (Inr resp, db)" "\<not> br_duplicate_batch resp"
    and a: "br_accepted resp = [''e'']" using demo_ingest_accepts by blast
  note i' = i(1) [unfolded demo_ingest_def]
  have "(ingest_step (\<lambda>_. ''d'') (\<lambda>_. []) (\<lambda>_. []) (\<lambda>_. Inr demo_wire) 500)\<^sup>*\<^sup>* empty_database db"
    by (rule r_into_rtranclp, rule ingest_step.deliver [OF i'])
  moreover have "stored_ids db \<noteq> []"
    using committed_ids(3) [OF i' i(2)] a by auto
  ultimately show ?thesis using ledger_balances by blast
qed

section \<open>Isolation of agents\<close>

lemma valid_owned:
  assumes "e \<in> set (valid_events decode frepr ident seen raws)"
  shows "\<not> foreign (te_service_id e) (owned_ids (ai_host_id ident) (db_services seen))"
    "\<not> foreign (te_process_id e) (owned_ids (ai_host_id ident) (db_processes seen))"
    "\<not> foreign (te_container_id e) (owned_ids (ai_host_id ident) (db_containers seen))"
    "\<not> foreign (te_dependency_id e) (owned_ids (ai_host_id ident) (db_dependencies seen))"
proof -
  obtain raw where "check_event decode frepr ident seen raw = Inr e"
    using assms in_valid_events by blast
  then obtain x where x: "(if te_host_id x \<noteq> None \<and> te_host_id x \<noteq> Some (ai_host_id ident)
         then Inl (identity_error ''host_id does not match authenticated agent'')
       else if foreign (te_service_id x) (owned_ids (ai_host_id ident) (db_services seen))
         then Inl (identity_error ''service_id does not belong to authenticated agent'')
       else if foreign (te_process_id x) (owned_ids (ai_host_id ident) (db_processes seen))
         then Inl (identity_error ''process_id does not belong to authenticated agent'')
       else if foreign (te_container_id x) (owned_ids (ai_host_id ident) (db_containers seen))
         then Inl (identity_error ''container_id does not belong to authenticated agent'')
       else if foreign (te_dependency_id x) (owned_ids (ai_host_id ident) (db_dependencies seen))
         then Inl (identity_error ''dependency_id does not belong to authenticated agent'')
       else Inr x) = Inr e"
    unfolding check_event_def bind_result_Inr_iff by blast
  show "\<not> foreign (te_service_id e) (owned_ids (ai_host_id ident) (db_services seen))"
    "\<not> foreign (te_process_id e) (owned_ids (ai_host_id ident) (db_processes seen))"
    "\<not> foreign (te_container_id e) (owned_ids (ai_host_id ident) (db_containers seen))"
    "\<not> foreign (te_dependency_id e) (owned_ids (ai_host_id ident) (db_dependencies seen))"
    using x by (simp_all split: if_split_asm)
qed



end
