(* ===== verification/Commit.thy ===== *)
theory Commit
  imports Exactly_Once
begin

text \<open>
  When the ingest transaction commits: a batch within its size limit and without a receipt commits
  exactly when its accepted events have distinct ids and their primary keys are free; otherwise the
  integrity error is raised and nothing changes. Every row it stores has a partition to go to.
\<close>

section \<open>Writing always gets to the commit\<close>

definition batch_parts :: "telemetry_event list \<Rightarrow> database \<Rightarrow> database" where
  "batch_parts accepted current =
     ensure_partitions TIMELINE_EVENTS Hourly (map te_timestamp (others_of accepted))
       (ensure_partitions LOG_EVENTS Hourly (map te_timestamp (logs_of accepted))
         (ensure_partitions METRIC_SAMPLES Hourly (map te_timestamp (metrics_of accepted)) current))"

lemma batch_parts_frame: "\<exists>ps. batch_parts accepted current = current\<lparr>db_partitions := ps\<rparr>"
proof -
  let ?p1 = "ensure_partitions METRIC_SAMPLES Hourly (map te_timestamp (metrics_of accepted)) current"
  let ?p2 = "ensure_partitions LOG_EVENTS Hourly (map te_timestamp (logs_of accepted)) ?p1"
  obtain a where a: "?p1 = current\<lparr>db_partitions := a\<rparr>" using ensure_partitions_frame by blast
  obtain b where b: "?p2 = current\<lparr>db_partitions := b\<rparr>"
    using ensure_partitions_frame [of LOG_EVENTS Hourly "map te_timestamp (logs_of accepted)" ?p1]
    unfolding a by auto
  show ?thesis
    using ensure_partitions_frame [of TIMELINE_EVENTS Hourly "map te_timestamp (others_of accepted)" ?p2]
    unfolding batch_parts_def unfolding b by auto
qed

lemma store_events_total:
  assumes "\<forall>e \<in> set (metrics_of accepted). \<exists>s. series_of e = Some s"
  shows "\<exists>db'. store_events ident now series_of accepted db = Inr db'"
proof -
  have "map_result (\<lambda>e. case series_of e of
            None \<Rightarrow> Inl (Unhandled ''KeyError'') | Some s \<Rightarrow> Inr (sample_row e (ms_id s))) (metrics_of accepted)
      = Inr (map (\<lambda>e. sample_row e (ms_id (the (series_of e)))) (metrics_of accepted))"
    using assms by (intro map_result_all) (auto split: option.splits)
  then show ?thesis by (simp add: store_events_def)
qed

lemma write_batch_total:
  assumes "series_ok db"
  shows "\<exists>db'. write_batch fp ident now digest response accepted db db = Inr db'"
proof -
  obtain ps where ps: "batch_parts accepted db = db\<lparr>db_partitions := ps\<rparr>"
    using batch_parts_frame by blast
  have ok: "series_ok (batch_parts accepted db)" and ext: "extends db (batch_parts accepted db)"
    using assms by (simp_all add: ps series_ok_def extends_def)
  let ?D = "new_definitions (metrics_of accepted) (db_definitions db)"
  let ?S = "new_series fp (ai_host_id ident) ?D (metrics_of accepted) (db_series db)"
  obtain series db1 where m: "metric_series_batch fp (metrics_of accepted) (ai_host_id ident) db (batch_parts accepted db)
      = Inr (series, db1)"
    and s: "\<forall>e \<in> set (metrics_of accepted). dict_get series (fp e) = find_key ms_fingerprint (fp e) ?S"
    using metric_series_batch_eq [OF assms ok ext, of fp "metrics_of accepted" "ai_host_id ident"]
    by (auto simp: ps)
  have "\<forall>e \<in> set (metrics_of accepted). \<exists>row. dict_get series (fp e) = Some row"
    using s find_new_series [of _ "metrics_of accepted" fp] by simp
  then obtain db2 where "store_events ident now (\<lambda>e. dict_get series (fp e)) accepted db1 = Inr db2"
    using store_events_total [of accepted "\<lambda>e. dict_get series (fp e)"] by blast
  then show ?thesis
    unfolding write_batch_def Let_def batch_parts_def [symmetric] m by simp
qed

section \<open>The keys\<close>

definition keys_free :: "telemetry_event list \<Rightarrow> database \<Rightarrow> bool" where
  "keys_free accepted db \<longleftrightarrow>
     distinct (map te_event_id accepted)
     \<and> (\<forall>e \<in> set (metrics_of accepted). (te_timestamp e, te_event_id e) \<notin> sample_key ` set (db_samples db))
     \<and> (\<forall>e \<in> set (logs_of accepted). (te_timestamp e, te_event_id e) \<notin> log_key ` set (db_logs db))
     \<and> (\<forall>e \<in> set (others_of accepted). (te_timestamp e, te_event_id e) \<notin> timeline_key ` set (db_timeline db))"

lemma distinct_pairs: "distinct (map g es) \<Longrightarrow> distinct (map (\<lambda>e. (f e, g e)) es)"
  by (induction es) auto

lemma distinct_key_append:
  "distinct (map key old) \<Longrightarrow> distinct ks \<Longrightarrow> map key new = ks \<Longrightarrow>
   distinct (map key (old @ new)) \<longleftrightarrow> (\<forall>k \<in> set ks. k \<notin> key ` set old)"
  by (auto simp: image_iff)

lemma event_keys_free:
  assumes "distinct (map te_event_id a)" and "distinct (map key old)"
    and "map key new = map (\<lambda>e. (te_timestamp e, te_event_id e)) (filter P a)"
  shows "distinct (map key (old @ new)) \<longleftrightarrow> (\<forall>e \<in> set (filter P a). (te_timestamp e, te_event_id e) \<notin> key ` set old)"
proof -
  have "distinct (map (\<lambda>e. (te_timestamp e, te_event_id e)) (filter P a))"
    by (rule distinct_pairs [OF distinct_map_filter [OF assms(1)]])
  from distinct_key_append [OF assms(2) this assms(3)] show ?thesis by simp
qed

lemma keys_ok_iff_free:
  assumes "write_batch fp ident now digest response (accepted_events decode frepr ident db raws) db db = Inr db'"
    and "keys_ok db" and "find_receipt (ai_agent_id ident) (br_batch_id response) db = None"
  shows "keys_ok db' \<longleftrightarrow> keys_free (accepted_events decode frepr ident db raws) db"
proof -
  let ?a = "accepted_events decode frepr ident db raws"
  obtain samples where k: "map sm_event_id samples = map te_event_id (metrics_of ?a)"
     "map sm_timestamp samples = map te_timestamp (metrics_of ?a)"
    and f: "db_event_receipts db' = db_event_receipts db @ map (receipt_row ident now) ?a"
     "db_samples db' = db_samples db @ samples"
     "db_logs db' = db_logs db @ map (log_row ident) (logs_of ?a)"
     "db_timeline db' = db_timeline db @ map (timeline_row ident) (others_of ?a)"
     "db_batch_receipts db' = db_batch_receipts db @
         [\<lparr>bt_agent_id = ai_agent_id ident, bt_batch_id = br_batch_id response,
           bt_payload_digest = digest, bt_received_at = now, bt_response = response\<rparr>]"
    using write_batch_frame [OF assms(1)] by blast
  have old: "distinct (map receipt_key (db_event_receipts db))" "distinct (map batch_key (db_batch_receipts db))"
    "distinct (map sample_key (db_samples db))" "distinct (map log_key (db_logs db))"
    "distinct (map timeline_key (db_timeline db))"
    using assms(2) by (simp_all add: keys_ok_def)
  have fresh: "(ai_agent_id ident, te_event_id e) \<notin> receipt_key ` set (db_event_receipts db)" if "e \<in> set ?a" for e
    using that by (simp add: accepted_events_def)
  have "distinct (map receipt_key (db_event_receipts db')) \<longleftrightarrow> distinct (map te_event_id ?a)"
    using old(1) fresh by (auto simp: f(1) o_def distinct_map inj_on_def)
  moreover have "distinct (map batch_key (db_batch_receipts db'))"
    using old(2) assms(3) by (auto simp: f(5) find_receipt_def find_None_iff batch_key_def)
  moreover have "distinct (map sample_key (db_samples db')) \<longleftrightarrow>
      (\<forall>e \<in> set (metrics_of ?a). (te_timestamp e, te_event_id e) \<notin> sample_key ` set (db_samples db))"
    if d: "distinct (map te_event_id ?a)"
  proof -
    have "map sample_key samples = zip (map sm_timestamp samples) (map sm_event_id samples)"
      by (simp add: sample_key_def zip_map_map zip_same_conv_map)
    then have "map sample_key samples = map (\<lambda>e. (te_timestamp e, te_event_id e)) (metrics_of ?a)"
      unfolding k by (simp add: zip_map_map zip_same_conv_map)
    then show ?thesis unfolding f(2) by (rule event_keys_free [OF d old(3)])
  qed
  moreover have "distinct (map log_key (db_logs db')) \<longleftrightarrow>
      (\<forall>e \<in> set (logs_of ?a). (te_timestamp e, te_event_id e) \<notin> log_key ` set (db_logs db))"
    if d: "distinct (map te_event_id ?a)"
    unfolding f(3) by (rule event_keys_free [OF d old(4)]) (simp add: log_key_def log_row_def)
  moreover have "distinct (map timeline_key (db_timeline db')) \<longleftrightarrow>
      (\<forall>e \<in> set (others_of ?a). (te_timestamp e, te_event_id e) \<notin> timeline_key ` set (db_timeline db))"
    if d: "distinct (map te_event_id ?a)"
    unfolding f(4) by (rule event_keys_free [OF d old(5)]) (simp add: timeline_key_def timeline_row_def)
  ultimately show ?thesis unfolding keys_ok_def keys_free_def by blast
qed

lemma batch_commits:
  assumes "series_ok db" "keys_ok db"
    and "find_receipt (ai_agent_id ident) (tb_batch_id batch) db = None"
    and "tb_backfill batch \<or> int (length (tb_events batch)) \<le> limit"
  shows "if keys_free (accepted_events decode frepr ident db (tb_events batch)) db
    then \<exists>resp db'. ingest_batch sha frepr pstr decode ident batch raw limit now db db = (Inr resp, db')
      \<and> \<not> br_duplicate_batch resp
    else ingest_batch sha frepr pstr decode ident batch raw limit now db db = (Inl (Unhandled ''IntegrityError''), db)"
proof -
  obtain valid rejected where c:
    "check_events (check_event decode frepr ident db) (raw_event_id pstr) 0 (tb_events batch) = (valid, rejected)"
    by (cases "check_events (check_event decode frepr ident db) (raw_event_id pstr) 0 (tb_events batch)")
  then have v: "valid = valid_events decode frepr ident db (tb_events batch)"
    using valid_events_eq [of decode frepr ident db "raw_event_id pstr" 0 "tb_events batch"] by simp
  note a = accepted_events_eq [of ident db decode frepr "tb_events batch", folded v]
  let ?a = "accepted_events decode frepr ident db (tb_events batch)"
  let ?resp = "\<lparr>br_batch_id = tb_batch_id batch, br_duplicate_batch = False,
      br_accepted = map te_event_id ?a, br_duplicates = duplicate_ids ident db valid,
      br_rejected = rejected, br_commit_watermark = None\<rparr>"
  obtain db' where w: "write_batch (\<lambda>e. series_fingerprint sha frepr e (ai_host_id ident)) ident now
      (canonical_digest sha frepr raw) ?resp ?a db db = Inr db'"
    using write_batch_total [OF assms(1)] by blast
  have iff: "keys_ok db' \<longleftrightarrow> keys_free ?a db"
    using keys_ok_iff_free [OF w assms(2)] assms(3) by simp
  have size: "\<not> (\<not> tb_backfill batch \<and> limit < int (length (tb_events batch)))" using assms(4) by auto
  have "ingest_batch sha frepr pstr decode ident batch raw limit now db db =
      (if keys_ok db' then (Inr ?resp, db') else (Inl (Unhandled ''IntegrityError''), db))"
    unfolding ingest_batch_def if_not_P [OF size] Let_def assms(3) option.case c prod.case a w sum.case by simp
  with iff show ?thesis by simp
qed



end
