(* ===== verification/Sender.thy ===== *)
theory Sender
  imports Transport Spool_Queue
begin

text \<open>
  The delivery loop \<open>Agent.sender\<close> of \<open>agent/src/temporalrca_agent/runtime.py\<close>: choosing a
  batch, reading the server's answer, acknowledging and quarantining, and backing off. An iteration
  is split where the code waits for the network, \<open>pick_batch\<close> before and \<open>finish\<close> after, so that
  other tasks can use the spool in between.
\<close>

section \<open>Reading the response\<close>

text \<open>Iterating over a JSON value, and indexing a list as Python does.\<close>

fun py_iter :: "json \<Rightarrow> exn + json list" where
  "py_iter (JArr xs) = Inr xs"
| "py_iter (JStr s) = Inr (map (\<lambda>c. JStr [c]) s)"
| "py_iter (JObj kvs) = Inr (map (\<lambda>kv. JStr (fst kv)) kvs)"
| "py_iter _ = Inl TypeError"

definition py_index :: "'a list \<Rightarrow> int \<Rightarrow> exn + 'a" where
  "py_index xs i =
     (if 0 \<le> i \<and> i < int (length xs) then Inr (xs ! nat i)
      else if i < 0 \<and> - int (length xs) \<le> i then Inr (xs ! nat (i + int (length xs)))
      else Inl IndexError)"

text \<open>\<open>isinstance(v, int)\<close>, which holds of booleans too.\<close>

fun as_index :: "json option \<Rightarrow> int option" where
  "as_index (Some (JInt i)) = Some i"
| "as_index (Some (JBool b)) = Some (if b then 1 else 0)"
| "as_index _ = None"

definition get_or :: "('k, 'v) dict \<Rightarrow> 'k \<Rightarrow> 'v \<Rightarrow> 'v" where
  "get_or d k x = (case map_of d k of None \<Rightarrow> x | Some v \<Rightarrow> v)"

text \<open>The event a rejection is about: by its id, else by its index in the batch.\<close>

definition rejected_id :: "(json \<Rightarrow> pystr) \<Rightarrow> pystr list \<Rightarrow> (pystr, json) dict \<Rightarrow> exn + pystr option" where
  "rejected_id pstr ids kvs =
     (let event_id = get_or kvs ''event_id'' JNull in
      if json_truthy event_id then Inr (Some (py_str pstr event_id))
      else (case as_index (map_of kvs ''index'') of
          None \<Rightarrow> Inr None
        | Some i \<Rightarrow>
            if i < int (length ids)
            then bind_result (py_index ids i) (\<lambda>e. Inr (if e = [] then None else Some e))
            else Inr None))"

definition rejection_reason :: "(rat \<Rightarrow> string) \<Rightarrow> (pystr, json) dict \<Rightarrow> pystr" where
  "rejection_reason frepr kvs =
     json_dumps_spaced frepr (get_or kvs ''errors'' (get_or kvs ''reason'' (JStr ''permanent rejection'')))"

fun collect_rejections ::
  "(rat \<Rightarrow> string) \<Rightarrow> (json \<Rightarrow> pystr) \<Rightarrow> pystr list \<Rightarrow> json list \<Rightarrow> (pystr, pystr) dict \<Rightarrow> exn + (pystr, pystr) dict"
where
  "collect_rejections frepr pstr ids [] rejected = Inr rejected"
| "collect_rejections frepr pstr ids (JObj kvs # items) rejected =
     bind_result (rejected_id pstr ids kvs) (\<lambda>e.
       collect_rejections frepr pstr ids items
         (case e of None \<Rightarrow> rejected | Some i \<Rightarrow> dict_set i (rejection_reason frepr kvs) rejected))"
| "collect_rejections frepr pstr ids (_ # items) rejected = Inl AttributeError"

text \<open>
  What \<open>WHERE event_id=?\<close> compares with: the text of a scalar; null matches nothing, a list or a
  dictionary cannot be bound.
\<close>

fun sql_text :: "(rat \<Rightarrow> string) \<Rightarrow> json \<Rightarrow> exn + pystr list" where
  "sql_text frepr (JStr s) = Inr [s]"
| "sql_text frepr JNull = Inr []"
| "sql_text frepr (JBool b) = Inr [if b then ''1'' else ''0'']"
| "sql_text frepr (JInt i) = Inr [int_str i]"
| "sql_text frepr (JFloat q) = Inr [frepr q]"
| "sql_text frepr _ = Inl ProgrammingError"

text \<open>The ids to delete and the rejections to quarantine that a 2xx body asks for.\<close>

definition read_response ::
  "(rat \<Rightarrow> string) \<Rightarrow> (json \<Rightarrow> pystr) \<Rightarrow> pystr list \<Rightarrow> json \<Rightarrow> exn + pystr list \<times> (pystr, pystr) dict" where
  "read_response frepr pstr ids body = (case body of
     JObj kvs \<Rightarrow>
       bind_result (py_iter (get_or kvs ''rejections'' (get_or kvs ''rejected'' (JArr [])))) (\<lambda>items.
       bind_result (collect_rejections frepr pstr ids items []) (\<lambda>rejected.
         let acknowledged = get_or kvs ''acknowledged_event_ids'' (get_or kvs ''accepted_event_ids'' JNull) in
         if acknowledged = JNull then Inr (filter (\<lambda>i. i \<notin> fst ` set rejected) ids, rejected)
         else bind_result (py_iter acknowledged) (\<lambda>accepted.
              bind_result (py_iter (get_or kvs ''duplicate_event_ids'' (JArr []))) (\<lambda>duplicates.
              bind_result (map_result (sql_text frepr) (accepted @ duplicates)) (\<lambda>acks.
                Inr (concat acks, rejected))))))
   | _ \<Rightarrow> Inl AttributeError)"

section \<open>One iteration\<close>

datatype task = Running | Crashed

record health =
  h_status :: pystr
  h_message :: "pystr option"

record sender =
  sd_task :: task
  sd_attempt :: int
  sd_newest_next :: bool
  sd_spool :: spool
  sd_health :: "(pystr, health) dict"

definition sender_start :: "spool \<Rightarrow> (pystr, health) dict \<Rightarrow> sender" where
  "sender_start sp health =
     \<lparr>sd_task = Running, sd_attempt = 0, sd_newest_next = True, sd_spool = sp, sd_health = health\<rparr>"

text \<open>Up to the request: the batch to send, from the newest end every second time of a backlog.\<close>

definition pick_batch :: "(bytes \<Rightarrow> json) \<Rightarrow> sender \<Rightarrow> json spool_record list \<times> sender" where
  "pick_batch loads s =
     (let backfilling = 500 < u_events (usage_of (sd_spool s));
          records = batch_sync loads (if backfilling then 2000 else 500) (1024 * 1024)
                      (backfilling \<and> sd_newest_next s) (sd_spool s)
      in (records, if backfilling then s\<lparr>sd_newest_next := \<not> sd_newest_next s\<rparr> else s))"

text \<open>The \<open>try\<close> body after the request, on the spool as it is when the answer arrives.\<close>

definition settle_batch ::
  "(rat \<Rightarrow> string) \<Rightarrow> (json \<Rightarrow> pystr) \<Rightarrow> pyfloat \<Rightarrow> pystr list \<Rightarrow> exn + http_result \<Rightarrow> spool \<Rightarrow> exn + spool" where
  "settle_batch frepr pstr now ids outcome sp =
     bind_result outcome (\<lambda>result.
       if retryable (Some (hr_status result))
         then Inl (ConnectionError (''retryable HTTP response '' @ int_str (hr_status result)))
       else if 200 \<le> hr_status result \<and> hr_status result < 300
         then bind_result (read_response frepr pstr ids (hr_body result)) (\<lambda>(acknowledged, rejected).
                Inr (quarantine_sync now rejected (acknowledge acknowledged sp)))
       else Inr (quarantine_sync now
              (dict_update (map (\<lambda>i. (i, ''HTTP '' @ int_str (hr_status result))) ids) []) sp))"

definition finish ::
  "(rat \<Rightarrow> string) \<Rightarrow> (json \<Rightarrow> pystr) \<Rightarrow> (exn \<Rightarrow> pystr) \<Rightarrow> pyfloat \<Rightarrow> pyfloat \<Rightarrow> pystr list \<Rightarrow> exn + http_result
    \<Rightarrow> sender \<Rightarrow> sender" where
  "finish frepr pstr estr now random ids outcome s =
     (case settle_batch frepr pstr now ids outcome (sd_spool s) of
        Inr sp \<Rightarrow> s\<lparr>sd_spool := sp, sd_attempt := 0\<rparr>
      | Inl error \<Rightarrow>
          let s' = s\<lparr>sd_health := dict_set ''sender''
                \<lparr>h_status = ''error'', h_message = Some (take 512 (estr error))\<rparr> (sd_health s)\<rparr>
          in (case backoff_delay (sd_attempt s) random of
                Inl overflow \<Rightarrow> s'\<lparr>sd_task := Crashed\<rparr>
              | Inr delay \<Rightarrow> s'\<lparr>sd_attempt := sd_attempt s + 1\<rparr>))"

text \<open>
  The iteration run without interference. A crashed task runs no more: the exception raised
  inside the handler ends the coroutine, and nobody awaits it until the agent stops.
\<close>

definition sender_iteration ::
  "(rat \<Rightarrow> string) \<Rightarrow> (json \<Rightarrow> pystr) \<Rightarrow> (exn \<Rightarrow> pystr) \<Rightarrow> (bytes \<Rightarrow> json) \<Rightarrow> (string \<Rightarrow> uuid)
    \<Rightarrow> pyfloat \<Rightarrow> pyfloat \<Rightarrow> endpoint \<Rightarrow> sender \<Rightarrow> sender" where
  "sender_iteration frepr pstr estr loads digest_id now random post s =
     (if sd_task s = Crashed then s
      else (case pick_batch loads s of (records, s') \<Rightarrow>
        if records = [] then s'
        else finish frepr pstr estr now random (map rec_event_id records)
               (send frepr digest_id post (map rec_payload records)) s'))"

section \<open>What an iteration does to the spool\<close>

lemma pick_batch_simps [simp]:
  "sd_task (snd (pick_batch loads s)) = sd_task s"
  "sd_attempt (snd (pick_batch loads s)) = sd_attempt s"
  "sd_spool (snd (pick_batch loads s)) = sd_spool s"
  "sd_health (snd (pick_batch loads s)) = sd_health s"
  by (simp_all add: pick_batch_def Let_def)

lemma batch_rows_empty: "0 < me \<Longrightarrow> batch_rows me mb newest s = [] \<longleftrightarrow> queue s = []"
proof
  assume me: "0 < me" and e: "batch_rows me mb newest s = []"
  have len: "batch_len me mb newest s = 0" using e length_batch_rows [of me mb newest s] by simp
  show "queue s = []"
  proof (rule ccontr)
    assume "queue s \<noteq> []"
    then have "0 < batch_len me mb newest s"
      unfolding batch_len_def using me by (intro batch_count_pos) auto
    with len show False by simp
  qed
next
  assume "queue s = []"
  then show "batch_rows me mb newest s = []"
    using set_batch_rows [of me mb newest s] by simp
qed

lemma pick_batch_Nil: "fst (pick_batch loads s) = [] \<longleftrightarrow> queue (sd_spool s) = []"
  by (simp add: pick_batch_def Let_def batch_sync_def batch_rows_empty)

lemma pick_batch_ids: "set (map rec_event_id (fst (pick_batch loads s))) \<subseteq> set (queue_ids (sd_spool s))"
  using set_batch_rows by (fastforce simp: pick_batch_def Let_def batch_sync_def record_of_def)

lemma finish_attempt_spool:
  "sd_spool (finish frepr pstr estr now random ids outcome s) =
     (case settle_batch frepr pstr now ids outcome (sd_spool s) of Inr sp \<Rightarrow> sp | Inl e \<Rightarrow> sd_spool s)"
  by (simp add: finish_def Let_def split: sum.splits)

lemma acknowledge_Nil [simp]: "acknowledge [] sp = sp"
  by (simp add: acknowledge_def delete_where_def)

lemma settle_batch_cases:
  assumes "settle_batch frepr pstr now ids outcome sp = Inr sp'"
  obtains (answered) result acks rejected where "outcome = Inr result"
      "200 \<le> hr_status result" "hr_status result < 300"
      "read_response frepr pstr ids (hr_body result) = Inr (acks, rejected)"
      "sp' = spool_queue.settle now acks rejected sp"
  | (refused) result where "outcome = Inr result"
      "\<not> retryable (Some (hr_status result))" "\<not> (200 \<le> hr_status result \<and> hr_status result < 300)"
      "sp' = spool_queue.settle now []
         (dict_update (map (\<lambda>i. (i, ''HTTP '' @ int_str (hr_status result))) ids) []) sp"
  using assms
  by (auto simp: settle_batch_def bind_result_Inr_iff spool_queue.settle_def split: if_splits)

lemma settle_keeps:
  "i \<in> set (queue_ids s) \<Longrightarrow> i \<in> set (queue_ids (spool_queue.settle now acks rej s))
     \<or> i \<in> set (quarantine_ids (spool_queue.settle now acks rej s)) \<or> i \<in> set acks"
  using spool_queue.settle_conserves by blast

text \<open>
  The sender forgets nothing on its own: an event that was queued when the answer arrived (or
  failed to) is still queued afterwards, or is in quarantine, or its id is among the acknowledged
  ids of an answer with a 2xx status. What is in quarantine stays there.
\<close>

theorem sender_forgets_nothing:
  assumes "i \<in> set (queue_ids (sd_spool s))"
    and "s' = finish frepr pstr estr now random ids outcome s"
  shows "(i \<in> set (queue_ids (sd_spool s')) \<or> i \<in> set (quarantine_ids (sd_spool s'))
          \<or> (\<exists>result acks rejected. outcome = Inr result
               \<and> 200 \<le> hr_status result \<and> hr_status result < 300
               \<and> read_response frepr pstr ids (hr_body result) = Inr (acks, rejected) \<and> i \<in> set acks))
         \<and> set (quarantine_ids (sd_spool s)) \<subseteq> set (quarantine_ids (sd_spool s'))"
proof (cases "settle_batch frepr pstr now ids outcome (sd_spool s)")
  case (Inl e)
  then show ?thesis using assms by (simp add: finish_attempt_spool)
next
  case (Inr sp)
  then have sp: "sd_spool s' = sp" using assms by (simp add: finish_attempt_spool)
  from Inr show ?thesis
  proof (cases rule: settle_batch_cases)
    case (answered result acks rejected)
    then show ?thesis
      unfolding sp using settle_keeps [OF assms(1), of now acks rejected]
        spool_queue.settle_keeps_held [of "sd_spool s" now acks rejected] by blast
  next
    case (refused result)
    let ?rej = "dict_update (map (\<lambda>i. (i, ''HTTP '' @ int_str (hr_status result))) ids) []"
    have "i \<notin> set []" by simp
    then show ?thesis
      unfolding sp refused(4) using settle_keeps [OF assms(1), of now "[]" ?rej]
        spool_queue.settle_keeps_held [of "sd_spool s" now "[]" ?rej] by blast
  qed
qed

lemma queue_ids_new: "queue_ids (append_rows [(''a'', 0, ''{}'')] [] (new_spool 9 9)) = [''a'']"
  by (simp add: new_spool_def insert_ignore_def)

theorem sender_forgets_nothing_witness:
  "''a'' \<in> set (quarantine_ids (sd_spool (finish (\<lambda>_. []) (\<lambda>_. []) (\<lambda>_. []) 0 0 [''a'']
      (Inr \<lparr>hr_status = 413, hr_body = JNull\<rparr>)
      (sender_start (append_rows [(''a'', 0, ''{}'')] [] (new_spool 9 9)) []))))"
proof -
  let ?s = "sender_start (append_rows [(''a'', 0, ''{}'')] [] (new_spool 9 9)) []"
  let ?f = "finish (\<lambda>_. []) (\<lambda>_. []) (\<lambda>_. []) 0 0 [''a''] (Inr \<lparr>hr_status = 413, hr_body = JNull\<rparr>) ?s"
  have q: "queue_ids (sd_spool ?s) = [''a'']" by (simp only: sender_start_def sender.simps queue_ids_new)
  have "sd_spool ?f = quarantine_sync 0 [(''a'', ''HTTP '' @ int_str 413)] (sd_spool ?s)"
    by (simp add: finish_attempt_spool settle_batch_def retryable_def del: quarantine_sync_simps)
  then have "queue_ids (sd_spool ?f) = filter (\<lambda>i. i \<noteq> ''a'') (queue_ids (sd_spool ?s))"
    by (simp only: queue_ids_quarantine_sync) simp
  then have "''a'' \<notin> set (queue_ids (sd_spool ?f))" by (simp only: set_filter) blast
  then show ?thesis using sender_forgets_nothing [of "''a''" ?s ?f, OF _ refl] q by auto
qed

section \<open>Retrying\<close>

text \<open>A sequence of iterations, each with its clock, jitter and what the server would answer.\<close>

type_synonym round_env = "pyfloat \<times> pyfloat \<times> endpoint"

definition sender_run ::
  "(rat \<Rightarrow> string) \<Rightarrow> (json \<Rightarrow> pystr) \<Rightarrow> (exn \<Rightarrow> pystr) \<Rightarrow> (bytes \<Rightarrow> json) \<Rightarrow> (string \<Rightarrow> uuid)
    \<Rightarrow> round_env list \<Rightarrow> sender \<Rightarrow> sender" where
  "sender_run frepr pstr estr loads digest_id rounds s =
     fold (\<lambda>(now, random, post). sender_iteration frepr pstr estr loads digest_id now random post) rounds s"

text \<open>A server that is down: every request fails or is answered with a status worth a retry.\<close>

definition down :: "endpoint \<Rightarrow> bool" where
  "down post \<longleftrightarrow> (\<forall>body. case post body of Inl e \<Rightarrow> True | Inr result \<Rightarrow> retryable (Some (hr_status result)))"

lemma send_down: "down post \<Longrightarrow> \<exists>e. settle_batch frepr pstr now ids (send frepr digest_id post events) sp = Inl e"
proof (cases "send frepr digest_id post events")
  case (Inr result)
  assume d: "down post"
  from Inr obtain body where "post body = Inr result" by (auto simp: send_def bind_result_Inr_iff)
  with d have "retryable (Some (hr_status result))" by (auto simp: down_def dest: spec [of _ body])
  with Inr show ?thesis by (simp add: settle_batch_def)
qed (simp add: settle_batch_def)

lemma finish_failed:
  assumes "settle_batch frepr pstr now ids outcome (sd_spool s) = Inl e"
  shows "sd_spool (finish frepr pstr estr now random ids outcome s) = sd_spool s"
    "sd_task (finish frepr pstr estr now random ids outcome s) =
       (if 1024 \<le> sd_attempt s then Crashed else sd_task s)"
    "sd_attempt (finish frepr pstr estr now random ids outcome s) =
       (if 1024 \<le> sd_attempt s then sd_attempt s else sd_attempt s + 1)"
  using backoff_delay_fits [of "sd_attempt s" random]
  by (auto simp: finish_def assms Let_def split: sum.splits)

lemma iteration_down:
  assumes "down post" and "queue (sd_spool s) \<noteq> []" and "sd_task s = Running"
  shows "sd_spool (sender_iteration frepr pstr estr loads digest_id now random post s) = sd_spool s"
    "sd_task (sender_iteration frepr pstr estr loads digest_id now random post s) =
       (if 1024 \<le> sd_attempt s then Crashed else Running)"
    "sd_attempt (sender_iteration frepr pstr estr loads digest_id now random post s) =
       (if 1024 \<le> sd_attempt s then sd_attempt s else sd_attempt s + 1)"
proof -
  obtain records s' where p: "pick_batch loads s = (records, s')" by force
  have s': "sd_spool s' = sd_spool s" "sd_task s' = sd_task s" "sd_attempt s' = sd_attempt s"
    using pick_batch_simps [of loads s] by (simp_all add: p)
  have ne: "records \<noteq> []" using pick_batch_Nil [of loads s] assms(2) by (simp add: p)
  obtain e where e: "settle_batch frepr pstr now (map rec_event_id records)
      (send frepr digest_id post (map rec_payload records)) (sd_spool s') = Inl e"
    using send_down [OF assms(1)] by blast
  note f = finish_failed [OF e, of estr random]
  show "sd_spool (sender_iteration frepr pstr estr loads digest_id now random post s) = sd_spool s"
    using f(1) by (simp add: sender_iteration_def assms(3) p ne s')
  show "sd_task (sender_iteration frepr pstr estr loads digest_id now random post s) =
       (if 1024 \<le> sd_attempt s then Crashed else Running)"
    using f(2) by (simp add: sender_iteration_def assms(3) p ne s')
  show "sd_attempt (sender_iteration frepr pstr estr loads digest_id now random post s) =
       (if 1024 \<le> sd_attempt s then sd_attempt s else sd_attempt s + 1)"
    using f(3) by (simp add: sender_iteration_def assms(3) p ne s')
qed

text \<open>
  C13. The sender survives 1024 failed deliveries in a row and not one more. However the failures
  arise and whatever the jitter, while something is queued the queue stays as it is, the attempt
  counter counts, and the 1025th failure ends the task for good: the back-off raises inside the
  exception handler.
\<close>

theorem sender_survives_1024_failures:
  assumes "\<forall>(now, random, post) \<in> set rounds. down post"
    and "queue (sd_spool s) \<noteq> []" and "sd_task s = Running" and "sd_attempt s = 0"
  shows "sd_spool (sender_run frepr pstr estr loads digest_id rounds s) = sd_spool s
    \<and> sd_task (sender_run frepr pstr estr loads digest_id rounds s) =
        (if length rounds \<le> 1024 then Running else Crashed)"
proof -
  have "sd_spool (sender_run frepr pstr estr loads digest_id rounds s) = sd_spool s
      \<and> sd_task (sender_run frepr pstr estr loads digest_id rounds s) =
          (if length rounds \<le> 1024 then Running else Crashed)
      \<and> sd_attempt (sender_run frepr pstr estr loads digest_id rounds s) = min (int (length rounds)) 1024"
    using assms(1)
  proof (induction rounds rule: rev_induct)
    case Nil
    then show ?case using assms by (simp add: sender_run_def)
  next
    case (snoc env rounds)
    obtain now random post where env: "env = (now, random, post)" by (cases env)
    let ?t = "sender_run frepr pstr estr loads digest_id rounds s"
    have d: "down post" using snoc.prems by (auto simp: env)
    have IH: "sd_spool ?t = sd_spool s" "sd_attempt ?t = min (int (length rounds)) 1024"
      "sd_task ?t = (if length rounds \<le> 1024 then Running else Crashed)"
      using snoc by auto
    have run: "sender_run frepr pstr estr loads digest_id (rounds @ [env]) s =
        sender_iteration frepr pstr estr loads digest_id now random post ?t"
      by (simp add: sender_run_def env)
    show ?case
    proof (cases "length rounds \<le> 1024")
      case True
      with IH have "sd_task ?t = Running" and q: "queue (sd_spool ?t) \<noteq> []" using assms(2) by simp_all
      from iteration_down [OF d q this(1)] True show ?thesis unfolding run by (simp add: IH)
    next
      case False
      with IH show ?thesis unfolding run by (simp add: sender_iteration_def)
    qed
  qed
  then show ?thesis by blast
qed

theorem sender_survives_1024_failures_witness:
  "sd_task (sender_run (\<lambda>_. []) (\<lambda>_. []) (\<lambda>_. []) (\<lambda>_. JNull) (\<lambda>_. [])
      (replicate 1025 (0, 0, \<lambda>_. Inl (ConnectionError ''refused'')))
      (sender_start (append_rows [(''a'', 0, ''{}'')] [] (new_spool 9 9)) [])) = Crashed"
proof -
  let ?s = "sender_start (append_rows [(''a'', 0, ''{}'')] [] (new_spool 9 9)) []"
  have "queue (sd_spool ?s) \<noteq> []" by (simp add: sender_start_def new_spool_def insert_ignore_def)
  moreover have "\<forall>(now, random, post) \<in> set (replicate 1025 (0 :: rat, 0 :: rat, \<lambda>_. Inl (ConnectionError ''refused''))). down post"
    by (simp add: down_def)
  ultimately show ?thesis
    using sender_survives_1024_failures [of _ ?s] by (simp add: sender_start_def)
qed

section \<open>Fairness and reported health\<close>

text \<open>
  Under a backlog the oldest event does not wait: of two picks in a row, whatever happened to
  the spool in between, one is a batch that starts with the oldest queued event.
\<close>

theorem oldest_event_every_second_batch:
  assumes "queue (sd_spool s1) \<noteq> []" and "queue (sd_spool s2) \<noteq> []"
    and "sd_newest_next s2 = sd_newest_next (snd (pick_batch loads s1))"
  shows "rec_event_id (hd (fst (pick_batch loads s1))) = hd (queue_ids (sd_spool s1))
    \<or> rec_event_id (hd (fst (pick_batch loads s2))) = hd (queue_ids (sd_spool s2))"
proof -
  have oldest: "rec_event_id (hd (fst (pick_batch loads s))) = hd (queue_ids (sd_spool s))"
    if "queue (sd_spool s) \<noteq> []" and "\<not> (500 < u_events (usage_of (sd_spool s)) \<and> sd_newest_next s)" for s
  proof -
    let ?me = "if 500 < u_events (usage_of (sd_spool s)) then 2000 else 500 :: nat"
    let ?rows = "batch_rows ?me (1024 * 1024) False (sd_spool s)"
    have ne: "?rows \<noteq> []" using that(1) by (simp add: batch_rows_empty)
    then have "hd ?rows = hd (queue (sd_spool s))"
      unfolding batch_rows_oldest by (simp add: hd_take)
    moreover have "fst (pick_batch loads s) = map (record_of loads) ?rows"
      using that(2) by (auto simp: pick_batch_def Let_def batch_sync_def)
    ultimately show ?thesis using ne that(1) by (simp add: hd_map record_of_def)
  qed
  show ?thesis
  proof (cases "500 < u_events (usage_of (sd_spool s1)) \<and> sd_newest_next s1")
    case True
    then have "\<not> sd_newest_next s2" using assms(3) by (simp add: pick_batch_def Let_def)
    then show ?thesis using oldest [OF assms(2)] by simp
  next
    case False
    then show ?thesis using oldest [OF assms(1)] by simp
  qed
qed

theorem oldest_event_every_second_batch_witness:
  "let s = sender_start (append_rows [(''a'', 0, ''{}''), (''b'', 0, ''{}'')] [] (new_spool 9 9)) [];
       s2 = s\<lparr>sd_spool := acknowledge [''a''] (sd_spool s)\<rparr>
   in rec_event_id (hd (fst (pick_batch (\<lambda>_. JNull) s))) = ''a''
      \<or> rec_event_id (hd (fst (pick_batch (\<lambda>_. JNull) s2))) = ''b''"
proof -
  let ?s = "sender_start (append_rows [(''a'', 0, ''{}''), (''b'', 0, ''{}'')] [] (new_spool 9 9)) []"
  let ?s2 = "?s\<lparr>sd_spool := acknowledge [''a''] (sd_spool ?s)\<rparr>"
  have q: "queue (sd_spool ?s) = [row_of 1 (''a'', 0, ''{}''), row_of 2 (''b'', 0, ''{}'')]"
    by (simp add: sender_start_def new_spool_def insert_ignore_def)
  have q2: "queue (sd_spool ?s2) = [row_of 2 (''b'', 0, ''{}'')]" using q by simp
  have "sd_newest_next ?s2 = sd_newest_next (snd (pick_batch (\<lambda>_. JNull) ?s))"
    using q by (simp add: pick_batch_def Let_def usage_of_def)
  then show ?thesis
    using oldest_event_every_second_batch [of ?s ?s2 "\<lambda>_. JNull"] q q2 by (simp add: Let_def)
qed

text \<open>
  Once a delivery has failed the sender is reported unhealthy for ever: no later iteration,
  successful or not, sets its entry of the collector health to anything but an error.
\<close>

theorem sender_health_sticks:
  assumes "\<exists>h. dict_get (sd_health s) ''sender'' = Some h \<and> h_status h = ''error''"
  shows "\<exists>h. dict_get (sd_health (sender_run frepr pstr estr loads digest_id rounds s)) ''sender'' = Some h
           \<and> h_status h = ''error''"
proof -
  have "\<exists>h. dict_get (sd_health (sender_iteration frepr pstr estr loads digest_id now random post t)) ''sender'' = Some h
           \<and> h_status h = ''error''"
    if "\<exists>h. dict_get (sd_health t) ''sender'' = Some h \<and> h_status h = ''error''" for now random post t
  proof -
    have keep: "sd_health u = sd_health t" if "pick_batch loads t = (records, u)" for records u
      using pick_batch_simps(4) [of loads t] that by simp
    show ?thesis
      using that by (auto simp: sender_iteration_def finish_def Let_def AList.update_conv' keep
          split: prod.splits sum.splits)
  qed
  with assms show ?thesis
    unfolding sender_run_def by (induction rounds arbitrary: s) auto
qed

theorem sender_health_sticks_witness:
  "\<exists>h. dict_get (sd_health (sender_run (\<lambda>_. []) (\<lambda>_. []) (\<lambda>_. []) (\<lambda>_. JNull) (\<lambda>_. [])
      [(1, 0, \<lambda>_. Inr \<lparr>hr_status = 200, hr_body = JObj []\<rparr>)]
      (sender_start (new_spool 9 9) [(''sender'', \<lparr>h_status = ''error'', h_message = None\<rparr>)]))) ''sender'' = Some h
    \<and> h_status h = ''error''"
  by (rule sender_health_sticks) (simp add: sender_start_def)

end
