(* ===== verification/Telemetry_Api.thy ===== *)
theory Telemetry_Api
  imports Commit
begin

text \<open>
  The telemetry endpoint of \<open>server/temporalrca_server/api.py\<close> and the watermarks of
  \<open>live.py\<close>: the size gates in front of the transaction, the answer on the wire, and the
  invariant the endpoint keeps, that every id an answer acknowledges has a receipt. Decompression
  and JSON parsing of the request are the parameter \<open>parse\<close>, Pydantic's reading of the batch
  the parameter \<open>decode_batch\<close>.
\<close>

section \<open>Watermarks and settings\<close>

record watermarks =
  wm_commit :: int
  wm_inventory :: int

datatype watermark_kind = CommitMark | InventoryMark

definition publish :: "watermark_kind \<Rightarrow> watermarks \<Rightarrow> int \<times> watermarks" where
  "publish kind w = (case kind of
     CommitMark \<Rightarrow> (let v = wm_commit w + 1 in (v, w\<lparr>wm_commit := v\<rparr>))
   | InventoryMark \<Rightarrow> (let v = wm_inventory w + 1 in (v, w\<lparr>wm_inventory := v\<rparr>)))"

record settings =
  st_max_compressed_batch_bytes :: int
  st_normal_batch_events :: int
  st_backfill_batch_events :: int
  st_enrollment_token :: pystr
  st_ground_truth_token :: pystr
  st_credential_pepper :: pystr

definition default_settings :: settings where
  "default_settings = \<lparr>st_max_compressed_batch_bytes = 2 * 1024 * 1024, st_normal_batch_events = 500,
     st_backfill_batch_events = 2000, st_enrollment_token = ''development-enrollment-token'',
     st_ground_truth_token = ''development-ground-truth-token'', st_credential_pepper = ''development-only-change-me''\<rparr>"

record server =
  sv_db :: database
  sv_watermarks :: watermarks

section \<open>The endpoint\<close>

text \<open>What of the code outside the repository a request depends on.\<close>

record api_env =
  en_sha :: "string \<Rightarrow> string"
  en_frepr :: "rat \<Rightarrow> string"
  en_pstr :: "json \<Rightarrow> pystr"
  en_parse :: "bytes \<Rightarrow> json option"
  en_decode_batch :: "json \<Rightarrow> error_item list + telemetry_batch"
  en_decode :: decoder

definition telemetry_batch_endpoint ::
  "api_env \<Rightarrow> settings \<Rightarrow> agent_identity \<Rightarrow> datetime \<Rightarrow> bytes \<Rightarrow> database \<Rightarrow> server
    \<Rightarrow> (failure + batch_response) \<times> server" where
  "telemetry_batch_endpoint env settings ident now raw seen sv =
     (if st_max_compressed_batch_bytes settings < int (length raw)
        then (Inl (HTTPException 413 ''compressed batch exceeds 2 MiB''), sv)
      else (case en_parse env raw of
          None \<Rightarrow> (Inl (HTTPException 422 ''invalid telemetry batch''), sv)
        | Some payload \<Rightarrow> (case validate_batch (en_decode_batch env) payload of
            Inl errs \<Rightarrow> (Inl (HTTPException 422 ''invalid telemetry batch''), sv)
          | Inr batch \<Rightarrow>
              let limit = (if tb_backfill batch then st_backfill_batch_events settings
                           else st_normal_batch_events settings)
              in if limit < int (length (tb_events batch))
                 then (Inl (HTTPException 413 (''batch exceeds '' @ int_str limit @ '' event limit'')), sv)
                 else (case ingest_batch (en_sha env) (en_frepr env) (en_pstr env) (en_decode env) ident batch
                              payload (st_normal_batch_events settings) now seen (sv_db sv) of
                     (Inl f, db) \<Rightarrow> (Inl f, sv\<lparr>sv_db := db\<rparr>)
                   | (Inr result, db) \<Rightarrow>
                       if \<not> br_duplicate_batch result \<and> br_accepted result \<noteq> []
                       then (case publish CommitMark (sv_watermarks sv) of (mark, w) \<Rightarrow>
                              (Inr (result\<lparr>br_commit_watermark := Some mark\<rparr>), sv\<lparr>sv_db := db, sv_watermarks := w\<rparr>))
                       else (Inr result, sv\<lparr>sv_db := db\<rparr>)))))"

text \<open>The answer as JSON; an exception that escapes the handler is a 500.\<close>

definition error_json :: "error_item \<Rightarrow> json" where
  "error_json e = JObj [(''type'', JStr (err_type e)), (''msg'', JStr (err_msg e))]"

definition rejected_json :: "rejected_event \<Rightarrow> json" where
  "rejected_json r = JObj [(''index'', JInt (int (rj_index r))), (''event_id'', opt_str (rj_event_id r)),
     (''errors'', JArr (map error_json (rj_errors r)))]"

definition response_json :: "batch_response \<Rightarrow> json" where
  "response_json r = JObj [(''batch_id'', JStr (br_batch_id r)), (''duplicate_batch'', JBool (br_duplicate_batch r)),
     (''accepted_event_ids'', JArr (map JStr (br_accepted r))),
     (''duplicate_event_ids'', JArr (map JStr (br_duplicates r))),
     (''rejected'', JArr (map rejected_json (br_rejected r))),
     (''commit_watermark'', case br_commit_watermark r of None \<Rightarrow> JNull | Some i \<Rightarrow> JInt i)]"

fun http_answer :: "failure + batch_response \<Rightarrow> http_result" where
  "http_answer (Inr r) = \<lparr>hr_status = 200, hr_body = response_json r\<rparr>"
| "http_answer (Inl (HTTPException status detail)) = \<lparr>hr_status = status, hr_body = JObj [(''detail'', JStr detail)]\<rparr>"
| "http_answer (Inl (Unhandled e)) = \<lparr>hr_status = 500, hr_body = JObj [(''detail'', JStr ''Internal Server Error'')]\<rparr>"

section \<open>Acknowledged events have receipts\<close>

definition receipted :: "uuid \<Rightarrow> database \<Rightarrow> uuid set" where
  "receipted agent db = {i. (agent, i) \<in> receipt_key ` set (db_event_receipts db)}"

definition acknowledged_by :: "batch_response \<Rightarrow> uuid set" where
  "acknowledged_by r = set (br_accepted r) \<union> set (br_duplicates r)"

definition receipts_ok :: "database \<Rightarrow> bool" where
  "receipts_ok db \<longleftrightarrow>
     (\<forall>r \<in> set (db_batch_receipts db). acknowledged_by (bt_response r) \<subseteq> receipted (bt_agent_id r) db)"

lemma receipted_mono:
  "set (map receipt_key (db_event_receipts db)) \<subseteq> set (map receipt_key (db_event_receipts db')) \<Longrightarrow>
     receipted agent db \<subseteq> receipted agent db'"
  by (auto simp: receipted_def)

lemma find_receipt_Some: "find_receipt agent_id batch_id db = Some r \<Longrightarrow>
    r \<in> set (db_batch_receipts db) \<and> bt_agent_id r = agent_id \<and> bt_batch_id r = batch_id"
  unfolding find_receipt_def by (drule find_SomeD) (simp add: batch_key_def)

lemma ingest_result_cases:
  assumes "ingest_batch sha frepr pstr decode ident batch raw limit now seen current = (Inr resp, db)"
  obtains (fresh) "\<not> br_duplicate_batch resp"
    | (replayed) r where "db = current" "resp = replay r"
        "r \<in> set (db_batch_receipts seen) \<union> set (db_batch_receipts current)"
        "bt_agent_id r = ai_agent_id ident" "bt_batch_id r = tb_batch_id batch"
proof (cases "br_duplicate_batch resp")
  case True
  have "\<exists>r. db = current \<and> resp = replay r \<and> (find_receipt (ai_agent_id ident) (tb_batch_id batch) seen = Some r
      \<or> find_receipt (ai_agent_id ident) (tb_batch_id batch) current = Some r)"
    using assms True unfolding ingest_batch_def Let_def
    by (auto split: if_splits option.splits prod.splits sum.splits)
  then show thesis using replayed find_receipt_Some by blast
qed (rule fresh)

lemma ingest_acknowledges_receipted:
  assumes "ingest_batch sha frepr pstr decode ident batch raw limit now seen current = (result, db)"
    and "receipts_ok seen" "receipts_ok current"
    and "receipted (ai_agent_id ident) seen \<subseteq> receipted (ai_agent_id ident) current"
  shows "receipts_ok db" "receipted agent current \<subseteq> receipted agent db"
    "result = Inr resp \<Longrightarrow> acknowledged_by resp \<subseteq> receipted (ai_agent_id ident) db"
proof -
  have all: "receipts_ok db \<and> receipted agent current \<subseteq> receipted agent db
      \<and> (\<forall>resp. result = Inr resp \<longrightarrow> acknowledged_by resp \<subseteq> receipted (ai_agent_id ident) db)" for agent
  proof (cases result)
    case (Inl f)
    then have "db = current" using ingest_unchanged_or_fresh [OF assms(1)] by auto
    with assms(3) Inl show ?thesis by simp
  next
    case (Inr r)
    note i = assms(1) [unfolded Inr]
    from i show ?thesis
    proof (cases rule: ingest_result_cases)
      case fresh
      note c = committed_ids [OF i fresh]
      have mono: "receipted a current \<subseteq> receipted a db" for a
        unfolding receipted_def set_map [symmetric] c(2) by auto
      obtain rejected where resp: "r = \<lparr>br_batch_id = tb_batch_id batch, br_duplicate_batch = False,
           br_accepted = map te_event_id (accepted_events decode frepr ident seen (tb_events batch)),
           br_duplicates = duplicate_ids ident seen (valid_events decode frepr ident seen (tb_events batch)),
           br_rejected = rejected, br_commit_watermark = None\<rparr>"
        and w: "write_batch (\<lambda>e. series_fingerprint sha frepr e (ai_host_id ident)) ident now
       (canonical_digest sha frepr raw) r (accepted_events decode frepr ident seen (tb_events batch)) seen current = Inr db"
        by (rule ingest_fresh [OF i fresh])
      have "set (br_duplicates r) \<subseteq> receipted (ai_agent_id ident) seen"
        by (auto simp: resp set_duplicate_ids receipted_def)
      moreover have "set (br_accepted r) \<subseteq> receipted (ai_agent_id ident) db"
        unfolding receipted_def set_map [symmetric] c(2) by auto
      ultimately have ack: "acknowledged_by r \<subseteq> receipted (ai_agent_id ident) db"
        using assms(4) mono unfolding acknowledged_by_def by blast
      have rows: "db_batch_receipts db = db_batch_receipts current @
         [\<lparr>bt_agent_id = ai_agent_id ident, bt_batch_id = br_batch_id r,
           bt_payload_digest = canonical_digest sha frepr raw, bt_received_at = now, bt_response = r\<rparr>]"
        using write_batch_frame [OF w] by blast
      have "receipts_ok db"
        using assms(3) mono ack unfolding receipts_ok_def rows by fastforce
      with mono ack Inr show ?thesis by simp
    next
      case (replayed b)
      have "acknowledged_by r = acknowledged_by (bt_response b)"
        by (simp add: replayed replay_def acknowledged_by_def)
      moreover have "acknowledged_by (bt_response b) \<subseteq> receipted (ai_agent_id ident) seen
          \<or> acknowledged_by (bt_response b) \<subseteq> receipted (ai_agent_id ident) current"
        using assms(2,3) replayed(3,4) unfolding receipts_ok_def by fastforce
      ultimately have "acknowledged_by r \<subseteq> receipted (ai_agent_id ident) current"
        using assms(4) by blast
      with replayed assms(3) Inr show ?thesis by simp
    qed
  qed
  show "receipts_ok db" "receipted agent current \<subseteq> receipted agent db"
    using all by blast+
  show "acknowledged_by resp \<subseteq> receipted (ai_agent_id ident) db" if "result = Inr resp"
    using all that by blast
qed

text \<open>The request got as far as the transaction, on this batch.\<close>

definition admitted ::
  "api_env \<Rightarrow> settings \<Rightarrow> bytes \<Rightarrow> json \<Rightarrow> telemetry_batch \<Rightarrow> bool" where
  "admitted env settings raw payload batch \<longleftrightarrow>
     int (length raw) \<le> st_max_compressed_batch_bytes settings \<and> en_parse env raw = Some payload
     \<and> validate_batch (en_decode_batch env) payload = Inr batch
     \<and> int (length (tb_events batch)) \<le> (if tb_backfill batch then st_backfill_batch_events settings
                                        else st_normal_batch_events settings)"

lemma endpoint_admitted:
  assumes "admitted env settings raw payload batch"
    and "ingest_batch (en_sha env) (en_frepr env) (en_pstr env) (en_decode env) ident batch
           payload (st_normal_batch_events settings) now seen (sv_db sv) = (r, db)"
  shows "telemetry_batch_endpoint env settings ident now raw seen sv =
     (case r of Inl f \<Rightarrow> (Inl f, sv\<lparr>sv_db := db\<rparr>)
      | Inr result \<Rightarrow> if \<not> br_duplicate_batch result \<and> br_accepted result \<noteq> []
          then (Inr (result\<lparr>br_commit_watermark := Some (wm_commit (sv_watermarks sv) + 1)\<rparr>),
                sv\<lparr>sv_db := db, sv_watermarks := (sv_watermarks sv)\<lparr>wm_commit := wm_commit (sv_watermarks sv) + 1\<rparr>\<rparr>)
          else (Inr result, sv\<lparr>sv_db := db\<rparr>))"
  using assms(1) unfolding telemetry_batch_endpoint_def admitted_def Let_def
  by (cases r) (simp_all add: assms(2) publish_def Let_def not_less)

lemma endpoint_not_admitted:
  assumes "\<nexists>payload batch. admitted env settings raw payload batch"
  shows "\<exists>status detail. 400 \<le> status \<and> status < 500 \<and>
    telemetry_batch_endpoint env settings ident now raw seen sv = (Inl (HTTPException status detail), sv)"
proof (cases "st_max_compressed_batch_bytes settings < int (length raw)")
  case False
  show ?thesis
  proof (cases "en_parse env raw")
    case (Some payload)
    show ?thesis
    proof (cases "validate_batch (en_decode_batch env) payload")
      case (Inr batch)
      then have "\<not> int (length (tb_events batch)) \<le> (if tb_backfill batch then st_backfill_batch_events settings
                                        else st_normal_batch_events settings)"
        using assms False Some by (simp add: admitted_def)
      with False Some Inr show ?thesis by (simp add: telemetry_batch_endpoint_def Let_def not_le)
    qed (use False Some in \<open>simp add: telemetry_batch_endpoint_def\<close>)
  qed (use False in \<open>simp add: telemetry_batch_endpoint_def\<close>)
qed (simp add: telemetry_batch_endpoint_def)

lemma endpoint_acknowledges_receipted:
  assumes "telemetry_batch_endpoint env settings ident now raw seen sv = (result, sv')"
    and "receipts_ok seen" "receipts_ok (sv_db sv)"
    and "receipted (ai_agent_id ident) seen \<subseteq> receipted (ai_agent_id ident) (sv_db sv)"
  shows "receipts_ok (sv_db sv') \<and> receipted agent (sv_db sv) \<subseteq> receipted agent (sv_db sv')
    \<and> (\<forall>resp. result = Inr resp \<longrightarrow> acknowledged_by resp \<subseteq> receipted (ai_agent_id ident) (sv_db sv'))"
proof (cases "\<exists>payload batch. admitted env settings raw payload batch")
  case True
  then obtain payload batch where a: "admitted env settings raw payload batch" by blast
  obtain r db where i: "ingest_batch (en_sha env) (en_frepr env) (en_pstr env) (en_decode env) ident batch
      payload (st_normal_batch_events settings) now seen (sv_db sv) = (r, db)" by force
  note k = ingest_acknowledges_receipted [OF i assms(2-4)]
  have "sv_db sv' = db" "\<forall>resp. result = Inr resp \<longrightarrow> (\<exists>resp'. r = Inr resp' \<and> acknowledged_by resp = acknowledged_by resp')"
    using assms(1) unfolding endpoint_admitted [OF a i]
    by (auto simp: acknowledged_by_def split: sum.splits if_splits)
  with k show ?thesis by blast
next
  case False
  then show ?thesis
    using endpoint_not_admitted [of env settings raw ident now seen sv] assms(1,3) by auto
qed

end
