(* ===== verification/Delivery.thy ===== *)
theory Delivery
  imports Sender Spool_Eviction Telemetry_Api
begin

text \<open>
  Agent and server together. The sender of \<open>runtime.py\<close> talks to a service it knows by a
  contract, the locale \<open>telemetry_service\<close>: what an answer acknowledges is kept. The steps of the
  pipeline are those of the running system: collectors append while a batch is in flight, the
  spool may evict events of that batch, requests and answers get lost, the answer is read when it
  comes. The telemetry endpoint fulfils the contract, and no event is lost without a trace.
\<close>

section \<open>The pipeline\<close>

record 'srv pipeline =
  pl_sender :: sender
  pl_server :: 'srv
  pl_flight :: "(pystr list \<times> (exn + http_result)) option"
  pl_appended :: "pystr list"
  pl_evicted :: "pystr list"

definition pipeline_start :: "spool \<Rightarrow> 'srv \<Rightarrow> 'srv pipeline" where
  "pipeline_start sp srv = \<lparr>pl_sender = sender_start sp [], pl_server = srv, pl_flight = None,
     pl_appended = [], pl_evicted = []\<rparr>"

text \<open>
  \<open>answers body before answer after\<close> is one request served, \<open>others before after\<close> anything else
  that happens on the server. \<open>appended\<close> and \<open>evicted\<close> record what the steps did.
\<close>

inductive delivery_step ::
  "(rat \<Rightarrow> string) \<Rightarrow> (json \<Rightarrow> pystr) \<Rightarrow> (exn \<Rightarrow> pystr) \<Rightarrow> (bytes \<Rightarrow> json) \<Rightarrow> (string \<Rightarrow> uuid)
    \<Rightarrow> (json \<Rightarrow> 'srv \<Rightarrow> http_result \<Rightarrow> 'srv \<Rightarrow> bool) \<Rightarrow> ('srv \<Rightarrow> 'srv \<Rightarrow> bool) \<Rightarrow> 'srv pipeline \<Rightarrow> 'srv pipeline \<Rightarrow> bool"
  for frepr pstr estr loads digest_id answers others where
  append: "append_sync now enc upd (sd_spool (pl_sender p)) = (sp, evictions) \<Longrightarrow>
    delivery_step frepr pstr estr loads digest_id answers others p
      (p\<lparr>pl_sender := (pl_sender p)\<lparr>sd_spool := sp\<rparr>, pl_appended := pl_appended p @ map fst enc,
         pl_evicted := pl_evicted p @ map ev_event_id evictions\<rparr>)"
| state: "delivery_step frepr pstr estr loads digest_id answers others p
      (p\<lparr>pl_sender := (pl_sender p)\<lparr>sd_spool := set_state k v (sd_spool (pl_sender p))\<rparr>\<rparr>)"
| request: "pl_flight p = None \<Longrightarrow> sd_task (pl_sender p) = Running \<Longrightarrow>
    pick_batch loads (pl_sender p) = (records, s) \<Longrightarrow> records \<noteq> [] \<Longrightarrow>
    send_body frepr digest_id (map rec_payload records) = Inr body \<Longrightarrow>
    answers body (pl_server p) answer srv \<Longrightarrow> outcome = Inr answer \<or> outcome = Inl lost \<Longrightarrow>
    delivery_step frepr pstr estr loads digest_id answers others p
      (p\<lparr>pl_sender := s, pl_server := srv, pl_flight := Some (map rec_event_id records, outcome)\<rparr>)"
| lost_request: "pl_flight p = None \<Longrightarrow> sd_task (pl_sender p) = Running \<Longrightarrow>
    pick_batch loads (pl_sender p) = (records, s) \<Longrightarrow> records \<noteq> [] \<Longrightarrow>
    delivery_step frepr pstr estr loads digest_id answers others p
      (p\<lparr>pl_sender := s, pl_flight := Some (map rec_event_id records, Inl lost)\<rparr>)"
| finish: "pl_flight p = Some (ids, outcome) \<Longrightarrow>
    delivery_step frepr pstr estr loads digest_id answers others p
      (p\<lparr>pl_sender := finish frepr pstr estr now random ids outcome (pl_sender p), pl_flight := None\<rparr>)"
| others: "others (pl_server p) srv \<Longrightarrow>
    delivery_step frepr pstr estr loads digest_id answers others p (p\<lparr>pl_server := srv\<rparr>)"

inductive_cases delivery_stepE: "delivery_step frepr pstr estr loads digest_id answers others p p'"

section \<open>The contract of the service\<close>

locale telemetry_service =
  fixes frepr :: "rat \<Rightarrow> string" and pstr :: "json \<Rightarrow> pystr"
    and answers :: "json \<Rightarrow> 'srv \<Rightarrow> http_result \<Rightarrow> 'srv \<Rightarrow> bool"
    and others :: "'srv \<Rightarrow> 'srv \<Rightarrow> bool"
    and wf :: "'srv \<Rightarrow> bool"
    and kept :: "'srv \<Rightarrow> pystr set"
  assumes answers_keep: "wf srv \<Longrightarrow> answers body srv answer srv' \<Longrightarrow> wf srv' \<and> kept srv \<subseteq> kept srv'"
    and others_keep: "wf srv \<Longrightarrow> others srv srv' \<Longrightarrow> wf srv' \<and> kept srv \<subseteq> kept srv'"
    and acknowledged_kept: "wf srv \<Longrightarrow> answers body srv answer srv' \<Longrightarrow>
          200 \<le> hr_status answer \<Longrightarrow> hr_status answer < 300 \<Longrightarrow>
          read_response frepr pstr ids (hr_body answer) = Inr (acks, rejected) \<Longrightarrow> set acks \<subseteq> kept srv'"
begin

text \<open>Where an event that was appended can be.\<close>

definition accounted :: "'srv pipeline \<Rightarrow> pystr set" where
  "accounted p = set (queue_ids (sd_spool (pl_sender p))) \<union> set (quarantine_ids (sd_spool (pl_sender p)))
     \<union> set (pl_evicted p) \<union> kept (pl_server p)"

definition flight_ok :: "'srv pipeline \<Rightarrow> bool" where
  "flight_ok p \<longleftrightarrow> (\<forall>ids answer acks rejected. pl_flight p = Some (ids, Inr answer) \<longrightarrow>
     200 \<le> hr_status answer \<longrightarrow> hr_status answer < 300 \<longrightarrow>
     read_response frepr pstr ids (hr_body answer) = Inr (acks, rejected) \<longrightarrow> set acks \<subseteq> kept (pl_server p))"

definition pipeline_inv :: "'srv pipeline \<Rightarrow> bool" where
  "pipeline_inv p \<longleftrightarrow> wf (pl_server p) \<and> spool_ok (sd_spool (pl_sender p)) \<and> flight_ok p
     \<and> set (pl_appended p) \<subseteq> accounted p"

lemma finish_keeps:
  assumes "flight_ok p" "pl_flight p = Some (ids, outcome)" "spool_ok (sd_spool (pl_sender p))"
    and "s' = finish frepr pstr estr now random ids outcome (pl_sender p)"
  shows "spool_ok (sd_spool s') \<and>
    set (queue_ids (sd_spool (pl_sender p))) \<union> set (quarantine_ids (sd_spool (pl_sender p)))
     \<subseteq> set (queue_ids (sd_spool s')) \<union> set (quarantine_ids (sd_spool s')) \<union> kept (pl_server p)"
proof (cases "settle_batch frepr pstr now ids outcome (sd_spool (pl_sender p))")
  case (Inl e)
  then show ?thesis using assms(3,4) by (auto simp: finish_attempt_spool)
next
  case (Inr sp)
  then have sp: "sd_spool s' = sp" using assms(4) by (simp add: finish_attempt_spool)
  from Inr show ?thesis
  proof (cases rule: settle_batch_cases)
    case (answered result acks rejected)
    then have "set acks \<subseteq> kept (pl_server p)"
      using assms(1,2) unfolding flight_ok_def by blast
    with answered show ?thesis
      unfolding sp using spool_queue.settle_conserves [of "sd_spool (pl_sender p)" now acks rejected]
        spool_queue.wf_settle [OF assms(3)] by blast
  next
    case (refused result)
    let ?rej = "dict_update (map (\<lambda>i. (i, ''HTTP '' @ int_str (hr_status result))) ids) []"
    have "set (queue_ids (sd_spool (pl_sender p))) \<union> set (quarantine_ids (sd_spool (pl_sender p)))
        \<subseteq> set (queue_ids sp) \<union> set (quarantine_ids sp)"
      using spool_queue.settle_conserves [of "sd_spool (pl_sender p)" now "[]" ?rej] unfolding refused(4) by simp
    moreover have "spool_ok sp" unfolding refused(4) by (rule spool_queue.wf_settle [OF assms(3)])
    ultimately show ?thesis unfolding sp by blast
  qed
qed

lemma pipeline_inv_step:
  assumes "delivery_step frepr pstr estr loads digest_id answers others p p'" and "pipeline_inv p"
  shows "pipeline_inv p'"
  using assms(1)
proof cases
  case (append now enc upd sp evictions)
  have ok: "spool_ok (sd_spool (pl_sender p))" using assms(2) by (simp add: pipeline_inv_def)
  have sp: "sp = fst (append_sync now enc upd (sd_spool (pl_sender p)))"
    "evictions = snd (append_sync now enc upd (sd_spool (pl_sender p)))"
    using append(2) by simp_all
  have q: "sp_quarantine sp = sp_quarantine (sd_spool (pl_sender p))"
    by (simp add: sp append_sync_def)
  have "set (queue_ids sp) \<union> set (map ev_event_id evictions)
      = set (queue_ids (sd_spool (pl_sender p))) \<union> set (map fst enc)"
    using append_sync_set [OF ok] by (simp add: sp)
  then have acc: "accounted p' = accounted p \<union> set (map fst enc)"
    unfolding append(1) accounted_def by (simp add: q) blast
  have "spool_ok sp" unfolding sp(1) by (rule spool_ok_append_sync [OF ok])
  moreover have "set (pl_appended p') \<subseteq> accounted p'"
    using assms(2) unfolding acc unfolding append(1) by (auto simp: pipeline_inv_def)
  ultimately show ?thesis
    using assms(2) unfolding append(1) by (simp add: pipeline_inv_def flight_ok_def)
next
  case (state k v)
  then show ?thesis
    using assms(2) by (simp add: pipeline_inv_def accounted_def flight_ok_def spool_ok_set_state)
next
  case (request records s body answer srv outcome lost)
  have sp: "sd_spool s = sd_spool (pl_sender p)" using pick_batch_simps(3) [of loads "pl_sender p"] request(4) by simp
  have w: "wf (pl_server p)" using assms(2) by (simp add: pipeline_inv_def)
  note a = answers_keep [OF w request(7)] acknowledged_kept [OF w request(7)]
  have "flight_ok p'" unfolding request(1) flight_ok_def using a(2) request(8) by auto
  moreover have "set (pl_appended p') \<subseteq> accounted p'"
    using assms(2) a(1) unfolding request(1) by (auto simp: pipeline_inv_def accounted_def sp)
  ultimately show ?thesis using assms(2) a(1) unfolding request(1) by (simp add: pipeline_inv_def sp)
next
  case (lost_request records s lost)
  have sp: "sd_spool s = sd_spool (pl_sender p)" using pick_batch_simps(3) [of loads "pl_sender p"] lost_request(4) by simp
  show ?thesis
    using assms(2) unfolding lost_request(1) by (simp add: pipeline_inv_def accounted_def flight_ok_def sp)
next
  case (finish ids outcome now random)
  have "flight_ok p" "spool_ok (sd_spool (pl_sender p))" "wf (pl_server p)" "set (pl_appended p) \<subseteq> accounted p"
    using assms(2) by (simp_all add: pipeline_inv_def)
  note inv = this
  note k = finish_keeps [OF inv(1) finish(2) inv(2) refl, of estr now random]
  have "accounted p \<subseteq> accounted p'"
    unfolding accounted_def finish(1) using k by simp blast
  moreover have "pl_appended p' = pl_appended p" unfolding finish(1) by simp
  ultimately show ?thesis
    using inv k unfolding finish(1) by (simp add: pipeline_inv_def flight_ok_def)
next
  case (others srv)
  have w: "wf (pl_server p)" using assms(2) by (simp add: pipeline_inv_def)
  note k = others_keep [OF w others(2)]
  show ?thesis
    using assms(2) k unfolding others(1) by (auto simp: pipeline_inv_def accounted_def flight_ok_def) blast
qed

lemma pipeline_reachable:
  assumes "(delivery_step frepr pstr estr loads digest_id answers others)\<^sup>*\<^sup>* (pipeline_start (new_spool mb ma) srv) p"
    and "wf srv"
  shows "pipeline_inv p"
  using assms(1)
proof (induction rule: rtranclp_induct)
  case base
  show ?case using assms(2) by (simp add: pipeline_inv_def pipeline_start_def sender_start_def flight_ok_def)
qed (rule pipeline_inv_step)

lemma nothing_unaccounted:
  assumes "(delivery_step frepr pstr estr loads digest_id answers others)\<^sup>*\<^sup>* (pipeline_start (new_spool mb ma) srv) p"
    and "wf srv"
  shows "set (pl_appended p) \<subseteq> accounted p"
  using pipeline_reachable [OF assms] by (simp add: pipeline_inv_def)

end

section \<open>The telemetry endpoint fulfils the contract\<close>

text \<open>
  One request of the agent: the body travels as \<open>compress body\<close>, the transaction may have read any
  earlier state of the database. Anything else on the server keeps the receipts.
\<close>

definition telemetry_answers ::
  "api_env \<Rightarrow> settings \<Rightarrow> agent_identity \<Rightarrow> (json \<Rightarrow> bytes) \<Rightarrow> json \<Rightarrow> server \<Rightarrow> http_result \<Rightarrow> server \<Rightarrow> bool" where
  "telemetry_answers env settings ident compress body sv answer sv' \<longleftrightarrow>
     (\<exists>now seen result. receipts_ok seen
        \<and> receipted (ai_agent_id ident) seen \<subseteq> receipted (ai_agent_id ident) (sv_db sv)
        \<and> telemetry_batch_endpoint env settings ident now (compress body) seen sv = (result, sv')
        \<and> answer = http_answer result)"

definition keeps_receipts :: "server \<Rightarrow> server \<Rightarrow> bool" where
  "keeps_receipts sv sv' \<longleftrightarrow>
     receipts_ok (sv_db sv') \<and> (\<forall>agent. receipted agent (sv_db sv) \<subseteq> receipted agent (sv_db sv'))"

lemma ingest_failure_status:
  "ingest_batch sha frepr pstr decode ident batch raw limit now seen current = (Inl f, db) \<Longrightarrow>
     400 \<le> hr_status (http_answer (Inl f))"
proof -
  have series: "f' = Unhandled ''KeyError''"
    if "metric_series_batch fp es host seen' current' = Inl f'" for fp es host seen' current' f'
  proof (cases "es = []")
    case False
    have "\<exists>(definitions :: (pystr, metric_definition) dict) (fs :: (pystr \<times> telemetry_event) list). map_result (\<lambda>(fingerprint, e). case dict_get definitions (te_name e) of
            None \<Rightarrow> Inl (Unhandled ''KeyError'')
          | Some d \<Rightarrow> Inr (series_columns e host (md_id d) fingerprint)) fs = Inl f'"
      using that unfolding metric_series_batch_def if_not_P [OF False] Let_def bind_result_Inl_iff
      by (simp only: sum.distinct simp_thms ex_simps) blast
    then show ?thesis by (auto dest!: map_result_Inl split: option.splits)
  qed (use that in \<open>simp add: metric_series_batch_def\<close>)
  have store: "f' = Unhandled ''KeyError''"
    if "store_events ident now so es db' = Inl f'" for so es db' f'
    using that unfolding store_events_def bind_result_Inl_iff
    by (auto dest!: map_result_Inl split: option.splits)
  have wr: "f' = Unhandled ''KeyError''"
    if "write_batch fp ident now digest response accepted s c = Inl f'" for fp digest response accepted s c f'
    using that unfolding write_batch_def Let_def bind_result_Inl_iff case_prod_beta
    by (auto dest: series store)
  assume "ingest_batch sha frepr pstr decode ident batch raw limit now seen current = (Inl f, db)"
  then show ?thesis
    unfolding ingest_batch_def Let_def
    by (auto dest!: wr split: if_splits option.splits prod.splits sum.splits)
qed

lemma endpoint_failure_status:
  "telemetry_batch_endpoint env settings ident now raw seen sv = (Inl f, sv') \<Longrightarrow>
     400 \<le> hr_status (http_answer (Inl f))"
proof (cases "\<exists>payload batch. admitted env settings raw payload batch")
  case True
  assume e: "telemetry_batch_endpoint env settings ident now raw seen sv = (Inl f, sv')"
  obtain payload batch where a: "admitted env settings raw payload batch" using True by blast
  obtain r db where i: "ingest_batch (en_sha env) (en_frepr env) (en_pstr env) (en_decode env) ident batch
      payload (st_normal_batch_events settings) now seen (sv_db sv) = (r, db)" by force
  have "r = Inl f"
    using e unfolding endpoint_admitted [OF a i] by (auto split: sum.splits if_splits)
  then show ?thesis using ingest_failure_status i by blast
next
  case False
  assume "telemetry_batch_endpoint env settings ident now raw seen sv = (Inl f, sv')"
  with endpoint_not_admitted [OF False, of ident now seen sv] show ?thesis by auto
qed

lemma map_result_sql_text: "map_result (sql_text frepr) (map JStr xs) = Inr (map (\<lambda>x. [x]) xs)"
  by (induction xs) auto

text \<open>What the sender reads in the endpoint's answer.\<close>

lemma read_response_json:
  "read_response frepr pstr ids (response_json r) = Inr (acks, rejected) \<Longrightarrow>
     acks = br_accepted r @ br_duplicates r"
proof -
  have "concat (map (\<lambda>x. [x]) xs) = xs" for xs :: "pystr list" by (induction xs) auto
  moreover have "map_result (sql_text frepr) (map JStr (br_accepted r) @ map JStr (br_duplicates r)) =
      Inr (map (\<lambda>x. [x]) (br_accepted r @ br_duplicates r))"
    using map_result_sql_text [of frepr "br_accepted r @ br_duplicates r"] by simp
  moreover assume "read_response frepr pstr ids (response_json r) = Inr (acks, rejected)"
  ultimately show ?thesis
    by (auto simp: read_response_def response_json_def get_or_def bind_result_Inr_iff)
qed

interpretation telemetry_endpoint: telemetry_service frepr pstr
  "telemetry_answers env settings ident compress" keeps_receipts "\<lambda>sv. receipts_ok (sv_db sv)"
  "\<lambda>sv. receipted (ai_agent_id ident) (sv_db sv)"
  for frepr pstr env settings ident compress
proof
  fix sv body answer sv' ids acks rejected
  assume w: "receipts_ok (sv_db sv)" and a: "telemetry_answers env settings ident compress body sv answer sv'"
  then obtain now seen result where
    s: "receipts_ok seen" "receipted (ai_agent_id ident) seen \<subseteq> receipted (ai_agent_id ident) (sv_db sv)"
    and e: "telemetry_batch_endpoint env settings ident now (compress body) seen sv = (result, sv')"
    and r: "answer = http_answer result"
    unfolding telemetry_answers_def by blast
  note k = endpoint_acknowledges_receipted [OF e s(1) w s(2)]
  show "receipts_ok (sv_db sv') \<and> receipted (ai_agent_id ident) (sv_db sv) \<subseteq> receipted (ai_agent_id ident) (sv_db sv')"
    using k by blast
  assume status: "200 \<le> hr_status answer" "hr_status answer < 300"
    and read: "read_response frepr pstr ids (hr_body answer) = Inr (acks, rejected)"
  show "set acks \<subseteq> receipted (ai_agent_id ident) (sv_db sv')"
  proof (cases result)
    case (Inl f)
    then have "400 \<le> hr_status answer" using endpoint_failure_status e r by blast
    with status show ?thesis by simp
  next
    case (Inr resp)
    then have "acks = br_accepted resp @ br_duplicates resp" using read r by (auto dest: read_response_json)
    with k Inr show ?thesis by (simp add: acknowledged_by_def)
  qed
qed (auto simp: keeps_receipts_def)

text \<open>
  C1. No event is lost without a trace. Whatever happens, in any order: events appended while a
  batch is in flight, evictions by size or age, requests and answers lost, retries, the server
  refusing or failing, other agents and requests on the server: every event that was ever appended is
  still queued, in quarantine, in an eviction report, or has a receipt on the server.
\<close>

theorem no_unaccounted_loss:
  assumes "(delivery_step frepr pstr estr loads digest_id (telemetry_answers env settings ident compress) keeps_receipts)\<^sup>*\<^sup>*
             (pipeline_start (new_spool mb ma) sv) p"
    and "receipts_ok (sv_db sv)"
  shows "set (pl_appended p) \<subseteq> set (queue_ids (sd_spool (pl_sender p))) \<union> set (quarantine_ids (sd_spool (pl_sender p)))
     \<union> set (pl_evicted p) \<union> receipted (ai_agent_id ident) (sv_db (pl_server p))"
  using telemetry_endpoint.nothing_unaccounted [OF assms]
  by (simp add: telemetry_endpoint.accounted_def)

definition demo_env :: api_env where
  "demo_env = \<lparr>en_sha = (\<lambda>_. ''d''), en_frepr = (\<lambda>_. []), en_pstr = (\<lambda>_. []), en_parse = (\<lambda>_. None),
     en_decode_batch = (\<lambda>_. Inl []), en_decode = (\<lambda>_. Inr demo_wire)\<rparr>"

definition demo_server :: server where
  "demo_server = \<lparr>sv_db = empty_database, sv_watermarks = \<lparr>wm_commit = 0, wm_inventory = 0\<rparr>\<rparr>"

text \<open>One event appended, sent, and the request lost.\<close>

theorem no_unaccounted_loss_witness:
  "\<exists>p :: server pipeline. pl_appended p = [''a''] \<and> pl_flight p \<noteq> None
     \<and> ''a'' \<in> set (queue_ids (sd_spool (pl_sender p))) \<union> set (quarantine_ids (sd_spool (pl_sender p)))
         \<union> set (pl_evicted p) \<union> receipted (ai_agent_id demo_identity) (sv_db (pl_server p))"
proof -
  let ?R = "delivery_step (\<lambda>_. []) (\<lambda>_. []) (\<lambda>_. []) (\<lambda>_. JNull) (\<lambda>_. [])
      (telemetry_answers demo_env default_settings demo_identity (\<lambda>_. [])) keeps_receipts"
  let ?p0 = "pipeline_start (new_spool 100 60) demo_server"
  obtain sp evs where a: "append_sync 1 [(''a'', 1, ''{}'')] [] (new_spool 100 60) = (sp, evs)" by force
  let ?p1 = "?p0\<lparr>pl_sender := (pl_sender ?p0)\<lparr>sd_spool := sp\<rparr>, pl_appended := pl_appended ?p0 @ map fst [(''a'', 1 :: rat, ''{}'')],
      pl_evicted := pl_evicted ?p0 @ map ev_event_id evs\<rparr>"
  have "append_sync 1 [(''a'', 1, ''{}'')] [] (sd_spool (pl_sender ?p0)) = (sp, evs)"
    using a by (simp add: pipeline_start_def sender_start_def)
  then have 1: "?R ?p0 ?p1" by (rule delivery_step.append)
  have sp: "sp = fst (append_sync 1 [(''a'', 1, ''{}'')] [] (new_spool 100 60))" using a by simp
  have "queue sp = [row_of 1 (''a'', 1, ''{}'')]"
    unfolding sp by (simp add: append_sync_def queue_enforce_limits select_evictions_def expired_def
        new_spool_def insert_ignore_def)
  then have "fst (pick_batch (\<lambda>_. JNull) (pl_sender ?p1)) \<noteq> []"
    unfolding pick_batch_Nil by (simp add: pipeline_start_def sender_start_def)
  then obtain records s where p: "pick_batch (\<lambda>_. JNull) (pl_sender ?p1) = (records, s)" "records \<noteq> []"
    by (cases "pick_batch (\<lambda>_. JNull) (pl_sender ?p1)") auto
  have none: "pl_flight ?p1 = None" "sd_task (pl_sender ?p1) = Running"
    by (simp_all add: pipeline_start_def sender_start_def)
  define p2 where "p2 = ?p1\<lparr>pl_sender := s, pl_flight := Some (map rec_event_id records, Inl (HttpError []))\<rparr>"
  have 2: "?R ?p1 p2" unfolding p2_def using none p by (rule delivery_step.lost_request)
  have "?R\<^sup>*\<^sup>* ?p0 ?p1" using 1 by (rule r_into_rtranclp [where r = ?R])
  then have "?R\<^sup>*\<^sup>* ?p0 p2" using 2 by (rule rtranclp.rtrancl_into_rtrancl [where r = ?R])
  moreover have "receipts_ok (sv_db demo_server)"
    by (simp add: demo_server_def receipts_ok_def empty_database_def)
  ultimately have "set (pl_appended p2) \<subseteq> set (queue_ids (sd_spool (pl_sender p2)))
      \<union> set (quarantine_ids (sd_spool (pl_sender p2))) \<union> set (pl_evicted p2)
      \<union> receipted (ai_agent_id demo_identity) (sv_db (pl_server p2))"
    by (rule no_unaccounted_loss)
  moreover have "pl_appended p2 = [''a'']" "pl_flight p2 \<noteq> None"
    by (simp_all add: p2_def pipeline_start_def)
  ultimately show ?thesis by - (rule exI [of _ p2], simp)
qed

section \<open>An answered batch leaves the queue\<close>

lemma check_events_rejected_events:
  "r \<in> set (snd (check_events check eid i raws)) \<Longrightarrow>
     \<exists>j < length raws. rj_index r = i + j \<and> rj_event_id r = eid (raws ! j) \<and> (\<exists>errs. check (raws ! j) = Inl errs)"
proof (induction raws arbitrary: i)
  case (Cons raw raws)
  have tail: "\<exists>j < length (raw # raws). rj_index r = i + j \<and> rj_event_id r = eid ((raw # raws) ! j)
      \<and> (\<exists>errs. check ((raw # raws) ! j) = Inl errs)"
    if "r \<in> set (snd (check_events check eid (Suc i) raws))"
    using Cons.IH [OF that] by (metis Suc_mono add_Suc_shift length_Cons nth_Cons_Suc)
  obtain valid rejected where v: "check_events check eid (Suc i) raws = (valid, rejected)" by force
  show ?case
  proof (cases "check raw")
    case (Inl errs)
    then have "rj_index r = i \<and> rj_event_id r = eid raw \<or> r \<in> set rejected"
      using Cons.prems by (auto simp: v)
    then show ?thesis
    proof
      assume "rj_index r = i \<and> rj_event_id r = eid raw"
      with Inl show ?thesis by (intro exI [of _ 0]) simp
    qed (use tail v in simp)
  next
    case (Inr e)
    then show ?thesis using Cons.prems tail by (simp add: v)
  qed
qed simp

lemma collect_rejections_json:
  assumes "\<forall>r \<in> set rs. \<exists>i. rj_event_id r = Some i \<and> i \<noteq> []"
  shows "\<exists>d'. collect_rejections frepr pstr ids (map rejected_json rs) d = Inr d'
    \<and> fst ` set d' = fst ` set d \<union> {i. \<exists>r \<in> set rs. rj_event_id r = Some i}"
  using assms
proof (induction rs arbitrary: d)
  case (Cons r rs)
  obtain i where i: "rj_event_id r = Some i" "i \<noteq> []" using Cons.prems by auto
  let ?kvs = "[(''index'', JInt (int (rj_index r))), (''event_id'', opt_str (rj_event_id r)),
     (''errors'', JArr (map error_json (rj_errors r)))]"
  let ?d = "dict_set i (rejection_reason frepr ?kvs) d"
  have "rejected_id pstr ids ?kvs = Inr (Some i)"
    using i by (simp add: rejected_id_def get_or_def opt_str_def)
  then have step: "collect_rejections frepr pstr ids (map rejected_json (r # rs)) d
      = collect_rejections frepr pstr ids (map rejected_json rs) ?d"
    by (simp add: rejected_json_def)
  have keys: "fst ` set ?d = insert i (fst ` set d)"
    using arg_cong [OF dict_set_keys [of i "rejection_reason frepr ?kvs" d], of set] by (auto split: if_splits)
  obtain d' where d': "collect_rejections frepr pstr ids (map rejected_json rs) ?d = Inr d'"
    "fst ` set d' = fst ` set ?d \<union> {i. \<exists>r \<in> set rs. rj_event_id r = Some i}"
    using Cons.IH [of ?d] Cons.prems by auto
  have "{k. \<exists>r' \<in> set (r # rs). rj_event_id r' = Some k} = insert i {k. \<exists>r' \<in> set rs. rj_event_id r' = Some k}"
    using i by auto
  then show ?case unfolding step using d' keys by simp
qed simp

lemma read_response_total:
  assumes "\<forall>r \<in> set (br_rejected resp). \<exists>i. rj_event_id r = Some i \<and> i \<noteq> []"
  shows "\<exists>rejected. read_response frepr pstr ids (response_json resp) = Inr (br_accepted resp @ br_duplicates resp, rejected)
    \<and> fst ` set rejected = {i. \<exists>r \<in> set (br_rejected resp). rj_event_id r = Some i}"
proof -
  obtain d where d: "collect_rejections frepr pstr ids (map rejected_json (br_rejected resp)) [] = Inr d"
    "fst ` set d = {i. \<exists>r \<in> set (br_rejected resp). rj_event_id r = Some i}"
    using collect_rejections_json [OF assms, of frepr pstr ids "[]"] by auto
  have "map_result (sql_text frepr) (map JStr (br_accepted resp) @ map JStr (br_duplicates resp)) =
      Inr (map (\<lambda>x. [x]) (br_accepted resp @ br_duplicates resp))"
    using map_result_sql_text [of frepr "br_accepted resp @ br_duplicates resp"] by simp
  moreover have "concat (map (\<lambda>x. [x]) xs) = xs" for xs :: "pystr list" by (induction xs) auto
  ultimately show ?thesis
    using d by (simp add: read_response_def response_json_def get_or_def del: map_append)
qed

text \<open>The raw events carry their ids, and the server reads them.\<close>

definition wire_ids :: "decoder \<Rightarrow> pystr list \<Rightarrow> json list \<Rightarrow> bool" where
  "wire_ids decode ids raws \<longleftrightarrow> length ids = length raws
     \<and> (\<forall>j < length ids. ids ! j \<noteq> [] \<and> obj_get (raws ! j) ''event_id'' = Some (JStr (ids ! j))
           \<and> (\<forall>w. decode (raws ! j) = Inr w \<longrightarrow> te_event_id w = ids ! j))"

lemma wire_raw_id:
  assumes "wire_ids decode ids raws" and "j < length ids"
  shows "raw_event_id pstr (raws ! j) = Some (ids ! j)"
proof -
  have "obj_get (raws ! j) ''event_id'' = Some (JStr (ids ! j))" "ids ! j \<noteq> []"
    using assms unfolding wire_ids_def by blast+
  then show ?thesis by (simp only: raw_event_id_def option.case json_truthy.simps py_str.simps not_False_eq_True if_True)
qed

lemma wire_valid_id:
  assumes "wire_ids decode ids raws" and "j < length ids" and "check_event decode frepr ident seen (raws ! j) = Inr e"
  shows "te_event_id e = ids ! j"
proof -
  have "validate_event decode frepr (raws ! j) = Inr e"
    using assms(3) by (auto simp: check_event_def bind_result_Inr_iff split: if_splits)
  then obtain w t obs where w: "decode (raws ! j) = Inr w" "e = with_times t obs w"
    unfolding validate_event_Inr by blast
  have "te_event_id w = ids ! j" using assms(1,2) w(1) unfolding wire_ids_def by blast
  then show ?thesis by (simp only: w(2) with_times_simps)
qed

text \<open>Every rejection names the event it rejects, and every rejected event has one.\<close>

lemma wire_rejected:
  assumes "wire_ids decode ids raws"
    and "r \<in> set (snd (check_events (check_event decode frepr ident seen) (raw_event_id pstr) 0 raws))"
  shows "\<exists>j < length ids. rj_event_id r = Some (ids ! j) \<and> ids ! j \<noteq> []"
proof -
  obtain j where "j < length raws" "rj_event_id r = raw_event_id pstr (raws ! j)"
    using check_events_rejected_events [OF assms(2)] by blast
  then show ?thesis using wire_raw_id [OF assms(1), of j] assms(1) unfolding wire_ids_def by metis
qed

lemma wire_rejects:
  assumes "wire_ids decode ids raws" and "j < length ids" and "check_event decode frepr ident seen (raws ! j) = Inl errs"
  shows "\<exists>r \<in> set (snd (check_events (check_event decode frepr ident seen) (raw_event_id pstr) 0 raws)). rj_event_id r = Some (ids ! j)"
proof -
  let ?rejected = "snd (check_events (check_event decode frepr ident seen) (raw_event_id pstr) 0 raws)"
  have "j < length raws" using assms(1,2) by (simp add: wire_ids_def)
  then have "j \<in> rj_index ` set ?rejected"
    unfolding check_events_rejected_index using assms(3) by (intro CollectI exI [of _ j]) simp
  then obtain r where r: "r \<in> set ?rejected" "rj_index r = j" by blast
  then obtain k where "rj_index r = 0 + k" "rj_event_id r = raw_event_id pstr (raws ! k)"
    using check_events_rejected_events by blast
  then have "rj_event_id r = Some (ids ! j)" using wire_raw_id [OF assms(1,2)] r(2) by (simp only: add_0)
  with r(1) show ?thesis by blast
qed

lemma wire_cover:
  fixes decode frepr ident seen raws pstr
  defines "valid \<equiv> valid_events decode frepr ident seen raws"
    and "rejected \<equiv> snd (check_events (check_event decode frepr ident seen) (raw_event_id pstr) 0 raws)"
  assumes "wire_ids decode ids raws"
  shows "te_event_id ` set valid \<union> {i. \<exists>r \<in> set rejected. rj_event_id r = Some i} = set ids"
proof (intro equalityI subsetI)
  have same: "length ids = length raws" using assms(3) by (simp add: wire_ids_def)
  fix i assume "i \<in> set ids"
  then obtain j where j: "j < length ids" "i = ids ! j" by (auto simp: in_set_conv_nth)
  show "i \<in> te_event_id ` set valid \<union> {i. \<exists>r \<in> set rejected. rj_event_id r = Some i}"
  proof (cases "check_event decode frepr ident seen (raws ! j)")
    case (Inr e)
    have "raws ! j \<in> set raws" using j(1) same by simp
    then have "e \<in> set valid" using Inr unfolding valid_def in_valid_events by blast
    moreover have "te_event_id e = i" unfolding j(2) by (rule wire_valid_id [OF assms(3) j(1) Inr])
    ultimately show ?thesis by blast
  next
    case (Inl errs)
    show ?thesis using wire_rejects [OF assms(3) j(1) Inl, of pstr] unfolding rejected_def j(2) by blast
  qed
next
  have same: "length ids = length raws" using assms(3) by (simp add: wire_ids_def)
  fix i assume i: "i \<in> te_event_id ` set valid \<union> {i. \<exists>r \<in> set rejected. rj_event_id r = Some i}"
  have "\<exists>j < length ids. i = ids ! j"
  proof (cases "i \<in> te_event_id ` set valid")
    case True
    then obtain e raw' where e: "i = te_event_id e" "raw' \<in> set raws" "check_event decode frepr ident seen raw' = Inr e"
      unfolding valid_def using in_valid_events by blast
    then obtain j where j: "j < length ids" "check_event decode frepr ident seen (raws ! j) = Inr e"
      using same by (auto simp: in_set_conv_nth)
    show ?thesis using wire_valid_id [OF assms(3) j] e(1) j(1) by blast
  next
    case False
    then obtain r where r: "r \<in> set rejected" "rj_event_id r = Some i" using i by blast
    show ?thesis using wire_rejected [OF assms(3), of r] r unfolding rejected_def by fastforce
  qed
  then show "i \<in> set ids" by auto
qed



end
