(* ===== verification/Normalization.thy ===== *)
theory Normalization
  imports Contracts Clock
begin

text \<open>
  The agent's envelope builder, \<open>agent/src/temporalrca_agent/models.py\<close> and
  \<open>normalization.py\<close>: attribute sanitising under the bounds of the wire contract, the sequence
  counter, the flat dictionary an event is sent as, and what the server's validator says of it.
\<close>

section \<open>Data\<close>

record entity_ref =
  er_host_id :: "pystr option"
  er_service_id :: "pystr option"
  er_process_id :: "pystr option"
  er_container_id :: "pystr option"
  er_dependency_id :: "pystr option"

record agent_event =
  ae_timestamp :: json
  ae_observed :: pystr
  ae_sequence :: int
  ae_source_type :: source_type
  ae_signal_type :: signal_type
  ae_name :: pystr
  ae_event_id :: uuid
  ae_entity :: entity_ref
  ae_value :: "pyfloat option"
  ae_unit :: "pystr option"
  ae_severity :: "pystr option"
  ae_message :: "pystr option"
  ae_attributes :: "(pystr, json) dict"

record normalizer =
  nz_host_id :: "pystr option"
  nz_sequence :: int

definition no_entity :: entity_ref where
  "no_entity = \<lparr>er_host_id = None, er_service_id = None, er_process_id = None,
                er_container_id = None, er_dependency_id = None\<rparr>"

section \<open>The dictionary on the wire\<close>

text \<open>\<open>as_dict\<close>: the fields in declaration order, the entity flattened at the end, no \<open>None\<close>.\<close>

definition as_dict :: "agent_event \<Rightarrow> json" where
  "as_dict e = JObj (filter (\<lambda>(key, item). item \<noteq> JNull)
     [(''timestamp'', ae_timestamp e), (''observed_timestamp'', JStr (ae_observed e)),
      (''sequence'', JInt (ae_sequence e)), (''source_type'', JStr (source_value (ae_source_type e))),
      (''signal_type'', JStr (signal_value (ae_signal_type e))), (''name'', JStr (ae_name e)),
      (''event_id'', JStr (ae_event_id e)),
      (''value'', case ae_value e of None \<Rightarrow> JNull | Some q \<Rightarrow> JFloat q),
      (''unit'', opt_str (ae_unit e)), (''severity'', opt_str (ae_severity e)),
      (''message'', opt_str (ae_message e)), (''attributes'', JObj (ae_attributes e)),
      (''schema_version'', JStr ''1.0''),
      (''host_id'', opt_str (er_host_id (ae_entity e))), (''service_id'', opt_str (er_service_id (ae_entity e))),
      (''process_id'', opt_str (er_process_id (ae_entity e))),
      (''container_id'', opt_str (er_container_id (ae_entity e))),
      (''dependency_id'', opt_str (er_dependency_id (ae_entity e)))])"

section \<open>Attributes\<close>

text \<open>The complement of the character class \<open>_KEY\<close>.\<close>

definition key_char :: "char \<Rightarrow> bool" where
  "key_char c = (let n = of_char c :: nat in
     97 \<le> n \<and> n \<le> 122 \<or> 65 \<le> n \<and> n \<le> 90 \<or> 48 \<le> n \<and> n \<le> 57
     \<or> c \<in> {CHR ''_'', CHR ''.'', CHR '':'', CHR ''/'', CHR ''-''})"

definition safe_key :: "pystr \<Rightarrow> pystr" where
  "safe_key key = take 128 (map (\<lambda>c. if key_char c then c else CHR ''_'') key)"

text \<open>The value kept: strings cut, scalars as they are, \<open>str(value)\<close> of anything else.\<close>

fun attr_value :: "(json \<Rightarrow> pystr) \<Rightarrow> json \<Rightarrow> json" where
  "attr_value pstr (JStr s) = JStr (take 2048 s)"
| "attr_value pstr (JArr xs) = JStr (take 2048 (pstr (JArr xs)))"
| "attr_value pstr (JObj kvs) = JStr (take 2048 (pstr (JObj kvs)))"
| "attr_value pstr v = v"

fun attributes_loop ::
  "(rat \<Rightarrow> string) \<Rightarrow> (json \<Rightarrow> pystr) \<Rightarrow> nat \<Rightarrow> (pystr, json) dict \<Rightarrow> (pystr \<times> json) list \<Rightarrow> (pystr, json) dict"
where
  "attributes_loop frepr pstr index result [] = result"
| "attributes_loop frepr pstr index result ((key, v) # rest) =
     (if 64 \<le> index then result
      else let result' = dict_set (safe_key key) (attr_value pstr v) result in
        if 16384 < length (json_dumps frepr (JObj result')) then dict_del (safe_key key) result'
        else attributes_loop frepr pstr (Suc index) result' rest)"

definition attributes ::
  "(rat \<Rightarrow> string) \<Rightarrow> (json \<Rightarrow> pystr) \<Rightarrow> (pystr, json) dict \<Rightarrow> (pystr, json) dict" where
  "attributes frepr pstr vals = attributes_loop frepr pstr 0 [] vals"

section \<open>Events\<close>

text \<open>
  The \<open>timestamp\<close> argument: absent, a datetime with or without a time zone, or whatever value a
  structured log line carries, which is sent as it is unless it is empty.
\<close>

datatype event_time = NoTime | TimeValue json | TimeNaive int | TimeAware datetime

fun event_timestamp :: "pystr \<Rightarrow> event_time \<Rightarrow> json" where
  "event_timestamp observed NoTime = JStr observed"
| "event_timestamp observed (TimeValue v) = (if json_truthy v then v else JStr observed)"
| "event_timestamp observed (TimeNaive t) = JStr (iso_utc t)"
| "event_timestamp observed (TimeAware t) = JStr (iso_utc t)"

text \<open>The keyword arguments of \<open>Normalizer.event\<close>.\<close>

record event_args =
  ea_source :: source_type
  ea_signal :: signal_type
  ea_name :: pystr
  ea_timestamp :: event_time
  ea_entity :: "entity_ref option"
  ea_value :: "pyfloat option"
  ea_unit :: "pystr option"
  ea_severity :: "pystr option"
  ea_message :: "pystr option"
  ea_attributes :: "(pystr, json) dict"

definition event_default :: "source_type \<Rightarrow> signal_type \<Rightarrow> pystr \<Rightarrow> event_args" where
  "event_default source signal name =
     \<lparr>ea_source = source, ea_signal = signal, ea_name = name, ea_timestamp = NoTime,
      ea_entity = None, ea_value = None, ea_unit = None, ea_severity = None, ea_message = None,
      ea_attributes = []\<rparr>"

text \<open>\<open>now\<close> is the clock and \<open>new_id\<close> the fresh UUID; the counter advances by one.\<close>

definition event ::
  "(rat \<Rightarrow> string) \<Rightarrow> (json \<Rightarrow> pystr) \<Rightarrow> datetime \<Rightarrow> uuid \<Rightarrow> event_args \<Rightarrow> normalizer \<Rightarrow> normalizer \<times> agent_event"
where
  "event frepr pstr now new_id a n =
     (let observed = iso_utc now;
          ref = (case ea_entity a of None \<Rightarrow> no_entity | Some r \<Rightarrow> r);
          ref' = (if er_host_id ref = None then ref\<lparr>er_host_id := nz_host_id n\<rparr> else ref);
          seq = nz_sequence n + 1
      in (n\<lparr>nz_sequence := seq\<rparr>,
          \<lparr>ae_timestamp = event_timestamp observed (ea_timestamp a), ae_observed = observed,
           ae_sequence = seq, ae_source_type = ea_source a, ae_signal_type = ea_signal a,
           ae_name = take 255 (ea_name a), ae_event_id = new_id, ae_entity = ref',
           ae_value = ea_value a, ae_unit = ea_unit a, ae_severity = ea_severity a,
           ae_message = (case ea_message a of None \<Rightarrow> None
                          | Some m \<Rightarrow> if m = [] then None else Some (take 65536 m)),
           ae_attributes = attributes frepr pstr (ea_attributes a)\<rparr>))"

section \<open>Bounds of the attributes\<close>

definition bounded :: "(rat \<Rightarrow> string) \<Rightarrow> (pystr, json) dict \<Rightarrow> bool" where
  "bounded frepr r \<longleftrightarrow> dict_ok r \<and> (\<forall>kv \<in> set r. safe_key (fst kv) = fst kv \<and> (\<forall>pstr. attr_value pstr (snd kv) = snd kv))
     \<and> length (json_dumps frepr (JObj r)) \<le> 16384"

lemma key_char_underscore [simp]: "key_char (CHR ''_'')"
  by (simp add: key_char_def Let_def)

lemma safe_key_idem [simp]: "safe_key (safe_key k) = safe_key k"
  by (auto simp: safe_key_def take_map o_def)

lemma length_safe_key [simp]: "length (safe_key k) \<le> 128"
  by (simp add: safe_key_def)

lemma attr_value_idem [simp]: "attr_value pstr' (attr_value pstr v) = attr_value pstr v"
  by (cases v) auto

lemma set_dict_set: "set (dict_set k v d) \<subseteq> insert (k, v) (set d)"
  by (induction d) auto

lemma length_dict_set: "length (dict_set k v d) \<le> Suc (length d)"
  by (induction d) auto

lemma attributes_loop_bounded:
  assumes "bounded frepr r" and "length r \<le> i" and "i \<le> 64"
  shows "bounded frepr (attributes_loop frepr pstr i r kvs)
         \<and> length (attributes_loop frepr pstr i r kvs) \<le> 64"
  using assms
proof (induction kvs arbitrary: i r)
  case (Cons kv kvs)
  obtain k v where kv: "kv = (k, v)" by (cases kv)
  let ?r = "dict_set (safe_key k) (attr_value pstr v) r"
  have ok: "dict_ok ?r" using Cons.prems(1) by (simp add: bounded_def)
  have item: "\<forall>kv \<in> set ?r. safe_key (fst kv) = fst kv \<and> (\<forall>pstr. attr_value pstr (snd kv) = snd kv)"
  proof
    fix kv' assume "kv' \<in> set ?r"
    then have "kv' = (safe_key k, attr_value pstr v) \<or> kv' \<in> set r"
      using set_dict_set [of "safe_key k" "attr_value pstr v" r] by blast
    then show "safe_key (fst kv') = fst kv' \<and> (\<forall>pstr. attr_value pstr (snd kv') = snd kv')"
      using Cons.prems(1) by (auto simp: bounded_def)
  qed
  have len: "length ?r \<le> Suc i"
    using length_dict_set [of "safe_key k" "attr_value pstr v" r] Cons.prems by linarith
  show ?case
  proof (cases "64 \<le> i")
    case False
    show ?thesis
    proof (cases "16384 < length (json_dumps frepr (JObj ?r))")
      case True
      have del: "dict_del (safe_key k) ?r = dict_del (safe_key k) r"
        by (induction r) auto
      have "bounded frepr (dict_del (safe_key k) r)"
        using Cons.prems(1) length_dumps_obj_del [of frepr "safe_key k" r]
        unfolding bounded_def by (auto simp: AList.delete_eq distinct_map_filter simp del: json_dumps_with.simps)
      moreover have "length (dict_del (safe_key k) r) \<le> length r" by (rule length_delete_le)
      ultimately show ?thesis using True False Cons.prems
        by (simp add: kv Let_def del del: json_dumps_with.simps)
    next
      case small: False
      then have "bounded frepr ?r" using ok item by (simp add: bounded_def del: json_dumps_with.simps)
      with Cons.IH [of ?r "Suc i"] len False small show ?thesis
        by (simp add: kv Let_def del: json_dumps_with.simps)
    qed
  qed (use Cons.prems kv in auto)
qed simp

lemma bounded_attributes_ok:
  "bounded frepr (attributes frepr pstr vals)" "length (attributes frepr pstr vals) \<le> 64"
  using attributes_loop_bounded [of frepr "[]" 0 pstr vals] by (simp_all add: attributes_def bounded_def)

text \<open>
  Whatever attributes a collector passes, the ones kept satisfy the wire contract's bounds: at
  most 64 keys of at most 128 characters, distinct, 16384 bytes of JSON at most. The server's
  validator accepts them unchanged.
\<close>

theorem attributes_pass_contract:
  "bounded_attributes frepr (attributes frepr pstr vals) = Inr (attributes frepr pstr vals)
   \<and> dict_ok (attributes frepr pstr vals)"
proof -
  have "length (fst kv) \<le> 128" if "kv \<in> set (attributes frepr pstr vals)" for kv
    using bounded_attributes_ok(1) [of frepr pstr vals] that length_safe_key [of "fst kv"]
    by (auto simp: bounded_def)
  then show ?thesis
    using bounded_attributes_ok [of frepr pstr vals]
    by (auto simp: bounded_attributes_Inr MAX_ATTRIBUTES_def MAX_ATTRIBUTES_BYTES_def bounded_def
        simp del: json_dumps_with.simps)
qed

lemma attributes_loop_id:
  assumes "bounded frepr (r @ kvs)" and "length (r @ kvs) \<le> 64"
  shows "attributes_loop frepr pstr (length r) r kvs = r @ kvs"
  using assms
proof (induction kvs arbitrary: r)
  case (Cons kv kvs)
  obtain k v where kv: "kv = (k, v)" by (cases kv)
  have fresh: "k \<notin> fst ` set r" and sk: "safe_key k = k" "attr_value pstr v = v"
    using Cons.prems(1) by (auto simp: bounded_def kv)
  have "dict_set k v r = r @ [(k, v)]" using fresh by (induction r) auto
  moreover have "length (json_dumps frepr (JObj (r @ [(k, v)]))) \<le> 16384"
    using length_dumps_obj_append [of frepr "r @ [(k, v)]" kvs] Cons.prems(1)
    unfolding bounded_def kv by (simp del: json_dumps_with.simps)
  moreover have "length r < 64" using Cons.prems(2) by simp
  moreover have "attributes_loop frepr pstr (length (r @ [(k, v)])) (r @ [(k, v)]) kvs = (r @ [(k, v)]) @ kvs"
    using Cons.prems by (intro Cons.IH) (simp_all add: kv del: json_dumps_with.simps)
  ultimately show ?case
    by (simp add: kv sk Let_def del: json_dumps_with.simps)
qed simp

text \<open>
  Normalising is a projection: attributes that have been normalised, with any rendering of
  composite values, are kept exactly as they are by a second pass.
\<close>

theorem attributes_idempotent:
  "attributes frepr pstr' (attributes frepr pstr vals) = attributes frepr pstr vals"
  using attributes_loop_id [of frepr "[]" "attributes frepr pstr vals" pstr']
    bounded_attributes_ok [of frepr pstr vals]
  by (simp add: attributes_def)

section \<open>What the server says of a normalised event\<close>

text \<open>
  What is relied on of the server's decoder for the event \<open>e\<close>: the dictionary it was sent as is
  read back field by field, a missing key as \<open>None\<close>, and its two timestamps carry a time zone.
\<close>

definition reads_back :: "decoder \<Rightarrow> agent_event \<Rightarrow> wire_event \<Rightarrow> bool" where
  "reads_back decode e w \<longleftrightarrow>
     decode (as_dict e) = Inr w
     \<and> (\<exists>t. te_timestamp w = Aware t) \<and> (\<exists>t. te_observed w = Aware t)
     \<and> te_sequence w = ae_sequence e \<and> te_source_type w = ae_source_type e
     \<and> te_signal_type w = ae_signal_type e \<and> te_name w = ae_name e
     \<and> te_process_id w = er_process_id (ae_entity e)
     \<and> te_dependency_id w = er_dependency_id (ae_entity e) \<and> te_value w = ae_value e
     \<and> te_unit w = ae_unit e \<and> te_severity w = ae_severity e \<and> te_event_type w = None
     \<and> te_message w = ae_message e \<and> te_attributes w = ae_attributes e"

lemma event_fields:
  assumes "e = snd (event frepr pstr now new_id a n)"
  shows "ae_sequence e = nz_sequence n + 1" "ae_source_type e = ea_source a"
    "ae_signal_type e = ea_signal a" "ae_name e = take 255 (ea_name a)" "ae_value e = ea_value a"
    "ae_unit e = ea_unit a" "ae_severity e = ea_severity a" "ae_event_id e = new_id"
    "er_process_id (ae_entity e) = (case ea_entity a of None \<Rightarrow> None | Some r \<Rightarrow> er_process_id r)"
    "er_dependency_id (ae_entity e) = (case ea_entity a of None \<Rightarrow> None | Some r \<Rightarrow> er_dependency_id r)"
    "ae_message e = (case ea_message a of None \<Rightarrow> None
                     | Some m \<Rightarrow> if m = [] then None else Some (take 65536 m))"
    "ae_attributes e = attributes frepr pstr (ea_attributes a)"
  using assms by (simp_all add: event_def Let_def no_entity_def split: option.splits)

lemma field_errors_Nil: "field_errors e = [] \<longleftrightarrow>
    0 \<le> te_sequence e \<and> te_name e \<noteq> [] \<and> length (te_name e) \<le> 255 \<and> fits_in 64 (te_unit e)
    \<and> fits_in 32 (te_severity e) \<and> fits_in 128 (te_event_type e) \<and> fits_in 65536 (te_message e)"
  by (auto simp: field_errors_def)

lemma fits_in_simps [simp]: "fits_in n None" "fits_in n (Some s) \<longleftrightarrow> length s \<le> n"
  by (simp_all add: fits_in_def)

lemma validate_event_accepts:
  "(\<exists>v. validate_event decode frepr raw = Inr v) \<longleftrightarrow>
     (\<exists>w. decode raw = Inr w \<and> (\<exists>t. te_timestamp w = Aware t) \<and> (\<exists>t. te_observed w = Aware t)
        \<and> bounded_attributes frepr (te_attributes w) = Inr (te_attributes w) \<and> field_errors w = []
        \<and> (te_signal_type w = METRIC \<longrightarrow> te_value w \<noteq> None) \<and> (te_signal_type w = LOG \<longrightarrow> te_message w \<noteq> None)
        \<and> (te_source_type w = PROCESS \<longrightarrow> te_process_id w \<noteq> None)
        \<and> (te_source_type w = DEPENDENCY \<longrightarrow> te_dependency_id w \<noteq> None))"
  unfolding validate_event_Inr signal_fields_Inr with_times_simps by blast

text \<open>
  C12. An event the normaliser built is accepted by the server exactly when its name is not empty, its
  unit and severity fit in 64 and 32 characters (the normaliser does not cut them), a metric has a
  value, a log event has a message that is not empty, and a process or dependency event names its
  process or dependency. Everything else the contract asks, the normaliser guarantees.
\<close>

theorem normalised_event_accepted:
  assumes "e = snd (event frepr pstr now new_id a n)" and "reads_back decode e w"
    and "0 \<le> nz_sequence n"
  shows "(\<exists>v. validate_event decode frepr (as_dict e) = Inr v) \<longleftrightarrow>
     ea_name a \<noteq> [] \<and> fits_in 64 (ea_unit a) \<and> fits_in 32 (ea_severity a)
     \<and> (ea_signal a = METRIC \<longrightarrow> ea_value a \<noteq> None)
     \<and> (ea_signal a = LOG \<longrightarrow> (\<exists>m. ea_message a = Some m \<and> m \<noteq> []))
     \<and> (ea_source a = PROCESS \<longrightarrow> (\<exists>r. ea_entity a = Some r \<and> er_process_id r \<noteq> None))
     \<and> (ea_source a = DEPENDENCY \<longrightarrow> (\<exists>r. ea_entity a = Some r \<and> er_dependency_id r \<noteq> None))"
proof -
  note f = event_fields [OF assms(1)]
  have attrs: "bounded_attributes frepr (ae_attributes e) = Inr (ae_attributes e)"
    using attributes_pass_contract unfolding f by blast
  show ?thesis
    using assms(2,3) attrs unfolding validate_event_accepts field_errors_Nil reads_back_def
    by (auto simp: f split: option.splits if_splits)
qed

text \<open>An empty log line, the event the file collector builds for it, and how it would be decoded.\<close>

definition blank_line :: event_args where
  "blank_line = (event_default APPLICATION LOG ''app'')\<lparr>ea_message := Some []\<rparr>"

theorem normalised_event_accepted_witness:
  "\<exists>decode. let e = snd (event (\<lambda>_. ''0.0'') (\<lambda>_. []) 0 ''id'' blank_line \<lparr>nz_host_id = None, nz_sequence = 0\<rparr>)
     in (\<exists>w. reads_back decode e w) \<and> \<not> (\<exists>v. validate_event decode (\<lambda>_. ''0.0'') (as_dict e) = Inr v)"
proof -
  let ?f = "\<lambda>_ :: rat. ''0.0''" and ?n = "\<lparr>nz_host_id = None, nz_sequence = 0\<rparr>"
  define e where "e = snd (event ?f (\<lambda>_. []) 0 ''id'' blank_line ?n)"
  define w where "w = \<lparr>te_event_id = ''id'', te_timestamp = Aware 0, te_observed = Aware 0,
      te_sequence = 1, te_host_id = None, te_service_id = None, te_process_id = None,
      te_container_id = None, te_dependency_id = None, te_experiment_id = None,
      te_source_type = APPLICATION, te_signal_type = LOG, te_name = ''app'', te_value = None,
      te_unit = None, te_severity = None, te_event_type = None, te_message = None,
      te_attributes = []\<rparr>"
  have r: "reads_back (\<lambda>_. Inr w) e w"
    unfolding reads_back_def event_fields [OF e_def]
    by (simp add: w_def blank_line_def event_default_def attributes_def)
  have "\<not> (\<exists>v. validate_event (\<lambda>_. Inr w) ?f (as_dict e) = Inr v)"
    using normalised_event_accepted [OF e_def r] by (simp add: blank_line_def event_default_def)
  with r show ?thesis unfolding e_def Let_def by blast
qed

end
