(* ===== verification/Runtime.thy ===== *)
theory Runtime
  imports Normalization Sender Spool_Eviction
begin

text \<open>
  The rest of the agent's core loop, \<open>runtime.py\<close>: start-up, emitting collected events with
  their state updates, reporting spool losses and collector errors, the guarded collector loop and
  the heartbeat. Clock readings are passed in, the events of one call are encoded in order.
\<close>

section \<open>State\<close>

record agent =
  rt_spool :: spool
  rt_normalizer :: normalizer
  rt_health :: "(pystr, health) dict"
  rt_credential :: "pystr option"

section \<open>Emitting\<close>

text \<open>\<open>SQLiteSpool.append\<close> encodes the events with one reading \<open>clk i\<close> of the clock each.\<close>

definition encode :: "(rat \<Rightarrow> string) \<Rightarrow> (nat \<Rightarrow> pyfloat) \<Rightarrow> agent_event list \<Rightarrow> encoded list" where
  "encode frepr clk events =
     map (\<lambda>(i, e). (ae_event_id e, clk i, json_dumps frepr (as_dict e))) (enumerate 0 events)"

definition loss_args :: "eviction list \<Rightarrow> event_args" where
  "loss_args evictions = (event_default SYSTEM COLLECTOR_HEALTH ''agent.spool.data_loss'')
     \<lparr>ea_severity := Some ''ERROR'', ea_message := Some ''events evicted from local spool'',
      ea_attributes := [(''events_lost'', JInt (int (length evictions))),
        (''bytes_lost'', JInt (int (sum_list (map ev_bytes evictions)))),
        (''first_event_id'', JStr (case evictions of [] \<Rightarrow> [] | e # _ \<Rightarrow> ev_event_id e))]\<rparr>"

definition emit ::
  "(rat \<Rightarrow> string) \<Rightarrow> (json \<Rightarrow> pystr) \<Rightarrow> (nat \<Rightarrow> pyfloat) \<Rightarrow> datetime \<Rightarrow> uuid \<Rightarrow> agent_event list \<Rightarrow> (pystr \<times> pystr) list
    \<Rightarrow> agent \<Rightarrow> agent" where
  "emit frepr pstr clk now new_id events state_updates a =
     (if events = [] \<and> state_updates = [] then a
      else
        let n = length events;
            (sp, evictions) = append_sync (clk n) (encode frepr clk events) state_updates (rt_spool a);
            a1 = (if evictions \<noteq> []
                  then (case event frepr pstr now new_id (loss_args evictions) (rt_normalizer a) of
                     (nz, loss) \<Rightarrow> a\<lparr>rt_normalizer := nz, rt_spool :=
                         fst (append_sync (clk (n + 2)) (encode frepr (\<lambda>i. clk (n + 1 + i)) [loss]) [] sp)\<rparr>)
                  else a\<lparr>rt_spool := sp\<rparr>)
        in a1\<lparr>rt_spool := set_state ''sequence'' (int_str (nz_sequence (rt_normalizer a1))) (rt_spool a1)\<rparr>)"

definition health_error ::
  "(rat \<Rightarrow> string) \<Rightarrow> (json \<Rightarrow> pystr) \<Rightarrow> (nat \<Rightarrow> pyfloat) \<Rightarrow> datetime \<Rightarrow> uuid \<times> uuid \<Rightarrow> pystr \<Rightarrow> pystr \<Rightarrow> pystr \<Rightarrow> agent \<Rightarrow> agent"
where
  "health_error frepr pstr clk now new_ids collector error_type message a =
     (let a1 = a\<lparr>rt_health := dict_set collector
              \<lparr>h_status = ''error'', h_message = Some (take 512 message)\<rparr> (rt_health a)\<rparr>;
          (nz, e) = event frepr pstr now (fst new_ids)
            ((event_default SYSTEM COLLECTOR_HEALTH ''collector.error'')
              \<lparr>ea_severity := Some ''ERROR'', ea_message := Some message,
               ea_attributes := [(''collector'', JStr collector), (''error.type'', JStr error_type)]\<rparr>)
            (rt_normalizer a1)
      in emit frepr pstr clk now (snd new_ids) [e] [] (a1\<lparr>rt_normalizer := nz\<rparr>))"

text \<open>
  One turn of \<open>_guarded_loop\<close>: the operation's effect and the exception it raised, if any, as type
  and message.
\<close>

definition guarded_turn ::
  "(rat \<Rightarrow> string) \<Rightarrow> (json \<Rightarrow> pystr) \<Rightarrow> (nat \<Rightarrow> pyfloat) \<Rightarrow> datetime \<Rightarrow> uuid \<times> uuid \<Rightarrow> pystr
    \<Rightarrow> (agent \<Rightarrow> agent \<times> (pystr \<times> pystr) option) \<Rightarrow> agent \<Rightarrow> agent" where
  "guarded_turn frepr pstr clk now new_ids name operation a =
     (case operation a of
        (a', None) \<Rightarrow> a'\<lparr>rt_health := dict_set name \<lparr>h_status = ''ok'', h_message = None\<rparr> (rt_health a')\<rparr>
      | (a', Some (error_type, message)) \<Rightarrow>
          health_error frepr pstr clk now new_ids name error_type message a')"

section \<open>Heartbeat\<close>

definition heartbeat_body :: "pystr \<Rightarrow> pystr \<Rightarrow> agent \<Rightarrow> json" where
  "heartbeat_body version observed a =
     (let u = usage_of (rt_spool a) in
      JObj [(''observed_at'', JStr observed), (''agent_version'', JStr version),
        (''spool_bytes'', JInt (u_bytes u)), (''spool_events'', JInt (int (u_events u))),
        (''collectors'', JArr (map (\<lambda>(name, st). JObj [(''name'', JStr name),
           (''healthy'', JBool (h_status st = ''ok'')), (''message'', opt_str (h_message st))]) (rt_health a)))])"

section \<open>Start-up\<close>

record agent_config =
  cf_enrollment_token :: "pystr option"
  cf_credential :: "pystr option"
  cf_installation_id :: "pystr option"

text \<open>
  \<open>initialize\<close>: \<open>register\<close> is the enrolment call with the token and the installation id, returning
  the credential and the identity document; \<open>host_of\<close> reads \<open>host_id\<close> out of a stored document.
\<close>

definition register_once ::
  "(pystr \<Rightarrow> pystr \<Rightarrow> exn + pystr \<times> pystr) \<Rightarrow> 'c agent_config_scheme \<Rightarrow> pystr \<Rightarrow> pystr option \<Rightarrow> agent
    \<Rightarrow> exn + agent \<times> pystr option"
where
  "register_once register cfg installation identity a =
     (if truthy (rt_credential a) then Inr (a, identity)
      else if \<not> truthy (cf_enrollment_token cfg)
      then Inl (RuntimeError ''an enrollment token is required for first registration'')
      else bind_result (register (the (cf_enrollment_token cfg)) installation) (\<lambda>(credential, document).
        Inr (a\<lparr>rt_credential := Some credential, rt_spool :=
              set_state ''identity'' document (set_state ''credential'' credential (rt_spool a))\<rparr>,
             Some document)))"

definition load_normalizer :: "(pystr \<Rightarrow> pystr option) \<Rightarrow> agent \<times> pystr option \<Rightarrow> exn + agent" where
  "load_normalizer host_of ai =
     (let a = fst ai;
          nz = (if truthy (snd ai) then (rt_normalizer a)\<lparr>nz_host_id := host_of (the (snd ai))\<rparr>
                else rt_normalizer a);
          sequence = get_state ''sequence'' (rt_spool a)
      in (case (if truthy sequence then py_int (the sequence) else Some 0) of
            None \<Rightarrow> Inl ValueError
          | Some i \<Rightarrow> Inr (a\<lparr>rt_normalizer := nz\<lparr>nz_sequence := i\<rparr>\<rparr>)))"

definition initialize ::
  "uuid \<Rightarrow> (pystr \<Rightarrow> pystr \<Rightarrow> exn + pystr \<times> pystr) \<Rightarrow> (pystr \<Rightarrow> pystr option) \<Rightarrow> 'c agent_config_scheme \<Rightarrow> agent \<Rightarrow> exn + agent"
where
  "initialize new_id register host_of cfg a =
     (let saved = get_state ''credential'' (rt_spool a);
          a1 = (if truthy saved then a\<lparr>rt_credential := saved\<rparr> else a);
          identity = get_state ''identity'' (rt_spool a1);
          stored = (if truthy (cf_installation_id cfg) then cf_installation_id cfg
                    else get_state ''installation_id'' (rt_spool a1));
          installation = (if truthy stored then the stored else new_id);
          a2 = a1\<lparr>rt_spool := set_state ''installation_id'' installation (rt_spool a1)\<rparr>
      in bind_result (register_once register cfg installation identity a2) (load_normalizer host_of))"

text \<open>A process started on the spool another one left behind.\<close>

definition restarted :: "agent \<Rightarrow> agent" where
  "restarted a = \<lparr>rt_spool = rt_spool a, rt_normalizer = \<lparr>nz_host_id = None, nz_sequence = 0\<rparr>,
     rt_health = [], rt_credential = None\<rparr>"

section \<open>Sequence numbers survive a restart\<close>

lemma emit_sequence:
  "events \<noteq> [] \<or> state_updates \<noteq> [] \<Longrightarrow>
     get_state ''sequence'' (rt_spool (emit frepr pstr clk now new_id events state_updates a))
       = Some (int_str (nz_sequence (rt_normalizer (emit frepr pstr clk now new_id events state_updates a))))"
  by (auto simp: emit_def Let_def split: prod.splits)

lemma int_str_ne: "int_str i \<noteq> []"
  using nat_str_digits by (simp add: int_str_def)

lemma register_once_sequence:
  "register_once register cfg installation identity a = Inr (a', identity') \<Longrightarrow>
     get_state ''sequence'' (rt_spool a') = get_state ''sequence'' (rt_spool a)"
  by (auto simp: register_once_def bind_result_Inr_iff split: if_split_asm)

lemma load_normalizer_sequence:
  assumes "load_normalizer host_of ai = Inr c" and "get_state ''sequence'' (rt_spool (fst ai)) = Some s"
    and "s \<noteq> []" and "py_int s = Some i"
  shows "nz_sequence (rt_normalizer c) = i"
  using assms(1) unfolding load_normalizer_def Let_def assms(2)
  by (simp add: truthy_def assms(3,4)) auto

lemma initialize_resumes:
  assumes "initialize new_id register host_of cfg a = Inr c"
    and "get_state ''sequence'' (rt_spool a) = Some s" and "s \<noteq> []" and "py_int s = Some i"
  shows "nz_sequence (rt_normalizer c) = i"
proof -
  obtain installation identity a2 ai where
    q: "get_state ''sequence'' (rt_spool a2) = get_state ''sequence'' (rt_spool a)"
    and r: "register_once register cfg installation identity a2 = Inr ai" and l: "load_normalizer host_of ai = Inr c"
    using assms(1) unfolding initialize_def Let_def bind_result_Inr_iff
    by (elim exE conjE) (rule that, simp_all)
  have "get_state ''sequence'' (rt_spool (fst ai)) = Some s"
    using register_once_sequence [of register cfg installation identity a2 "fst ai" "snd ai"] r q assms(2) by simp
  then show ?thesis by (rule load_normalizer_sequence [OF l _ assms(3,4)])
qed

text \<open>
  A restart resumes the sequence: whatever was emitted last, an agent that starts again on the
  same spool with a stored credential or a working enrolment continues with the sequence number the
  previous process had reached.
\<close>

theorem restart_resumes_sequence:
  assumes "events \<noteq> [] \<or> state_updates \<noteq> []"
    and "b = emit frepr pstr clk now new_id events state_updates a"
    and "initialize new_id' register host_of cfg (restarted b) = Inr c"
  shows "nz_sequence (rt_normalizer c) = nz_sequence (rt_normalizer b)"
proof -
  have "get_state ''sequence'' (rt_spool (restarted b)) = Some (int_str (nz_sequence (rt_normalizer b)))"
    using emit_sequence [OF assms(1)] by (simp add: assms(2) restarted_def)
  then show ?thesis by (rule initialize_resumes [OF assms(3) _ int_str_ne py_int_int_str])
qed

theorem restart_resumes_sequence_witness:
  "\<exists>b c. b = emit (\<lambda>_. []) (\<lambda>_. []) (\<lambda>_. 0) 0 ''x'' [] [(''credential'', ''key'')]
        \<lparr>rt_spool = new_spool 100 60, rt_normalizer = \<lparr>nz_host_id = None, nz_sequence = 41\<rparr>, rt_health = [],
         rt_credential = None\<rparr>
     \<and> initialize ''i'' (\<lambda>_ _. Inl ValueError) (\<lambda>_. None)
         \<lparr>cf_enrollment_token = None, cf_credential = None, cf_installation_id = None\<rparr> (restarted b) = Inr c
     \<and> nz_sequence (rt_normalizer c) = 41"
proof -
  define a where "a = \<lparr>rt_spool = new_spool 100 60, rt_normalizer = \<lparr>nz_host_id = None, nz_sequence = 41\<rparr>,
      rt_health = [], rt_credential = None\<rparr>"
  define b where "b = emit (\<lambda>_. []) (\<lambda>_. []) (\<lambda>_. 0) 0 ''x'' [] [(''credential'', ''key'')] a"
  have ap: "append_sync 0 [] [(''credential'', ''key'')] (new_spool 100 60)
      = ((new_spool 100 60)\<lparr>sp_state := [(''credential'', ''key'')]\<rparr>, [])"
    by (simp add: append_sync_def append_rows_def enforce_limits_def select_evictions_def expired_def
        new_spool_def delete_where_def Let_def)
  have b: "rt_spool b = set_state ''sequence'' (int_str 41) ((new_spool 100 60)\<lparr>sp_state := [(''credential'', ''key'')]\<rparr>)"
      "nz_sequence (rt_normalizer b) = 41"
    by (simp_all add: b_def emit_def a_def encode_def ap Let_def)
  have "get_state ''credential'' (rt_spool b) = Some ''key''" "get_state ''sequence'' (rt_spool b) = Some (int_str 41)"
    by (simp_all add: b get_state_def set_state_def new_spool_def)
  note st = this
  have "\<exists>c. initialize ''i'' (\<lambda>_ _. Inl ValueError) (\<lambda>_. None)
      \<lparr>cf_enrollment_token = None, cf_credential = None, cf_installation_id = None\<rparr> (restarted b) = Inr c"
    by (simp add: initialize_def Let_def restarted_def st register_once_def truthy_def load_normalizer_def
        int_str_ne py_int_int_str)
  then obtain c where c: "initialize ''i'' (\<lambda>_ _. Inl ValueError) (\<lambda>_. None)
      \<lparr>cf_enrollment_token = None, cf_credential = None, cf_installation_id = None\<rparr> (restarted b) = Inr c" ..
  have "nz_sequence (rt_normalizer c) = nz_sequence (rt_normalizer b)"
    by (rule restart_resumes_sequence [OF _ b_def c]) simp
  then have n: "nz_sequence (rt_normalizer c) = 41" using b(2) by (rule trans)
  show ?thesis by (rule exI [of _ b], rule exI [of _ c], rule conjI, unfold b_def a_def, rule refl,
        fold a_def, fold b_def, rule conjI, rule c, rule n)
qed

section \<open>Losses the loss report causes\<close>

lemma queue_append_one:
  "fst e \<notin> set (queue_ids s) \<Longrightarrow>
     \<exists>i. queue (append_rows [e] [] s) = queue s @ [row_of i e]"
  by (auto simp: append_rows_def insert_ignore_def find_key_None)

lemma append_evicts_head:
  assumes ok: "spool_ok s" "0 \<le> sp_max_bytes s" and q: "queue s = r # rest" and new: "i \<notin> set (queue_ids s)"
    and fresh: "expired now (append_rows [(i, c, p)] [] s) = []"
    and over: "sp_max_bytes s < total_size (queue s) + int (length p)"
  shows "row_event_id r \<notin> set (queue_ids (fst (append_sync now [(i, c, p)] [] s)))"
proof -
  let ?t = "append_rows [(i, c, p)] [] s"
  obtain n where t: "queue ?t = r # rest @ [row_of n (i, c, p)]"
    using queue_append_one [of "(i, c, p)" s] new q by auto
  have okt: "spool_ok ?t" by (rule spool_ok_append_rows [OF ok(1)])
  have mbt: "0 \<le> sp_max_bytes ?t" using ok(2) by (simp add: append_rows_def)
  obtain k where k: "queue (fst (enforce_limits now ?t)) = drop k (queue ?t)"
    and fits: "total_size (drop k (queue ?t)) \<le> sp_max_bytes ?t"
    using evicted_prefix [OF okt mbt fresh] by blast
  have "k \<noteq> 0"
  proof
    assume "k = 0"
    with fits have "total_size (r # rest @ [row_of n (i, c, p)]) \<le> sp_max_bytes s"
      unfolding t by (simp add: append_rows_def)
    with over q show False by simp
  qed
  then obtain j where "k = Suc j" by (cases k) auto
  moreover have "distinct (queue_ids ?t)" using okt by (rule spool_ok_event_ids)
  ultimately show ?thesis
    unfolding append_sync_def k t by (auto dest: in_set_dropD)
qed

text \<open>
  The loss report itself evicts events that no report mentions: when an emit evicts and what is
  left plus the report exceeds \<open>max_bytes\<close>, the oldest event left is dropped from the queue although
  it is not in the reported evictions. \<open>emit\<close> ignores what the second append returns.
\<close>

theorem loss_report_loses_silently:
  assumes "spool_ok (rt_spool a)" and "0 \<le> sp_max_bytes (rt_spool a)" and "events \<noteq> [] \<or> state_updates \<noteq> []"
    and "append_sync (clk (length events)) (encode frepr clk events) state_updates (rt_spool a) = (sp, evictions)"
    and "evictions \<noteq> []" and "queue sp = r # rest"
    and "loss = snd (event frepr pstr now new_id (loss_args evictions) (rt_normalizer a))"
    and "new_id \<notin> set (queue_ids sp)"
    and "expired (clk (length events + 2)) (append_rows (encode frepr (\<lambda>i. clk (length events + 1 + i)) [loss]) [] sp) = []"
    and "sp_max_bytes (rt_spool a) < total_size (queue sp) + int (length (json_dumps frepr (as_dict loss)))"
  shows "row_event_id r \<notin> set (queue_ids (rt_spool (emit frepr pstr clk now new_id events state_updates a)))
         \<and> row_event_id r \<notin> ev_event_id ` set evictions
         \<and> row_event_id r \<in> set (queue_ids (rt_spool a)) \<union> ae_event_id ` set events"
proof (intro conjI)
  let ?enc = "encode frepr clk events"
  have sp: "sp = fst (append_sync (clk (length events)) ?enc state_updates (rt_spool a))"
    and evs: "evictions = snd (append_sync (clk (length events)) ?enc state_updates (rt_spool a))"
    using assms(4) by simp_all
  have ok: "spool_ok sp" unfolding sp by (rule spool_ok_append_sync [OF assms(1)])
  have mb: "sp_max_bytes sp = sp_max_bytes (rt_spool a)"
    unfolding sp append_sync_def enforce_limits_def Let_def append_rows_def by simp
  have i: "ae_event_id loss = new_id" unfolding assms(7) by (simp add: event_def Let_def)
  have enc: "encode frepr (\<lambda>i. clk (length events + 1 + i)) [loss]
      = [(new_id, clk (length events + 1), json_dumps frepr (as_dict loss))]"
    by (simp add: encode_def i)
  have gone: "row_event_id r \<notin> set (queue_ids (fst (append_sync (clk (length events + 2))
        [(new_id, clk (length events + 1), json_dumps frepr (as_dict loss))] [] sp)))"
    using assms(2,10) by (intro append_evicts_head [OF ok _ assms(6,8) assms(9) [unfolded enc]]) (simp_all add: mb)
  obtain nz where loss: "event frepr pstr now new_id (loss_args evictions) (rt_normalizer a) = (nz, loss)"
    unfolding assms(7) by (metis prod.collapse)
  have "\<not> (events = [] \<and> state_updates = [])" using assms(3) by blast
  then have "rt_spool (emit frepr pstr clk now new_id events state_updates a)
      = set_state ''sequence'' (int_str (nz_sequence nz)) (fst (append_sync (clk (length events + 2))
        [(new_id, clk (length events + 1), json_dumps frepr (as_dict loss))] [] sp))"
    unfolding emit_def Let_def assms(4) prod.case enc by (simp only: if_False if_True assms(5) simp_thms loss prod.case enc fst_conv not_False_eq_True)
      simp
  then show "row_event_id r \<notin> set (queue_ids (rt_spool (emit frepr pstr clk now new_id events state_updates a)))"
    using gone by simp
  have rq: "row_event_id r \<in> set (queue_ids sp)" by (simp add: assms(6))
  have "set (queue_ids sp) \<inter> set (map ev_event_id evictions) = {}"
    unfolding sp evs by (rule append_sync_disjoint [OF assms(1)])
  with rq have "row_event_id r \<notin> set (map ev_event_id evictions)" by blast
  then show "row_event_id r \<notin> ev_event_id ` set evictions" unfolding set_map .
  have ids: "map fst ?enc = map ae_event_id events"
    by (simp add: encode_def enumerate_eq_zip comp_def case_prod_beta flip: map_map [of ae_event_id snd, unfolded comp_def])
  have "row_event_id r \<in> set (queue_ids (rt_spool a)) \<union> set (map fst ?enc)"
    using append_sync_set [OF assms(1), of "clk (length events)" ?enc state_updates] rq unfolding sp by (metis UnI1)
  then show "row_event_id r \<in> set (queue_ids (rt_spool a)) \<union> ae_event_id ` set events"
    by (simp only: ids set_map)
qed

theorem loss_report_loses_silently_witness:
  "\<exists>a :: agent. queue_ids (rt_spool a) = [''a'', ''b'']
     \<and> ''b'' \<notin> set (queue_ids (rt_spool (emit (\<lambda>_. []) (\<lambda>_. []) (\<lambda>_. 10) 0 ''loss'' [] [(''k'', ''v'')] a)))
     \<and> snd (append_sync 10 [] [(''k'', ''v'')] (rt_spool a)) = [\<lparr>ev_event_id = ''a'', ev_reason = ''spool_capacity_eviction'', ev_bytes = 2\<rparr>]"
proof -
  define s where "s = append_rows [(''a'', 9, ''xx''), (''b'', 9, ''yy'')] [] (new_spool 3 60)"
  define a where "a = \<lparr>rt_spool = s, rt_normalizer = \<lparr>nz_host_id = None, nz_sequence = 0\<rparr>, rt_health = [],
      rt_credential = None\<rparr>"
  define loss where "loss = snd (event (\<lambda>_. []) (\<lambda>_. []) 0 ''loss'' (loss_args [eviction_of (row_of 1 (''a'', 9, ''xx''))])
      (rt_normalizer a))"
  have ok: "spool_ok s" unfolding s_def by (rule spool_ok_append_rows) simp
  have q: "queue s = [row_of 1 (''a'', 9, ''xx''), row_of 2 (''b'', 9, ''yy'')]"
    by (simp add: s_def new_spool_def insert_ignore_def empty_table_def)
  have lims: "sp_max_bytes s = 3" "sp_max_age_seconds s = 60"
    by (simp_all add: s_def append_rows_def new_spool_def)
  have sel: "select_evictions 10 (append_rows [] [(''k'', ''v'')] s) = [row_of 1 (''a'', 9, ''xx'')]"
    by (simp add: select_evictions_def expired_def append_rows_def q lims Let_def)
  obtain sp where first: "append_sync 10 [] [(''k'', ''v'')] s = (sp, [eviction_of (row_of 1 (''a'', 9, ''xx''))])"
    and sp: "queue sp = [row_of 2 (''b'', 9, ''yy'')]" "sp_max_age_seconds sp = 60"
    unfolding append_sync_def enforce_limits_def Let_def sel
    by (simp add: append_rows_def delete_where_def q lims)
  have loss_id: "ae_event_id loss = ''loss''" by (simp add: loss_def event_def Let_def)
  have long: "2 \<le> length (json_dumps (\<lambda>_. []) (as_dict loss))"
    unfolding as_dict_def length_dumps_obj by simp
  have "row_event_id (row_of 2 (''b'', 9, ''yy'')) \<notin> set (queue_ids (rt_spool (emit (\<lambda>_. []) (\<lambda>_. []) (\<lambda>_. 10) 0 ''loss'' [] [(''k'', ''v'')] a)))
      \<and> row_event_id (row_of 2 (''b'', 9, ''yy'')) \<notin> ev_event_id ` set [eviction_of (row_of 1 (''a'', 9, ''xx''))]
      \<and> row_event_id (row_of 2 (''b'', 9, ''yy'')) \<in> set (queue_ids (rt_spool a)) \<union> ae_event_id ` set ([] :: agent_event list)"
  proof (rule loss_report_loses_silently [where a = a and clk = "\<lambda>_. 10" and events = "[]"
          and frepr = "\<lambda>_. []" and pstr = "\<lambda>_. []" and now = 0 and new_id = "''loss''" and state_updates = "[(''k'', ''v'')]"
          and evictions = "[eviction_of (row_of 1 (''a'', 9, ''xx''))]" and r = "row_of 2 (''b'', 9, ''yy'')"
          and sp = sp and loss = loss and rest = "[]"])
    show "append_sync 10 (encode (\<lambda>_. []) (\<lambda>_. 10) []) [(''k'', ''v'')] (rt_spool a)
        = (sp, [eviction_of (row_of 1 (''a'', 9, ''xx''))])"
      by (simp add: encode_def a_def first)
    show "loss = snd (event (\<lambda>_. []) (\<lambda>_. []) 0 ''loss'' (loss_args [eviction_of (row_of 1 (''a'', 9, ''xx''))])
        (rt_normalizer a))"
      by (fact loss_def)
    show "expired 10 (append_rows (encode (\<lambda>_. []) (\<lambda>_. 10) [loss]) [] sp) = []"
      by (simp add: expired_def append_rows_def encode_def loss_id insert_ignore_def sp find_key_None)
    show "sp_max_bytes (rt_spool a) < total_size (queue sp) + int (length (json_dumps (\<lambda>_. []) (as_dict loss)))"
      using long by (simp add: a_def lims sp)
    show "spool_ok (rt_spool a)" "0 \<le> sp_max_bytes (rt_spool a)" by (simp_all add: a_def ok lims)
    show "''loss'' \<notin> set (queue_ids sp)" by (simp add: sp)
  qed (simp_all add: sp)
  moreover have "queue_ids (rt_spool a) = [''a'', ''b'']" by (simp add: a_def q)
  moreover have "snd (append_sync 10 [] [(''k'', ''v'')] (rt_spool a))
      = [\<lparr>ev_event_id = ''a'', ev_reason = ''spool_capacity_eviction'', ev_bytes = 2\<rparr>]"
    by (simp add: a_def first eviction_of_def)
  ultimately show ?thesis by (intro exI [of _ a]) simp
qed

end
