(* ===== verification/Rollup_Tables.thy ===== *)
theory Rollup_Tables
  imports Database
begin

text \<open>
  What the two rollup statements of \<open>server/temporalrca_server/maintenance.py\<close> share:
  \<open>GROUP BY\<close> a key, and \<open>INSERT \<dots> ON CONFLICT (key) DO UPDATE\<close>. The locale states what a
  kind of rollup has to offer (the row made of a group has the group's key) and what follows for the
  table after the statement; the metric and the log rollups are interpretations.
\<close>

section \<open>Upsert and grouping\<close>

definition upsert :: "('r \<Rightarrow> 'k) \<Rightarrow> 'r \<Rightarrow> 'r list \<Rightarrow> 'r list" where
  "upsert key r rows =
     (if key r \<in> key ` set rows then map (\<lambda>x. if key x = key r then r else x) rows else rows @ [r])"

definition upsert_all :: "('r \<Rightarrow> 'k) \<Rightarrow> 'r list \<Rightarrow> 'r list \<Rightarrow> 'r list" where
  "upsert_all key new rows = fold (upsert key) new rows"

definition group_rows :: "('s \<Rightarrow> 'k) \<Rightarrow> ('k \<Rightarrow> 's list \<Rightarrow> 'r) \<Rightarrow> 's list \<Rightarrow> 'r list" where
  "group_rows group_key row_of samples =
     map (\<lambda>k. row_of k (filter (\<lambda>s. group_key s = k) samples)) (remdups (map group_key samples))"

abbreviation row_at :: "('r \<Rightarrow> 'k) \<Rightarrow> 'k \<Rightarrow> 'r list \<Rightarrow> 'r option" where
  "row_at key k rows \<equiv> find (\<lambda>r. key r = k) rows"

lemma row_at_upsert:
  "row_at key k (upsert key r rows) = (if key r = k then Some r else row_at key k rows)"
proof (cases "key r \<in> key ` set rows")
  case True
  have "row_at key k (map (\<lambda>x. if key x = key r then r else x) rows)
      = (if key r = k \<and> k \<in> key ` set rows then Some r else row_at key k rows)"
    by (induction rows) auto
  then show ?thesis using True by (auto simp: upsert_def)
next
  case False
  have "key r \<notin> key ` set rows \<Longrightarrow> row_at key k (rows @ [r]) = (if key r = k then Some r else row_at key k rows)"
    by (induction rows) auto
  then show ?thesis using False by (simp add: upsert_def)
qed

lemma map_key_upsert:
  "map key (upsert key r rows) = (if key r \<in> key ` set rows then map key rows else map key rows @ [key r])"
  by (simp add: upsert_def cong: if_cong)

lemma upsert_keys: "key ` set (upsert key r rows) = insert (key r) (key ` set rows)"
  using arg_cong [where f = set, OF map_key_upsert [of key r rows]] by (auto split: if_splits)

lemma upsert_distinct: "distinct (map key rows) \<Longrightarrow> distinct (map key (upsert key r rows))"
  by (simp add: map_key_upsert)

lemma upsert_all_simps [simp]:
  "upsert_all key [] rows = rows"
  "upsert_all key (r # new) rows = upsert_all key new (upsert key r rows)"
  by (simp_all add: upsert_all_def)

lemma row_at_upsert_all:
  "distinct (map key new) \<Longrightarrow>
     row_at key k (upsert_all key new rows)
       = (case row_at key k new of None \<Rightarrow> row_at key k rows | Some r \<Rightarrow> Some r)"
proof (induction new arbitrary: rows)
  case (Cons r new)
  show ?case
  proof (cases "key r = k")
    case True
    with Cons.prems have "row_at key k new = None" by (auto simp: find_None_key)
    with Cons True show ?thesis by (simp add: row_at_upsert)
  next
    case False
    with Cons show ?thesis by (simp add: row_at_upsert split: option.split)
  qed
qed simp

lemma upsert_all_keys: "key ` set (upsert_all key new rows) = key ` set new \<union> key ` set rows"
  by (induction new arbitrary: rows) (auto simp: upsert_keys)

lemma upsert_all_distinct: "distinct (map key rows) \<Longrightarrow> distinct (map key (upsert_all key new rows))"
  by (induction new arbitrary: rows) (simp_all add: upsert_distinct)

section \<open>A kind of rollup\<close>

locale rollup_kind =
  fixes group_key :: "'s \<Rightarrow> 'k" and row_key :: "'r \<Rightarrow> 'k" and row_of :: "'k \<Rightarrow> 's list \<Rightarrow> 'r"
  assumes row_key_row_of: "row_key (row_of k g) = k"
begin

lemma group_keys: "map row_key (group_rows group_key row_of samples) = remdups (map group_key samples)"
  by (simp add: group_rows_def comp_def row_key_row_of)

lemma group_row_at:
  "row_at row_key k (group_rows group_key row_of samples)
     = (if k \<in> group_key ` set samples then Some (row_of k (filter (\<lambda>s. group_key s = k) samples)) else None)"
proof -
  have "row_at row_key k (map (\<lambda>k. row_of k (G k)) ks) = (if k \<in> set ks then Some (row_of k (G k)) else None)" for G ks
    by (induction ks) (auto simp: row_key_row_of)
  then show ?thesis by (simp add: group_rows_def)
qed

lemma rolled_row_at:
  "row_at row_key k (upsert_all row_key (group_rows group_key row_of samples) rows)
     = (if k \<in> group_key ` set samples then Some (row_of k (filter (\<lambda>s. group_key s = k) samples))
        else row_at row_key k rows)"
  by (simp add: row_at_upsert_all group_keys group_row_at)

lemma rolled_distinct:
  "distinct (map row_key rows) \<Longrightarrow>
     distinct (map row_key (upsert_all row_key (group_rows group_key row_of samples) rows))"
  by (rule upsert_all_distinct)

text \<open>
  Rolling up a window of the samples: a group that lies inside the window as a whole gets the
  aggregate of all its samples, a group outside keeps its row.
\<close>

lemma window_row_at:
  assumes "\<And>s. s \<in> set samples \<Longrightarrow> group_key s = k \<Longrightarrow> inside s"
  shows "row_at row_key k (upsert_all row_key (group_rows group_key row_of (filter inside samples)) rows)
     = (if k \<in> group_key ` set samples then Some (row_of k (filter (\<lambda>s. group_key s = k) samples))
        else row_at row_key k rows)"
proof -
  have "filter (\<lambda>s. group_key s = k) (filter inside samples) = filter (\<lambda>s. group_key s = k) samples"
    unfolding filter_filter using assms by (intro filter_cong) auto
  moreover have "k \<in> group_key ` set (filter inside samples) \<longleftrightarrow> k \<in> group_key ` set samples"
    using assms by auto
  ultimately show ?thesis by (simp only: rolled_row_at)
qed

lemma window_row_outside:
  assumes "\<And>s. s \<in> set samples \<Longrightarrow> group_key s = k \<Longrightarrow> \<not> inside s"
  shows "row_at row_key k (upsert_all row_key (group_rows group_key row_of (filter inside samples)) rows)
     = row_at row_key k rows"
  using assms by (auto simp: rolled_row_at)

end

end
