(* ===== verification/Maintenance.thy ===== *)
theory Maintenance
  imports Rollup_Tables "HOL-Library.List_Lexorder" "HOL-Library.Char_ord"
begin

text \<open>
  The maintenance cycle, \<open>server/temporalrca_server/maintenance.py\<close>: five-minute rollups of the
  closed buckets, expiry of inventory leases, the rolled-through mark, and retention by dropping
  whole partitions. One call is one transaction; \<open>locked\<close> is whether the advisory lock was got.
  SQL aggregates over \<open>double precision\<close> are exact here, as every float of the model.
\<close>

section \<open>Settings and times\<close>

record retention =
  rs_raw_retention_hours :: int
  rs_rollup_retention_days :: int
  rs_rollup_lateness_minutes :: int

definition default_retention :: retention where
  "default_retention =
     \<lparr>rs_raw_retention_hours = 24, rs_rollup_retention_days = 7, rs_rollup_lateness_minutes = 15\<rparr>"

text \<open>\<open>t.replace(second=0, microsecond=0) - timedelta(minutes=t.minute % 5)\<close>\<close>

definition floor_five :: "datetime \<Rightarrow> datetime" where
  "floor_five t = (t - t mod minute) - (t mod hour div minute) mod 5 * minute"

text \<open>\<open>date_bin('5 minutes', t, '1970-01-01')\<close>\<close>

definition date_bin :: "datetime \<Rightarrow> datetime" where
  "date_bin t = t div (5 * minute) * (5 * minute)"

definition rollup_start :: "int \<Rightarrow> datetime \<Rightarrow> database \<Rightarrow> datetime" where
  "rollup_start lateness stop db =
     (case db_maintenance db of
        None \<Rightarrow> floor_five (Min (set (map sm_timestamp (db_samples db) @ map le_timestamp (db_logs db) @ [stop])))
      | Some state \<Rightarrow>
          min (case mt_rolled_through state of None \<Rightarrow> stop | Some r \<Rightarrow> r) stop - lateness * minute)"

function rollup_days :: "datetime \<Rightarrow> datetime \<Rightarrow> datetime list" where
  "rollup_days d stop = (if d \<le> stop then d # rollup_days (d + day) stop else [])"
  by auto
termination
  by (relation "measure (\<lambda>(d, stop). nat (stop - d + 1))") (auto simp: time_units)

declare rollup_days.simps [simp del]

section \<open>Rollup rows\<close>

definition metric_group :: "metric_sample \<Rightarrow> datetime \<times> nat" where
  "metric_group s = (date_bin (sm_timestamp s), sm_series_id s)"

definition later :: "metric_sample \<Rightarrow> metric_sample \<Rightarrow> bool" where
  "later a b \<longleftrightarrow> sm_timestamp b < sm_timestamp a
     \<or> sm_timestamp a = sm_timestamp b \<and> sm_event_id b < sm_event_id a"

definition latest :: "metric_sample list \<Rightarrow> metric_sample" where
  "latest g = fold (\<lambda>s best. if later s best then s else best) (tl g) (hd g)"

definition metric_rollup_row :: "datetime \<Rightarrow> datetime \<times> nat \<Rightarrow> metric_sample list \<Rightarrow> metric_rollup" where
  "metric_rollup_row completed k g =
     \<lparr>mr_bucket = fst k, mr_series_id = snd k, mr_count = length g, mr_sum = sum_list (map sm_value g),
      mr_minimum = Min (sm_value ` set g), mr_maximum = Max (sm_value ` set g),
      mr_average = sum_list (map sm_value g) / of_nat (length g), mr_last = sm_value (latest g),
      mr_last_timestamp = Max (sm_timestamp ` set g), mr_completed_at = completed\<rparr>"

definition metric_rollup_key :: "metric_rollup \<Rightarrow> datetime \<times> nat" where
  "metric_rollup_key r = (mr_bucket r, mr_series_id r)"

definition log_group :: "log_event \<Rightarrow> datetime \<times> uuid \<times> pystr" where
  "log_group e = (date_bin (le_timestamp e), le_host_id e,
     case le_severity e of None \<Rightarrow> ''UNSPECIFIED'' | Some s \<Rightarrow> s)"

definition log_rollup_row :: "datetime \<Rightarrow> datetime \<times> uuid \<times> pystr \<Rightarrow> log_event list \<Rightarrow> log_rollup" where
  "log_rollup_row completed k g =
     \<lparr>lr_bucket = fst k, lr_host_id = fst (snd k), lr_severity = snd (snd k), lr_count = length g,
      lr_completed_at = completed\<rparr>"

definition log_rollup_key :: "log_rollup \<Rightarrow> datetime \<times> uuid \<times> pystr" where
  "log_rollup_key r = (lr_bucket r, lr_host_id r, lr_severity r)"

interpretation metric_rollups: rollup_kind metric_group metric_rollup_key "metric_rollup_row completed" for completed
  by unfold_locales (simp add: metric_rollup_key_def metric_rollup_row_def)

interpretation log_rollups: rollup_kind log_group log_rollup_key "log_rollup_row completed" for completed
  by unfold_locales (simp add: log_rollup_key_def log_rollup_row_def)

section \<open>Leases and retention\<close>

definition expire_lease :: "datetime \<Rightarrow> 'a inventory_row_scheme \<Rightarrow> 'a inventory_row_scheme" where
  "expire_lease now r = (if iv_active r \<and> iv_lease_expires_at r < now then r\<lparr>iv_active := False\<rparr> else r)"

definition expire_leases :: "datetime \<Rightarrow> database \<Rightarrow> database" where
  "expire_leases now db = db
     \<lparr>db_services := map (expire_lease now) (db_services db), db_containers := map (expire_lease now) (db_containers db),
      db_processes := map (expire_lease now) (db_processes db), db_dependencies := map (expire_lease now) (db_dependencies db)\<rparr>"

text \<open>
  The partitions of the two raw tables are hourly and those of the two rollup tables daily, so the
  end that retention reads out of a partition's name is the end of its interval.
\<close>

definition droppable :: "retention \<Rightarrow> datetime \<Rightarrow> datetime \<Rightarrow> partition \<Rightarrow> bool" where
  "droppable rs now rolled_through p =
     (let raw_cutoff = now - rs_raw_retention_hours rs * hour;
          rollup_cutoff = now - rs_rollup_retention_days rs * day
      in if pt_parent p \<in> {METRIC_SAMPLES, LOG_EVENTS}
         then pt_end p \<le> raw_cutoff - rs_rollup_lateness_minutes rs * minute \<and> pt_end p \<le> rolled_through
         else if pt_parent p \<in> {METRIC_ROLLUPS, LOG_ROLLUPS} then pt_end p \<le> rollup_cutoff
         else False)"

definition inside :: "partition \<Rightarrow> datetime \<Rightarrow> bool" where
  "inside p t \<longleftrightarrow> pt_start p \<le> t \<and> t < pt_end p"

definition drop_partition :: "partition \<Rightarrow> database \<Rightarrow> database" where
  "drop_partition p db =
     (let db1 = db\<lparr>db_partitions := filter (\<lambda>q. q \<noteq> p) (db_partitions db)\<rparr>
      in case pt_parent p of
           METRIC_SAMPLES \<Rightarrow> db1\<lparr>db_samples := filter (\<lambda>r. \<not> inside p (sm_timestamp r)) (db_samples db)\<rparr>
         | LOG_EVENTS \<Rightarrow> db1\<lparr>db_logs := filter (\<lambda>r. \<not> inside p (le_timestamp r)) (db_logs db)\<rparr>
         | TIMELINE_EVENTS \<Rightarrow> db1\<lparr>db_timeline := filter (\<lambda>r. \<not> inside p (tl_timestamp r)) (db_timeline db)\<rparr>
         | METRIC_ROLLUPS \<Rightarrow> db1\<lparr>db_metric_rollups := filter (\<lambda>r. \<not> inside p (mr_bucket r)) (db_metric_rollups db)\<rparr>
         | LOG_ROLLUPS \<Rightarrow> db1\<lparr>db_log_rollups := filter (\<lambda>r. \<not> inside p (lr_bucket r)) (db_log_rollups db)\<rparr>)"

definition apply_retention :: "retention \<Rightarrow> datetime \<Rightarrow> datetime \<Rightarrow> database \<Rightarrow> database" where
  "apply_retention rs now rolled_through db =
     fold (\<lambda>p d. if droppable rs now rolled_through p then drop_partition p d else d) (db_partitions db) db"

section \<open>One cycle\<close>

definition roll_up :: "datetime \<Rightarrow> datetime \<Rightarrow> datetime \<Rightarrow> database \<Rightarrow> database" where
  "roll_up completed start stop db = db
     \<lparr>db_metric_rollups := upsert_all metric_rollup_key
        (group_rows metric_group (metric_rollup_row completed)
           (filter (\<lambda>s. start \<le> sm_timestamp s \<and> sm_timestamp s < stop) (db_samples db))) (db_metric_rollups db),
      db_log_rollups := upsert_all log_rollup_key
        (group_rows log_group (log_rollup_row completed)
           (filter (\<lambda>e. start \<le> le_timestamp e \<and> le_timestamp e < stop) (db_logs db))) (db_log_rollups db)\<rparr>"

definition with_partitions :: "datetime \<Rightarrow> datetime \<Rightarrow> database \<Rightarrow> database" where
  "with_partitions start stop db =
     (let days = rollup_days (floor_day start) (floor_day (stop - 1))
      in ensure_partitions LOG_ROLLUPS Daily days (ensure_partitions METRIC_ROLLUPS Daily days db))"

definition rollup_once :: "retention \<Rightarrow> bool \<Rightarrow> datetime \<Rightarrow> database \<Rightarrow> bool \<times> database" where
  "rollup_once rs locked now db =
     (if \<not> locked then (False, db)
      else
        let stop = floor_five now;
            start = rollup_start (rs_rollup_lateness_minutes rs) stop db;
            db1 = roll_up now start stop (with_partitions start stop db);
            db2 = expire_leases now db1;
            db3 = db2\<lparr>db_maintenance := Some \<lparr>mt_rolled_through = Some stop, mt_completed_at = Some now\<rparr>\<rparr>
        in (True, apply_retention rs now stop db3))"

section \<open>Five-minute buckets\<close>

lemma floor_five_eq: "floor_five t = date_bin t"
proof -
  have "t mod hour = minute * (t div minute mod 60) + t mod minute"
    using zmod_zmult2_eq [of 60 t minute] by (simp add: hour_def mult.commute)
  then have "t mod hour div minute = t div minute mod 60"
    using div_mult_self4 [of minute "t div minute mod 60" "t mod minute"] by (simp add: time_units)
  then have m: "(t mod hour div minute) mod 5 = (t div minute) mod 5"
    by (simp add: mod_mod_cancel)
  have "t - t mod minute = (t div minute) * minute" by (simp add: minus_mod_eq_div_mult)
  then have "floor_five t = (t div minute - t div minute mod 5) * minute"
    unfolding floor_five_def m by (simp add: left_diff_distrib)
  also have "\<dots> = (t div minute div 5 * 5) * minute" by (simp add: minus_mod_eq_div_mult)
  also have "t div minute div 5 = t div (5 * minute)"
    using zdiv_zmult2_eq [of 5 t minute] by (simp add: mult.commute)
  finally show ?thesis by (simp add: date_bin_def)
qed

definition bucket :: "datetime \<Rightarrow> bool" where
  "bucket b \<longleftrightarrow> 5 * minute dvd b"

lemma bucket_date_bin [simp]: "bucket (date_bin t)"
  by (simp add: bucket_def date_bin_def)

lemma date_bin_bounds: "date_bin t \<le> t" "t < date_bin t + 5 * minute"
  using pos_mod_bound [of "5 * minute" t] pos_mod_sign [of "5 * minute" t] div_mult_mod_eq [of t "5 * minute"]
  unfolding date_bin_def by (simp_all del: pos_mod_bound pos_mod_sign)

lemma bucket_less: "bucket a \<Longrightarrow> bucket b \<Longrightarrow> a < b \<Longrightarrow> a + 5 * minute \<le> b"
  unfolding bucket_def by (elim dvdE) (auto simp: time_units)

lemma bucket_lateness: "bucket r \<Longrightarrow> 5 dvd l \<Longrightarrow> bucket (r - l * minute)"
  unfolding bucket_def by (simp add: mult_dvd_mono dvd_diff)

lemma bucket_le: "bucket a \<Longrightarrow> a \<le> date_bin t \<longleftrightarrow> a \<le> t"
proof -
  assume a: "bucket a"
  have "\<not> (date_bin t < a \<and> a \<le> t)"
    using bucket_less [OF bucket_date_bin a, of t] date_bin_bounds [of t] by linarith
  then show ?thesis using date_bin_bounds(1) [of t] by linarith
qed

lemma date_bin_mono: "t \<le> u \<Longrightarrow> date_bin t \<le> date_bin u"
  using bucket_le [OF bucket_date_bin, of t u] date_bin_bounds(1) [of t] by linarith

section \<open>What retention keeps\<close>

lemma apply_retention_samples:
  "db_samples (apply_retention rs now r db) = filter (\<lambda>s. \<not> (\<exists>p \<in> set (db_partitions db).
     droppable rs now r p \<and> pt_parent p = METRIC_SAMPLES \<and> inside p (sm_timestamp s))) (db_samples db)"
proof -
  have "db_samples (fold (\<lambda>p d. if droppable rs now r p then drop_partition p d else d) ps d)
    = filter (\<lambda>s. \<not> (\<exists>p \<in> set ps. droppable rs now r p \<and> pt_parent p = METRIC_SAMPLES
        \<and> inside p (sm_timestamp s))) (db_samples d)" for ps d
  proof (induction ps arbitrary: d)
    case (Cons p ps)
    have "db_samples (if droppable rs now r p then drop_partition p d else d)
        = filter (\<lambda>s. \<not> (droppable rs now r p \<and> pt_parent p = METRIC_SAMPLES \<and> inside p (sm_timestamp s))) (db_samples d)"
      by (simp add: drop_partition_def Let_def split: partitioned.split)
    then show ?case by (simp add: Cons.IH conj_commute)
  qed simp
  then show ?thesis by (simp add: apply_retention_def)
qed

lemma apply_retention_rollups:
  "db_metric_rollups (apply_retention rs now r db) = filter (\<lambda>s. \<not> (\<exists>p \<in> set (db_partitions db).
     droppable rs now r p \<and> pt_parent p = METRIC_ROLLUPS \<and> inside p (mr_bucket s))) (db_metric_rollups db)"
proof -
  have "db_metric_rollups (fold (\<lambda>p d. if droppable rs now r p then drop_partition p d else d) ps d)
    = filter (\<lambda>s. \<not> (\<exists>p \<in> set ps. droppable rs now r p \<and> pt_parent p = METRIC_ROLLUPS
        \<and> inside p (mr_bucket s))) (db_metric_rollups d)" for ps d
  proof (induction ps arbitrary: d)
    case (Cons p ps)
    have "db_metric_rollups (if droppable rs now r p then drop_partition p d else d)
        = filter (\<lambda>s. \<not> (droppable rs now r p \<and> pt_parent p = METRIC_ROLLUPS \<and> inside p (mr_bucket s))) (db_metric_rollups d)"
      by (simp add: drop_partition_def Let_def split: partitioned.split)
    then show ?case by (simp add: Cons.IH conj_commute)
  qed simp
  then show ?thesis by (simp add: apply_retention_def)
qed

lemma apply_retention_maintenance: "db_maintenance (apply_retention rs now r db) = db_maintenance db"
proof -
  have "db_maintenance (fold (\<lambda>p d. if droppable rs now r p then drop_partition p d else d) ps d) = db_maintenance d" for ps d
    by (induction ps arbitrary: d) (auto simp: drop_partition_def Let_def split: partitioned.split)
  then show ?thesis by (simp add: apply_retention_def)
qed

lemma row_at_filter:
  "(\<And>r. r \<in> set rows \<Longrightarrow> key r = k \<Longrightarrow> Q r) \<Longrightarrow> row_at key k (filter Q rows) = row_at key k rows"
  by (induction rows) auto

lemma retention_keeps_rollup:
  assumes "now - rs_rollup_retention_days rs * day \<le> fst k"
  shows "row_at metric_rollup_key k (db_metric_rollups (apply_retention rs now r db))
       = row_at metric_rollup_key k (db_metric_rollups db)"
  unfolding apply_retention_rollups
  using assms by (intro row_at_filter) (auto simp: metric_rollup_key_def droppable_def inside_def Let_def)

lemma retention_keeps_recent:
  assumes "now - rs_raw_retention_hours rs * hour - rs_rollup_lateness_minutes rs * minute \<le> fst k"
  shows "filter (\<lambda>s. metric_group s = k) (db_samples (apply_retention rs now r db))
       = filter (\<lambda>s. metric_group s = k) (db_samples db)"
  unfolding apply_retention_samples filter_filter
proof (intro filter_cong refl iffI conjI)
  fix s assume k: "metric_group s = k"
  then have "fst k \<le> sm_timestamp s" using date_bin_bounds(1) by (auto simp: metric_group_def)
  with assms show "\<not> (\<exists>p \<in> set (db_partitions db). droppable rs now r p \<and> pt_parent p = METRIC_SAMPLES
      \<and> inside p (sm_timestamp s))"
    by (auto simp: droppable_def inside_def Let_def)
qed auto

section \<open>One cycle\<close>

lemma with_partitions_frame:
  "\<exists>ps. with_partitions start stop db = db\<lparr>db_partitions := db_partitions db @ ps\<rparr>"
proof -
  obtain ps where 1: "ensure_partitions METRIC_ROLLUPS Daily (rollup_days (floor_day start) (floor_day (stop - 1))) db
      = db\<lparr>db_partitions := db_partitions db @ ps\<rparr>"
    using ensure_partitions_frame by blast
  obtain qs where "with_partitions start stop db
      = db\<lparr>db_partitions := db_partitions db @ ps\<rparr>\<lparr>db_partitions := (db_partitions db @ ps) @ qs\<rparr>"
    using ensure_partitions_frame [of LOG_ROLLUPS Daily "rollup_days (floor_day start) (floor_day (stop - 1))"
        "db\<lparr>db_partitions := db_partitions db @ ps\<rparr>"]
    unfolding with_partitions_def Let_def 1 by auto
  then show ?thesis by (intro exI [of _ "ps @ qs"]) simp
qed

lemma with_partitions_simps [simp]:
  "db_samples (with_partitions start stop db) = db_samples db"
  "db_logs (with_partitions start stop db) = db_logs db"
  "db_metric_rollups (with_partitions start stop db) = db_metric_rollups db"
  using with_partitions_frame [of start stop db] by auto

text \<open>The state a cycle hands to retention.\<close>

definition rolled :: "retention \<Rightarrow> datetime \<Rightarrow> database \<Rightarrow> database" where
  "rolled rs now db =
     (let stop = floor_five now; start = rollup_start (rs_rollup_lateness_minutes rs) stop db
      in (expire_leases now (roll_up now start stop (with_partitions start stop db)))
           \<lparr>db_maintenance := Some \<lparr>mt_rolled_through = Some stop, mt_completed_at = Some now\<rparr>\<rparr>)"

lemma rollup_once_eq: "rollup_once rs True now db = (True, apply_retention rs now (floor_five now) (rolled rs now db))"
  by (simp add: rollup_once_def rolled_def Let_def)

lemma rolled_simps:
  "db_samples (rolled rs now db) = db_samples db"
  "db_maintenance (rolled rs now db) = Some \<lparr>mt_rolled_through = Some (floor_five now), mt_completed_at = Some now\<rparr>"
  by (simp_all add: rolled_def roll_up_def expire_leases_def Let_def)

lemma rolled_rollups:
  "db_metric_rollups (rolled rs now db) = upsert_all metric_rollup_key
     (group_rows metric_group (metric_rollup_row now)
        (filter (\<lambda>s. rollup_start (rs_rollup_lateness_minutes rs) (floor_five now) db \<le> sm_timestamp s
           \<and> sm_timestamp s < floor_five now) (db_samples db))) (db_metric_rollups db)"
  by (simp add: rolled_def roll_up_def expire_leases_def Let_def)

lemma rolled_row_inside:
  assumes "rollup_start (rs_rollup_lateness_minutes rs) (floor_five now) db \<le> fst k" and "fst k < floor_five now"
  shows "row_at metric_rollup_key k (db_metric_rollups (rolled rs now db))
     = (if k \<in> metric_group ` set (db_samples db)
        then Some (metric_rollup_row now k (filter (\<lambda>s. metric_group s = k) (db_samples db)))
        else row_at metric_rollup_key k (db_metric_rollups db))"
  unfolding rolled_rollups
proof (rule metric_rollups.window_row_at)
  fix s assume "metric_group s = k"
  then have k: "fst k = date_bin (sm_timestamp s)" by (auto simp: metric_group_def)
  have "date_bin (sm_timestamp s) + 5 * minute \<le> floor_five now"
    using assms(2) k by (intro bucket_less) (simp_all add: floor_five_eq)
  then show "rollup_start (rs_rollup_lateness_minutes rs) (floor_five now) db \<le> sm_timestamp s
      \<and> sm_timestamp s < floor_five now"
    using assms(1) k date_bin_bounds [of "sm_timestamp s"] by linarith
qed

lemma rolled_row_before:
  assumes "bucket (fst k)" "fst k + 5 * minute \<le> rollup_start (rs_rollup_lateness_minutes rs) (floor_five now) db"
  shows "row_at metric_rollup_key k (db_metric_rollups (rolled rs now db))
     = row_at metric_rollup_key k (db_metric_rollups db)"
  unfolding rolled_rollups
proof (rule metric_rollups.window_row_outside)
  fix s assume "metric_group s = k"
  then have "fst k = date_bin (sm_timestamp s)" by (auto simp: metric_group_def)
  then show "\<not> (rollup_start (rs_rollup_lateness_minutes rs) (floor_five now) db \<le> sm_timestamp s
      \<and> sm_timestamp s < floor_five now)"
    using assms(2) date_bin_bounds [of "sm_timestamp s"] by linarith
qed

end
