(* ===== verification/Rollup_History.thy ===== *)
theory Rollup_History
  imports Maintenance
begin

text \<open>
  What the maintenance cycles guarantee over time. The history lists every sample that ever arrived;
  the database forgets the raw rows of old partitions, the rollups have to make up for them. Only
  samples that arrive within the lateness window are covered; the theorem on late data shows what
  happens to the others.
\<close>

section \<open>One cycle\<close>

text \<open>
  C14. A cycle makes the rollups of every bucket in its window exact: the row of a bucket and series
  is the aggregate of all stored samples of that bucket and series, whatever row was there before.
\<close>

theorem rollup_once_converges:
  assumes "rollup_start (rs_rollup_lateness_minutes rs) (floor_five now) db \<le> fst k" and "fst k < floor_five now"
    and "now - rs_rollup_retention_days rs * day \<le> fst k" and "k \<in> metric_group ` set (db_samples db)"
  shows "row_at metric_rollup_key k (db_metric_rollups (snd (rollup_once rs True now db)))
       = Some (metric_rollup_row now k (filter (\<lambda>s. metric_group s = k) (db_samples db)))"
  using assms by (simp add: rollup_once_eq retention_keeps_rollup rolled_row_inside)

text \<open>A sample of value \<open>v\<close> at \<open>t\<close>.\<close>

definition demo_sample :: "uuid \<Rightarrow> datetime \<Rightarrow> pyfloat \<Rightarrow> metric_sample" where
  "demo_sample i t v = \<lparr>sm_timestamp = t, sm_event_id = i, sm_series_id = 1, sm_observed = t, sm_sequence = 1,
     sm_value = v, sm_experiment_id = None\<rparr>"

definition demo_raw :: database where
  "demo_raw = empty_database\<lparr>db_samples := [demo_sample ''a'' 0 2, demo_sample ''b'' minute 4]\<rparr>"

lemma demo_raw_simps [simp]:
  "db_samples demo_raw = [demo_sample ''a'' 0 2, demo_sample ''b'' minute 4]"
  "db_logs demo_raw = []" "db_maintenance demo_raw = None" "db_metric_rollups demo_raw = []"
  "db_partitions demo_raw = []"
  by (simp_all add: demo_raw_def empty_database_def)

lemma demo_sample_simps [simp]:
  "sm_timestamp (demo_sample i t v) = t" "sm_value (demo_sample i t v) = v" "sm_event_id (demo_sample i t v) = i"
  "metric_group (demo_sample i t v) = (date_bin t, 1)"
  by (simp_all add: demo_sample_def metric_group_def)

lemma demo_times:
  "date_bin 0 = 0" "date_bin minute = 0" "floor_five (10 * minute) = 10 * minute"
  "floor_five (60 * minute) = 60 * minute" "floor_five 0 = 0"
  by (simp_all add: floor_five_eq date_bin_def time_units)

theorem rollup_once_converges_witness:
  "\<exists>r. row_at metric_rollup_key (0, 1) (db_metric_rollups (snd (rollup_once default_retention True (10 * minute) demo_raw)))
     = Some r \<and> mr_count r = 2 \<and> mr_average r = 3 \<and> mr_last r = 4"
proof -
  have "row_at metric_rollup_key (0, 1) (db_metric_rollups (snd (rollup_once default_retention True (10 * minute) demo_raw)))
      = Some (metric_rollup_row (10 * minute) (0, 1) (filter (\<lambda>s. metric_group s = (0, 1)) (db_samples demo_raw)))"
    by (rule rollup_once_converges)
      (simp_all add: rollup_start_def floor_five_eq date_bin_def default_retention_def time_units)
  then show ?thesis
    by (simp add: demo_times metric_rollup_row_def latest_def later_def)
qed

section \<open>Histories\<close>

definition on_time :: "retention \<Rightarrow> metric_sample \<Rightarrow> database \<Rightarrow> bool" where
  "on_time rs s db \<longleftrightarrow> (\<forall>st r. db_maintenance db = Some st \<longrightarrow> mt_rolled_through st = Some r
     \<longrightarrow> r - rs_rollup_lateness_minutes rs * minute \<le> sm_timestamp s)"

definition not_before :: "datetime \<Rightarrow> database \<Rightarrow> bool" where
  "not_before now db \<longleftrightarrow> (\<forall>st c. db_maintenance db = Some st \<longrightarrow> mt_completed_at st = Some c \<longrightarrow> c \<le> now)"

text \<open>
  \<open>history rs arrived db\<close>: starting empty, samples arrived on time, cycles ran (with or without the
  lock) on a clock that does not go back, and anything else that leaves samples, metric rollups and
  the maintenance state alone happened.
\<close>

inductive history :: "retention \<Rightarrow> metric_sample list \<Rightarrow> database \<Rightarrow> bool" for rs :: retention where
  start: "history rs [] empty_database"
| arrive: "history rs arrived db \<Longrightarrow> on_time rs s db \<Longrightarrow>
     history rs (arrived @ [s]) (db\<lparr>db_samples := db_samples db @ [s]\<rparr>)"
| cycle: "history rs arrived db \<Longrightarrow> not_before now db \<Longrightarrow> history rs arrived (snd (rollup_once rs locked now db))"
| other: "history rs arrived db \<Longrightarrow> db_samples db' = db_samples db \<Longrightarrow> db_metric_rollups db' = db_metric_rollups db
     \<Longrightarrow> db_maintenance db' = db_maintenance db \<Longrightarrow> history rs arrived db'"

definition group_of :: "datetime \<times> nat \<Rightarrow> metric_sample list \<Rightarrow> metric_sample list" where
  "group_of k ss = filter (\<lambda>s. metric_group s = k) ss"

text \<open>
  The invariant: from the lateness window on the raw rows are complete; before it the rollups are,
  as far back as rollups are kept.
\<close>

definition window_from :: "retention \<Rightarrow> datetime \<Rightarrow> datetime" where
  "window_from rs c = floor_five c - rs_rollup_lateness_minutes rs * minute"

definition raw_complete :: "retention \<Rightarrow> datetime \<Rightarrow> metric_sample list \<Rightarrow> database \<Rightarrow> bool" where
  "raw_complete rs c arrived db \<longleftrightarrow>
     (\<forall>k. window_from rs c \<le> fst k \<longrightarrow> group_of k (db_samples db) = group_of k arrived)"

definition rolled_complete :: "retention \<Rightarrow> datetime \<Rightarrow> metric_sample list \<Rightarrow> database \<Rightarrow> bool" where
  "rolled_complete rs c arrived db \<longleftrightarrow>
     (\<forall>k \<in> metric_group ` set arrived. fst k < window_from rs c \<longrightarrow> c - rs_rollup_retention_days rs * day \<le> fst k \<longrightarrow>
        (\<exists>t. row_at metric_rollup_key k (db_metric_rollups db) = Some (metric_rollup_row t k (group_of k arrived))))"

definition cycle_state :: "datetime \<Rightarrow> maintenance_state" where
  "cycle_state c = \<lparr>mt_rolled_through = Some (floor_five c), mt_completed_at = Some c\<rparr>"

definition covered :: "retention \<Rightarrow> metric_sample list \<Rightarrow> database \<Rightarrow> bool" where
  "covered rs arrived db \<longleftrightarrow> (case db_maintenance db of
     None \<Rightarrow> db_samples db = arrived
   | Some st \<Rightarrow> (\<exists>c. st = cycle_state c \<and> raw_complete rs c arrived db \<and> rolled_complete rs c arrived db))"

lemma raw_completeD: "raw_complete rs c arrived db \<Longrightarrow> window_from rs c \<le> fst k \<Longrightarrow> group_of k (db_samples db) = group_of k arrived"
  unfolding raw_complete_def by blast

lemma rolled_completeD:
  "rolled_complete rs c arrived db \<Longrightarrow> k \<in> metric_group ` set arrived \<Longrightarrow> fst k < window_from rs c
     \<Longrightarrow> c - rs_rollup_retention_days rs * day \<le> fst k
     \<Longrightarrow> \<exists>t. row_at metric_rollup_key k (db_metric_rollups db) = Some (metric_rollup_row t k (group_of k arrived))"
  unfolding rolled_complete_def by blast

lemma complete_frame:
  "db_samples db' = db_samples db \<Longrightarrow> raw_complete rs c arrived db' = raw_complete rs c arrived db"
  "db_metric_rollups db' = db_metric_rollups db \<Longrightarrow> rolled_complete rs c arrived db' = rolled_complete rs c arrived db"
  by (simp_all only: raw_complete_def rolled_complete_def)

lemma coveredE:
  assumes "covered rs arrived db"
  obtains (first) "db_maintenance db = None" "db_samples db = arrived"
    | (later) c where "db_maintenance db = Some (cycle_state c)" "raw_complete rs c arrived db" "rolled_complete rs c arrived db"
  using assms by (auto simp: covered_def split: option.splits)

lemma cycle_state_simps [simp]:
  "mt_rolled_through (cycle_state c) = Some (floor_five c)" "mt_completed_at (cycle_state c) = Some c"
  by (simp_all add: cycle_state_def)

definition sane :: "retention \<Rightarrow> bool" where
  "sane rs \<longleftrightarrow> 5 dvd rs_rollup_lateness_minutes rs \<and> 0 \<le> rs_rollup_lateness_minutes rs \<and> 1 \<le> rs_raw_retention_hours rs"

lemma in_groups_iff: "k \<in> metric_group ` set ss \<longleftrightarrow> group_of k ss \<noteq> []"
  by (auto simp: group_of_def filter_empty_conv)

lemma group_bucket: "k \<in> metric_group ` set ss \<Longrightarrow> bucket (fst k)"
  by (auto simp: metric_group_def)

lemma floor_five_bucket [simp]: "bucket (floor_five t)"
  by (simp add: floor_five_eq)

lemma floor_five_mono: "t \<le> u \<Longrightarrow> floor_five t \<le> floor_five u"
  by (simp add: floor_five_eq date_bin_mono)

text \<open>Samples retention may drop lie before the lateness window of the cycle.\<close>

lemma retention_keeps_window:
  assumes "sane rs" "window_from rs now \<le> fst k"
  shows "group_of k (db_samples (apply_retention rs now r db)) = group_of k (db_samples db)"
  unfolding group_of_def
proof (rule retention_keeps_recent)
  have "now < floor_five now + 5 * minute" using date_bin_bounds(2) [of now] by (simp add: floor_five_eq)
  moreover have "5 * minute \<le> rs_raw_retention_hours rs * hour"
    using assms(1) by (simp add: sane_def time_units)
  ultimately show "now - rs_raw_retention_hours rs * hour - rs_rollup_lateness_minutes rs * minute \<le> fst k"
    using assms(2) unfolding window_from_def by linarith
qed

lemma window_bucket: "sane rs \<Longrightarrow> bucket (window_from rs c)"
  by (simp add: window_from_def bucket_lateness sane_def)

lemma window_mono: "c \<le> now \<Longrightarrow> window_from rs c \<le> window_from rs now"
  by (simp add: window_from_def floor_five_mono)

lemma window_before: "sane rs \<Longrightarrow> window_from rs now \<le> floor_five now"
  by (simp add: window_from_def sane_def time_units)

lemma later_start:
  "db_maintenance db = Some (cycle_state c) \<Longrightarrow> c \<le> now \<Longrightarrow>
     rollup_start (rs_rollup_lateness_minutes rs) (floor_five now) db = window_from rs c"
  using floor_five_mono [of c now] by (simp add: rollup_start_def window_from_def)

lemma first_start:
  assumes "db_maintenance db = None" "k \<in> metric_group ` set (db_samples db)"
  shows "rollup_start l stop db \<le> fst k"
proof -
  from assms(2) obtain s where s: "s \<in> set (db_samples db)" "fst k = date_bin (sm_timestamp s)"
    by (auto simp: metric_group_def)
  have "Min (set (map sm_timestamp (db_samples db) @ map le_timestamp (db_logs db) @ [stop])) \<le> sm_timestamp s"
    using s(1) by (intro Min_le) auto
  then show ?thesis
    by (simp add: rollup_start_def assms(1) floor_five_eq s(2) date_bin_mono del: set_append set_map)
qed

lemma group_append_other: "metric_group s \<noteq> k \<Longrightarrow> group_of k (ss @ [s]) = group_of k ss"
  by (simp add: group_of_def)

lemma group_append: "group_of k (ss @ ts) = group_of k ss @ group_of k ts"
  by (simp add: group_of_def)

lemma covered_arrive:
  assumes "sane rs" "covered rs arrived db" "on_time rs s db"
  shows "covered rs (arrived @ [s]) (db\<lparr>db_samples := db_samples db @ [s]\<rparr>)"
  using assms(2)
proof (cases rule: coveredE)
  case first
  then show ?thesis by (simp add: covered_def)
next
  case (later c)
  have "window_from rs c \<le> sm_timestamp s" using assms(3) by (simp add: on_time_def later(1) window_from_def)
  then have new: "window_from rs c \<le> fst (metric_group s)"
    using window_bucket [OF assms(1)] by (simp add: metric_group_def bucket_le)
  have "raw_complete rs c (arrived @ [s]) (db\<lparr>db_samples := db_samples db @ [s]\<rparr>)"
    using later(2) by (simp add: raw_complete_def group_append)
  moreover have "rolled_complete rs c (arrived @ [s]) (db\<lparr>db_samples := db_samples db @ [s]\<rparr>)"
    unfolding rolled_complete_def
  proof (intro ballI impI)
    fix k assume k: "k \<in> metric_group ` set (arrived @ [s])" "fst k < window_from rs c"
      "c - rs_rollup_retention_days rs * day \<le> fst k"
    then have ne: "metric_group s \<noteq> k" using new by auto
    with k(1) have "k \<in> metric_group ` set arrived" by auto
    then show "\<exists>t. row_at metric_rollup_key k (db_metric_rollups (db\<lparr>db_samples := db_samples db @ [s]\<rparr>))
        = Some (metric_rollup_row t k (group_of k (arrived @ [s])))"
      using rolled_completeD [OF later(3) _ k(2,3)] by (simp add: group_append_other [OF ne])
  qed
  ultimately show ?thesis by (auto simp: covered_def later(1))
qed

text \<open>From the start of its window on, a cycle reads complete raw rows.\<close>

lemma covered_raw:
  assumes "covered rs arrived db" "not_before now db"
    and "rollup_start (rs_rollup_lateness_minutes rs) (floor_five now) db \<le> fst k"
  shows "group_of k (db_samples db) = group_of k arrived"
  using assms(1)
proof (cases rule: coveredE)
  case (later c)
  then have "c \<le> now" using assms(2) by (simp add: not_before_def)
  then show ?thesis using raw_completeD [OF later(2)] assms(3) by (simp add: later_start [OF later(1)])
qed simp

lemma covered_row:
  assumes "sane rs" "covered rs arrived db" "not_before now db"
    and k: "k \<in> metric_group ` set arrived" "fst k < floor_five now" "now - rs_rollup_retention_days rs * day \<le> fst k"
  shows "\<exists>t. row_at metric_rollup_key k (db_metric_rollups (rolled rs now db)) = Some (metric_rollup_row t k (group_of k arrived))"
proof (cases "rollup_start (rs_rollup_lateness_minutes rs) (floor_five now) db \<le> fst k")
  case True
  note raw = covered_raw [OF assms(2,3) True]
  have "k \<in> metric_group ` set (db_samples db)"
    using k(1) unfolding in_groups_iff raw .
  then show ?thesis using rolled_row_inside [OF True k(2)] unfolding raw [symmetric] by (auto simp: group_of_def)
next
  case False
  from assms(2) show ?thesis
  proof (cases rule: coveredE)
    case first
    with first_start [OF first(1)] k(1) False show ?thesis by blast
  next
    case (later c)
    have c: "c \<le> now" using later(1) assms(3) by (simp add: not_before_def)
    note st = later_start [OF later(1) c]
    have low: "fst k < window_from rs c" using False by (simp add: st)
    have "fst k + 5 * minute \<le> rollup_start (rs_rollup_lateness_minutes rs) (floor_five now) db"
      unfolding st by (rule bucket_less [OF group_bucket [OF k(1)] window_bucket [OF assms(1)] low])
    then have "row_at metric_rollup_key k (db_metric_rollups (rolled rs now db)) = row_at metric_rollup_key k (db_metric_rollups db)"
      by (rule rolled_row_before [OF group_bucket [OF k(1)]])
    moreover have "c - rs_rollup_retention_days rs * day \<le> fst k" using k(3) c by simp
    ultimately show ?thesis using rolled_completeD [OF later(3) k(1) low] by simp
  qed
qed

lemma covered_cycle:
  assumes sane: "sane rs" and cov: "covered rs arrived db" and clock: "not_before now db"
  shows "covered rs arrived (snd (rollup_once rs True now db))"
proof -
  let ?db = "apply_retention rs now (floor_five now) (rolled rs now db)"
  have "raw_complete rs now arrived ?db"
    unfolding raw_complete_def
  proof (intro allI impI)
    fix k :: "datetime \<times> nat" assume k: "window_from rs now \<le> fst k"
    from cov have "group_of k (db_samples db) = group_of k arrived"
    proof (cases rule: coveredE)
      case (later c)
      have "c \<le> now" using later(1) clock by (simp add: not_before_def)
      then show ?thesis using k window_mono [of c now rs] by (intro raw_completeD [OF later(2)]) simp
    qed simp
    then show "group_of k (db_samples ?db) = group_of k arrived"
      using retention_keeps_window [OF sane k] by (simp add: rolled_simps)
  qed
  moreover have "rolled_complete rs now arrived ?db"
    unfolding rolled_complete_def
  proof (intro ballI impI)
    fix k assume k: "k \<in> metric_group ` set arrived" "fst k < window_from rs now"
      "now - rs_rollup_retention_days rs * day \<le> fst k"
    have "fst k < floor_five now" using k(2) window_before [OF sane] by (rule less_le_trans)
    then show "\<exists>t. row_at metric_rollup_key k (db_metric_rollups ?db) = Some (metric_rollup_row t k (group_of k arrived))"
      unfolding retention_keeps_rollup [OF k(3)] by (rule covered_row [OF sane cov clock k(1) _ k(3)])
  qed
  moreover have "db_maintenance ?db = Some (cycle_state now)"
    by (simp add: apply_retention_maintenance rolled_simps cycle_state_def)
  ultimately show ?thesis by (auto simp: covered_def rollup_once_eq)
qed

lemma history_covered: "history rs arrived db \<Longrightarrow> sane rs \<Longrightarrow> covered rs arrived db"
proof (induction rule: history.induct)
  case start
  then show ?case by (simp add: covered_def empty_database_def)
next
  case (arrive arrived db s)
  then show ?case by (simp add: covered_arrive)
next
  case (cycle arrived db now locked)
  then show ?case by (cases locked) (simp add: covered_cycle, simp add: rollup_once_def)
next
  case (other arrived db db')
  then show ?case by (simp add: covered_def complete_frame(1) [OF other.hyps(2)] complete_frame(2) [OF other.hyps(3)] split: option.splits)
qed

text \<open>
  C15. Retention loses no history that arrived on time: at any point, for every bucket that lies
  before the lateness window and is not older than the rollup retention, the rollup row is the
  aggregate of every sample that ever arrived for that bucket and series, although most of those
  raw rows have been dropped.
\<close>

theorem rollups_outlive_samples:
  assumes "history rs arrived db" and "sane rs"
    and "db_maintenance db = Some st" and "mt_rolled_through st = Some r" and "mt_completed_at st = Some c"
    and "k \<in> metric_group ` set arrived" and "fst k < r - rs_rollup_lateness_minutes rs * minute"
    and "c - rs_rollup_retention_days rs * day \<le> fst k"
  shows "\<exists>t. row_at metric_rollup_key k (db_metric_rollups db)
           = Some (metric_rollup_row t k (filter (\<lambda>s. metric_group s = k) arrived))"
  using history_covered [OF assms(1,2)]
proof (cases rule: coveredE)
  case first
  with assms(3) show ?thesis by simp
next
  case (later d)
  then have "st = cycle_state d" using assms(3) by simp
  then have "d = c" "r = floor_five c" using assms(4,5) by simp_all
  then show ?thesis
    using rolled_completeD [OF later(3) assms(6)] assms(7,8) by (simp add: window_from_def group_of_def)
qed

theorem rollups_outlive_samples_witness:
  "\<exists>db t. history default_retention [demo_sample ''a'' 0 2] db
     \<and> row_at metric_rollup_key (0, 1) (db_metric_rollups db)
       = Some (metric_rollup_row t (0, 1) [demo_sample ''a'' 0 2])"
proof -
  let ?s = "demo_sample ''a'' 0 2"
  let ?db = "snd (rollup_once default_retention True (60 * minute) (empty_database\<lparr>db_samples := [?s]\<rparr>))"
  have "history default_retention ([] @ [?s]) (empty_database\<lparr>db_samples := db_samples empty_database @ [?s]\<rparr>)"
    by (intro history.arrive history.start) (simp add: on_time_def empty_database_def)
  then have "history default_retention [?s] (empty_database\<lparr>db_samples := [?s]\<rparr>)"
    by (simp add: empty_database_def)
  then have h: "history default_retention [?s] ?db"
    by (rule history.cycle) (simp add: not_before_def empty_database_def)
  have "\<exists>t. row_at metric_rollup_key (0, 1) (db_metric_rollups ?db)
      = Some (metric_rollup_row t (0, 1) (filter (\<lambda>s. metric_group s = (0, 1)) [?s]))"
  proof (rule rollups_outlive_samples [OF h, where c = "60 * minute" and r = "60 * minute" and st = "cycle_state (60 * minute)"])
    show "db_maintenance ?db = Some (cycle_state (60 * minute))"
      by (simp add: rollup_once_eq apply_retention_maintenance rolled_simps cycle_state_def)
  qed (simp_all add: sane_def default_retention_def demo_times time_units floor_five_eq date_bin_def)
  with h show ?thesis by (auto simp: demo_times)
qed

section \<open>Late data\<close>

text \<open>Cycles with samples arriving in between, whenever they are from.\<close>

definition run_cycles :: "retention \<Rightarrow> (metric_sample list \<times> datetime) list \<Rightarrow> database \<Rightarrow> database" where
  "run_cycles rs steps db =
     fold (\<lambda>(arrivals, now) d. snd (rollup_once rs True now (d\<lparr>db_samples := db_samples d @ arrivals\<rparr>))) steps db"

lemma late_cycle:
  assumes "sane rs" "db_maintenance db = Some st" "mt_rolled_through st = Some r'" "r \<le> r'" "r \<le> floor_five now"
    and "bucket b" "b + 5 * minute \<le> r - rs_rollup_lateness_minutes rs * minute"
    and "row_at metric_rollup_key (b, i) (db_metric_rollups db) = None"
  shows "row_at metric_rollup_key (b, i) (db_metric_rollups (snd (rollup_once rs True now (db\<lparr>db_samples := ss\<rparr>)))) = None"
    and "db_maintenance (snd (rollup_once rs True now (db\<lparr>db_samples := ss\<rparr>)))
       = Some \<lparr>mt_rolled_through = Some (floor_five now), mt_completed_at = Some now\<rparr>"
proof -
  let ?db = "db\<lparr>db_samples := ss\<rparr>"
  have "r - rs_rollup_lateness_minutes rs * minute \<le> rollup_start (rs_rollup_lateness_minutes rs) (floor_five now) ?db"
    using assms(2-5) by (simp add: rollup_start_def)
  then have "row_at metric_rollup_key (b, i) (db_metric_rollups (rolled rs now ?db)) = None"
    using rolled_row_before [of "(b, i)" rs now ?db] assms(6-8) by simp
  then show "row_at metric_rollup_key (b, i) (db_metric_rollups (snd (rollup_once rs True now ?db))) = None"
    by (auto simp: rollup_once_eq apply_retention_rollups find_None_iff)
  show "db_maintenance (snd (rollup_once rs True now ?db))
       = Some \<lparr>mt_rolled_through = Some (floor_five now), mt_completed_at = Some now\<rparr>"
    by (simp add: rollup_once_eq apply_retention_maintenance rolled_simps)
qed

text \<open>
  Data that arrives after its lateness window is never rolled up: once everything through
  \<open>r\<close> is rolled up, a bucket that closed before \<open>r\<close> less the lateness and has no rollup
  never gets one, whatever samples arrive for it and however many cycles run. An agent that was
  offline longer than that drains its spool into such buckets.
\<close>

theorem late_data_never_rolled_up:
  assumes "sane rs" and "db_maintenance db = Some st" and "mt_rolled_through st = Some r"
    and "bucket b" and "b + 5 * minute \<le> r - rs_rollup_lateness_minutes rs * minute"
    and "row_at metric_rollup_key (b, i) (db_metric_rollups db) = None"
    and "\<forall>step \<in> set steps. r \<le> floor_five (snd step)"
  shows "row_at metric_rollup_key (b, i) (db_metric_rollups (run_cycles rs steps db)) = None"
proof -
  have "row_at metric_rollup_key (b, i) (db_metric_rollups (run_cycles rs steps db)) = None"
    if "mt_rolled_through st = Some r'" "r \<le> r'" for r'
    using assms(2) that assms(6,7)
  proof (induction steps arbitrary: db st r')
    case (Cons step steps)
    obtain arrivals now where step: "step = (arrivals, now)" by (cases step)
    have le: "r \<le> floor_five now" using Cons.prems(5) by (simp add: step)
    note one = late_cycle [OF assms(1) Cons.prems(1,2,3) le assms(4,5) Cons.prems(4), where ss = "db_samples db @ arrivals"]
    show ?case
      using Cons.IH [OF one(2) _ le one(1)] Cons.prems(5) by (simp add: run_cycles_def step)
  qed (simp add: run_cycles_def)
  with assms(3) show ?thesis by blast
qed

theorem late_data_never_rolled_up_witness:
  "\<exists>db. db_maintenance db = Some \<lparr>mt_rolled_through = Some (60 * minute), mt_completed_at = Some (60 * minute)\<rparr>
     \<and> row_at metric_rollup_key (0, 1) (db_metric_rollups (run_cycles default_retention
          [([demo_sample ''late'' 0 7], 65 * minute), ([], 70 * minute)] db)) = None"
proof -
  let ?db = "empty_database\<lparr>db_maintenance :=
      Some \<lparr>mt_rolled_through = Some (60 * minute), mt_completed_at = Some (60 * minute)\<rparr>\<rparr>"
  have "row_at metric_rollup_key (0, 1) (db_metric_rollups (run_cycles default_retention
          [([demo_sample ''late'' 0 7], 65 * minute), ([], 70 * minute)] ?db)) = None"
    by (rule late_data_never_rolled_up [where r = "60 * minute"
          and st = "\<lparr>mt_rolled_through = Some (60 * minute), mt_completed_at = Some (60 * minute)\<rparr>"])
      (simp_all add: sane_def default_retention_def bucket_def empty_database_def time_units floor_five_eq date_bin_def)
  then show ?thesis by (intro exI [of _ ?db]) simp
qed

section \<open>Partitions of the rollups\<close>

lemma rollup_days_in:
  "d + int n * day \<le> stop \<Longrightarrow> d + int n * day \<in> set (rollup_days d stop)"
proof (induction n arbitrary: d)
  case 0
  then show ?case by (subst rollup_days.simps) simp
next
  case (Suc n)
  have "d + day + int n * day \<in> set (rollup_days (d + day) stop)"
    using Suc.prems by (intro Suc.IH) (simp add: algebra_simps)
  moreover have "d \<le> stop"
    using Suc.prems mult_nonneg_nonneg [of "int (Suc n)" day] time_units_pos(4) by linarith
  ultimately show ?case by (subst rollup_days.simps) (simp add: algebra_simps)
qed

lemma ensure_partitions_in:
  "t \<in> set ts \<Longrightarrow> partition_of parent period t \<in> set (db_partitions (ensure_partitions parent period ts db))"
proof (induction ts arbitrary: db)
  case (Cons u ts)
  have step: "ensure_partitions parent period (u # ts) db
      = ensure_partitions parent period ts (create_partition (partition_of parent period u) db)"
    by (simp add: ensure_partitions_def)
  show ?case
  proof (cases "t = u")
    case True
    have "partition_of parent period u \<in> set (db_partitions (create_partition (partition_of parent period u) db))"
      by (auto simp: create_partition_def) (metis partition.equality old.unit.exhaust)
    then show ?thesis
      using ensure_partitions_frame [of parent period ts "create_partition (partition_of parent period u) db"]
      unfolding step True by auto
  qed (use Cons in \<open>simp add: step\<close>)
qed simp

lemma floor_day_date_bin: "floor_day (date_bin t) = floor_day t"
proof -
  have "floor_day t \<le> t" "t < floor_day t + day"
    using pos_mod_bound [of day t] pos_mod_sign [of day t] by (simp_all add: floor_day_def del: pos_mod_bound pos_mod_sign)
  moreover have "bucket (floor_day t)"
    using dvd_trans [of "5 * minute" day "floor_day t"]
    by (simp add: bucket_def floor_day_def time_units minus_mod_eq_div_mult)
  ultimately have "floor_day t \<le> date_bin t" "date_bin t < floor_day t + day"
    using bucket_le [of "floor_day t" t] date_bin_bounds(1) [of t] by simp_all
  then have "date_bin t div day = t div day"
    by (intro int_div_pos_eq [of _ day _ "date_bin t - floor_day t"])
      (simp_all add: floor_day_def minus_mod_eq_div_mult)
  then show ?thesis by (simp add: floor_day_def minus_mod_eq_div_mult)
qed

text \<open>
  Every rollup row a cycle writes has a daily partition to go to: the partitions created cover
  the bucket of every sample and log in the window.
\<close>

theorem rollup_partitions_cover:
  assumes "start \<le> t" and "t < stop"
  shows "has_partition METRIC_ROLLUPS (date_bin t) (with_partitions start stop db)
         \<and> has_partition LOG_ROLLUPS (date_bin t) (with_partitions start stop db)"
proof -
  let ?days = "rollup_days (floor_day start) (floor_day (stop - 1))"
  have mono: "floor_day a = a div day * day" for a by (simp add: floor_day_def minus_mod_eq_div_mult)
  have "start div day \<le> t div day" "t div day \<le> (stop - 1) div day"
    using assms by (simp_all add: zdiv_mono1)
  then have le: "floor_day t = floor_day start + int (nat (t div day - start div day)) * day"
    "floor_day t \<le> floor_day (stop - 1)"
    by (simp_all add: mono algebra_simps)
  have d: "floor_day t \<in> set ?days"
    using rollup_days_in [of "floor_day start" "nat (t div day - start div day)" "floor_day (stop - 1)"] le by simp
  have self: "partition_of parent Daily (floor_day t) = partition_of parent Daily (date_bin t)" for parent
    by (simp add: partition_of_def floor_day_date_bin) (simp add: mono)
  have cover: "has_partition parent (date_bin t) db'"
    if "partition_of parent Daily (floor_day t) \<in> set (db_partitions db')" for parent db'
    using that partition_of_covers [where parent = parent and period = Daily and t = "date_bin t"]
    unfolding self has_partition_def by blast
  show ?thesis
    unfolding with_partitions_def Let_def
    using cover [OF ensure_partitions_in [OF d]] has_partition_mono by blast
qed

theorem rollup_partitions_cover_witness:
  "has_partition METRIC_ROLLUPS 0 (with_partitions 0 (10 * minute) empty_database)"
  using rollup_partitions_cover [of 0 minute "10 * minute" empty_database] by (simp add: demo_times)

end
