(* ===== verification/Procfs.thy ===== *)
theory Procfs
  imports PyText
begin

text \<open>
  Reading \<open>/proc\<close>, \<open>agent/src/temporalrca_agent/procfs.py\<close>: the parsers of the files the agent
  samples, the rate of a counter between two samples, and the busy share of a CPU. The file system
  is a record of functions, so that a missing or unreadable file is an exception value.
\<close>

section \<open>Parsers\<close>

type_synonym counters = "(pystr, int) dict"

record proc_stat =
  ps_cpus :: "(pystr, counters) dict"
  ps_counters :: counters

definition cpu_keys :: "pystr list" where
  "cpu_keys = [''user'', ''nice'', ''system'', ''idle'', ''iowait'', ''irq'', ''softirq'', ''steal'', ''guest'', ''guest_nice'']"

definition field :: "pystr list \<Rightarrow> nat \<Rightarrow> exn + pystr" where
  "field parts i = (if i < length parts then Inr (parts ! i) else Inl IndexError)"

definition stat_line :: "pystr \<Rightarrow> proc_stat \<Rightarrow> exn + proc_stat" where
  "stat_line line r =
     (let parts = split_ws line in
      if parts = [] then Inr r
      else let name = hd parts in
        if startswith ''cpu'' name
        then bind_result (map_result int_of (tl parts)) (\<lambda>vs.
               Inr (r\<lparr>ps_cpus := dict_set name (zip cpu_keys vs) (ps_cpus r)\<rparr>))
        else if name \<in> {''ctxt'', ''processes'', ''procs_running'', ''procs_blocked''}
        then bind_result (field parts 1) (\<lambda>f. bind_result (int_of f) (\<lambda>v.
               Inr (r\<lparr>ps_counters := dict_set name v (ps_counters r)\<rparr>)))
        else Inr r)"

definition parse_proc_stat :: "pystr \<Rightarrow> exn + proc_stat" where
  "parse_proc_stat text = fold_result stat_line (splitlines text) \<lparr>ps_cpus = [], ps_counters = []\<rparr>"

text \<open>A number with an optional unit \<open>kB\<close>.\<close>

definition kilobytes :: "pystr list \<Rightarrow> int \<Rightarrow> int" where
  "kilobytes parts v = (if 1 < length parts \<and> lower (parts ! 1) = ''kb'' then v * 1024 else v)"

definition meminfo_line :: "pystr \<Rightarrow> counters \<Rightarrow> exn + counters" where
  "meminfo_line line r =
     (case partition_on (CHR '':'') line of (key, separator, raw) \<Rightarrow>
        let parts = split_ws raw in
        if \<not> separator \<or> parts = [] then Inr r
        else bind_result (int_of (hd parts)) (\<lambda>v. Inr (dict_set key (kilobytes parts v) r)))"

definition parse_meminfo :: "pystr \<Rightarrow> exn + counters" where
  "parse_meminfo text = fold_result meminfo_line (splitlines text) []"

record loadavg =
  la_load1 :: pyfloat
  la_load5 :: pyfloat
  la_load15 :: pyfloat
  la_running :: int
  la_total :: int
  la_last_pid :: int

definition parse_loadavg :: "pystr \<Rightarrow> exn + loadavg" where
  "parse_loadavg text =
     (case take 5 (split_ws text) of
        [one, five, fifteen, tasks, last_pid] \<Rightarrow>
          (case partition_on (CHR ''/'') tasks of (running, separator, all_tasks) \<Rightarrow>
             if \<not> separator then Inl ValueError
             else bind_result (float_of one) (\<lambda>a. bind_result (float_of five) (\<lambda>b.
                  bind_result (float_of fifteen) (\<lambda>c. bind_result (int_of running) (\<lambda>r.
                  bind_result (int_of all_tasks) (\<lambda>t. bind_result (int_of last_pid) (\<lambda>p.
                    Inr \<lparr>la_load1 = a, la_load5 = b, la_load15 = c, la_running = r, la_total = t, la_last_pid = p\<rparr>)))))))
      | _ \<Rightarrow> Inl ValueError)"

definition disk_keys :: "pystr list" where
  "disk_keys = [''reads_completed'', ''reads_merged'', ''sectors_read'', ''read_ms'', ''writes_completed'',
     ''writes_merged'', ''sectors_written'', ''write_ms'', ''io_in_progress'', ''io_ms'', ''weighted_io_ms'',
     ''discards_completed'', ''discards_merged'', ''sectors_discarded'', ''discard_ms'', ''flushes_completed'', ''flush_ms'']"

text \<open>\<open>dict(zip(keys, (int(v) for v in parts)))\<close>: values beyond the keys are not converted.\<close>

definition zip_ints :: "pystr list \<Rightarrow> pystr list \<Rightarrow> exn + counters" where
  "zip_ints keys parts =
     bind_result (map_result int_of (take (length keys) parts)) (\<lambda>vs. Inr (zip keys vs))"

definition diskstats_line :: "pystr \<Rightarrow> (pystr, counters) dict \<Rightarrow> exn + (pystr, counters) dict" where
  "diskstats_line line r =
     (let parts = split_ws line in
      if length parts < 14 then Inr r
      else bind_result (zip_ints disk_keys (drop 3 parts)) (\<lambda>c. Inr (dict_set (parts ! 2) c r)))"

definition parse_diskstats :: "pystr \<Rightarrow> exn + (pystr, counters) dict" where
  "parse_diskstats text = fold_result diskstats_line (splitlines text) []"

definition net_keys :: "pystr list" where
  "net_keys = [''rx_bytes'', ''rx_packets'', ''rx_errors'', ''rx_dropped'', ''rx_fifo'', ''rx_frame'', ''rx_compressed'',
     ''rx_multicast'', ''tx_bytes'', ''tx_packets'', ''tx_errors'', ''tx_dropped'', ''tx_fifo'', ''tx_collisions'',
     ''tx_carrier'', ''tx_compressed'']"

definition net_line :: "pystr \<Rightarrow> (pystr, counters) dict \<Rightarrow> exn + (pystr, counters) dict" where
  "net_line line r =
     (case partition_on (CHR '':'') line of (interface, separator, raw) \<Rightarrow>
        if separator then bind_result (zip_ints net_keys (split_ws raw)) (\<lambda>c. Inr (dict_set (strip interface) c r))
        else Inr r)"

definition parse_net_dev :: "pystr \<Rightarrow> exn + (pystr, counters) dict" where
  "parse_net_dev text = fold_result net_line (drop 2 (splitlines text)) []"

record process_stat =
  st_pid :: int
  st_name :: pystr
  st_state :: pystr
  st_ppid :: int
  st_minor_faults :: int
  st_major_faults :: int
  st_utime_ticks :: int
  st_stime_ticks :: int
  st_threads :: int
  st_start_time_ticks :: int
  st_virtual_bytes :: int
  st_rss_pages :: int

definition parse_process_stat :: "pystr \<Rightarrow> exn + process_stat" where
  "parse_process_stat text =
     (case (find_char (CHR ''('') text, rfind_char (CHR '')'') text) of
        (Some opening, Some closing) \<Rightarrow>
          if closing < opening then Inl ValueError
          else bind_result (int_of (strip (take opening text))) (\<lambda>pid.
            let tail = split_ws (drop (Suc closing) text) in
            if length tail < 22 then Inl ValueError
            else bind_result (map_result (\<lambda>i. int_of (tail ! i)) [1, 7, 9, 11, 12, 17, 19, 20, 21]) (\<lambda>vs.
              Inr \<lparr>st_pid = pid, st_name = drop (Suc opening) (take closing text), st_state = tail ! 0,
                 st_ppid = vs ! 0, st_minor_faults = vs ! 1, st_major_faults = vs ! 2, st_utime_ticks = vs ! 3,
                 st_stime_ticks = vs ! 4, st_threads = vs ! 5, st_start_time_ticks = vs ! 6,
                 st_virtual_bytes = vs ! 7, st_rss_pages = vs ! 8\<rparr>))
      | _ \<Rightarrow> Inl ValueError)"

definition status_keys :: "pystr set" where
  "status_keys = {''Name'', ''State'', ''VmRSS'', ''VmSize'', ''Threads'', ''voluntary_ctxt_switches'', ''nonvoluntary_ctxt_switches''}"

definition status_line :: "pystr \<Rightarrow> (pystr, json) dict \<Rightarrow> exn + (pystr, json) dict" where
  "status_line line r =
     (case partition_on (CHR '':'') line of (key, separator, raw) \<Rightarrow>
        let parts = split_ws raw in
        if \<not> separator \<or> key \<notin> status_keys then Inr r
        else if parts \<noteq> [] \<and> isdigit (hd parts)
        then bind_result (int_of (hd parts)) (\<lambda>v. Inr (dict_set key (JInt (kilobytes parts v)) r))
        else Inr (dict_set key (JStr (strip raw)) r))"

definition parse_status :: "pystr \<Rightarrow> exn + (pystr, json) dict" where
  "parse_status text = fold_result status_line (splitlines text) []"

definition io_line :: "pystr \<Rightarrow> counters \<Rightarrow> exn + counters" where
  "io_line line r =
     (case partition_on (CHR '':'') line of (key, separator, raw) \<Rightarrow>
        if separator then bind_result (int_of (strip raw)) (\<lambda>v. Inr (dict_set key v r)) else Inr r)"

definition parse_io :: "pystr \<Rightarrow> exn + counters" where
  "parse_io text = fold_result io_line (splitlines text) []"

definition vmstat_line :: "pystr \<Rightarrow> counters \<Rightarrow> exn + counters" where
  "vmstat_line line r =
     (case split_ws line of
        [key, raw] \<Rightarrow> bind_result (int_of raw) (\<lambda>v. Inr (dict_set key v r))
      | _ \<Rightarrow> Inr r)"

definition parse_vmstat :: "pystr \<Rightarrow> exn + counters" where
  "parse_vmstat text = fold_result vmstat_line (splitlines text) []"

section \<open>Rates\<close>

record delta =
  dl_value :: "pyfloat option"
  dl_reset :: bool

definition counter_rate :: "int \<Rightarrow> int option \<Rightarrow> pyfloat \<Rightarrow> delta" where
  "counter_rate current previous elapsed =
     (case previous of
        None \<Rightarrow> \<lparr>dl_value = None, dl_reset = False\<rparr>
      | Some p \<Rightarrow>
          if elapsed \<le> 0 then \<lparr>dl_value = None, dl_reset = False\<rparr>
          else if current < p then \<lparr>dl_value = None, dl_reset = True\<rparr>
          else \<lparr>dl_value = Some (of_int (current - p) / elapsed), dl_reset = False\<rparr>)"

definition count_of :: "counters \<Rightarrow> pystr \<Rightarrow> int" where
  "count_of c key = (case dict_get c key of None \<Rightarrow> 0 | Some v \<Rightarrow> v)"

definition busy_keys :: "pystr list" where
  "busy_keys = [''user'', ''nice'', ''system'', ''idle'', ''iowait'', ''irq'', ''softirq'', ''steal'']"

definition idle_ticks :: "counters \<Rightarrow> int" where
  "idle_ticks c = count_of c ''idle'' + count_of c ''iowait''"

definition total_ticks :: "counters \<Rightarrow> int" where
  "total_ticks c = sum_list (map (count_of c) busy_keys)"

definition cpu_utilization :: "counters \<Rightarrow> counters option \<Rightarrow> pyfloat option" where
  "cpu_utilization current previous =
     (case previous of
        None \<Rightarrow> None
      | Some p \<Rightarrow>
          let delta_total = total_ticks current - total_ticks p;
              delta_idle = idle_ticks current - idle_ticks p
          in if delta_total \<le> 0 \<or> delta_idle < 0 then None
             else Some (max 0 (min 100 (100 * of_int (delta_total - delta_idle) / of_int delta_total))))"

section \<open>The file system\<close>

record procfs =
  pf_read :: "pystr \<Rightarrow> exn + pystr"
  pf_readlink :: "pystr \<Rightarrow> exn + pystr"
  pf_count :: "pystr \<Rightarrow> exn + nat"
  pf_entries :: "(pystr \<times> bool) list"
  pf_clock_ticks :: int
  pf_page_size :: int

record system_sample =
  sy_stat :: proc_stat
  sy_meminfo :: counters
  sy_loadavg :: loadavg
  sy_disks :: "(pystr, counters) dict"
  sy_net :: "(pystr, counters) dict"
  sy_vmstat :: counters

definition system :: "procfs \<Rightarrow> exn + system_sample" where
  "system pf =
     bind_result (bind_result (pf_read pf ''stat'') parse_proc_stat) (\<lambda>stat.
     bind_result (bind_result (pf_read pf ''meminfo'') parse_meminfo) (\<lambda>mem.
     bind_result (bind_result (pf_read pf ''loadavg'') parse_loadavg) (\<lambda>load.
     bind_result (bind_result (pf_read pf ''diskstats'') parse_diskstats) (\<lambda>disks.
     bind_result (bind_result (pf_read pf ''net/dev'') parse_net_dev) (\<lambda>net.
     bind_result (bind_result (pf_read pf ''vmstat'') parse_vmstat) (\<lambda>vmstat.
       Inr \<lparr>sy_stat = stat, sy_meminfo = mem, sy_loadavg = load, sy_disks = disks, sy_net = net, sy_vmstat = vmstat\<rparr>))))))"

definition boot_id :: "procfs \<Rightarrow> exn + pystr" where
  "boot_id pf = bind_result (pf_read pf ''sys/kernel/random/boot_id'') (\<lambda>t. Inr (strip t))"

text \<open>\<open>sorted(int(name) ...)\<close> of the entries that are directories with a numeric name.\<close>

definition pids :: "procfs \<Rightarrow> exn + int list" where
  "pids pf = bind_result
     (map_result (\<lambda>e. int_of (fst e)) (filter (\<lambda>e. isdigit (fst e) \<and> snd e) (pf_entries pf)))
     (\<lambda>ns. Inr (sort ns))"

record process_info =
  pi_stat :: process_stat
  pi_rss_bytes :: int
  pi_status :: "(pystr, json) dict"
  pi_io :: counters
  pi_fd_count :: nat
  pi_cmdline :: pystr
  pi_exe :: pystr
  pi_cgroup :: pystr

text \<open>The exceptions caught around the optional files.\<close>

fun os_error :: "exn \<Rightarrow> bool" where
  "os_error FileNotFoundError = True"
| "os_error PermissionError = True"
| "os_error ProcessLookupError = True"
| "os_error OSError = True"
| "os_error (ConnectionError _) = True"
| "os_error _ = False"

definition optional_text :: "(exn + pystr) \<Rightarrow> exn + pystr" where
  "optional_text r = (case r of Inr t \<Rightarrow> Inr t | Inl e \<Rightarrow> if os_error e then Inr [] else Inl e)"

definition read_args :: "procfs \<Rightarrow> pystr \<Rightarrow> exn + pystr" where
  "read_args pf path = optional_text (bind_result (pf_read pf path) (\<lambda>t.
     Inr (strip (map (\<lambda>c. if (of_char c :: nat) = 0 then CHR '' '' else c) t))))"

definition process :: "procfs \<Rightarrow> int \<Rightarrow> exn + process_info" where
  "process pf pid =
     (let dir = int_str pid in
      bind_result (bind_result (pf_read pf (dir @ ''/stat'')) parse_process_stat) (\<lambda>stat.
      bind_result (bind_result (pf_read pf (dir @ ''/status'')) parse_status) (\<lambda>status.
      bind_result (bind_result (pf_read pf (dir @ ''/io'')) parse_io) (\<lambda>io.
      bind_result (pf_count pf (dir @ ''/fd'')) (\<lambda>fds.
      bind_result (read_args pf (dir @ ''/cmdline'')) (\<lambda>cmdline.
      bind_result (optional_text (pf_readlink pf (dir @ ''/exe''))) (\<lambda>exe.
      bind_result (read_args pf (dir @ ''/cgroup'')) (\<lambda>cgroup.
        Inr \<lparr>pi_stat = stat, pi_rss_bytes = st_rss_pages stat * pf_page_size pf, pi_status = status, pi_io = io,
             pi_fd_count = fds, pi_cmdline = cmdline, pi_exe = exe, pi_cgroup = cgroup\<rparr>))))))))"

section \<open>A stat line is read back whatever the command is called\<close>

text \<open>What the kernel writes: pid, command in parentheses, state and numbers.\<close>

definition stat_text :: "int \<Rightarrow> pystr \<Rightarrow> pystr \<Rightarrow> int list \<Rightarrow> pystr" where
  "stat_text pid comm state numbers =
     int_str pid @ '' ('' @ comm @ '') '' @ join_with '' '' (state # map int_str numbers)"

lemma int_str_chars: "c \<in> set (int_str i) \<Longrightarrow> is_digit c \<or> c = CHR ''-''"
  using nat_str_digits by (auto simp: int_str_def list_all_iff split: if_splits)

lemma int_str_word: "int_str i \<noteq> [] \<and> list_all (\<lambda>c. \<not> is_space c) (int_str i)"
proof
  show "int_str i \<noteq> []" using nat_str_digits by (simp add: int_str_def)
  have "\<not> is_space (CHR ''-'')" by (simp add: is_space_def)
  then show "list_all (\<lambda>c. \<not> is_space c) (int_str i)"
    by (auto simp: list_all_iff dest!: int_str_chars digits_not_special)
qed

lemma parens_not_in_int: "CHR ''('' \<notin> set (int_str i)" "CHR '')'' \<notin> set (int_str i)"
  by (auto dest!: int_str_chars simp: is_digit_def)

lemma drop_separator: "drop (Suc (length a)) (a @ c # r) = r"
  by simp

lemma set_join_with: "set (join_with sep ws) \<subseteq> set sep \<union> \<Union> (set ` set ws)"
  by (induction sep ws rule: join_with.induct) auto

text \<open>
  C16. A process's stat line is parsed back whatever its command is called: a name with spaces or
  parentheses shifts no field, the final \<open>)\<close> decides.
\<close>

theorem process_stat_roundtrip:
  assumes "state \<noteq> []" and "list_all (\<lambda>c. \<not> is_space c) state" and "CHR '')'' \<notin> set state"
    and "21 \<le> length numbers"
  shows "parse_process_stat (stat_text pid comm state numbers) =
     Inr \<lparr>st_pid = pid, st_name = comm, st_state = state, st_ppid = numbers ! 0,
       st_minor_faults = numbers ! 6, st_major_faults = numbers ! 8, st_utime_ticks = numbers ! 10,
       st_stime_ticks = numbers ! 11, st_threads = numbers ! 16, st_start_time_ticks = numbers ! 18,
       st_virtual_bytes = numbers ! 19, st_rss_pages = numbers ! 20\<rparr>"
proof -
  let ?words = "state # map int_str numbers"
  let ?rest = "'' '' @ join_with '' '' ?words"
  let ?pre = "int_str pid @ '' ''"
  have whole: "stat_text pid comm state numbers = ?pre @ CHR ''('' # comm @ CHR '')'' # ?rest"
    by (simp add: stat_text_def)
  have no: "CHR '')'' \<notin> set ?rest"
    using assms(3) set_join_with [of "'' ''" ?words] parens_not_in_int by fastforce
  have "find_char (CHR ''('') (stat_text pid comm state numbers) = Some (length ?pre)"
    unfolding whole find_char_eq using parens_not_in_int(1) [of pid]
    by (subst takeWhile_append2) auto
  moreover have "rfind_char (CHR '')'') (stat_text pid comm state numbers) = Some (length (?pre @ CHR ''('' # comm))"
    using rfind_char_last [OF no, of "?pre @ CHR ''('' # comm"] by (simp only: whole append_assoc append_Cons)
  moreover have "take (length ?pre) (stat_text pid comm state numbers) = ?pre"
    "drop (Suc (length ?pre)) (take (length (?pre @ CHR ''('' # comm)) (stat_text pid comm state numbers)) = comm"
    by (simp_all add: whole)
  moreover have "drop (Suc (length (?pre @ CHR ''('' # comm))) (stat_text pid comm state numbers) = ?rest"
    using drop_separator [of "?pre @ CHR ''('' # comm" "CHR '')''" ?rest] unfolding whole by (simp only: append_assoc append_Cons)
  moreover have "int_of (strip ?pre) = Inr pid"
  proof -
    have "is_space (CHR '' '')" by (simp add: is_space_def)
    moreover have "strip (int_str pid) = int_str pid" using int_str_word by (intro strip_digits) blast
    ultimately have "strip ?pre = int_str pid"
      using int_str_word [of pid] by (cases "int_str pid") (auto simp: strip_def)
    then show ?thesis by simp
  qed
  moreover have "split_ws ?rest = ?words"
  proof -
    have "list_all (\<lambda>w. w \<noteq> [] \<and> list_all (\<lambda>c. \<not> is_space c) w) ?words"
      using assms(1,2) int_str_word by (auto simp: list_all_iff)
    from split_ws_join [OF this] show ?thesis by (simp add: split_ws_def is_space_def)
  qed
  moreover have "map_result (\<lambda>i. int_of (?words ! i)) [1, 7, 9, 11, 12, 17, 19, 20, 21]
      = Inr (map ((!) numbers) [0, 6, 8, 10, 11, 16, 18, 19, 20])"
  proof -
    have "numbers \<noteq> []" using assms(4) by auto
    then show ?thesis using assms(4) by (simp add: map_result_Inr nth_Cons')
  qed
  ultimately show ?thesis
    unfolding parse_process_stat_def using assms(4) by (simp add: Let_def)
qed

theorem process_stat_roundtrip_witness:
  "\<exists>p. parse_process_stat (stat_text 42 ''tmux: a) (b'' ''S'' (map int [0..<30])) = Inr p
     \<and> st_name p = ''tmux: a) (b'' \<and> st_rss_pages p = 20"
  using process_stat_roundtrip [of "''S''" "map int [0..<30]" 42 "''tmux: a) (b''"]
  by (simp add: is_space_def upt_rec)

section \<open>CPU shares and rates\<close>

text \<open>
  A reported CPU utilization is the busy share of the ticks between the two samples, in percent
  and between 0 and 100; none is reported when the total did not advance or the idle time went back.
\<close>

theorem cpu_utilization_bounds:
  "case cpu_utilization current previous of
     None \<Rightarrow> (case previous of None \<Rightarrow> True
              | Some p \<Rightarrow> total_ticks current \<le> total_ticks p \<or> idle_ticks current < idle_ticks p)
   | Some u \<Rightarrow> u \<le> 100 \<and> (\<exists>p. previous = Some p
        \<and> u = max 0 (100 * (1 - of_int (idle_ticks current - idle_ticks p) / of_int (total_ticks current - total_ticks p))))"
proof (cases "cpu_utilization current previous")
  case None
  then show ?thesis by (auto simp: cpu_utilization_def Let_def split: option.splits if_splits)
next
  case (Some u)
  then obtain p where p: "previous = Some p" by (auto simp: cpu_utilization_def split: option.splits)
  define t i where "t = total_ticks current - total_ticks p" and "i = idle_ticks current - idle_ticks p"
  from Some have t: "0 < t" "0 \<le> i" and u: "u = max 0 (min 100 (100 * of_int (t - i) / of_int t))"
    by (auto simp: cpu_utilization_def Let_def p t_def i_def split: if_split_asm)
  have "100 * of_int (t - i) / of_int t \<le> (100::rat)" using t by (simp add: divide_le_eq)
  then have "u = max 0 (100 * of_int (t - i) / of_int t)" unfolding u by simp
  moreover have "100 * of_int (t - i) / of_int t = 100 * (1 - of_int i / of_int t :: rat)"
    using t by (simp add: field_simps)
  ultimately have "u = max 0 (100 * (1 - of_int i / of_int t))" by simp
  moreover have "u \<le> 100" unfolding u by simp
  ultimately show ?thesis unfolding Some option.case unfolding p t_def i_def by blast
qed

lemma counter_rate_value:
  "dl_value (counter_rate current previous elapsed) = Some r \<Longrightarrow>
     \<exists>p. previous = Some p \<and> p \<le> current \<and> 0 < elapsed \<and> r * elapsed = of_int (current - p) \<and> 0 \<le> r"
  by (auto simp: counter_rate_def split: option.splits if_splits)

end
