(* ===== verification/Proc_Collector.thy ===== *)
theory Proc_Collector
  imports Procfs Normalization
begin

text \<open>
  The host and process sampler, \<open>agent/src/temporalrca_agent/collectors/proc.py\<close>. A call returns
  the arguments of the events it builds, in order, and the sampler's next state; \<open>now\<close> is the
  monotonic clock.
\<close>

section \<open>State and events\<close>

type_synonym process_key = "int \<times> int"

record proc_collector =
  cl_previous_system :: "system_sample option"
  cl_previous_process :: "(process_key, pyfloat \<times> process_info) dict"
  cl_collected_at :: "pyfloat option"

definition new_collector :: proc_collector where
  "new_collector = \<lparr>cl_previous_system = None, cl_previous_process = [], cl_collected_at = None\<rparr>"

definition metric :: "pystr \<Rightarrow> pyfloat \<Rightarrow> pystr \<Rightarrow> (pystr, json) dict \<Rightarrow> entity_ref option \<Rightarrow> event_args" where
  "metric name v unit attrs entity =
     (event_default (if startswith ''process.'' name then PROCESS else SYSTEM) METRIC name)
       \<lparr>ea_value := Some v, ea_unit := Some unit, ea_attributes := attrs, ea_entity := entity\<rparr>"

section \<open>The host\<close>

definition cpu_events :: "system_sample option \<Rightarrow> pystr \<times> counters \<Rightarrow> event_args list" where
  "cpu_events old cpu =
     (case cpu of (name, c) \<Rightarrow>
        let attrs = (if name = ''cpu'' then [] else [(''cpu'', JStr (drop 3 name))]);
            previous = (case old of None \<Rightarrow> None | Some s \<Rightarrow> dict_get (ps_cpus (sy_stat s)) name)
        in (case cpu_utilization c previous of None \<Rightarrow> []
              | Some u \<Rightarrow> [metric ''system.cpu.utilization'' u ''%'' attrs None])
           @ map (\<lambda>(key, v). metric (''system.cpu.'' @ key @ ''.ticks'') (of_int v) ''ticks'' attrs None) c)"

definition memory_events :: "counters \<Rightarrow> event_args list" where
  "memory_events mem = concat (map (\<lambda>(source, name).
       case dict_get mem source of None \<Rightarrow> [] | Some v \<Rightarrow> [metric name (of_int v) ''By'' [] None])
     [(''MemTotal'', ''system.memory.total''), (''MemAvailable'', ''system.memory.available''),
      (''SwapTotal'', ''system.swap.total''), (''SwapFree'', ''system.swap.free'')])"

definition load_events :: "loadavg \<Rightarrow> event_args list" where
  "load_events la = map (\<lambda>(key, v). metric (''system.'' @ key) v ''1'' [] None)
     [(''load1'', la_load1 la), (''load5'', la_load5 la), (''load15'', la_load15 la),
      (''tasks_running'', of_int (la_running la)), (''tasks_total'', of_int (la_total la))]"

definition stat_events :: "counters \<Rightarrow> event_args list" where
  "stat_events c = concat (map (\<lambda>key.
       case dict_get c key of None \<Rightarrow> [] | Some v \<Rightarrow> [metric (''system.'' @ key) (of_int v) ''1'' [] None])
     [''ctxt'', ''processes'', ''procs_running'', ''procs_blocked''])"

text \<open>A counter and, when it is defined, its rate.\<close>

definition rate_events ::
  "pystr \<Rightarrow> pystr \<Rightarrow> bool \<Rightarrow> (pystr, json) dict \<Rightarrow> int \<Rightarrow> int option \<Rightarrow> pyfloat \<Rightarrow> event_args list" where
  "rate_events name unit rated attrs v old elapsed =
     metric name (of_int v) unit attrs None
     # (case dl_value (counter_rate v old elapsed) of
          Some r \<Rightarrow> if rated then [metric (name @ ''.rate'') r (unit @ ''/s'') attrs None] else []
        | None \<Rightarrow> [])"

definition previous_count :: "(system_sample \<Rightarrow> (pystr, counters) dict) \<Rightarrow> system_sample option \<Rightarrow> pystr \<Rightarrow> pystr \<Rightarrow> int option" where
  "previous_count part old item key =
     (case old of None \<Rightarrow> None
      | Some s \<Rightarrow> (case dict_get (part s) item of None \<Rightarrow> None | Some c \<Rightarrow> dict_get c key))"

definition vm_events :: "system_sample option \<Rightarrow> pyfloat \<Rightarrow> counters \<Rightarrow> event_args list" where
  "vm_events old elapsed c = concat (map (\<lambda>key.
       case dict_get c key of None \<Rightarrow> []
       | Some v \<Rightarrow> rate_events (''system.vm.'' @ key) ''1'' True [] v
           (case old of None \<Rightarrow> None | Some s \<Rightarrow> dict_get (sy_vmstat s) key) elapsed)
     [''pswpin'', ''pswpout'', ''pgfault'', ''pgmajfault''])"

definition disk_events :: "system_sample option \<Rightarrow> pyfloat \<Rightarrow> pystr \<times> counters \<Rightarrow> event_args list" where
  "disk_events old elapsed disk =
     (case disk of (device, c) \<Rightarrow> concat (map (\<lambda>(key, v).
        rate_events (''system.disk.'' @ key) ''1'' (key \<noteq> ''io_in_progress'') [(''device'', JStr device)] v
          (previous_count sy_disks old device key) elapsed) c))"

definition net_events :: "system_sample option \<Rightarrow> pyfloat \<Rightarrow> pystr \<times> counters \<Rightarrow> event_args list" where
  "net_events old elapsed net =
     (case net of (interface, c) \<Rightarrow> concat (map (\<lambda>(key, v).
        rate_events (''system.network.'' @ key) (if contains ''bytes'' key then ''By'' else ''1'') True
          [(''interface'', JStr interface)] v (previous_count sy_net old interface key) elapsed) c))"

definition system_events :: "system_sample option \<Rightarrow> pyfloat \<Rightarrow> system_sample \<Rightarrow> event_args list" where
  "system_events old elapsed sample =
     concat (map (cpu_events old) (ps_cpus (sy_stat sample))) @ memory_events (sy_meminfo sample)
     @ load_events (sy_loadavg sample) @ stat_events (ps_counters (sy_stat sample))
     @ vm_events old elapsed (sy_vmstat sample)
     @ concat (map (disk_events old elapsed) (sy_disks sample))
     @ concat (map (net_events old elapsed) (sy_net sample))"

definition collect_system :: "pyfloat \<Rightarrow> procfs \<Rightarrow> proc_collector \<Rightarrow> exn + event_args list \<times> proc_collector" where
  "collect_system now pf cl =
     bind_result (system pf) (\<lambda>sample.
       let elapsed = (case cl_collected_at cl of None \<Rightarrow> 0 | Some t \<Rightarrow> now - t)
       in Inr (system_events (cl_previous_system cl) elapsed sample,
             cl\<lparr>cl_previous_system := Some sample, cl_collected_at := Some now\<rparr>))"

section \<open>One process\<close>

text \<open>A status value is a number, or text that \<open>float\<close> may refuse.\<close>

definition status_number :: "(pystr, json) dict \<Rightarrow> pystr \<Rightarrow> exn + pyfloat option" where
  "status_number st key =
     (case dict_get st key of
        None \<Rightarrow> Inr None
      | Some (JInt i) \<Rightarrow> Inr (Some (of_int i))
      | Some (JStr s) \<Rightarrow> bind_result (float_of s) (\<lambda>q. Inr (Some q))
      | Some _ \<Rightarrow> Inl TypeError)"

definition ticks :: "process_info \<Rightarrow> int" where
  "ticks p = st_utime_ticks (pi_stat p) + st_stime_ticks (pi_stat p)"

definition incarnation_of :: "process_info \<Rightarrow> process_key" where
  "incarnation_of p = (st_pid (pi_stat p), st_start_time_ticks (pi_stat p))"

definition process_values :: "process_info \<Rightarrow> pyfloat option \<Rightarrow> pyfloat option \<Rightarrow> (pystr \<times> pyfloat option \<times> pystr) list" where
  "process_values p voluntary involuntary =
     [(''process.memory.rss'', Some (of_int (pi_rss_bytes p)), ''By''),
      (''process.memory.virtual'', Some (of_int (st_virtual_bytes (pi_stat p))), ''By''),
      (''process.faults.minor'', Some (of_int (st_minor_faults (pi_stat p))), ''1''),
      (''process.faults.major'', Some (of_int (st_major_faults (pi_stat p))), ''1''),
      (''process.threads'', Some (of_int (st_threads (pi_stat p))), ''1''),
      (''process.file_descriptors'', Some (of_nat (pi_fd_count p)), ''1''),
      (''process.io.read_bytes'', map_option of_int (dict_get (pi_io p) ''read_bytes''), ''By''),
      (''process.io.write_bytes'', map_option of_int (dict_get (pi_io p) ''write_bytes''), ''By''),
      (''process.context_switches.voluntary'', voluntary, ''1''),
      (''process.context_switches.involuntary'', involuntary, ''1'')]"

definition process_events ::
  "process_info \<Rightarrow> int \<Rightarrow> entity_ref \<Rightarrow> pyfloat option \<Rightarrow> pyfloat option \<Rightarrow> pyfloat option \<Rightarrow> event_args list" where
  "process_events p clock_ticks ref rate voluntary involuntary =
     concat (map (\<lambda>(name, v, unit). case v of None \<Rightarrow> [] | Some x \<Rightarrow> [metric name x unit [] (Some ref)])
       (process_values p voluntary involuntary))
     @ (case rate of None \<Rightarrow> []
        | Some r \<Rightarrow> [metric ''process.cpu.utilization'' (r / of_int clock_ticks * 100) ''%'' [] (Some ref)])
     @ [metric ''process.info'' 1 ''1'' [(''pid'', JInt (st_pid (pi_stat p))), (''ppid'', JInt (st_ppid (pi_stat p))),
          (''name'', JStr (st_name (pi_stat p))), (''state'', JStr (st_state (pi_stat p))),
          (''start_time_ticks'', JInt (st_start_time_ticks (pi_stat p)))] (Some ref)]"

definition collect_process ::
  "pyfloat \<Rightarrow> int \<Rightarrow> process_info \<Rightarrow> uuid \<Rightarrow> uuid option \<Rightarrow> uuid option \<Rightarrow> proc_collector
    \<Rightarrow> exn + event_args list \<times> proc_collector" where
  "collect_process now clock_ticks p process_id service_id container_id cl =
     (let identity = incarnation_of p;
          previous_entry = dict_get (cl_previous_process cl) identity;
          elapsed = (case previous_entry of None \<Rightarrow> 0 | Some (t, _) \<Rightarrow> now - t);
          ref = no_entity\<lparr>er_process_id := Some process_id, er_service_id := service_id, er_container_id := container_id\<rparr>
      in bind_result (status_number (pi_status p) ''voluntary_ctxt_switches'') (\<lambda>voluntary.
         bind_result (status_number (pi_status p) ''nonvoluntary_ctxt_switches'') (\<lambda>involuntary.
           let rate = counter_rate (ticks p) (map_option (\<lambda>e. ticks (snd e)) previous_entry) elapsed;
               stored = dict_set identity (now, p) (cl_previous_process cl)
           in Inr (process_events p clock_ticks ref (dl_value rate) voluntary involuntary,
                cl\<lparr>cl_previous_process :=
                  filter (\<lambda>e. \<not> (fst (fst e) = fst identity \<and> fst e \<noteq> identity)) stored\<rparr>))))"

section \<open>Rates are never negative\<close>

lemma metric_simps [simp]:
  "ea_value (metric name v unit attrs entity) = Some v" "ea_unit (metric name v unit attrs entity) = Some unit"
  "ea_name (metric name v unit attrs entity) = name"
  by (simp_all add: metric_def event_default_def)

definition rate_ok :: "event_args \<Rightarrow> bool" where
  "rate_ok e \<longleftrightarrow> (ea_unit e \<in> {Some ''1/s'', Some ''By/s''} \<longrightarrow> (\<exists>v. ea_value e = Some v \<and> 0 \<le> v))
     \<and> (ea_unit e = Some ''%'' \<longrightarrow> (\<exists>v. ea_value e = Some v \<and> 0 \<le> v \<and> v \<le> 100))"

lemma rate_ok_metric [simp]:
  "rate_ok (metric name v unit attrs entity) \<longleftrightarrow>
     (unit \<in> {''1/s'', ''By/s''} \<longrightarrow> 0 \<le> v) \<and> (unit = ''%'' \<longrightarrow> 0 \<le> v \<and> v \<le> 100)"
  by (simp add: rate_ok_def)

lemma list_all_concat_map: "(\<And>x. x \<in> set xs \<Longrightarrow> list_all P (f x)) \<Longrightarrow> list_all P (concat (map f xs))"
  by (auto simp: list_all_iff)

lemma rate_events_ok: "unit \<in> {''1'', ''By''} \<Longrightarrow> list_all rate_ok (rate_events name unit rated attrs v old elapsed)"
proof (cases "dl_value (counter_rate v old elapsed)")
  case (Some r)
  then have "0 \<le> r" using counter_rate_value by blast
  then show "unit \<in> {''1'', ''By''} \<Longrightarrow> ?thesis" by (auto simp: rate_events_def Some)
qed (auto simp: rate_events_def)

lemma cpu_utilization_range: "cpu_utilization c old = Some u \<Longrightarrow> 0 \<le> u \<and> u \<le> 100"
  by (auto simp: cpu_utilization_def Let_def split: option.splits if_splits)

lemma cpu_events_ok: "list_all rate_ok (cpu_events old cpu)"
proof (cases cpu)
  case (Pair name c)
  let ?u = "cpu_utilization c (case old of None \<Rightarrow> None | Some s \<Rightarrow> dict_get (ps_cpus (sy_stat s)) name)"
  have "list_all rate_ok (case ?u of None \<Rightarrow> [] | Some u \<Rightarrow> [metric ''system.cpu.utilization'' u ''%'' attrs None])" for attrs
    by (cases ?u) (simp_all add: cpu_utilization_range)
  moreover have "list_all rate_ok (map (\<lambda>(key, v). metric (''system.cpu.'' @ key @ ''.ticks'') (of_int v) ''ticks'' attrs None) c)" for attrs
    by (auto simp: list_all_iff)
  ultimately show ?thesis unfolding cpu_events_def Pair prod.case Let_def list_all_append by blast
qed

lemma vm_events_ok: "list_all rate_ok (vm_events old elapsed c)"
  unfolding vm_events_def by (rule list_all_concat_map) (simp add: rate_events_ok split: option.split)

lemma disk_events_ok: "list_all rate_ok (disk_events old elapsed disk)"
  unfolding disk_events_def split_beta by (rule list_all_concat_map) (simp add: rate_events_ok)

lemma net_events_ok: "list_all rate_ok (net_events old elapsed net)"
  unfolding net_events_def split_beta by (rule list_all_concat_map) (simp add: rate_events_ok)

lemma plain_events_ok:
  "list_all rate_ok (memory_events mem)" "list_all rate_ok (load_events la)" "list_all rate_ok (stat_events c)"
  by (auto simp: memory_events_def load_events_def stat_events_def split: option.split)


text \<open>A file system that shows one CPU, for the witnesses.\<close>

definition demo_procfs :: "pystr \<Rightarrow> procfs" where
  "demo_procfs stat = \<lparr>pf_read = (\<lambda>path. if path = ''stat'' then Inr stat else if path = ''loadavg'' then Inr ''0 0 0 1/2 9'' else Inr []),
     pf_readlink = (\<lambda>_. Inl FileNotFoundError), pf_count = (\<lambda>_. Inr 3), pf_entries = [], pf_clock_ticks = 100, pf_page_size = 4096\<rparr>"


section \<open>One incarnation per pid\<close>

definition one_incarnation :: "proc_collector \<Rightarrow> bool" where
  "one_incarnation cl \<longleftrightarrow> distinct (map (fst \<circ> fst) (cl_previous_process cl))"

lemma cpu_share_event:
  assumes "e \<in> set (process_events p hz ref rate vol inc)" and "ea_name e = ''process.cpu.utilization''"
  shows "\<exists>r. rate = Some r \<and> ea_value e = Some (r / of_int hz * 100)"
proof -
  have "e \<notin> set (concat (map (\<lambda>(name, v, unit). case v of None \<Rightarrow> [] | Some x \<Rightarrow> [metric name x unit [] (Some ref)])
       (process_values p vol inc)))"
    using assms(2) by (auto simp: process_values_def split: option.splits)
  with assms show ?thesis
    unfolding process_events_def by (cases rate) auto
qed

lemma keep_one:
  fixes d :: "('a \<times> 'b, 'v) dict"
  assumes "distinct (map (fst \<circ> fst) d)"
  shows "distinct (map (fst \<circ> fst) (filter (\<lambda>e. \<not> (fst (fst e) = fst k \<and> fst e \<noteq> k)) (dict_set k v d)))"
proof -
  let ?keep = "\<lambda>key. \<not> (fst key = fst k \<and> key \<noteq> k)"
  have maps: "map (fst \<circ> fst) (filter (\<lambda>e. ?keep (fst e)) d') = map fst (filter ?keep (map fst d'))" for d' :: "('a \<times> 'b, 'v) dict"
    by (induction d') simp_all
  have old: "distinct (map fst (map fst d))" using assms by simp
  show ?thesis
  proof (cases "k \<in> set (map fst d)")
    case True
    then have "map fst (dict_set k v d) = map fst d" by (simp add: AList.update_keys)
    then show ?thesis unfolding maps by (simp only:) (rule distinct_map_filter [OF old])
  next
    case False
    then have "map fst (dict_set k v d) = map fst d @ [k]" by (simp add: AList.update_keys)
    then have e: "filter ?keep (map fst (dict_set k v d)) = filter ?keep (map fst d) @ [k]" by simp
    have "fst k \<notin> set (map fst (filter ?keep (map fst d)))"
    proof
      assume "fst k \<in> set (map fst (filter ?keep (map fst d)))"
      then obtain key where "key \<in> set (map fst d)" "?keep key" "fst key = fst k" by auto
      with False show False by auto
    qed
    then show ?thesis unfolding maps e map_append distinct_append using distinct_map_filter [OF old] by simp
  qed
qed

text \<open>
  C18. The sampler remembers at most one incarnation of a pid, the one sampled last, and reports a
  CPU share only from two samples of the same incarnation: a reused pid never inherits ticks.
\<close>

theorem pid_reuse_never_merges:
  assumes "one_incarnation cl" and "collect_process now hz p process_id service_id container_id cl = Inr (events, cl')"
  shows "one_incarnation cl' \<and> dict_get (cl_previous_process cl') (incarnation_of p) = Some (now, p)
     \<and> (\<forall>e \<in> set events. ea_name e = ''process.cpu.utilization'' \<longrightarrow>
          (\<exists>t q. dict_get (cl_previous_process cl) (incarnation_of p) = Some (t, q) \<and> t < now \<and> ticks q \<le> ticks p
             \<and> ea_value e = Some (of_int (ticks p - ticks q) / (now - t) / of_int hz * 100)))"
proof (intro conjI ballI impI)
  let ?id = "incarnation_of p" and ?old = "cl_previous_process cl"
  let ?keep = "\<lambda>e :: process_key \<times> pyfloat \<times> process_info. \<not> (fst (fst e) = fst ?id \<and> fst e \<noteq> ?id)"
  have new: "cl_previous_process cl' = filter ?keep (dict_set ?id (now, p) ?old)"
    using assms(2) unfolding collect_process_def Let_def bind_result_Inr_iff by auto
  show "dict_get (cl_previous_process cl') ?id = Some (now, p)"
  proof -
    have "map_of (filter ?keep d) ?id = map_of d ?id" for d
      by (induction d) auto
    then show ?thesis by (simp add: new AList.update_conv')
  qed
  have "distinct (map (fst \<circ> fst) (filter ?keep (dict_set ?id (now, p) ?old)))"
    by (rule keep_one) (use assms(1) in \<open>simp add: one_incarnation_def\<close>)
  then show "one_incarnation cl'" by (simp add: one_incarnation_def new)
  fix e assume e: "e \<in> set events" "ea_name e = ''process.cpu.utilization''"
  obtain ref vol inc where events: "events = process_events p hz ref (dl_value (counter_rate (ticks p)
      (map_option (\<lambda>e. ticks (snd e)) (dict_get ?old ?id)) (case dict_get ?old ?id of None \<Rightarrow> 0 | Some (t, _) \<Rightarrow> now - t))) vol inc"
    using assms(2) unfolding collect_process_def Let_def bind_result_Inr_iff by auto
  have "\<exists>r. dl_value (counter_rate (ticks p) (map_option (\<lambda>e. ticks (snd e)) (dict_get ?old ?id))
      (case dict_get ?old ?id of None \<Rightarrow> 0 | Some (t, _) \<Rightarrow> now - t)) = Some r \<and> ea_value e = Some (r / of_int hz * 100)"
    by (rule cpu_share_event) (use e events in simp_all)
  then obtain r where r: "dl_value (counter_rate (ticks p) (map_option (\<lambda>e. ticks (snd e)) (dict_get ?old ?id))
      (case dict_get ?old ?id of None \<Rightarrow> 0 | Some (t, _) \<Rightarrow> now - t)) = Some r" and v: "ea_value e = Some (r / of_int hz * 100)"
    by blast
  from r obtain t q where tq: "dict_get ?old ?id = Some (t, q)"
    by (cases "dict_get ?old ?id") (auto simp: counter_rate_def)
  from counter_rate_value [OF r]
  have "t < now" "ticks q \<le> ticks p" and eq: "r * (now - t) = of_int (ticks p - ticks q)" by (simp_all add: tq)
  then have "r = of_int (ticks p - ticks q) / (now - t)" by (simp add: eq_divide_eq)
  with tq \<open>t < now\<close> \<open>ticks q \<le> ticks p\<close> v
  show "\<exists>t q. dict_get ?old ?id = Some (t, q) \<and> t < now \<and> ticks q \<le> ticks p
             \<and> ea_value e = Some (of_int (ticks p - ticks q) / (now - t) / of_int hz * 100)"
    by blast
qed

definition demo_process :: "int \<Rightarrow> int \<Rightarrow> int \<Rightarrow> process_info" where
  "demo_process pid start_ticks cpu = \<lparr>pi_stat = \<lparr>st_pid = pid, st_name = ''a'', st_state = ''S'', st_ppid = 1,
      st_minor_faults = 0, st_major_faults = 0, st_utime_ticks = cpu, st_stime_ticks = 0, st_threads = 1,
      st_start_time_ticks = start_ticks, st_virtual_bytes = 0, st_rss_pages = 0\<rparr>, pi_rss_bytes = 0, pi_status = [], pi_io = [],
      pi_fd_count = 0, pi_cmdline = [], pi_exe = [], pi_cgroup = []\<rparr>"

theorem pid_reuse_never_merges_witness:
  "\<exists>events cl. collect_process 7 100 (demo_process 5 90 3) ''p'' None None
       (new_collector\<lparr>cl_previous_process := [((5, 10), (2, demo_process 5 10 400))]\<rparr>) = Inr (events, cl)
     \<and> map fst (cl_previous_process cl) = [(5, 90)]
     \<and> (\<forall>e \<in> set events. ea_name e \<noteq> ''process.cpu.utilization'')"
proof -
  let ?cl = "new_collector\<lparr>cl_previous_process := [((5, 10), (2, demo_process 5 10 400))]\<rparr>"
  have one: "one_incarnation ?cl" by (simp add: one_incarnation_def)
  obtain events cl where c: "collect_process 7 100 (demo_process 5 90 3) ''p'' None None ?cl = Inr (events, cl)"
    and keys: "map fst (cl_previous_process cl) = [(5, 90)]"
    by (simp add: collect_process_def Let_def status_number_def demo_process_def incarnation_of_def)
  from pid_reuse_never_merges [OF one c] have "\<forall>e \<in> set events. ea_name e \<noteq> ''process.cpu.utilization''"
    by (auto simp: incarnation_of_def demo_process_def)
  then show ?thesis by (intro exI conjI) (rule c, rule keys)
qed

end
