(* ===== verification/Inventory_Contract.thy ===== *)
theory Inventory_Contract
  imports Contracts
begin

text \<open>
  The inventory the agent reports and the server stores, the second half of
  \<open>shared/temporalrca_contracts/models.py\<close>: one record per Pydantic model.
\<close>

record inventory_item =
  it_external_id :: pystr
  it_name :: pystr
  it_attributes :: "(pystr, json) dict"

type_synonym inventory_service = inventory_item

record inventory_container = inventory_item +
  ic_runtime :: "pystr option"
  ic_image :: "pystr option"
  ic_service_external_id :: "pystr option"

record inventory_process = inventory_item +
  ip_boot_id :: uuid
  ip_pid :: int
  ip_start_time_ticks :: int
  ip_command :: "pystr option"
  ip_service_external_id :: "pystr option"
  ip_container_external_id :: "pystr option"

record inventory_dependency = inventory_item +
  id_kind :: pystr
  id_service_external_ids :: "pystr list"

record inventory =
  in_observed_at :: datetime
  in_lease_seconds :: int
  in_services :: "inventory_service list"
  in_containers :: "inventory_container list"
  in_processes :: "inventory_process list"
  in_dependencies :: "inventory_dependency list"

type_synonym resource_map = "(pystr, uuid) dict"

record resource_ids =
  ri_services :: resource_map
  ri_processes :: resource_map
  ri_containers :: resource_map
  ri_dependencies :: resource_map

record inventory_response =
  ir_watermark :: int
  ir_lease_expires_at :: datetime
  ir_ids :: resource_ids

end
