(* ===== verification/Discovery.thy ===== *)
theory Discovery
  imports Procfs Inventory_Contract
begin

text \<open>
  Process discovery, \<open>agent/src/temporalrca_agent/discovery.py\<close>: which service a process belongs
  to, the changes between two scans, and the container id in a control group path. Regular
  expressions of the configuration are matched by the parameter \<open>re_search\<close>, pid files are read by
  \<open>read_text\<close>.
\<close>

section \<open>Matching processes to services\<close>

record service_rule =
  ru_service :: pystr
  ru_systemd_unit :: "pystr option"
  ru_executable :: "pystr option"
  ru_command_regex :: "pystr option"
  ru_pid_file :: "pystr option"
  ru_container_cgroup :: "pystr option"

text \<open>What \<open>bool(option and test(option))\<close> is for an optional text.\<close>

definition given :: "pystr option \<Rightarrow> (pystr \<Rightarrow> bool) \<Rightarrow> bool" where
  "given v test = (case v of None \<Rightarrow> False | Some s \<Rightarrow> s \<noteq> [] \<and> test s)"

text \<open>An \<open>OSError\<close>, \<open>ValueError\<close> or \<open>KeyError\<close> while reading the pid file is no match.\<close>

definition pidfile_matches :: "(pystr \<Rightarrow> exn + pystr) \<Rightarrow> service_rule \<Rightarrow> process_info \<Rightarrow> exn + bool" where
  "pidfile_matches read_text rule p =
     (case ru_pid_file rule of
        None \<Rightarrow> Inr False
      | Some path \<Rightarrow>
          if path = [] then Inr False
          else (case bind_result (read_text path) (\<lambda>t. int_of (strip t)) of
              Inr i \<Rightarrow> Inr (i = st_pid (pi_stat p))
            | Inl e \<Rightarrow> if os_error e \<or> e = ValueError \<or> e = KeyError then Inr False else Inl e))"

definition rule_matches ::
  "(pystr \<Rightarrow> pystr \<Rightarrow> bool) \<Rightarrow> (pystr \<Rightarrow> exn + pystr) \<Rightarrow> service_rule \<Rightarrow> process_info \<Rightarrow> exn + bool" where
  "rule_matches re_search read_text rule p =
     bind_result (pidfile_matches read_text rule p) (\<lambda>by_pid.
       Inr (given (ru_systemd_unit rule) (\<lambda>u. contains u (pi_cgroup p))
          \<or> given (ru_executable rule) (\<lambda>x. pi_exe p = x)
          \<or> given (ru_command_regex rule) (\<lambda>r. re_search r (pi_cmdline p))
          \<or> by_pid
          \<or> given (ru_container_cgroup rule) (\<lambda>c. contains c (pi_cgroup p))))"

fun assign_service ::
  "(service_rule \<Rightarrow> process_info \<Rightarrow> exn + bool) \<Rightarrow> service_rule list \<Rightarrow> process_info \<Rightarrow> exn + pystr option" where
  "assign_service matches [] p = Inr None"
| "assign_service matches (rule # rules) p =
     bind_result (matches rule p) (\<lambda>m. if m then Inr (Some (ru_service rule)) else assign_service matches rules p)"

section \<open>Identities and changes\<close>

record process_identity =
  pd_boot_id :: pystr
  pd_pid :: int
  pd_start_time_ticks :: int

definition identity_key :: "process_identity \<Rightarrow> pystr" where
  "identity_key i = pd_boot_id i @ '':'' @ int_str (pd_pid i) @ '':'' @ int_str (pd_start_time_ticks i)"

definition identity_of :: "pystr \<Rightarrow> process_info \<Rightarrow> process_identity" where
  "identity_of boot p = \<lparr>pd_boot_id = boot, pd_pid = st_pid (pi_stat p),
     pd_start_time_ticks = st_start_time_ticks (pi_stat p)\<rparr>"

record association_change =
  ac_identity :: process_identity
  ac_previous :: "pystr option"
  ac_service :: "pystr option"
  ac_kind :: pystr

type_synonym associations = "(process_identity, pystr option) dict"

definition change_of :: "associations \<Rightarrow> process_identity \<Rightarrow> pystr option \<Rightarrow> association_change list" where
  "change_of old i service =
     (case dict_get old i of
        None \<Rightarrow> [\<lparr>ac_identity = i, ac_previous = None, ac_service = service, ac_kind = ''process.started''\<rparr>]
      | Some previous \<Rightarrow> if previous \<noteq> service
          then [\<lparr>ac_identity = i, ac_previous = previous, ac_service = service, ac_kind = ''process.association_changed''\<rparr>]
          else [])"

fun scan ::
  "(process_info \<Rightarrow> exn + pystr option) \<Rightarrow> pystr \<Rightarrow> associations \<Rightarrow> process_info list
    \<Rightarrow> associations \<times> association_change list \<Rightarrow> exn + associations \<times> association_change list" where
  "scan assign boot old [] acc = Inr acc"
| "scan assign boot old (p # ps) (current, changes) =
     bind_result (assign p) (\<lambda>service.
       let i = identity_of boot p
       in scan assign boot old ps (dict_set i service current, changes @ change_of old i service))"

definition reconcile ::
  "(process_info \<Rightarrow> exn + pystr option) \<Rightarrow> pystr \<Rightarrow> process_info list \<Rightarrow> associations
    \<Rightarrow> exn + associations \<times> association_change list" where
  "reconcile assign boot processes old =
     bind_result (scan assign boot old processes ([], [])) (\<lambda>(current, changes).
       Inr (current, changes @ map (\<lambda>(i, service). \<lparr>ac_identity = i, ac_previous = service, ac_service = None,
             ac_kind = ''process.stopped''\<rparr>) (filter (\<lambda>e. fst e \<notin> fst ` set current) old)))"

section \<open>The local inventory\<close>

definition instance_json :: "process_identity \<Rightarrow> json" where
  "instance_json i = JObj [(''instance_key'', JStr (identity_key i)), (''pid'', JInt (pd_pid i)),
     (''start_time_ticks'', JInt (pd_start_time_ticks i)), (''boot_id'', JStr (pd_boot_id i))]"

definition add_instance :: "process_identity \<times> pystr option \<Rightarrow> (pystr, json list) dict \<Rightarrow> (pystr, json list) dict" where
  "add_instance e d = (case snd e of
     None \<Rightarrow> d
   | Some name \<Rightarrow> dict_set name ((case dict_get d name of None \<Rightarrow> [] | Some ps \<Rightarrow> ps) @ [instance_json (fst e)]) d)"

definition local_inventory :: "associations \<Rightarrow> json" where
  "local_inventory associations = JObj
     [(''services'', JArr (map (\<lambda>(name, ps). JObj [(''name'', JStr name), (''processes'', JArr ps)])
        (sort_key fst (fold add_instance associations [])))),
      (''unassigned_processes'', JArr (map (\<lambda>e. instance_json (fst e)) (filter (\<lambda>e. snd e = None) associations)))]"

section \<open>Container ids\<close>

definition is_hex :: "char \<Rightarrow> bool" where
  "is_hex c = (let n = of_char c :: nat in 48 \<le> n \<and> n \<le> 57 \<or> 97 \<le> n \<and> n \<le> 102)"

text \<open>The three patterns, each a choice of prefixes before 12 to 64 hexadecimal digits.\<close>

definition container_patterns :: "pystr list list" where
  "container_patterns = [[''docker-'', ''/docker/''], [''libpod-'', ''/libpod/''], [''cri-containerd-'', ''crio-'']]"

definition match_here :: "pystr \<Rightarrow> pystr \<Rightarrow> pystr option" where
  "match_here before s =
     (if startswith before s
      then (let run = takeWhile is_hex (drop (length before) s) in
            if 12 \<le> length run then Some (take 64 run) else None)
      else None)"

fun first_some :: "('a \<Rightarrow> 'b option) \<Rightarrow> 'a list \<Rightarrow> 'b option" where
  "first_some f [] = None"
| "first_some f (x # xs) = (case f x of Some y \<Rightarrow> Some y | None \<Rightarrow> first_some f xs)"

fun pattern_search :: "pystr list \<Rightarrow> pystr \<Rightarrow> pystr option" where
  "pattern_search alternatives [] = first_some (\<lambda>b. match_here b []) alternatives"
| "pattern_search alternatives (c # cs) =
     (case first_some (\<lambda>b. match_here b (c # cs)) alternatives of
        Some found \<Rightarrow> Some found
      | None \<Rightarrow> pattern_search alternatives cs)"

definition container_id :: "pystr \<Rightarrow> pystr option" where
  "container_id cgroup = first_some (\<lambda>alternatives. pattern_search alternatives cgroup) container_patterns"

section \<open>The change list says everything\<close>

text \<open>Applying a change to what a reader of the events knows.\<close>

definition apply_change :: "association_change \<Rightarrow> (process_identity \<Rightarrow> pystr option option) \<Rightarrow> process_identity \<Rightarrow> pystr option option" where
  "apply_change c m = m(ac_identity c := (if ac_kind c = ''process.stopped'' then None else Some (ac_service c)))"

definition apply_changes :: "association_change list \<Rightarrow> (process_identity \<Rightarrow> pystr option option) \<Rightarrow> process_identity \<Rightarrow> pystr option option" where
  "apply_changes cs m = fold apply_change cs m"

lemma apply_changes_append: "apply_changes (xs @ ys) m = apply_changes ys (apply_changes xs m)"
  by (simp add: apply_changes_def)

lemma apply_change_of:
  "m i = dict_get old i \<Longrightarrow> apply_changes (change_of old i service) m = m(i := Some service)"
  by (auto simp: change_of_def apply_changes_def apply_change_def split: option.split)

lemma scan_apply:
  assumes "scan assign boot old ps (current, changes) = Inr (current', changes')"
    and "distinct (map (identity_of boot) ps)" and "\<forall>p \<in> set ps. identity_of boot p \<notin> fst ` set current"
    and "apply_changes changes (dict_get old) = dict_get old ++ dict_get current"
  shows "apply_changes changes' (dict_get old) = dict_get old ++ dict_get current'"
  using assms
proof (induction ps arbitrary: current changes)
  case (Cons p ps)
  let ?i = "identity_of boot p"
  obtain service where s: "assign p = Inr service"
    and rest: "scan assign boot old ps (dict_set ?i service current, changes @ change_of old ?i service) = Inr (current', changes')"
    using Cons.prems(1) by (auto simp: bind_result_Inr_iff Let_def)
  show ?case
  proof (rule Cons.IH [OF rest])
    show "distinct (map (identity_of boot) ps)" using Cons.prems(2) by simp
    show "\<forall>q \<in> set ps. identity_of boot q \<notin> fst ` set (dict_set ?i service current)"
      using Cons.prems(2,3) by (auto simp: AList.dom_update image_iff)
    have "?i \<notin> fst ` set current" using Cons.prems(3) by simp
    then have "(dict_get old ++ dict_get current) ?i = dict_get old ?i"
      by (simp add: map_add_def map_of_eq_None_iff [THEN iffD2])
    then show "apply_changes (changes @ change_of old ?i service) (dict_get old) = dict_get old ++ dict_get (dict_set ?i service current)"
      by (simp add: apply_changes_append Cons.prems(4) apply_change_of AList.update_conv' fun_eq_iff map_add_def)
  qed
qed simp

lemma apply_stopped:
  "apply_changes (map (\<lambda>(i, service). \<lparr>ac_identity = i, ac_previous = service, ac_service = None, ac_kind = ''process.stopped''\<rparr>) es) m
     = (\<lambda>i. if i \<in> fst ` set es then None else m i)"
  by (induction es arbitrary: m) (auto simp: apply_changes_def apply_change_def)

text \<open>
  C19. The changes of a scan are complete: applied in order to the associations of the previous scan
  they give exactly the new associations, so a consumer of the lifecycle events can rebuild them.
\<close>

theorem reconcile_changes_complete:
  assumes "reconcile assign boot processes old = Inr (current, changes)"
    and "distinct (map (identity_of boot) processes)"
  shows "apply_changes changes (dict_get old) = dict_get current"
proof -
  obtain seen where s: "scan assign boot old processes ([], []) = Inr (current, seen)"
    and c: "changes = seen @ map (\<lambda>(i, service). \<lparr>ac_identity = i, ac_previous = service, ac_service = None,
             ac_kind = ''process.stopped''\<rparr>) (filter (\<lambda>e. fst e \<notin> fst ` set current) old)"
    using assms(1) by (auto simp: reconcile_def bind_result_Inr_iff)
  have "apply_changes seen (dict_get old) = dict_get old ++ dict_get current"
    by (rule scan_apply [OF s assms(2)]) (simp_all add: apply_changes_def)
  then have "apply_changes changes (dict_get old)
      = (\<lambda>i. if i \<in> fst ` set (filter (\<lambda>e. fst e \<notin> fst ` set current) old) then None else (dict_get old ++ dict_get current) i)"
    unfolding c apply_changes_append apply_stopped by (simp only:)
  also have "\<dots> = dict_get current"
  proof
    fix i
    have stopped: "i \<in> fst ` set (filter (\<lambda>e. fst e \<notin> fst ` set current) old) \<longleftrightarrow> i \<in> fst ` set old \<and> i \<notin> fst ` set current"
      by force
    show "(if i \<in> fst ` set (filter (\<lambda>e. fst e \<notin> fst ` set current) old) then None else (dict_get old ++ dict_get current) i)
        = dict_get current i"
      unfolding stopped using map_of_eq_None_iff [of old i] map_of_eq_None_iff [of current i]
      by (auto simp: map_add_def split: option.split)
  qed
  finally show ?thesis .
qed

definition demo_scan :: "int \<Rightarrow> process_info" where
  "demo_scan pid = \<lparr>pi_stat = \<lparr>st_pid = pid, st_name = ''a'', st_state = ''S'', st_ppid = 1, st_minor_faults = 0,
      st_major_faults = 0, st_utime_ticks = 0, st_stime_ticks = 0, st_threads = 1, st_start_time_ticks = 7,
      st_virtual_bytes = 0, st_rss_pages = 0\<rparr>, pi_rss_bytes = 0, pi_status = [], pi_io = [], pi_fd_count = 0,
      pi_cmdline = [], pi_exe = [], pi_cgroup = []\<rparr>"

theorem reconcile_changes_complete_witness:
  "\<exists>current changes. reconcile (\<lambda>p. Inr (if st_pid (pi_stat p) = 2 then Some ''web'' else None)) ''b''
       [demo_scan 1, demo_scan 2] [(identity_of ''b'' (demo_scan 2), None), (identity_of ''b'' (demo_scan 3), None)]
       = Inr (current, changes)
     \<and> map ac_kind changes = [''process.started'', ''process.association_changed'', ''process.stopped'']
     \<and> apply_changes changes (dict_get [(identity_of ''b'' (demo_scan 2), None), (identity_of ''b'' (demo_scan 3), None)])
       = dict_get current"
proof -
  let ?assign = "\<lambda>p. Inr (if st_pid (pi_stat p) = 2 then Some ''web'' else None) :: exn + pystr option"
  let ?old = "[(identity_of ''b'' (demo_scan 2), None), (identity_of ''b'' (demo_scan 3), None)] :: associations"
  have ids: "identity_of ''b'' (demo_scan i) = \<lparr>pd_boot_id = ''b'', pd_pid = i, pd_start_time_ticks = 7\<rparr>" for i
    by (simp add: identity_of_def demo_scan_def)
  have st: "st_pid (pi_stat (demo_scan i)) = i" for i by (simp add: demo_scan_def)
  obtain current changes where r: "reconcile ?assign ''b'' [demo_scan 1, demo_scan 2] ?old = Inr (current, changes)"
    and k: "map ac_kind changes = [''process.started'', ''process.association_changed'', ''process.stopped'']"
    by (simp add: reconcile_def ids st change_of_def Let_def)
  have "apply_changes changes (dict_get ?old) = dict_get current"
    by (rule reconcile_changes_complete [OF r]) (simp add: ids)
  then show ?thesis by (intro exI conjI) (rule r, rule k)
qed

section \<open>Identity keys\<close>

lemma colon_not_in_int: "CHR '':'' \<notin> set (int_str i)"
  by (auto dest!: int_str_chars simp: is_digit_def)

lemma int_str_inj: "int_str i = int_str j \<longleftrightarrow> i = j"
  using py_int_int_str [of i] py_int_int_str [of j] by (metis option.inject)

lemma append_separator_inj:
  fixes d :: char assumes "d \<notin> set b" "d \<notin> set b'" shows "a @ d # b = a' @ d # b' \<longleftrightarrow> a = a' \<and> b = b'"
proof
  assume eq: "a @ d # b = a' @ d # b'"
  then have "length a = length a'"
    using rfind_char_last [OF assms(1), of a] rfind_char_last [OF assms(2), of a'] by simp
  with eq show "a = a' \<and> b = b'" by simp
qed simp

text \<open>
  Different process incarnations have different keys, so a resource id of the server is never
  attributed to another process, whatever characters the boot id has.
\<close>

theorem identity_key_injective:
  "identity_key i = identity_key j \<longleftrightarrow> i = (j :: process_identity)"
proof -
  have split: "identity_key k = (pd_boot_id k @ CHR '':'' # int_str (pd_pid k)) @ CHR '':'' # int_str (pd_start_time_ticks k)" for k
    by (simp add: identity_key_def)
  show ?thesis
    unfolding split append_separator_inj [OF colon_not_in_int colon_not_in_int] int_str_inj
    by (auto intro: process_identity.equality)
qed

end
