(* ===== verification/Inventory.thy ===== *)
theory Inventory
  imports Telemetry_Api Inventory_Contract
begin

text \<open>
  Storing a reported inventory, \<open>reconcile_inventory\<close> of \<open>server/temporalrca_server/api.py\<close>.
  A row object of the session is its id; updating it rewrites the row with that id in the table.
  \<open>fresh n\<close> is the id of the \<open>n\<close>-th row the request creates. The links of one request are
  flushed before they are looked up again, so a link named twice is found the second time.
\<close>

section \<open>Rows\<close>

type_synonym 'r work = "resource_map \<times> 'r list \<times> nat"

definition existing :: "uuid \<Rightarrow> 'a inventory_row_scheme list \<Rightarrow> resource_map" where
  "existing host_id rows =
     dict_update (map (\<lambda>r. (iv_external_id r, iv_id r)) (filter (\<lambda>r. iv_host_id r = host_id) rows)) []"

definition update_row :: "uuid \<Rightarrow> ('a inventory_row_scheme \<Rightarrow> 'a inventory_row_scheme) \<Rightarrow> 'a inventory_row_scheme list
    \<Rightarrow> 'a inventory_row_scheme list" where
  "update_row i f rows = map (\<lambda>r. if iv_id r = i then f r else r) rows"

definition touch :: "datetime \<Rightarrow> datetime \<Rightarrow> 'i inventory_item_scheme \<Rightarrow> 'a inventory_row_scheme \<Rightarrow> 'a inventory_row_scheme" where
  "touch now lease item row = row
     \<lparr>iv_name := it_name item, iv_attributes := it_attributes item, iv_last_seen_at := now,
      iv_lease_expires_at := lease, iv_active := True\<rparr>"

definition add_row :: "(nat \<Rightarrow> uuid) \<Rightarrow> (uuid \<Rightarrow> 'r) \<Rightarrow> pystr \<Rightarrow> 'r work \<Rightarrow> 'r work" where
  "add_row fresh create ext w =
     (case w of (ids, rows, n) \<Rightarrow> (dict_set ext (fresh n) ids, rows @ [create (fresh n)], Suc n))"

text \<open>Look up by external id, create the row if there is none, and update it.\<close>

definition put_row ::
  "(nat \<Rightarrow> uuid) \<Rightarrow> (uuid \<Rightarrow> 'a inventory_row_scheme) \<Rightarrow> ('a inventory_row_scheme \<Rightarrow> 'a inventory_row_scheme) \<Rightarrow> pystr
    \<Rightarrow> 'a inventory_row_scheme work \<Rightarrow> 'a inventory_row_scheme work" where
  "put_row fresh create upd ext w =
     (case w of (ids, rows, n) \<Rightarrow>
        (case dict_get ids ext of
           Some i \<Rightarrow> (ids, update_row i upd rows, n)
         | None \<Rightarrow> add_row fresh (\<lambda>i. upd (create i)) ext w))"

definition linked :: "resource_map \<Rightarrow> pystr option \<Rightarrow> uuid option" where
  "linked ids ext = (case ext of None \<Rightarrow> None | Some e \<Rightarrow> dict_get ids e)"

section \<open>The four kinds\<close>

definition new_service :: "uuid \<Rightarrow> datetime \<Rightarrow> pystr \<Rightarrow> uuid \<Rightarrow> service_instance" where
  "new_service host_id now ext i =
     \<lparr>iv_id = i, iv_host_id = host_id, iv_external_id = ext, iv_name = [], iv_attributes = [], iv_first_seen_at = now,
      iv_last_seen_at = now, iv_lease_expires_at = now, iv_active = True\<rparr>"

definition put_service ::
  "(nat \<Rightarrow> uuid) \<Rightarrow> uuid \<Rightarrow> datetime \<Rightarrow> datetime \<Rightarrow> inventory_service \<Rightarrow> service_instance work \<Rightarrow> service_instance work" where
  "put_service fresh host_id now lease item =
     put_row fresh (new_service host_id now (it_external_id item)) (touch now lease item) (it_external_id item)"

definition new_container :: "uuid \<Rightarrow> datetime \<Rightarrow> pystr \<Rightarrow> uuid \<Rightarrow> container_instance" where
  "new_container host_id now ext i =
     \<lparr>iv_id = i, iv_host_id = host_id, iv_external_id = ext, iv_name = [], iv_attributes = [], iv_first_seen_at = now,
      iv_last_seen_at = now, iv_lease_expires_at = now, iv_active = True, cn_runtime = None, cn_image = None, cn_service_id = None\<rparr>"

definition update_container ::
  "datetime \<Rightarrow> datetime \<Rightarrow> resource_map \<Rightarrow> inventory_container \<Rightarrow> container_instance \<Rightarrow> container_instance" where
  "update_container now lease services item row = (touch now lease item row)
     \<lparr>cn_runtime := ic_runtime item, cn_image := ic_image item,
      cn_service_id := linked services (ic_service_external_id item)\<rparr>"

definition put_container ::
  "(nat \<Rightarrow> uuid) \<Rightarrow> uuid \<Rightarrow> datetime \<Rightarrow> datetime \<Rightarrow> resource_map \<Rightarrow> inventory_container \<Rightarrow> container_instance work
    \<Rightarrow> container_instance work" where
  "put_container fresh host_id now lease services item =
     put_row fresh (new_container host_id now (it_external_id item))
       (update_container now lease services item) (it_external_id item)"

definition new_process :: "uuid \<Rightarrow> datetime \<Rightarrow> pystr \<Rightarrow> uuid \<Rightarrow> process_instance" where
  "new_process host_id now ext i =
     \<lparr>iv_id = i, iv_host_id = host_id, iv_external_id = ext, iv_name = [], iv_attributes = [], iv_first_seen_at = now,
      iv_last_seen_at = now, iv_lease_expires_at = now, iv_active = True, pr_boot_id = [], pr_pid = 0,
      pr_start_time_ticks = 0, pr_command = None, pr_service_id = None, pr_container_id = None\<rparr>"

definition incarnation :: "process_instance \<Rightarrow> uuid \<times> int \<times> int" where
  "incarnation r = (pr_boot_id r, pr_pid r, pr_start_time_ticks r)"

definition item_incarnation :: "inventory_process \<Rightarrow> uuid \<times> int \<times> int" where
  "item_incarnation item = (ip_boot_id item, ip_pid item, ip_start_time_ticks item)"

definition retire :: "datetime \<Rightarrow> 'a inventory_row_scheme \<Rightarrow> 'a inventory_row_scheme" where
  "retire now row = row\<lparr>iv_external_id := take 255 (''retired:'' @ iv_id row @ '':'' @ iv_external_id row),
     iv_active := False, iv_lease_expires_at := now\<rparr>"

definition update_process ::
  "datetime \<Rightarrow> datetime \<Rightarrow> resource_map \<Rightarrow> resource_map \<Rightarrow> inventory_process \<Rightarrow> process_instance \<Rightarrow> process_instance" where
  "update_process now lease services containers item row = (touch now lease item row)
     \<lparr>pr_boot_id := ip_boot_id item, pr_pid := ip_pid item, pr_start_time_ticks := ip_start_time_ticks item,
      pr_command := ip_command item, pr_service_id := linked services (ip_service_external_id item),
      pr_container_id := linked containers (ip_container_external_id item)\<rparr>"

definition put_process ::
  "(nat \<Rightarrow> uuid) \<Rightarrow> uuid \<Rightarrow> datetime \<Rightarrow> datetime \<Rightarrow> resource_map \<Rightarrow> resource_map \<Rightarrow> inventory_process
    \<Rightarrow> process_instance work \<Rightarrow> process_instance work" where
  "put_process fresh host_id now lease services containers item w =
     (let ext = it_external_id item;
          create = new_process host_id now ext;
          upd = update_process now lease services containers item
      in (case w of (ids, rows, n) \<Rightarrow>
            (case dict_get ids ext of
               Some i \<Rightarrow> if \<exists>r \<in> set rows. iv_id r = i \<and> incarnation r \<noteq> item_incarnation item
                 then add_row fresh (\<lambda>i. upd (create i)) ext (ids, update_row i (retire now) rows, n)
                 else put_row fresh create upd ext w
             | None \<Rightarrow> put_row fresh create upd ext w)))"

definition new_dependency :: "uuid \<Rightarrow> datetime \<Rightarrow> pystr \<Rightarrow> uuid \<Rightarrow> dependency_row" where
  "new_dependency host_id now ext i =
     \<lparr>iv_id = i, iv_host_id = host_id, iv_external_id = ext, iv_name = [], iv_attributes = [], iv_first_seen_at = now,
      iv_last_seen_at = now, iv_lease_expires_at = now, iv_active = True, dp_kind = []\<rparr>"

definition put_dependency_row ::
  "(nat \<Rightarrow> uuid) \<Rightarrow> uuid \<Rightarrow> datetime \<Rightarrow> datetime \<Rightarrow> inventory_dependency \<Rightarrow> dependency_row work \<Rightarrow> dependency_row work" where
  "put_dependency_row fresh host_id now lease item =
     put_row fresh (new_dependency host_id now (it_external_id item))
       (\<lambda>row. (touch now lease item row)\<lparr>dp_kind := id_kind item\<rparr>) (it_external_id item)"

definition put_link :: "datetime \<Rightarrow> uuid \<times> uuid \<Rightarrow> service_dependency list \<Rightarrow> service_dependency list" where
  "put_link now key links =
     (if \<exists>l \<in> set links. (sd_service_id l, sd_dependency_id l) = key
      then map (\<lambda>l. if (sd_service_id l, sd_dependency_id l) = key then l\<lparr>sd_last_seen_at := now, sd_active := True\<rparr> else l) links
      else links @ [\<lparr>sd_service_id = fst key, sd_dependency_id = snd key, sd_first_seen_at = now, sd_last_seen_at = now, sd_active = True\<rparr>])"

type_synonym link_work = "(uuid \<times> uuid) list \<times> service_dependency list"

definition put_links ::
  "datetime \<Rightarrow> resource_map \<Rightarrow> uuid \<Rightarrow> pystr list \<Rightarrow> link_work \<Rightarrow> failure + link_work" where
  "put_links now services dependency_id exts w =
     fold_result (\<lambda>ext (active, links).
       (case dict_get services ext of
          None \<Rightarrow> Inl (HTTPException 422 (''unknown service_external_id: '' @ ext))
        | Some s \<Rightarrow> Inr (active @ [(s, dependency_id)], put_link now (s, dependency_id) links))) exts w"

definition put_dependency ::
  "(nat \<Rightarrow> uuid) \<Rightarrow> uuid \<Rightarrow> datetime \<Rightarrow> datetime \<Rightarrow> resource_map \<Rightarrow> inventory_dependency
    \<Rightarrow> dependency_row work \<times> link_work \<Rightarrow> failure + dependency_row work \<times> link_work" where
  "put_dependency fresh host_id now lease services item st =
     (case st of (w, lw) \<Rightarrow>
        let w' = put_dependency_row fresh host_id now lease item w
        in bind_result (put_links now services (the (dict_get (fst w') (it_external_id item))) (id_service_external_ids item) lw)
             (\<lambda>lw'. Inr (w', lw')))"

section \<open>Expiry\<close>

text \<open>A link that was not reported goes inactive only when its dependency's lease is over.\<close>

definition expire_links ::
  "datetime \<Rightarrow> resource_map \<Rightarrow> dependency_row list \<Rightarrow> (uuid \<times> uuid) list \<Rightarrow> service_dependency list \<Rightarrow> service_dependency list" where
  "expire_links now dependencies rows active links =
     map (\<lambda>l. if sd_dependency_id l \<in> snd ` set dependencies \<and> (sd_service_id l, sd_dependency_id l) \<notin> set active
                \<and> (\<exists>r \<in> set rows. iv_id r = sd_dependency_id l \<and> iv_lease_expires_at r \<le> now)
              then l\<lparr>sd_active := False\<rparr> else l) links"

definition expire_rows :: "datetime \<Rightarrow> pystr list \<Rightarrow> resource_map \<Rightarrow> 'a inventory_row_scheme list \<Rightarrow> 'a inventory_row_scheme list" where
  "expire_rows now included ids rows =
     map (\<lambda>r. if (\<exists>e \<in> set ids. snd e = iv_id r \<and> fst e \<notin> set included) \<and> iv_lease_expires_at r \<le> now
              then r\<lparr>iv_active := False\<rparr> else r) rows"

definition reported :: "pystr list \<Rightarrow> resource_map \<Rightarrow> resource_map" where
  "reported included ids = filter (\<lambda>e. fst e \<in> set included) ids"

section \<open>The request\<close>

abbreviation external_ids :: "'i inventory_item_scheme list \<Rightarrow> pystr list" where
  "external_ids items \<equiv> map it_external_id items"

definition resource_ids_json :: "resource_ids \<Rightarrow> json" where
  "resource_ids_json r =
     (let render = (\<lambda>m. JObj (map (\<lambda>(k, i). (k, JStr i)) m)) in
      JObj [(''service_ids'', render (ri_services r)), (''process_ids'', render (ri_processes r)),
            (''container_ids'', render (ri_containers r)), (''dependency_ids'', render (ri_dependencies r))])"

text \<open>The unique constraints of the four tables that the commit checks.\<close>

definition unique_rows :: "'a inventory_row_scheme list \<Rightarrow> bool" where
  "unique_rows rows \<longleftrightarrow> distinct (map (\<lambda>r. (iv_host_id r, iv_external_id r)) rows)"

definition unique_incarnations :: "process_instance list \<Rightarrow> bool" where
  "unique_incarnations rows \<longleftrightarrow> distinct (map (\<lambda>r. (iv_host_id r, incarnation r)) rows)"

text \<open>What remains once the four tables are written: links and rows that expire, the host, the snapshot.\<close>

definition expire_inventory ::
  "uuid \<Rightarrow> inventory \<Rightarrow> service_instance work \<Rightarrow> container_instance work \<Rightarrow> process_instance work
    \<Rightarrow> dependency_row work \<times> link_work \<Rightarrow> database \<Rightarrow> database" where
  "expire_inventory host_id report s c p dl db =
     (let now = in_observed_at report; (d, active, links) = dl in
      db\<lparr>db_services := expire_rows now (external_ids (in_services report)) (fst s) (fst (snd s)),
         db_containers := expire_rows now (external_ids (in_containers report)) (fst c) (fst (snd c)),
         db_processes := expire_rows now (external_ids (in_processes report)) (fst p) (fst (snd p)),
         db_dependencies := expire_rows now (external_ids (in_dependencies report)) (fst d) (fst (snd d)),
         db_links := expire_links now (fst d) (fst (snd d)) active links,
         db_hosts := map (\<lambda>h. if ho_id h = host_id then h\<lparr>ho_last_seen_at := now, ho_active := True\<rparr> else h) (db_hosts db)\<rparr>)"

definition answer_ids ::
  "inventory \<Rightarrow> service_instance work \<Rightarrow> container_instance work \<Rightarrow> process_instance work \<Rightarrow> dependency_row work
    \<Rightarrow> resource_ids" where
  "answer_ids report s c p d =
     \<lparr>ri_services = reported (external_ids (in_services report)) (fst s),
      ri_processes = reported (external_ids (in_processes report)) (fst p),
      ri_containers = reported (external_ids (in_containers report)) (fst c),
      ri_dependencies = reported (external_ids (in_dependencies report)) (fst d)\<rparr>"

definition unique_inventory :: "database \<Rightarrow> bool" where
  "unique_inventory db \<longleftrightarrow> unique_rows (db_services db) \<and> unique_rows (db_containers db) \<and> unique_rows (db_processes db)
     \<and> unique_rows (db_dependencies db) \<and> unique_incarnations (db_processes db)"

definition commit_inventory ::
  "(inventory \<Rightarrow> json) \<Rightarrow> uuid \<Rightarrow> inventory \<Rightarrow> resource_ids \<Rightarrow> database \<Rightarrow> failure + resource_ids \<times> database" where
  "commit_inventory dump host_id report ids db =
     (if unique_inventory db
      then Inr (ids, db\<lparr>db_snapshots := db_snapshots db @ [\<lparr>sn_host_id = host_id, sn_observed_at = in_observed_at report,
             sn_inventory = dump report, sn_resource_ids = resource_ids_json ids\<rparr>]\<rparr>)
      else Inl (Unhandled ''IntegrityError''))"

definition store_inventory ::
  "(nat \<Rightarrow> uuid) \<Rightarrow> (inventory \<Rightarrow> json) \<Rightarrow> uuid \<Rightarrow> inventory \<Rightarrow> database \<Rightarrow> failure + resource_ids \<times> database" where
  "store_inventory fresh dump host_id report db =
     (let now = in_observed_at report;
          lease = now + in_lease_seconds report * second;
          s = fold (put_service fresh host_id now lease) (in_services report)
            (existing host_id (db_services db), db_services db, 0);
          c = fold (put_container fresh host_id now lease (fst s)) (in_containers report)
            (existing host_id (db_containers db), db_containers db, snd (snd s));
          p = fold (put_process fresh host_id now lease (fst s) (fst c)) (in_processes report)
            (existing host_id (db_processes db), db_processes db, snd (snd c))
      in bind_result
           (fold_result (put_dependency fresh host_id now lease (fst s)) (in_dependencies report)
              ((existing host_id (db_dependencies db), db_dependencies db, snd (snd p)), ([], db_links db)))
           (\<lambda>dl. commit_inventory dump host_id report (answer_ids report s c p (fst dl))
                    (expire_inventory host_id report s c p dl db)))"

definition reconcile_inventory ::
  "(nat \<Rightarrow> uuid) \<Rightarrow> (inventory \<Rightarrow> json) \<Rightarrow> agent_identity \<Rightarrow> inventory \<Rightarrow> server
    \<Rightarrow> (failure + inventory_response) \<times> server" where
  "reconcile_inventory fresh dump ident report sv =
     (case store_inventory fresh dump (ai_host_id ident) report (sv_db sv) of
        Inl f \<Rightarrow> (Inl f, sv)
      | Inr (ids, db) \<Rightarrow>
          (case publish InventoryMark (sv_watermarks sv) of (watermark, wm) \<Rightarrow>
             (Inr \<lparr>ir_watermark = watermark, ir_lease_expires_at = in_observed_at report + in_lease_seconds report * second,
                  ir_ids = ids\<rparr>, \<lparr>sv_db = db, sv_watermarks = wm\<rparr>)))"

end
