(* ===== verification/Inventory_Laws.thy ===== *)
theory Inventory_Laws
  imports Inventory
begin

text \<open>
  What storing an inventory guarantees: every reported resource is answered with the id of its
  current row, other hosts are not touched, and what becomes of links nobody reports any more. The
  four kinds of resource share one contract, the locale \<open>resource_kind\<close>.
\<close>

section \<open>One kind of resource\<close>

text \<open>A row that represents \<open>ext\<close> now: active, leased until \<open>lease\<close>.\<close>

definition current_row :: "uuid \<Rightarrow> datetime \<Rightarrow> pystr \<Rightarrow> 'a inventory_row_scheme \<Rightarrow> bool" where
  "current_row host_id lease ext r \<longleftrightarrow> iv_host_id r = host_id \<and> iv_external_id r = ext \<and> iv_active r
     \<and> iv_lease_expires_at r = lease"

definition renews :: "datetime \<Rightarrow> ('a inventory_row_scheme \<Rightarrow> 'a inventory_row_scheme) \<Rightarrow> bool" where
  "renews lease f \<longleftrightarrow> (\<forall>r. iv_id (f r) = iv_id r \<and> iv_host_id (f r) = iv_host_id r
     \<and> iv_external_id (f r) = iv_external_id r \<and> iv_active (f r) \<and> iv_lease_expires_at (f r) = lease)"

definition keeps_owner :: "('a inventory_row_scheme \<Rightarrow> 'a inventory_row_scheme) \<Rightarrow> bool" where
  "keeps_owner g \<longleftrightarrow> (\<forall>r. iv_id (g r) = iv_id r \<and> iv_host_id (g r) = iv_host_id r)"

lemma update_row_set: "r \<in> set rows \<Longrightarrow> iv_id r \<noteq> i \<Longrightarrow> r \<in> set (update_row i f rows)"
  by (auto simp: update_row_def image_iff)

lemma update_row_ids: "\<forall>r. iv_id (f r) = iv_id r \<Longrightarrow> map iv_id (update_row i f rows) = map iv_id rows"
  by (simp add: update_row_def)

lemma update_row_id [simp]: "update_row i id rows = rows"
  by (induction rows) (simp_all add: update_row_def)

definition owner_rows :: "uuid \<Rightarrow> 'a inventory_row_scheme list \<Rightarrow> 'a inventory_row_scheme list" where
  "owner_rows host_id rows = filter (\<lambda>r. iv_host_id r = host_id) rows"

lemma update_row_others:
  assumes "distinct (map iv_id rows)" and "r \<in> set rows" and "iv_id r = i" and "iv_host_id r \<noteq> other" and "keeps_owner g"
  shows "owner_rows other (update_row i g rows) = owner_rows other rows"
  using assms(1,2)
proof (induction rows)
  case (Cons x rows)
  show ?case
  proof (cases "x = r")
    case True
    then have "update_row i g rows = rows"
      using Cons.prems(1) assms(3) by (induction rows) (auto simp: update_row_def)
    then show ?thesis using True assms(3-5) by (simp add: owner_rows_def update_row_def keeps_owner_def)
  next
    case False
    then have "iv_id x \<noteq> i" using Cons.prems assms(3) by auto
    then show ?thesis using Cons False by (simp add: owner_rows_def update_row_def)
  qed
qed simp

definition work_ok :: "(nat \<Rightarrow> uuid) \<Rightarrow> uuid \<Rightarrow> 'a inventory_row_scheme work \<Rightarrow> bool" where
  "work_ok fresh host_id w \<longleftrightarrow> (case w of (ids, rows, n) \<Rightarrow>
     dict_ok ids \<and> inj_on (\<lambda>e. dict_get ids e) (fst ` set ids) \<and> distinct (map iv_id rows)
     \<and> (\<forall>e i. dict_get ids e = Some i \<longrightarrow> (\<exists>r \<in> set rows. iv_id r = i \<and> iv_host_id r = host_id \<and> iv_external_id r = e))
     \<and> (\<forall>m \<ge> n. fresh m \<notin> iv_id ` set rows))"

lemma dict_set_inj:
  assumes "inj_on (dict_get ids) (fst ` set ids)" and "\<And>e. dict_get ids e \<noteq> Some new"
  shows "inj_on (dict_get (dict_set ext new ids)) (fst ` set (dict_set ext new ids))"
proof (rule inj_onI)
  fix a b assume ab: "a \<in> fst ` set (dict_set ext new ids)" "b \<in> fst ` set (dict_set ext new ids)"
    "dict_get (dict_set ext new ids) a = dict_get (dict_set ext new ids) b"
  have dom: "c = ext \<or> c \<in> fst ` set ids" if "c \<in> fst ` set (dict_set ext new ids)" for c
    using that by (auto simp: AList.dom_update)
  show "a = b"
    using ab(3) dom [OF ab(1)] dom [OF ab(2)] assms(2) assms(2) [symmetric] assms(1)
    by (cases "a = ext"; cases "b = ext") (auto simp: AList.update_conv' inj_on_eq_iff)
qed

text \<open>A row of another external id survives the change of the rows of \<open>ext\<close>.\<close>

lemma other_row_kept:
  assumes "inj_on (dict_get ids) (fst ` set ids)" and "dict_get ids ext = None \<or> dict_get ids ext = Some i"
    and "dict_get ids ext = None \<Longrightarrow> g = id"
    and "dict_get ids e = Some j" "e \<noteq> ext" "\<exists>q \<in> set rows. iv_id q = j \<and> P q"
  shows "\<exists>q \<in> set (update_row i g rows). iv_id q = j \<and> P q"
proof (cases "dict_get ids ext")
  case None
  then have "g = id" by (rule assms(3))
  with assms(6) show ?thesis by simp
next
  case (Some k)
  then have "k = i" using assms(2) by simp
  have "j \<noteq> i"
  proof
    assume "j = i"
    then have "dict_get ids e = dict_get ids ext" using assms(4) Some \<open>k = i\<close> by simp
    moreover have "e \<in> fst ` set ids" "ext \<in> fst ` set ids"
      using assms(4) Some by (metis domI dom_map_of_conv_image_fst)+
    ultimately show False using assms(1,5) by (simp add: inj_on_eq_iff)
  qed
  then show ?thesis using assms(6) update_row_set by metis
qed

definition has_current :: "uuid \<Rightarrow> datetime \<Rightarrow> pystr \<Rightarrow> 'a inventory_row_scheme work \<Rightarrow> bool" where
  "has_current host_id lease ext w \<longleftrightarrow> (case w of (ids, rows, n) \<Rightarrow>
     \<exists>i. \<exists>r \<in> set rows. dict_get ids ext = Some i \<and> iv_id r = i \<and> current_row host_id lease ext r)"

locale resource_kind =
  fixes put :: "'i inventory_item_scheme \<Rightarrow> 'a inventory_row_scheme work \<Rightarrow> 'a inventory_row_scheme work"
    and fresh :: "nat \<Rightarrow> uuid" and host_id :: uuid and lease :: datetime
  assumes put_new: "dict_get ids (it_external_id item) = None \<Longrightarrow>
      \<exists>r. put item (ids, rows, n) = (dict_set (it_external_id item) (fresh n) ids, rows @ [r], Suc n)
        \<and> iv_id r = fresh n \<and> current_row host_id lease (it_external_id item) r"
    and put_known: "dict_get ids (it_external_id item) = Some i \<Longrightarrow>
      (\<exists>f. renews lease f \<and> put item (ids, rows, n) = (ids, update_row i f rows, n))
      \<or> (\<exists>g r. keeps_owner g \<and> put item (ids, rows, n)
           = (dict_set (it_external_id item) (fresh n) ids, update_row i g rows @ [r], Suc n)
         \<and> iv_id r = fresh n \<and> current_row host_id lease (it_external_id item) r)"
begin

text \<open>Adding a row, after rows with one id were changed.\<close>

lemma add_ok:
  assumes "work_ok fresh host_id (ids, rows, n)" and "inj fresh" and "iv_id r = fresh n"
    and "current_row host_id lease ext r" and "keeps_owner g" and "dict_get ids ext = None \<or> dict_get ids ext = Some i"
    and "dict_get ids ext = None \<Longrightarrow> g = id"
  shows "work_ok fresh host_id (dict_set ext (fresh n) ids, update_row i g rows @ [r], Suc n)"
    and "has_current host_id lease ext (dict_set ext (fresh n) ids, update_row i g rows @ [r], Suc n)"
    and "has_current host_id lease e (ids, rows, n) \<Longrightarrow>
           has_current host_id lease e (dict_set ext (fresh n) ids, update_row i g rows @ [r], Suc n)"
proof -
  have ok: "dict_ok ids" "inj_on (dict_get ids) (fst ` set ids)" "distinct (map iv_id rows)"
    "\<And>e i. dict_get ids e = Some i \<Longrightarrow> \<exists>r \<in> set rows. iv_id r = i \<and> iv_host_id r = host_id \<and> iv_external_id r = e"
    "\<And>m. n \<le> m \<Longrightarrow> fresh m \<notin> iv_id ` set rows"
    using assms(1) by (auto simp: work_ok_def)
  have g: "map iv_id (update_row i g rows) = map iv_id rows"
    using assms(5) by (intro update_row_ids) (simp add: keeps_owner_def)
  then have gset: "iv_id ` set (update_row i g rows) = iv_id ` set rows"
    by (metis set_map)
  have other: "\<exists>q \<in> set (update_row i g rows). iv_id q = j \<and> P q"
    if "dict_get ids e = Some j" "e \<noteq> ext" "\<exists>q \<in> set rows. iv_id q = j \<and> P q" for e j P
    by (rule other_row_kept [OF ok(2) assms(6) _ that]) (rule assms(7))
  have fresh_new: "dict_get ids e \<noteq> Some (fresh n)" for e
    using ok(4) [of e "fresh n"] ok(5) [of n] by force
  note inj = dict_set_inj [OF ok(2) fresh_new, of ext]
  have "\<exists>q \<in> set (update_row i g rows @ [r]). iv_id q = j \<and> iv_host_id q = host_id \<and> iv_external_id q = e"
    if "dict_get (dict_set ext (fresh n) ids) e = Some j" for e j
  proof (cases "e = ext")
    case True
    with that assms(3,4) show ?thesis by (auto simp: AList.update_conv' current_row_def)
  next
    case False
    with that have "dict_get ids e = Some j" by (simp add: AList.update_conv')
    from other [OF this False ok(4) [OF this]] show ?thesis by auto
  qed
  moreover have "fresh m \<notin> iv_id ` set (update_row i g rows @ [r])" if "Suc n \<le> m" for m
    using that ok(5) [of m] assms(2,3) gset by (auto simp: inj_eq)
  moreover have "distinct (map iv_id (update_row i g rows @ [r]))"
    using ok(3) ok(5) [of n] gset g assms(3) by simp
  ultimately show "work_ok fresh host_id (dict_set ext (fresh n) ids, update_row i g rows @ [r], Suc n)"
    using inj dict_set_ok [OF ok(1)] unfolding work_ok_def prod.case by blast
  show cur: "has_current host_id lease ext (dict_set ext (fresh n) ids, update_row i g rows @ [r], Suc n)"
    using assms(3,4) by (auto simp: has_current_def AList.update_conv')
  assume "has_current host_id lease e (ids, rows, n)"
  then obtain j where j: "dict_get ids e = Some j" "\<exists>q \<in> set rows. iv_id q = j \<and> current_row host_id lease e q"
    by (auto simp: has_current_def)
  show "has_current host_id lease e (dict_set ext (fresh n) ids, update_row i g rows @ [r], Suc n)"
  proof (cases "e = ext")
    case False
    from other [OF j(1) False j(2)] show ?thesis
      using j(1) False by (auto simp: has_current_def AList.update_conv')
  qed (use cur in simp)
qed

lemma renew_ok:
  assumes "work_ok fresh host_id (ids, rows, n)" and "renews lease f" and "dict_get ids ext = Some i"
  shows "work_ok fresh host_id (ids, update_row i f rows, n)"
    and "has_current host_id lease ext (ids, update_row i f rows, n)"
    and "has_current host_id lease e (ids, rows, n) \<Longrightarrow> has_current host_id lease e (ids, update_row i f rows, n)"
proof -
  have f: "map iv_id (update_row i f rows) = map iv_id rows"
    using assms(2) by (intro update_row_ids) (simp add: renews_def)
  then have fset: "iv_id ` set (update_row i f rows) = iv_id ` set rows" by (metis set_map)
  have row: "\<exists>q \<in> set (update_row i f rows). iv_id q = iv_id r \<and> iv_host_id q = iv_host_id r \<and> iv_external_id q = iv_external_id r
      \<and> (iv_id r = i \<or> current_row h lease e' r \<longrightarrow> iv_active q \<and> iv_lease_expires_at q = lease)"
    if "r \<in> set rows" for r h e'
    using that assms(2)
    by (intro bexI [of _ "if iv_id r = i then f r else r"]) (auto simp: update_row_def renews_def current_row_def)
  show "work_ok fresh host_id (ids, update_row i f rows, n)"
    using assms(1) f fset row unfolding work_ok_def prod.case by (metis (no_types, lifting))
  obtain r where r: "r \<in> set rows" "iv_id r = i" "iv_host_id r = host_id" "iv_external_id r = ext"
    using assms(1,3) unfolding work_ok_def prod.case by blast
  from row [OF r(1)] show "has_current host_id lease ext (ids, update_row i f rows, n)"
    using r assms(3) by (auto simp: has_current_def current_row_def)
  assume "has_current host_id lease e (ids, rows, n)"
  then obtain j r where "r \<in> set rows" "dict_get ids e = Some j" "iv_id r = j" "current_row host_id lease e r"
    by (auto simp: has_current_def)
  with row [OF this(1), of host_id e] show "has_current host_id lease e (ids, update_row i f rows, n)"
    by (auto simp: has_current_def current_row_def)
qed

lemma put_ok:
  assumes "work_ok fresh host_id w" and "inj fresh"
  shows "work_ok fresh host_id (put item w) \<and> has_current host_id lease (it_external_id item) (put item w)
     \<and> (\<forall>e. has_current host_id lease e w \<longrightarrow> has_current host_id lease e (put item w))"
proof -
  obtain ids rows n where w: "w = (ids, rows, n)" by (cases w)
  show ?thesis
  proof (cases "dict_get ids (it_external_id item)")
    case None
    obtain r where p: "put item (ids, rows, n) = (dict_set (it_external_id item) (fresh n) ids, rows @ [r], Suc n)"
      and r: "iv_id r = fresh n" "current_row host_id lease (it_external_id item) r"
      using put_new [OF None] by blast
    have "keeps_owner (id :: 'a inventory_row_scheme \<Rightarrow> _)" by (simp add: keeps_owner_def)
    from add_ok [OF assms(1) [unfolded w] assms(2) r this] None show ?thesis
      unfolding w p by simp
  next
    case (Some i)
    from put_known [OF Some, of rows n] show ?thesis
    proof (elim disjE exE conjE)
      fix f assume f: "renews lease f" "put item (ids, rows, n) = (ids, update_row i f rows, n)"
      from renew_ok [OF assms(1) [unfolded w] f(1) Some] show ?thesis unfolding w f(2) by blast
    next
      fix g r assume g: "keeps_owner g"
        "put item (ids, rows, n) = (dict_set (it_external_id item) (fresh n) ids, update_row i g rows @ [r], Suc n)"
        "iv_id r = fresh n" "current_row host_id lease (it_external_id item) r"
      from add_ok [OF assms(1) [unfolded w] assms(2) g(3,4,1), of i] Some show ?thesis unfolding w g(2) by simp
    qed
  qed
qed

lemma fold_ok:
  assumes "work_ok fresh host_id w" and "inj fresh"
  shows "work_ok fresh host_id (fold put items w) \<and> (\<forall>item \<in> set items. has_current host_id lease (it_external_id item) (fold put items w))
     \<and> (\<forall>e. has_current host_id lease e w \<longrightarrow> has_current host_id lease e (fold put items w))"
  using assms(1)
proof (induction items arbitrary: w)
  case (Cons item items)
  note one = put_ok [OF Cons.prems assms(2), of item]
  with Cons.IH [of "put item w"] show ?case by auto
qed simp

lemma put_others:
  assumes "work_ok fresh host_id w" and "other \<noteq> host_id"
  shows "owner_rows other (fst (snd (put item w))) = owner_rows other (fst (snd w))"
proof -
  obtain ids rows n where w: "w = (ids, rows, n)" by (cases w)
  show ?thesis
  proof (cases "dict_get ids (it_external_id item)")
    case None
    obtain r where "put item (ids, rows, n) = (dict_set (it_external_id item) (fresh n) ids, rows @ [r], Suc n)"
      "current_row host_id lease (it_external_id item) r"
      using put_new [OF None] by blast
    then show ?thesis using assms(2) by (simp add: w owner_rows_def current_row_def)
  next
    case (Some i)
    obtain q where q: "q \<in> set rows" "iv_id q = i" "iv_host_id q = host_id"
      using assms(1) Some unfolding w work_ok_def prod.case by blast
    have d: "distinct (map iv_id rows)" using assms(1) unfolding w work_ok_def prod.case by blast
    have keep: "owner_rows other (update_row i g rows) = owner_rows other rows" if "keeps_owner g" for g
      using update_row_others [OF d q(1,2) _ that] q(3) assms(2) by simp
    from put_known [OF Some, of rows n] show ?thesis
    proof (elim disjE exE conjE)
      fix f assume f: "renews lease f" "put item (ids, rows, n) = (ids, update_row i f rows, n)"
      then have "keeps_owner f" by (simp add: renews_def keeps_owner_def)
      then show ?thesis by (simp add: w f(2) keep)
    next
      fix g r assume g: "keeps_owner g"
        "put item (ids, rows, n) = (dict_set (it_external_id item) (fresh n) ids, update_row i g rows @ [r], Suc n)"
        "iv_id r = fresh n" "current_row host_id lease (it_external_id item) r"
      show ?thesis using keep [OF g(1)] g(4) assms(2) by (simp add: w g(2) owner_rows_def current_row_def)
    qed
  qed
qed

lemma fold_others:
  assumes "work_ok fresh host_id w" and "inj fresh" and "other \<noteq> host_id"
  shows "owner_rows other (fst (snd (fold put items w))) = owner_rows other (fst (snd w))"
  using assms(1)
proof (induction items arbitrary: w)
  case (Cons item items)
  show ?case using Cons.IH [of "put item w"] put_ok [OF Cons.prems assms(2), of item] put_others [OF Cons.prems assms(3), of item]
    by simp
qed simp

end

section \<open>The four kinds offer it\<close>

lemma put_row_new:
  "dict_get ids ext = None \<Longrightarrow> put_row fresh create upd ext (ids, rows, n)
     = (dict_set ext (fresh n) ids, rows @ [upd (create (fresh n))], Suc n)"
  by (simp add: put_row_def add_row_def)

lemma put_row_known:
  "dict_get ids ext = Some i \<Longrightarrow> put_row fresh create upd ext (ids, rows, n) = (ids, update_row i upd rows, n)"
  by (simp add: put_row_def)

lemma put_row_law_new:
  assumes "dict_get ids ext = None" and "renews lease upd"
    and "\<And>i. iv_id (create i) = i \<and> iv_host_id (create i) = host_id \<and> iv_external_id (create i) = ext"
  shows "\<exists>r. put_row fresh create upd ext (ids, rows, n) = (dict_set ext (fresh n) ids, rows @ [r], Suc n)
        \<and> iv_id r = fresh n \<and> current_row host_id lease ext r"
  using assms by (intro exI [of _ "upd (create (fresh n))"]) (simp add: put_row_new current_row_def renews_def)

lemma put_row_law_known:
  "dict_get ids ext = Some i \<Longrightarrow> renews lease upd \<Longrightarrow>
     \<exists>f. renews lease f \<and> put_row fresh create upd ext (ids, rows, n) = (ids, update_row i f rows, n)"
  by (intro exI [of _ upd]) (simp add: put_row_known)

lemma renewals:
  "renews lease (touch now lease item)"
  "renews lease (update_container now lease services citem)"
  "renews lease (update_process now lease services containers pitem)"
  "renews lease (\<lambda>row. (touch now lease ditem row)\<lparr>dp_kind := k\<rparr>)"
  by (simp_all add: renews_def touch_def update_container_def update_process_def)

lemma new_rows:
  "iv_id (new_service h now ext i) = i \<and> iv_host_id (new_service h now ext i) = h \<and> iv_external_id (new_service h now ext i) = ext"
  "iv_id (new_container h now ext i) = i \<and> iv_host_id (new_container h now ext i) = h \<and> iv_external_id (new_container h now ext i) = ext"
  "iv_id (new_process h now ext i) = i \<and> iv_host_id (new_process h now ext i) = h \<and> iv_external_id (new_process h now ext i) = ext"
  "iv_id (new_dependency h now ext i) = i \<and> iv_host_id (new_dependency h now ext i) = h \<and> iv_external_id (new_dependency h now ext i) = ext"
  by (simp_all add: new_service_def new_container_def new_process_def new_dependency_def)

lemma retire_keeps_owner: "keeps_owner (retire now)"
  by (simp add: keeps_owner_def retire_def)

interpretation services: resource_kind "put_service fresh host_id now lease" fresh host_id lease
  for fresh host_id now lease
  unfolding put_service_def
  by unfold_locales (rule put_row_law_new put_row_law_known disjI1, (assumption | rule put_row_law_known renewals new_rows)+)+

interpretation containers: resource_kind "put_container fresh host_id now lease services" fresh host_id lease
  for fresh host_id now lease services
  unfolding put_container_def
  by unfold_locales (rule put_row_law_new put_row_law_known disjI1, (assumption | rule put_row_law_known renewals new_rows)+)+

interpretation dependencies: resource_kind "put_dependency_row fresh host_id now lease" fresh host_id lease
  for fresh host_id now lease
  unfolding put_dependency_row_def
  by unfold_locales (rule put_row_law_new put_row_law_known disjI1, (assumption | rule put_row_law_known renewals new_rows)+)+

interpretation processes: resource_kind "put_process fresh host_id now lease services containers" fresh host_id lease
  for fresh host_id now lease services containers
proof (unfold_locales, goal_cases)
  case (1 ids item rows n)
  then have "put_process fresh host_id now lease services containers item (ids, rows, n)
      = put_row fresh (new_process host_id now (it_external_id item)) (update_process now lease services containers item)
          (it_external_id item) (ids, rows, n)"
    by (simp add: put_process_def Let_def)
  then show ?case using put_row_law_new [OF 1 renewals(3) new_rows(3)] by simp
next
  case (2 ids item i rows n)
  let ?upd = "update_process now lease services containers item" and ?new = "new_process host_id now (it_external_id item)"
  show ?case
  proof (cases "\<exists>r \<in> set rows. iv_id r = i \<and> incarnation r \<noteq> item_incarnation item")
    case True
    then have "put_process fresh host_id now lease services containers item (ids, rows, n)
        = (dict_set (it_external_id item) (fresh n) ids, update_row i (retire now) rows @ [?upd (?new (fresh n))], Suc n)"
      using 2 by (simp add: put_process_def Let_def add_row_def)
    moreover have "iv_id (?upd (?new (fresh n))) = fresh n \<and> current_row host_id lease (it_external_id item) (?upd (?new (fresh n)))"
      using renewals(3) new_rows(3) by (simp add: renews_def current_row_def)
    ultimately show ?thesis using retire_keeps_owner by blast
  next
    case False
    then have "put_process fresh host_id now lease services containers item (ids, rows, n)
        = put_row fresh ?new ?upd (it_external_id item) (ids, rows, n)"
      using 2 by (auto simp: put_process_def Let_def)
    then show ?thesis using put_row_law_known [OF 2 renewals(3)] by simp
  qed
qed

section \<open>The request\<close>

text \<open>Row ids are unique and the ids to come are not taken.\<close>

definition ids_ok :: "(nat \<Rightarrow> uuid) \<Rightarrow> 'a inventory_row_scheme list \<Rightarrow> bool" where
  "ids_ok fresh rows \<longleftrightarrow> distinct (map iv_id rows) \<and> (\<forall>n. fresh n \<notin> iv_id ` set rows)"

definition inventory_ok :: "(nat \<Rightarrow> uuid) \<Rightarrow> database \<Rightarrow> bool" where
  "inventory_ok fresh db \<longleftrightarrow> inj fresh \<and> ids_ok fresh (db_services db) \<and> ids_ok fresh (db_containers db)
     \<and> ids_ok fresh (db_processes db) \<and> ids_ok fresh (db_dependencies db)"

lemma existing_get: "dict_get (existing host_id rows) e = Some i \<Longrightarrow>
    \<exists>r \<in> set rows. iv_id r = i \<and> iv_host_id r = host_id \<and> iv_external_id r = e"
  unfolding existing_def dict_update_get by (auto dest!: map_of_SomeD)

lemma existing_ok:
  assumes "ids_ok fresh rows"
  shows "work_ok fresh host_id (existing host_id rows, rows, n)"
proof -
  have "inj_on (dict_get (existing host_id rows)) (fst ` set (existing host_id rows))"
  proof (rule inj_onI)
    fix a b assume "a \<in> fst ` set (existing host_id rows)" "dict_get (existing host_id rows) a = dict_get (existing host_id rows) b"
    then obtain i where "dict_get (existing host_id rows) a = Some i" "dict_get (existing host_id rows) b = Some i"
      by (metis dict_get_keys not_None_eq)
    then obtain r q where r: "r \<in> set rows" "iv_id r = i" "iv_external_id r = a" and q: "q \<in> set rows" "iv_id q = i" "iv_external_id q = b"
      by (metis existing_get)
    have "r = q" using assms r(1,2) q(1,2) by (auto simp: ids_ok_def distinct_map inj_on_eq_iff)
    with r q show "a = b" by simp
  qed
  moreover have "dict_ok (existing host_id rows)" by (simp add: existing_def)
  ultimately show ?thesis
    using assms existing_get unfolding work_ok_def prod.case ids_ok_def by (metis (no_types, lifting))
qed

lemma put_dependency_fold:
  "fold_result (put_dependency fresh host_id now lease services) items (w, lw) = Inr (w', lw') \<Longrightarrow>
     w' = fold (put_dependency_row fresh host_id now lease) items w"
  by (induction items arbitrary: w lw) (auto simp: bind_result_Inr_iff put_dependency_def Let_def)

lemma expire_keeps_current:
  assumes "work_ok fresh host_id (ids, rows, n)" and "has_current host_id lease ext (ids, rows, n)" and "ext \<in> set included"
  shows "\<exists>i. dict_get (reported included ids) ext = Some i
     \<and> (\<exists>r \<in> set (expire_rows now included ids rows). iv_id r = i \<and> current_row host_id lease ext r)"
proof -
  obtain i r where i: "dict_get ids ext = Some i" and r: "r \<in> set rows" "iv_id r = i" "current_row host_id lease ext r"
    using assms(2) by (auto simp: has_current_def)
  have "dict_get (filter (\<lambda>e. fst e \<in> set included) d) ext = dict_get d ext" for d :: resource_map
    using assms(3) by (induction d) auto
  then have "dict_get (reported included ids) ext = Some i" by (simp add: reported_def i)
  moreover have "fst e \<in> set included" if "e \<in> set ids" "snd e = i" for e
  proof -
    have ok: "dict_ok ids" "inj_on (dict_get ids) (fst ` set ids)" using assms(1) unfolding work_ok_def prod.case by blast+
    have "dict_get ids (fst e) = Some i" using that ok(1) by (metis map_of_is_SomeI prod.collapse)
    moreover have "ext \<in> fst ` set ids" using i by (metis dict_get_keys option.distinct(1))
    ultimately have "fst e = ext" using inj_onD [OF ok(2), of "fst e" ext] i that by force
    with assms(3) show ?thesis by simp
  qed
  then have "r \<in> set (expire_rows now included ids rows)"
    using r(1,2) unfolding expire_rows_def by (auto simp: image_iff intro!: bexI [of _ r])
  ultimately show ?thesis using r by blast
qed

definition represents :: "uuid \<Rightarrow> datetime \<Rightarrow> resource_map \<Rightarrow> 'a inventory_row_scheme list \<Rightarrow> pystr \<Rightarrow> bool" where
  "represents host_id lease ids rows ext \<longleftrightarrow>
     (\<exists>i. dict_get ids ext = Some i \<and> (\<exists>r \<in> set rows. iv_id r = i \<and> current_row host_id lease ext r))"

lemma represents_current:
  assumes "work_ok fresh host_id w" and "\<forall>item \<in> set items. has_current host_id lease (it_external_id item) w"
    and "item \<in> set items"
  shows "represents host_id lease (reported (external_ids items) (fst w)) (expire_rows now (external_ids items) (fst w) (fst (snd w)))
           (it_external_id item)"
  using expire_keeps_current [of fresh host_id "fst w" "fst (snd w)" "snd (snd w)" lease "it_external_id item" "external_ids items" now]
    assms by (simp add: represents_def)

lemma expire_others:
  assumes "work_ok fresh host_id w" and "other \<noteq> host_id"
  shows "owner_rows other (expire_rows now included (fst w) (fst (snd w))) = owner_rows other (fst (snd w))"
proof -
  obtain ids rows n where w: "w = (ids, rows, n)" by (cases w)
  have ok: "dict_ok ids" "distinct (map iv_id rows)"
    "\<And>e i. dict_get ids e = Some i \<Longrightarrow> \<exists>r \<in> set rows. iv_id r = i \<and> iv_host_id r = host_id \<and> iv_external_id r = e"
    using assms(1) unfolding w work_ok_def prod.case by blast+
  have own: "iv_host_id r = host_id" if "r \<in> set rows" "e \<in> set ids" "snd e = iv_id r" for r e
  proof -
    note row = that
    have "(fst e, iv_id r) \<in> set ids" using row(2) by (simp add: row(3) [symmetric])
    with ok(1) have "dict_get ids (fst e) = Some (iv_id r)" by (rule map_of_is_SomeI)
    from ok(3) [OF this] obtain q where q: "q \<in> set rows" "iv_id q = iv_id r" "iv_host_id q = host_id" by blast
    moreover have "q = r" using inj_onD [of iv_id "set rows" q r] ok(2) q(1,2) row(1) by (simp add: distinct_map)
    ultimately show ?thesis by simp
  qed
  have "filter (\<lambda>r. iv_host_id r = other) (map f rows) = filter (\<lambda>r. iv_host_id r = other) rows"
    if "\<forall>r \<in> set rows. iv_host_id (f r) = iv_host_id r \<and> (iv_host_id r = other \<longrightarrow> f r = r)" for f
    using that by (induction rows) auto
  note keep = this
  show ?thesis unfolding owner_rows_def expire_rows_def w fst_conv snd_conv
    by (rule keep) (use own assms(2) in auto)
qed

lemma put_dependency_fold_work:
  assumes "fold_result (put_dependency fresh host_id now lease services) items (w, lw) = Inr (d, active, links)"
  shows "d = fold (put_dependency_row fresh host_id now lease) items w"
  using put_dependency_fold [of fresh host_id now lease services items "fst (w, lw)"] assms by simp

text \<open>The rows of one kind once its part of the report is written.\<close>

definition stored :: "(nat \<Rightarrow> uuid) \<Rightarrow> uuid \<Rightarrow> datetime \<Rightarrow> 'i inventory_item_scheme list \<Rightarrow> 'a inventory_row_scheme list
    \<Rightarrow> 'a inventory_row_scheme work \<Rightarrow> bool" where
  "stored fresh host_id lease items rows w \<longleftrightarrow> work_ok fresh host_id w
     \<and> (\<forall>item \<in> set items. has_current host_id lease (it_external_id item) w)
     \<and> (\<forall>other. other \<noteq> host_id \<longrightarrow> owner_rows other (fst (snd w)) = owner_rows other rows)"

context resource_kind
begin

lemma fold_stored:
  "ids_ok fresh rows \<Longrightarrow> inj fresh \<Longrightarrow> stored fresh host_id lease items rows (fold put items (existing host_id rows, rows, n))"
  using fold_ok [OF existing_ok] fold_others [OF existing_ok] unfolding stored_def by force

end

lemma stored_represents:
  "stored fresh host_id lease items rows w \<Longrightarrow> item \<in> set items \<Longrightarrow>
     represents host_id lease (reported (external_ids items) (fst w)) (expire_rows now (external_ids items) (fst w) (fst (snd w)))
       (it_external_id item)"
  unfolding stored_def using represents_current by blast

lemma stored_others:
  "stored fresh host_id lease items rows w \<Longrightarrow> other \<noteq> host_id \<Longrightarrow>
     owner_rows other (expire_rows now included (fst w) (fst (snd w))) = owner_rows other rows"
  unfolding stored_def using expire_others by metis

text \<open>The writing of each kind, from the rows the host has, and the dependencies' links.\<close>

definition active_link :: "uuid \<times> uuid \<Rightarrow> service_dependency list \<Rightarrow> bool" where
  "active_link k links \<longleftrightarrow> (\<exists>l \<in> set links. (sd_service_id l, sd_dependency_id l) = k \<and> sd_active l)"

lemma put_link_keeps: "active_link k links \<Longrightarrow> active_link k (put_link now key links)"
proof -
  assume "active_link k links"
  then obtain l where l: "l \<in> set links" "(sd_service_id l, sd_dependency_id l) = k" "sd_active l" by (auto simp: active_link_def)
  let ?f = "\<lambda>l. if (sd_service_id l, sd_dependency_id l) = key then l\<lparr>sd_last_seen_at := now, sd_active := True\<rparr> else l"
  have "?f l \<in> set (map ?f links)" unfolding set_map using l(1) by (rule imageI)
  moreover have "(sd_service_id (?f l), sd_dependency_id (?f l)) = k \<and> sd_active (?f l)" using l by simp
  ultimately have "active_link k (map ?f links)" unfolding active_link_def by blast
  moreover have "active_link k (links @ xs)" for xs using l by (auto simp: active_link_def)
  ultimately show ?thesis by (simp add: put_link_def)
qed

lemma put_links_keep:
  "put_links now services i exts (active, links) = Inr (active', links') \<Longrightarrow> active_link k links \<Longrightarrow> active_link k links'"
  unfolding put_links_def
  by (induction exts arbitrary: active links)
    (auto simp: bind_result_Inr_iff put_link_keeps split: option.splits)

lemma put_dependencies_keep:
  "fold_result (put_dependency fresh host_id now lease services) items (w, active, links) = Inr (d, active', links') \<Longrightarrow>
     active_link k links \<Longrightarrow> active_link k links'"
  by (induction items arbitrary: w active links)
    (auto simp: bind_result_Inr_iff put_dependency_def Let_def dest: put_links_keep)

lemma store_inventoryE:
  assumes "store_inventory fresh dump host_id report db = Inr (ids, db')" and "inventory_ok fresh db"
    and "now = in_observed_at report" and "lease = now + in_lease_seconds report * second"
  shows "\<exists>s c p d active links sn.
     stored fresh host_id lease (in_services report) (db_services db) s
     \<and> stored fresh host_id lease (in_containers report) (db_containers db) c
     \<and> stored fresh host_id lease (in_processes report) (db_processes db) p
     \<and> stored fresh host_id lease (in_dependencies report) (db_dependencies db) d
     \<and> (\<forall>k. active_link k (db_links db) \<longrightarrow> active_link k links)
     \<and> ids = answer_ids report s c p d
     \<and> db' = (expire_inventory host_id report s c p (d, active, links) db)\<lparr>db_snapshots := sn\<rparr>"
proof -
  have inj: "inj fresh" and ok: "ids_ok fresh (db_services db)" "ids_ok fresh (db_containers db)" "ids_ok fresh (db_processes db)"
    "ids_ok fresh (db_dependencies db)"
    using assms(2) by (simp_all add: inventory_ok_def)
  let ?s = "fold (put_service fresh host_id now lease) (in_services report) (existing host_id (db_services db), db_services db, 0)"
  let ?c = "fold (put_container fresh host_id now lease (fst ?s)) (in_containers report)
     (existing host_id (db_containers db), db_containers db, snd (snd ?s))"
  let ?p = "fold (put_process fresh host_id now lease (fst ?s) (fst ?c)) (in_processes report)
     (existing host_id (db_processes db), db_processes db, snd (snd ?c))"
  obtain d active links where d: "fold_result (put_dependency fresh host_id now lease (fst ?s)) (in_dependencies report)
       ((existing host_id (db_dependencies db), db_dependencies db, snd (snd ?p)), ([], db_links db)) = Inr (d, active, links)"
    and fin: "commit_inventory dump host_id report (answer_ids report ?s ?c ?p d)
        (expire_inventory host_id report ?s ?c ?p (d, active, links) db) = Inr (ids, db')"
    using assms(1) unfolding store_inventory_def Let_def assms(3) [symmetric] assms(4) [symmetric] bind_result_Inr_iff
    by (metis fst_conv surj_pair)
  have "stored fresh host_id lease (in_dependencies report) (db_dependencies db) d"
    unfolding put_dependency_fold_work [OF d] by (rule dependencies.fold_stored [OF ok(4) inj])
  moreover have "\<forall>k. active_link k (db_links db) \<longrightarrow> active_link k links"
    using put_dependencies_keep [OF d] by blast
  moreover obtain sn where "ids = answer_ids report ?s ?c ?p d"
    "db' = (expire_inventory host_id report ?s ?c ?p (d, active, links) db)\<lparr>db_snapshots := sn\<rparr>"
    using fin unfolding commit_inventory_def by (metis Inl_Inr_False Inr_inject prod.inject)
  ultimately show ?thesis
    by (intro exI conjI) (rule services.fold_stored [OF ok(1) inj] containers.fold_stored [OF ok(2) inj]
      processes.fold_stored [OF ok(3) inj] | assumption)+
qed

lemma expired_tables:
  "db_services (expire_inventory host_id report s c p (d, active, links) db)
     = expire_rows (in_observed_at report) (external_ids (in_services report)) (fst s) (fst (snd s))"
  "db_containers (expire_inventory host_id report s c p (d, active, links) db)
     = expire_rows (in_observed_at report) (external_ids (in_containers report)) (fst c) (fst (snd c))"
  "db_processes (expire_inventory host_id report s c p (d, active, links) db)
     = expire_rows (in_observed_at report) (external_ids (in_processes report)) (fst p) (fst (snd p))"
  "db_dependencies (expire_inventory host_id report s c p (d, active, links) db)
     = expire_rows (in_observed_at report) (external_ids (in_dependencies report)) (fst d) (fst (snd d))"
  "db_links (expire_inventory host_id report s c p (d, active, links) db)
     = expire_links (in_observed_at report) (fst d) (fst (snd d)) active links"
  by (simp_all add: expire_inventory_def Let_def)

text \<open>
  C20. A stored inventory answers every reported resource: its external id maps to the id of an
  active row of the agent's host that carries this external id and a lease renewed to the report's
  time plus the lease seconds. This holds for all four kinds, also when a process id is reused.
\<close>

theorem reported_resources_are_current:
  assumes "store_inventory fresh dump host_id report db = Inr (ids, db')" and "inventory_ok fresh db"
    and "lease = in_observed_at report + in_lease_seconds report * second"
  shows "(\<forall>item \<in> set (in_services report). represents host_id lease (ri_services ids) (db_services db') (it_external_id item))
       \<and> (\<forall>item \<in> set (in_containers report). represents host_id lease (ri_containers ids) (db_containers db') (it_external_id item))
       \<and> (\<forall>item \<in> set (in_processes report). represents host_id lease (ri_processes ids) (db_processes db') (it_external_id item))
       \<and> (\<forall>item \<in> set (in_dependencies report). represents host_id lease (ri_dependencies ids) (db_dependencies db') (it_external_id item))"
proof -
  obtain s c p d active links sn where
    st: "stored fresh host_id lease (in_services report) (db_services db) s"
      "stored fresh host_id lease (in_containers report) (db_containers db) c"
      "stored fresh host_id lease (in_processes report) (db_processes db) p"
      "stored fresh host_id lease (in_dependencies report) (db_dependencies db) d"
    and eq: "ids = answer_ids report s c p d"
      "db' = (expire_inventory host_id report s c p (d, active, links) db)\<lparr>db_snapshots := sn\<rparr>"
    using store_inventoryE [OF assms(1,2) refl assms(3)] by blast
  show ?thesis
    using st [THEN stored_represents] by (simp add: eq answer_ids_def expired_tables)
qed

text \<open>
  Storing a host's inventory leaves the rows of every other host exactly as they are, in all
  four tables, even when both hosts use the same external ids.
\<close>

theorem other_hosts_untouched:
  assumes "store_inventory fresh dump host_id report db = Inr (ids, db')" and "inventory_ok fresh db" and "other \<noteq> host_id"
  shows "owner_rows other (db_services db') = owner_rows other (db_services db)
       \<and> owner_rows other (db_containers db') = owner_rows other (db_containers db)
       \<and> owner_rows other (db_processes db') = owner_rows other (db_processes db)
       \<and> owner_rows other (db_dependencies db') = owner_rows other (db_dependencies db)"
proof -
  obtain lease where lease: "lease = in_observed_at report + in_lease_seconds report * second" by simp
  obtain s c p d active links sn where
    st: "stored fresh host_id lease (in_services report) (db_services db) s"
      "stored fresh host_id lease (in_containers report) (db_containers db) c"
      "stored fresh host_id lease (in_processes report) (db_processes db) p"
      "stored fresh host_id lease (in_dependencies report) (db_dependencies db) d"
    and "db' = (expire_inventory host_id report s c p (d, active, links) db)\<lparr>db_snapshots := sn\<rparr>"
    using store_inventoryE [OF assms(1,2) refl lease] by blast
  then show ?thesis
    using st [THEN stored_others, OF assms(3)] by (simp add: expired_tables)
qed

text \<open>
  A link from a service to a dependency that the host stops reporting stays active as long as
  the dependency itself is reported: every report renews the dependency's lease, and a link is
  deactivated only when that lease is over.
\<close>

theorem stale_link_stays_active:
  assumes "store_inventory fresh dump host_id report db = Inr (ids, db')" and "inventory_ok fresh db"
    and "0 < in_lease_seconds report" and "item \<in> set (in_dependencies report)"
    and "dict_get (ri_dependencies ids) (it_external_id item) = Some dependency"
    and "active_link (service, dependency) (db_links db)"
  shows "active_link (service, dependency) (db_links db')"
proof -
  let ?now = "in_observed_at report"
  obtain lease where lease: "lease = ?now + in_lease_seconds report * second" by simp
  obtain s c p d active links sn where st: "stored fresh host_id lease (in_dependencies report) (db_dependencies db) d"
    and links: "\<forall>k. active_link k (db_links db) \<longrightarrow> active_link k links"
    and eq: "ids = answer_ids report s c p d" "db' = (expire_inventory host_id report s c p (d, active, links) db)\<lparr>db_snapshots := sn\<rparr>"
    using store_inventoryE [OF assms(1,2) refl lease] by blast
  have "has_current host_id lease (it_external_id item) d" and ok: "work_ok fresh host_id d"
    using st assms(4) unfolding stored_def by blast+
  then obtain i r where i: "dict_get (fst d) (it_external_id item) = Some i" "r \<in> set (fst (snd d))" "iv_id r = i"
    "iv_lease_expires_at r = lease"
    unfolding has_current_def current_row_def by (auto split: prod.splits)
  have "dict_get (filter (\<lambda>e. fst e \<in> set (external_ids (in_dependencies report))) m) (it_external_id item)
      = dict_get m (it_external_id item)" for m :: resource_map
    using assms(4) by (induction m) auto
  then have "i = dependency" using assms(5) i(1) by (simp add: eq(1) answer_ids_def reported_def)
  moreover have "distinct (map iv_id (fst (snd d)))" using ok unfolding work_ok_def by (auto split: prod.splits)
  ultimately have one: "q = r" if "q \<in> set (fst (snd d))" "iv_id q = dependency" for q
    using i(2,3) that by (auto simp: distinct_map inj_on_def)
  obtain l where l: "l \<in> set links" "(sd_service_id l, sd_dependency_id l) = (service, dependency)" "sd_active l"
    using links assms(6) unfolding active_link_def by blast
  have "?now < lease" using lease assms(3) by (simp add: second_def)
  then have "l \<in> set (expire_links ?now (fst d) (fst (snd d)) active links)"
    using l(1,2) one i(4) unfolding expire_links_def by (fastforce simp: image_iff intro: bexI [of _ l])
  then show ?thesis unfolding active_link_def eq(2) using l by (auto simp: expired_tables)
qed

section \<open>Examples\<close>

definition demo_item :: "pystr \<Rightarrow> inventory_item" where
  "demo_item ext = \<lparr>it_external_id = ext, it_name = ext, it_attributes = []\<rparr>"

definition demo_inventory :: "int \<Rightarrow> inventory" where
  "demo_inventory pid = \<lparr>in_observed_at = 0, in_lease_seconds = 60, in_services = [demo_item ''web''],
     in_containers = [],
     in_processes = [inventory_item.extend (demo_item ''worker'') \<lparr>ip_boot_id = ''boot'', ip_pid = pid, ip_start_time_ticks = 1,
       ip_command = None, ip_service_external_id = Some ''web'', ip_container_external_id = None\<rparr>],
     in_dependencies = [inventory_item.extend (demo_item ''pg'') \<lparr>id_kind = ''postgres'', id_service_external_ids = []\<rparr>]\<rparr>"

definition demo_id :: "nat \<Rightarrow> uuid" where
  "demo_id n = replicate (Suc n) CHR ''n''"

lemma inj_demo_id: "inj demo_id"
  unfolding demo_id_def by (intro injI) (metis Suc_inject length_replicate)

definition demo_stored :: database where
  "demo_stored = empty_database
     \<lparr>db_services := [new_service ''h'' 0 ''web'' ''s''], db_dependencies := [new_dependency ''h'' 0 ''pg'' ''d''],
      db_processes := [(new_process ''h'' 0 ''worker'' ''p'')\<lparr>pr_boot_id := ''boot'', pr_pid := 7, pr_start_time_ticks := 1\<rparr>,
        new_process ''other'' 0 ''worker'' ''q''],
      db_links := [\<lparr>sd_service_id = ''s'', sd_dependency_id = ''d'', sd_first_seen_at = 0, sd_last_seen_at = 0, sd_active = True\<rparr>]\<rparr>"

lemma demo_id_fresh [simp]: "demo_id n \<noteq> CHR ''s'' # xs" "demo_id n \<noteq> CHR ''d'' # xs" "demo_id n \<noteq> CHR ''p'' # xs" "demo_id n \<noteq> CHR ''q'' # xs"
  by (simp_all add: demo_id_def)

lemma demo_inventory_ok: "inventory_ok demo_id demo_stored"
  by (simp add: inventory_ok_def inj_demo_id ids_ok_def demo_stored_def empty_database_def new_service_def new_dependency_def
      new_process_def)

definition demo_answer :: "resource_ids \<times> database" where
  "demo_answer = (case store_inventory demo_id (\<lambda>_. JNull) ''h'' (demo_inventory 8) demo_stored of Inr r \<Rightarrow> r)"

lemma demo_answer: "store_inventory demo_id (\<lambda>_. JNull) ''h'' (demo_inventory 8) demo_stored = Inr (fst demo_answer, snd demo_answer)"
  by code_simp

theorem reported_resources_are_current_witness:
  "represents ''h'' (60 * second) (ri_processes (fst demo_answer)) (db_processes (snd demo_answer)) ''worker''
   \<and> dict_get (ri_processes (fst demo_answer)) ''worker'' \<noteq> Some ''p''"
proof
  show "represents ''h'' (60 * second) (ri_processes (fst demo_answer)) (db_processes (snd demo_answer)) ''worker''"
    using reported_resources_are_current [OF demo_answer demo_inventory_ok, of "60 * second"]
    by (simp add: demo_inventory_def demo_item_def inventory_item.defs)
  show "dict_get (ri_processes (fst demo_answer)) ''worker'' \<noteq> Some ''p''" by code_simp
qed

theorem other_hosts_untouched_witness:
  "owner_rows ''other'' (db_processes (snd demo_answer)) = [new_process ''other'' 0 ''worker'' ''q'']"
  using other_hosts_untouched [OF demo_answer demo_inventory_ok, of "''other''"]
  by (simp add: demo_stored_def owner_rows_def new_process_def)

theorem stale_link_stays_active_witness:
  "active_link (''s'', ''d'') (db_links (snd demo_answer))"
proof (rule stale_link_stays_active [OF demo_answer demo_inventory_ok])
  show "inventory_item.extend (demo_item ''pg'') \<lparr>id_kind = ''postgres'', id_service_external_ids = []\<rparr>
      \<in> set (in_dependencies (demo_inventory 8))"
    by (simp add: demo_inventory_def)
  show "dict_get (ri_dependencies (fst demo_answer)) (it_external_id
      (inventory_item.extend (demo_item ''pg'') \<lparr>id_kind = ''postgres'', id_service_external_ids = []\<rparr>)) = Some ''d''"
    by code_simp
  show "active_link (''s'', ''d'') (db_links demo_stored)" by (simp add: active_link_def demo_stored_def)
qed (simp add: demo_inventory_def)

end
