(* ===== verification/Metric_Query.thy ===== *)
theory Metric_Query
  imports Maintenance Ingestion
begin

text \<open>
  The metric endpoints of \<open>server/temporalrca_server/api.py\<close>: resolving the series a query asks for,
  the choice of a bucket size, and the two ways to aggregate, from raw samples or from the
  five-minute rollups spliced with the raw samples the maintenance has not closed yet.
\<close>

section \<open>Buckets\<close>

definition buckets :: "int list" where
  "buckets = [1, 2, 5, 10, 15, 30, 60, 120, 300, 600, 900, 1800, 3600, 7200, 21600, 43200, 86400]"

definition select_bucket_seconds :: "datetime \<Rightarrow> datetime \<Rightarrow> int \<Rightarrow> int" where
  "select_bucket_seconds start stop max_points =
     (let needed = max 1 \<lceil>of_int (stop - start) / of_int second / (of_int max_points :: pyfloat)\<rceil>
      in case find (\<lambda>b. needed \<le> b) buckets of Some b \<Rightarrow> b | None \<Rightarrow> last buckets)"

text \<open>\<open>int(t.timestamp())\<close> truncates towards zero; the slot is that second rounded down to a bucket.\<close>

definition int_seconds :: "datetime \<Rightarrow> int" where
  "int_seconds t = (if 0 \<le> t then t div second else - (- t div second))"

definition slot :: "int \<Rightarrow> datetime \<Rightarrow> int" where
  "slot bucket_seconds t = int_seconds t div bucket_seconds * bucket_seconds"

section \<open>The series of a query\<close>

datatype aggregation = Auto | Raw | FiveMinutes

record metric_query =
  mq_start :: datetime
  mq_end :: datetime
  mq_series_ids :: "nat list"
  mq_metric :: "pystr option"
  mq_host_id :: "uuid option"
  mq_service_id :: "uuid option"
  mq_process_id :: "uuid option"
  mq_dependency_id :: "uuid option"
  mq_container_id :: "uuid option"
  mq_aggregation :: aggregation
  mq_max_points :: int

definition wanted :: "'a option \<Rightarrow> 'a option \<Rightarrow> bool" where
  "wanted v column = (case v of None \<Rightarrow> True | Some x \<Rightarrow> column = Some x)"

definition metric_container_ids :: "uuid \<Rightarrow> database \<Rightarrow> uuid list" where
  "metric_container_ids container_id db =
     (case find (\<lambda>c. iv_id c = container_id) (db_containers db) of
        None \<Rightarrow> [container_id]
      | Some current \<Rightarrow> map iv_id (filter (\<lambda>c. iv_host_id c = iv_host_id current \<and> iv_name c = iv_name current)
          (db_containers db)))"

definition series_wanted :: "metric_query \<Rightarrow> database \<Rightarrow> metric_series \<Rightarrow> metric_definition \<Rightarrow> bool" where
  "series_wanted q db s d \<longleftrightarrow>
     wanted (mq_metric q) (Some (md_name d)) \<and> wanted (mq_host_id q) (Some (ms_host_id s))
     \<and> wanted (mq_service_id q) (ms_service_id s) \<and> wanted (mq_process_id q) (ms_process_id s)
     \<and> wanted (mq_dependency_id q) (ms_dependency_id s)
     \<and> (case mq_container_id q of None \<Rightarrow> True
        | Some c \<Rightarrow> (case ms_container_id s of None \<Rightarrow> False | Some i \<Rightarrow> i \<in> set (metric_container_ids c db)))"

definition query_ids :: "metric_query \<Rightarrow> database \<Rightarrow> nat list" where
  "query_ids q db = concat (map (\<lambda>s.
     map (\<lambda>_. ms_id s) (filter (\<lambda>d. md_id d = ms_metric_definition_id s
         \<and> (mq_series_ids q = [] \<or> ms_id s \<in> set (mq_series_ids q)) \<and> series_wanted q db s d)
       (trows (db_definitions db)))) (trows (db_series db)))"

section \<open>Grouping\<close>

record point =
  po_min :: pyfloat
  po_max :: pyfloat
  po_sum :: pyfloat
  po_count :: nat
  po_last :: pyfloat
  po_last_timestamp :: datetime

definition rollup_point :: "metric_rollup \<Rightarrow> point" where
  "rollup_point r = \<lparr>po_min = mr_minimum r, po_max = mr_maximum r, po_sum = mr_sum r, po_count = mr_count r,
     po_last = mr_last r, po_last_timestamp = mr_last_timestamp r\<rparr>"

definition sample_point :: "metric_sample \<Rightarrow> point" where
  "sample_point s = \<lparr>po_min = sm_value s, po_max = sm_value s, po_sum = sm_value s, po_count = 1,
     po_last = sm_value s, po_last_timestamp = sm_timestamp s\<rparr>"

definition merge_point :: "point \<Rightarrow> point \<Rightarrow> point" where
  "merge_point p new =
     \<lparr>po_min = min (po_min p) (po_min new), po_max = max (po_max p) (po_max new),
      po_sum = po_sum p + po_sum new, po_count = po_count p + po_count new,
      po_last = (if po_last_timestamp p \<le> po_last_timestamp new then po_last new else po_last p),
      po_last_timestamp = (if po_last_timestamp p \<le> po_last_timestamp new then po_last_timestamp new
        else po_last_timestamp p)\<rparr>"

type_synonym 'p grouped = "(nat \<times> int, 'p) dict"

text \<open>\<open>setdefault\<close> with zero sum and count, then the updates in place.\<close>

definition add_point :: "nat \<times> int \<Rightarrow> point \<Rightarrow> point grouped \<Rightarrow> point grouped" where
  "add_point key new grouped =
     (let d = dict_setdefault key (new\<lparr>po_sum := 0, po_count := 0\<rparr>) grouped
      in dict_set key (merge_point (the (dict_get d key)) new) d)"

definition rollup_entries :: "int \<Rightarrow> nat list \<Rightarrow> datetime \<Rightarrow> datetime \<Rightarrow> database \<Rightarrow> ((nat \<times> int) \<times> point) list" where
  "rollup_entries bucket_seconds ids start stop db =
     map (\<lambda>r. ((mr_series_id r, slot bucket_seconds (mr_bucket r)), rollup_point r))
       (sort_key mr_bucket (filter (\<lambda>r. mr_series_id r \<in> set ids \<and> start \<le> mr_bucket r \<and> mr_bucket r < stop)
          (db_metric_rollups db)))"

definition window_samples :: "nat list \<Rightarrow> datetime \<Rightarrow> datetime \<Rightarrow> database \<Rightarrow> metric_sample list" where
  "window_samples ids start stop db =
     sort_key sm_timestamp (filter (\<lambda>s. sm_series_id s \<in> set ids \<and> start \<le> sm_timestamp s \<and> sm_timestamp s < stop)
       (db_samples db))"

definition sample_group :: "int \<Rightarrow> metric_sample \<Rightarrow> nat \<times> int" where
  "sample_group bucket_seconds s = (sm_series_id s, slot bucket_seconds (sm_timestamp s))"

definition add_points :: "((nat \<times> int) \<times> point) list \<Rightarrow> point grouped \<Rightarrow> point grouped" where
  "add_points entries grouped = fold (\<lambda>(key, p). add_point key p) entries grouped"

definition spliced_groups ::
  "int \<Rightarrow> nat list \<Rightarrow> datetime \<Rightarrow> datetime \<Rightarrow> datetime \<Rightarrow> bool \<Rightarrow> database \<Rightarrow> point grouped" where
  "spliced_groups bucket_seconds ids start rollup_end stop live db =
     (let grouped = add_points (rollup_entries bucket_seconds ids start rollup_end db) []
      in if live \<and> rollup_end < stop
         then add_points (map (\<lambda>s. (sample_group bucket_seconds s, sample_point s))
                (window_samples ids (max start rollup_end) stop db)) grouped
         else grouped)"

definition add_sample :: "int \<Rightarrow> metric_sample \<Rightarrow> metric_sample list grouped \<Rightarrow> metric_sample list grouped" where
  "add_sample bucket_seconds s grouped =
     (let key = sample_group bucket_seconds s; d = dict_setdefault key [] grouped
      in dict_set key (the (dict_get d key) @ [s]) d)"

definition raw_groups :: "int \<Rightarrow> metric_sample list \<Rightarrow> metric_sample list grouped" where
  "raw_groups bucket_seconds samples = fold (add_sample bucket_seconds) samples []"

section \<open>The answer\<close>

record answer_point =
  ap_timestamp :: datetime
  ap_min :: pyfloat
  ap_max :: pyfloat
  ap_average :: pyfloat
  ap_last :: pyfloat
  ap_count :: nat

text \<open>\<open>max(samples, key=timestamp)\<close> is the first of the latest.\<close>

definition newest :: "metric_sample list \<Rightarrow> metric_sample" where
  "newest g = fold (\<lambda>s best. if sm_timestamp best < sm_timestamp s then s else best) (tl g) (hd g)"

definition answer_of_point :: "int \<Rightarrow> point \<Rightarrow> answer_point" where
  "answer_of_point sl p = \<lparr>ap_timestamp = sl * second, ap_min = po_min p, ap_max = po_max p,
     ap_average = po_sum p / of_nat (po_count p), ap_last = po_last p, ap_count = po_count p\<rparr>"

definition answer_of_samples :: "int \<Rightarrow> metric_sample list \<Rightarrow> answer_point" where
  "answer_of_samples sl g = \<lparr>ap_timestamp = sl * second, ap_min = Min (sm_value ` set g), ap_max = Max (sm_value ` set g),
     ap_average = sum_list (map sm_value g) / of_nat (length g), ap_last = sm_value (newest g), ap_count = length g\<rparr>"

type_synonym metric_answer = "int \<times> (nat \<times> answer_point list) list"

definition answer_series :: "(int \<Rightarrow> 'p \<Rightarrow> answer_point) \<Rightarrow> nat list \<Rightarrow> 'p grouped \<Rightarrow> (nat \<times> answer_point list) list" where
  "answer_series answer ids grouped =
     map (\<lambda>sid. (sid, map (\<lambda>((_, sl), p). answer sl p) (filter (\<lambda>((series, _), _). series = sid) grouped))) ids"

definition rollup_limit :: "retention \<Rightarrow> datetime \<Rightarrow> metric_query \<Rightarrow> datetime" where
  "rollup_limit rs now q =
     (if mq_aggregation q = Auto then min (mq_end q) (floor_five (now - rs_rollup_lateness_minutes rs * minute))
      else mq_end q)"

definition query_metrics :: "retention \<Rightarrow> datetime \<Rightarrow> metric_query \<Rightarrow> database \<Rightarrow> failure + metric_answer" where
  "query_metrics rs now q db =
     (if mq_end q \<le> mq_start q then Inl (HTTPException 422 ''end must be after start'')
      else let chosen = select_bucket_seconds (mq_start q) (mq_end q) (mq_max_points q);
               ids = query_ids q db
        in if ids = [] then Inr (chosen, [])
           else if mq_aggregation q = FiveMinutes \<or> mq_aggregation q = Auto \<and> 300 \<le> chosen
           then let width = max 300 chosen
             in Inr (width, answer_series answer_of_point ids
                  (spliced_groups width ids (mq_start q) (rollup_limit rs now q) (mq_end q) (mq_aggregation q = Auto) db))
           else Inr (chosen, answer_series answer_of_samples ids
                  (raw_groups chosen (window_samples ids (mq_start q) (mq_end q) db))))"

section \<open>Catalogue\<close>

definition metric_catalog :: "database \<Rightarrow> (metric_definition \<times> nat) list" where
  "metric_catalog db = map (\<lambda>d. (d, length (filter (\<lambda>s. ms_metric_definition_id s = md_id d) (trows (db_series db)))))
     (sort_key md_name (trows (db_definitions db)))"

definition list_series :: "metric_query \<Rightarrow> database \<Rightarrow> (metric_series \<times> metric_definition) list" where
  "list_series q db = concat (map (\<lambda>s.
     map (\<lambda>d. (s, d)) (filter (\<lambda>d. md_id d = ms_metric_definition_id s \<and> series_wanted q db s d)
       (trows (db_definitions db)))) (trows (db_series db)))"

end
