(* ===== verification/Metric_Splice.thy ===== *)
theory Metric_Splice
  imports Metric_Query "HOL-Library.Multiset"
begin

text \<open>
  The spliced answer of \<open>query_metrics\<close>, rollups up to a limit and raw samples after it, is the
  answer the raw samples alone would give if none had been dropped. A point of the dictionary stands
  for the samples that went into it; the two dictionaries list the same slots in the same order.
\<close>

section \<open>What a point stands for\<close>

definition is_latest :: "metric_sample list \<Rightarrow> metric_sample \<Rightarrow> bool" where
  "is_latest g s \<longleftrightarrow> s \<in> set g \<and> (\<forall>x \<in> set g. sm_timestamp x \<le> sm_timestamp s)"

definition stands_for :: "metric_sample list \<Rightarrow> point \<Rightarrow> bool" where
  "stands_for g p \<longleftrightarrow> g \<noteq> [] \<and> po_min p = Min (sm_value ` set g) \<and> po_max p = Max (sm_value ` set g)
     \<and> po_sum p = sum_list (map sm_value g) \<and> po_count p = length g
     \<and> (\<exists>s. is_latest g s \<and> po_last p = sm_value s \<and> po_last_timestamp p = sm_timestamp s)"

lemma stands_for_merge:
  assumes "stands_for g p" and "stands_for h q"
  shows "stands_for (g @ h) (merge_point p q)"
proof -
  obtain s t where s: "is_latest g s" "po_last p = sm_value s" "po_last_timestamp p = sm_timestamp s"
    and t: "is_latest h t" "po_last q = sm_value t" "po_last_timestamp q = sm_timestamp t"
    using assms unfolding stands_for_def by blast
  have "is_latest (g @ h) (if sm_timestamp s \<le> sm_timestamp t then t else s)"
    using s(1) t(1) unfolding is_latest_def by (auto intro: order_trans)
  then show ?thesis
    using assms s t unfolding stands_for_def merge_point_def
    by (auto simp: Min_Un Max_Un image_Un intro!: exI [of _ "if sm_timestamp s \<le> sm_timestamp t then t else s"])
qed

lemma stands_for_sample: "stands_for [s] (sample_point s)"
  by (simp add: stands_for_def sample_point_def is_latest_def)

lemma stands_for_mset:
  assumes "mset g = mset h" and "stands_for g p"
  shows "stands_for h p"
proof -
  have "set g = set h" and "length g = length h" and "sum_list (map sm_value g) = sum_list (map sm_value h)"
    using assms(1) by (metis set_mset_mset, metis size_mset, metis mset_map sum_mset_sum_list)
  moreover have "h \<noteq> []" using assms by (auto simp: stands_for_def)
  ultimately show ?thesis using assms(2) by (simp add: stands_for_def is_latest_def)
qed

lemma fold_best:
  assumes "\<And>a b. better a b \<Longrightarrow> sm_timestamp b \<le> sm_timestamp a" and "\<And>a b. \<not> better a b \<Longrightarrow> sm_timestamp a \<le> sm_timestamp b"
  shows "is_latest (b # xs) (fold (\<lambda>s best. if better s best then s else best) xs b)"
proof (induction xs arbitrary: b)
  case (Cons x xs)
  show ?case
    using Cons.IH [of x] Cons.IH [of b] assms(1) [of x b] assms(2) [of x b]
    by (auto simp: is_latest_def intro: order_trans)
qed (simp add: is_latest_def)

lemma latest_is_latest: "g \<noteq> [] \<Longrightarrow> is_latest g (latest g)"
  using fold_best [of later "hd g" "tl g"] by (force simp: latest_def later_def)

lemma newest_is_latest: "g \<noteq> [] \<Longrightarrow> is_latest g (newest g)"
  using fold_best [of "\<lambda>s best. sm_timestamp best < sm_timestamp s" "hd g" "tl g"] by (simp add: newest_def)

lemma stands_for_rollup:
  assumes "g \<noteq> []"
  shows "stands_for g (rollup_point (metric_rollup_row c k g))"
proof -
  have "Max (sm_timestamp ` set g) = sm_timestamp (latest g)"
    using latest_is_latest [OF assms] by (intro Max_eqI) (auto simp: is_latest_def)
  then show ?thesis
    using assms latest_is_latest [OF assms]
    by (auto simp: stands_for_def rollup_point_def metric_rollup_row_def)
qed

text \<open>With at most one sample of a series per instant the aggregates determine the answer.\<close>

lemma answer_of_point_eq:
  assumes "stands_for g p" and "mset g = mset h" and "inj_on sm_timestamp (set h)"
  shows "answer_of_point sl p = answer_of_samples sl h"
proof -
  have h: "stands_for h p" by (rule stands_for_mset [OF assms(2,1)])
  then obtain s where s: "is_latest h s" "po_last p = sm_value s" unfolding stands_for_def by blast
  have "h \<noteq> []" using h by (simp add: stands_for_def)
  then have "is_latest h (newest h)" by (rule newest_is_latest)
  with s(1) have "s \<in> set h" "newest h \<in> set h" "sm_timestamp s = sm_timestamp (newest h)"
    by (auto simp: is_latest_def intro: antisym)
  then have "s = newest h" using assms(3) by (simp add: inj_on_eq_iff)
  then show ?thesis using h s(2) by (simp add: answer_of_point_def answer_of_samples_def stands_for_def)
qed

section \<open>The keys of the dictionaries\<close>

definition touch_key :: "'k \<Rightarrow> 'k list \<Rightarrow> 'k list" where
  "touch_key key ks = (if key \<in> set ks then ks else ks @ [key])"

lemma touch_keys:
  "set (fold touch_key ks acc) = set acc \<union> set ks"
  "distinct acc \<Longrightarrow> distinct (fold touch_key ks acc)"
  by (induction ks arbitrary: acc) (auto simp: touch_key_def)

lemma touch_keys_sorted:
  "sorted (map snd (acc @ ks)) \<Longrightarrow> sorted (map snd (fold touch_key ks acc))"
proof (induction ks arbitrary: acc)
  case (Cons k ks)
  have "sorted (map snd (touch_key k acc @ ks))"
    using Cons.prems by (auto simp: touch_key_def sorted_append)
  then show ?case using Cons.IH by simp
qed simp

lemma dict_set_default_keys: "map fst (dict_set key v (dict_setdefault key w d)) = touch_key key (map fst d)"
  by (auto simp: dict_set_keys dict_setdefault_def touch_key_def image_iff)

lemma add_point_keys: "map fst (add_point key p d) = touch_key key (map fst d)"
  by (simp add: add_point_def Let_def dict_set_default_keys)

lemma add_points_keys: "map fst (add_points es d) = fold touch_key (map fst es) (map fst d)"
  by (induction es arbitrary: d) (auto simp: add_points_def add_point_keys)

lemma add_sample_keys: "map fst (add_sample b s d) = touch_key (sample_group b s) (map fst d)"
  by (simp add: add_sample_def Let_def dict_set_default_keys)

lemma raw_groups_keys: "map fst (raw_groups b samples) = fold touch_key (map (sample_group b) samples) []"
proof -
  have "map fst (fold (add_sample b) samples d) = fold touch_key (map (sample_group b) samples) (map fst d)" for d
    by (induction samples arbitrary: d) (simp_all add: add_sample_keys)
  then show ?thesis by (simp add: raw_groups_def)
qed

lemma sorted_keys_unique:
  fixes xs ys :: "(nat \<times> int) list"
  assumes "distinct xs" "distinct ys" "sorted (map snd xs)" "sorted (map snd ys)"
    and "\<And>sl. (sid, sl) \<in> set xs \<longleftrightarrow> (sid, sl) \<in> set ys"
  shows "filter (\<lambda>k. fst k = sid) xs = filter (\<lambda>k. fst k = sid) ys"
proof -
  let ?f = "filter (\<lambda>k. fst k = sid)"
  have inj: "inj_on snd (set (?f zs))" for zs :: "(nat \<times> int) list"
    by (auto intro!: inj_onI)
  have "set (map snd (?f xs)) = set (map snd (?f ys))" using assms(5) by force
  moreover have "sorted (map snd (?f xs))" "sorted (map snd (?f ys))"
    using assms(3,4) by (simp_all add: sorted_filter)
  moreover have "distinct (map snd (?f xs))" "distinct (map snd (?f ys))"
    using assms(1,2) inj by (simp_all add: distinct_map)
  ultimately have "map snd (?f xs) = map snd (?f ys)" by (simp add: sorted_distinct_set_unique)
  moreover have "?f zs = map (Pair sid) (map snd (?f zs))" for zs :: "(nat \<times> int) list"
    by (induction zs) auto
  ultimately show ?thesis by metis
qed

lemma answer_series_keys:
  assumes "dict_ok d"
  shows "map (\<lambda>((_, sl), p). answer sl p) (filter (\<lambda>((series, _), _). series = sid) d)
       = map (\<lambda>k. answer (snd k) (the (dict_get d k))) (filter (\<lambda>k. fst k = sid) (map fst d))"
proof -
  have "map (\<lambda>((_, sl), p). answer sl p) (filter (\<lambda>((series, _), _). series = sid) e)
      = map (\<lambda>k. answer (snd k) (the (dict_get d k))) (filter (\<lambda>k. fst k = sid) (map fst e))"
    if "set e \<subseteq> set d" for e
    using that
  proof (induction e)
    case (Cons x e)
    then have "dict_get d (fst x) = Some (snd x)" using assms by simp
    then show ?case using Cons by (auto split: prod.splits)
  qed simp
  then show ?thesis by simp
qed

section \<open>What the dictionaries hold\<close>

definition tracked :: "point option \<Rightarrow> metric_sample list \<Rightarrow> bool" where
  "tracked p g = (case p of None \<Rightarrow> g = [] | Some q \<Rightarrow> stands_for g q)"

lemma tracked_simps [simp]: "tracked None g \<longleftrightarrow> g = []" "tracked (Some q) g \<longleftrightarrow> stands_for g q"
  by (simp_all add: tracked_def)

definition tracks :: "point grouped \<Rightarrow> (nat \<times> int \<Rightarrow> metric_sample list) \<Rightarrow> bool" where
  "tracks d f \<longleftrightarrow> dict_ok d \<and> (\<forall>key. tracked (dict_get d key) (f key))"

lemma merge_zeroed [simp]: "merge_point (p\<lparr>po_sum := 0, po_count := 0\<rparr>) p = p"
  by (simp add: merge_point_def)

lemma add_point_get:
  "dict_get (add_point key p d) k = (if k = key
     then Some (case dict_get d key of None \<Rightarrow> p | Some old \<Rightarrow> merge_point old p) else dict_get d k)"
proof (cases "dict_get d key")
  case None
  then have "key \<notin> fst ` set d" by (simp add: map_of_eq_None_iff)
  with None show ?thesis by (simp add: add_point_def AList.update_conv' dict_setdefault_get)
next
  case (Some old)
  then have "key \<in> fst ` set d" by (metis dict_get_keys option.distinct(1))
  with Some show ?thesis by (simp add: add_point_def AList.update_conv' dict_setdefault_get)
qed

lemma tracks_add_point:
  assumes "tracks d f" and "stands_for g p"
  shows "tracks (add_point key p d) (f(key := f key @ g))"
proof -
  have "dict_ok (add_point key p d)" using assms(1) by (simp add: add_point_def Let_def tracks_def)
  moreover have "stands_for (f key @ g) (case dict_get d key of None \<Rightarrow> p | Some old \<Rightarrow> merge_point old p)"
  proof -
    have "tracked (dict_get d key) (f key)"
      using assms(1) unfolding tracks_def by blast
    then show ?thesis using assms(2) by (cases "dict_get d key") (simp_all add: stands_for_merge)
  qed
  ultimately show ?thesis using assms(1) by (simp add: tracks_def add_point_get)
qed

lemma tracks_add_points:
  assumes "tracks d f" and "\<forall>x \<in> set xs. stands_for (G x) (P x)"
  shows "tracks (add_points (map (\<lambda>x. (K x, P x)) xs) d) (\<lambda>key. f key @ concat (map G (filter (\<lambda>x. K x = key) xs)))"
  using assms
proof (induction xs arbitrary: d f)
  case (Cons x xs)
  have "tracks (add_point (K x) (P x) d) (f(K x := f (K x) @ G x))"
    using Cons.prems by (intro tracks_add_point) simp_all
  from Cons.IH [OF this] Cons.prems(2)
  have "tracks (add_points (map (\<lambda>x. (K x, P x)) xs) (add_point (K x) (P x) d))
      (\<lambda>key. (f(K x := f (K x) @ G x)) key @ concat (map G (filter (\<lambda>x. K x = key) xs)))"
    by simp
  moreover have "(\<lambda>key. (f(K x := f (K x) @ G x)) key @ concat (map G (filter (\<lambda>x. K x = key) xs)))
      = (\<lambda>key. f key @ concat (map G (filter (\<lambda>y. K y = key) (x # xs))))"
    by (simp add: fun_eq_iff)
  ultimately show ?case by (simp add: add_points_def)
qed (simp add: add_points_def)

lemma add_sample_get:
  "dict_get (add_sample b s d) k = (if k = sample_group b s
     then Some (case dict_get d (sample_group b s) of None \<Rightarrow> [s] | Some g \<Rightarrow> g @ [s]) else dict_get d k)"
proof (cases "dict_get d (sample_group b s)")
  case None
  then have "sample_group b s \<notin> fst ` set d" by (simp add: map_of_eq_None_iff)
  with None show ?thesis by (simp add: add_sample_def Let_def AList.update_conv' dict_setdefault_get)
next
  case (Some old)
  then have "sample_group b s \<in> fst ` set d" by (metis dict_get_keys option.distinct(1))
  with Some show ?thesis by (simp add: add_sample_def Let_def AList.update_conv' dict_setdefault_get)
qed

lemma raw_groups_get:
  "dict_ok (raw_groups b samples)
   \<and> dict_get (raw_groups b samples) key
     = (let g = filter (\<lambda>s. sample_group b s = key) samples in if g = [] then None else Some g)"
proof (induction samples arbitrary: key rule: rev_induct)
  case (snoc s samples)
  have "raw_groups b (samples @ [s]) = add_sample b s (raw_groups b samples)" by (simp add: raw_groups_def)
  moreover have "dict_ok (add_sample b s d)" if "dict_ok d" for d
    using that by (simp add: add_sample_def Let_def)
  ultimately show ?case using snoc.IH by (auto simp: add_sample_get Let_def)
qed (simp add: raw_groups_def)

section \<open>The samples behind the rollups\<close>

lemma mset_filter_disjoint:
  assumes "\<And>x. x \<in># M \<Longrightarrow> R x \<longleftrightarrow> P x \<or> Q x" and "\<And>x. x \<in># M \<Longrightarrow> \<not> (P x \<and> Q x)"
  shows "filter_mset P M + filter_mset Q M = filter_mset R M"
  using assms by (induction M) auto

lemma groups_of_rows:
  "distinct (map row_key rows) \<Longrightarrow>
     mset (concat (map (\<lambda>r. filter (\<lambda>s. group_key s = row_key r) samples) rows))
       = filter_mset (\<lambda>s. group_key s \<in> row_key ` set rows) (mset samples)"
proof (induction rows)
  case (Cons r rows)
  have "filter_mset (\<lambda>s. group_key s = row_key r) (mset samples) + filter_mset (\<lambda>s. group_key s \<in> row_key ` set rows) (mset samples)
      = filter_mset (\<lambda>s. group_key s \<in> row_key ` set (r # rows)) (mset samples)"
    by (rule mset_filter_disjoint) (use Cons.prems in auto)
  then show ?case using Cons by simp
qed simp

lemma slot_date_bin:
  assumes "0 \<le> t" and "300 dvd b" and "0 < b"
  shows "slot b (date_bin t) = slot b t"
proof -
  obtain m where b: "b = 300 * m" using assms(2) by (elim dvdE)
  have "0 \<le> date_bin t" using assms(1) date_bin_mono [of 0 t] by (simp add: date_bin_def)
  moreover have "date_bin t div second div 300 = t div second div 300"
    by (simp add: date_bin_def time_units flip: zdiv_zmult2_eq)
  then have "date_bin t div second div b = t div second div b"
    using assms(3) unfolding b by (simp add: zdiv_zmult2_eq)
  ultimately show ?thesis using assms(1) by (simp add: slot_def int_seconds_def)
qed

section \<open>The splice\<close>

lemma raw_tracks:
  "tracks (add_points (map (\<lambda>s. (sample_group b s, sample_point s)) samples) d)
     (\<lambda>key. f key @ filter (\<lambda>s. sample_group b s = key) samples)"
  if "tracks d f"
proof -
  have "concat (map (\<lambda>s. [s]) xs) = xs" for xs :: "metric_sample list" by (induction xs) auto
  then show ?thesis
    using tracks_add_points [OF that, of samples "\<lambda>s. [s]" sample_point "sample_group b"] by (simp add: stands_for_sample)
qed

text \<open>The rollup rows of the window are exactly those of the buckets something arrived for.\<close>

definition rollups_cover :: "metric_sample list \<Rightarrow> datetime \<Rightarrow> datetime \<Rightarrow> database \<Rightarrow> bool" where
  "rollups_cover arrived start stop db \<longleftrightarrow> distinct (map metric_rollup_key (db_metric_rollups db))
     \<and> (\<forall>r \<in> set (db_metric_rollups db). start \<le> mr_bucket r \<and> mr_bucket r < stop \<longrightarrow>
          r = metric_rollup_row (mr_completed_at r) (metric_rollup_key r) (filter (\<lambda>s. metric_group s = metric_rollup_key r) arrived))
     \<and> {k \<in> metric_rollup_key ` set (db_metric_rollups db). start \<le> fst k \<and> fst k < stop}
       = {k \<in> metric_group ` set arrived. start \<le> fst k \<and> fst k < stop}"

definition raw_covers :: "metric_sample list \<Rightarrow> datetime \<Rightarrow> database \<Rightarrow> bool" where
  "raw_covers arrived start db \<longleftrightarrow>
     filter_mset (\<lambda>s. start \<le> sm_timestamp s) (mset (db_samples db)) = filter_mset (\<lambda>s. start \<le> sm_timestamp s) (mset arrived)"

definition one_at_a_time :: "metric_sample list \<Rightarrow> bool" where
  "one_at_a_time ss \<longleftrightarrow> inj_on (\<lambda>s. (sm_series_id s, sm_timestamp s)) (set ss)"

text \<open>The samples of a slot, out of all that arrived.\<close>

definition slot_samples :: "int \<Rightarrow> nat list \<Rightarrow> datetime \<Rightarrow> datetime \<Rightarrow> metric_sample list \<Rightarrow> nat \<times> int \<Rightarrow> metric_sample multiset" where
  "slot_samples b ids start stop arrived key = filter_mset
     (\<lambda>s. sm_series_id s \<in> set ids \<and> start \<le> sm_timestamp s \<and> sm_timestamp s < stop \<and> sample_group b s = key) (mset arrived)"

definition rollups_in :: "nat list \<Rightarrow> datetime \<Rightarrow> datetime \<Rightarrow> database \<Rightarrow> metric_rollup list" where
  "rollups_in ids start stop db = sort_key mr_bucket
     (filter (\<lambda>r. mr_series_id r \<in> set ids \<and> start \<le> mr_bucket r \<and> mr_bucket r < stop) (db_metric_rollups db))"

definition row_samples :: "metric_sample list \<Rightarrow> metric_rollup \<Rightarrow> metric_sample list" where
  "row_samples arrived r = filter (\<lambda>s. metric_group s = metric_rollup_key r) arrived"

lemma rollup_entries_eq:
  "rollup_entries b ids start stop db = map (\<lambda>r. ((mr_series_id r, slot b (mr_bucket r)), rollup_point r)) (rollups_in ids start stop db)"
  by (simp add: rollup_entries_def rollups_in_def)

lemma rollup_tracks:
  assumes "rollups_cover arrived start stop db"
  shows "tracks (add_points (rollup_entries b ids start stop db) [])
     (\<lambda>key. concat (map (row_samples arrived) (filter (\<lambda>r. (mr_series_id r, slot b (mr_bucket r)) = key) (rollups_in ids start stop db))))"
proof -
  have "stands_for (row_samples arrived r) (rollup_point r)" if "r \<in> set (rollups_in ids start stop db)" for r
  proof -
    have r: "r \<in> set (db_metric_rollups db)" "start \<le> mr_bucket r" "mr_bucket r < stop"
      using that by (auto simp: rollups_in_def)
    then have "metric_rollup_key r \<in> {k \<in> metric_rollup_key ` set (db_metric_rollups db). start \<le> fst k \<and> fst k < stop}"
      by (simp add: metric_rollup_key_def)
    then have "metric_rollup_key r \<in> metric_group ` set arrived" using assms unfolding rollups_cover_def by blast
    then have "row_samples arrived r \<noteq> []" by (auto simp: row_samples_def filter_empty_conv)
    moreover have "r = metric_rollup_row (mr_completed_at r) (metric_rollup_key r) (row_samples arrived r)"
      using assms r unfolding rollups_cover_def row_samples_def by blast
    ultimately show ?thesis using stands_for_rollup by metis
  qed
  moreover have "tracks [] (\<lambda>_. [])" by (simp add: tracks_def)
  ultimately show ?thesis
    using tracks_add_points [of "[]" "\<lambda>_. []" "rollups_in ids start stop db" "row_samples arrived" rollup_point
        "\<lambda>r. (mr_series_id r, slot b (mr_bucket r))"]
    by (simp add: rollup_entries_eq)
qed

lemma rollup_samples:
  assumes "rollups_cover arrived start stop db" and "bucket start" and "bucket stop" and "0 \<le> start" and "300 dvd b" and "0 < b"
  shows "mset (concat (map (row_samples arrived)
     (filter (\<lambda>r. (mr_series_id r, slot b (mr_bucket r)) = key) (rollups_in ids start stop db))))
   = slot_samples b ids start stop arrived key"
proof -
  let ?rows = "filter (\<lambda>r. (mr_series_id r, slot b (mr_bucket r)) = key) (rollups_in ids start stop db)"
  have "distinct (map metric_rollup_key ?rows)"
    using assms(1) unfolding rollups_cover_def rollups_in_def
    by (auto simp: distinct_map_filter distinct_map intro: inj_on_subset)
  then have "mset (concat (map (row_samples arrived) ?rows))
      = filter_mset (\<lambda>s. metric_group s \<in> metric_rollup_key ` set ?rows) (mset arrived)"
    unfolding row_samples_def by (rule groups_of_rows)
  also have "\<dots> = slot_samples b ids start stop arrived key"
    unfolding slot_samples_def
  proof (rule filter_mset_cong [OF refl])
    fix s assume "s \<in># mset arrived"
    then have s: "s \<in> set arrived" by simp
    let ?t = "sm_timestamp s"
    have "metric_group s \<in> metric_rollup_key ` set ?rows
      \<longleftrightarrow> metric_group s \<in> {k \<in> metric_rollup_key ` set (db_metric_rollups db). start \<le> fst k \<and> fst k < stop}
        \<and> sm_series_id s \<in> set ids \<and> (sm_series_id s, slot b (date_bin ?t)) = key"
      by (auto simp: rollups_in_def metric_group_def metric_rollup_key_def)
    also have "\<dots> \<longleftrightarrow> start \<le> date_bin ?t \<and> date_bin ?t < stop \<and> sm_series_id s \<in> set ids \<and> (sm_series_id s, slot b (date_bin ?t)) = key"
      using assms(1) s unfolding rollups_cover_def by (auto simp: metric_group_def)
    also have "\<dots> \<longleftrightarrow> start \<le> ?t \<and> ?t < stop \<and> sm_series_id s \<in> set ids \<and> sample_group b s = key"
      using bucket_le [OF assms(2), of ?t] bucket_le [OF assms(3), of ?t] slot_date_bin [OF _ assms(5,6), of ?t] assms(4)
      by (auto simp: sample_group_def)
    finally show "metric_group s \<in> metric_rollup_key ` set ?rows \<longleftrightarrow> sm_series_id s \<in> set ids \<and> start \<le> ?t \<and> ?t < stop \<and> sample_group b s = key"
      by blast
  qed
  finally show ?thesis .
qed

lemma tail_samples:
  assumes "raw_covers arrived (max start stop) db"
  shows "mset (filter (\<lambda>s. sample_group b s = key) (window_samples ids (max start stop) final db))
    = slot_samples b ids (max start stop) final arrived key"
proof -
  have split: "filter_mset (\<lambda>s. sm_series_id s \<in> set ids \<and> max start stop \<le> sm_timestamp s \<and> sm_timestamp s < final
        \<and> sample_group b s = key) M
      = filter_mset (\<lambda>s. sm_series_id s \<in> set ids \<and> sm_timestamp s < final \<and> sample_group b s = key)
          (filter_mset (\<lambda>s. max start stop \<le> sm_timestamp s) M)" for M
    by (simp add: filter_filter_mset conj_ac)
  have "mset (filter (\<lambda>s. sample_group b s = key) (window_samples ids (max start stop) final db))
    = filter_mset (\<lambda>s. sm_series_id s \<in> set ids \<and> max start stop \<le> sm_timestamp s \<and> sm_timestamp s < final
        \<and> sample_group b s = key) (mset (db_samples db))"
    by (simp add: window_samples_def filter_filter_mset conj_ac)
  then show ?thesis using assms(1) unfolding slot_samples_def split raw_covers_def by simp
qed

lemma slot_samples_split:
  "slot_samples b ids start mid arrived key + slot_samples b ids (max start mid) stop arrived key = slot_samples b ids start stop arrived key"
  if "mid \<le> stop"
  unfolding slot_samples_def by (rule mset_filter_disjoint) (use that in auto)

lemma spliced_tracks:
  assumes "rollups_cover arrived start limit db" and "bucket start" and "bucket limit" and "0 \<le> start" and "300 dvd b" and "0 < b"
    and "raw_covers arrived (max start limit) db" and "limit \<le> stop"
  shows "\<exists>f. tracks (spliced_groups b ids start limit stop True db) f \<and> (\<forall>key. mset (f key) = slot_samples b ids start stop arrived key)"
proof -
  let ?f = "\<lambda>key. concat (map (row_samples arrived)
    (filter (\<lambda>r. (mr_series_id r, slot b (mr_bucket r)) = key) (rollups_in ids start limit db)))"
  let ?g = "\<lambda>key. filter (\<lambda>s. sample_group b s = key) (window_samples ids (max start limit) stop db)"
  have f: "mset (?f key) = slot_samples b ids start limit arrived key" for key
    by (rule rollup_samples [OF assms(1-6)])
  have g: "mset (?g key) = slot_samples b ids (max start limit) stop arrived key" for key
    by (rule tail_samples [OF assms(7)])
  note rolled = rollup_tracks [OF assms(1), of b ids]
  show ?thesis
  proof (cases "limit < stop")
    case True
    have "tracks (spliced_groups b ids start limit stop True db) (\<lambda>key. ?f key @ ?g key)"
      using raw_tracks [OF rolled, of b "window_samples ids (max start limit) stop db"] True
      by (simp add: spliced_groups_def)
    moreover have "mset (?f key @ ?g key) = slot_samples b ids start stop arrived key" for key
      unfolding mset_append f g by (rule slot_samples_split [OF assms(8)])
    ultimately show ?thesis by blast
  next
    case False
    then have "limit = stop" using assms(8) by simp
    then show ?thesis using rolled f by (auto simp: spliced_groups_def)
  qed
qed

section \<open>Order and answer\<close>

lemma slot_mono: "0 \<le> t \<Longrightarrow> t \<le> u \<Longrightarrow> 0 < b \<Longrightarrow> slot b t \<le> slot b u"
  by (simp add: slot_def int_seconds_def zdiv_mono1 mult_right_mono)

lemma sorted_slots:
  assumes "sorted (map f xs)" and "\<forall>x \<in> set xs. 0 \<le> f x" and "0 < b"
  shows "sorted (map (\<lambda>x. slot b (f x)) xs)"
  using assms(1,2) by (induction xs) (auto intro: slot_mono [OF _ _ assms(3)])

lemma window_sorted: "sorted (map sm_timestamp (window_samples ids start stop db))"
  and rollups_sorted: "sorted (map mr_bucket (rollups_in ids start stop db))"
  by (simp_all add: window_samples_def rollups_in_def)

lemma raw_keys_sorted:
  assumes "0 \<le> start" and "0 < b"
  shows "sorted (map snd (map fst (raw_groups b (window_samples ids start stop db))))"
proof -
  have "sorted (map (\<lambda>s. slot b (sm_timestamp s)) (window_samples ids start stop db))"
    by (rule sorted_slots [OF window_sorted]) (use assms in \<open>auto simp: window_samples_def\<close>)
  then show ?thesis
    using touch_keys_sorted [of "[]" "map (sample_group b) (window_samples ids start stop db)"]
    unfolding raw_groups_keys by (simp add: sample_group_def comp_def)
qed

lemma spliced_keys_sorted:
  assumes "0 \<le> start" and "0 < b"
  shows "sorted (map snd (map fst (spliced_groups b ids start limit stop True db)))"
proof -
  let ?rows = "rollups_in ids start limit db" and ?tail = "window_samples ids (max start limit) stop db"
  have r: "sorted (map (\<lambda>r. slot b (mr_bucket r)) ?rows)"
    by (rule sorted_slots [OF rollups_sorted]) (use assms in \<open>auto simp: rollups_in_def\<close>)
  have t: "sorted (map (\<lambda>s. slot b (sm_timestamp s)) ?tail)"
    by (rule sorted_slots [OF window_sorted]) (use assms in \<open>auto simp: window_samples_def\<close>)
  have "slot b (mr_bucket r) \<le> slot b (sm_timestamp s)" if "r \<in> set ?rows" "s \<in> set ?tail" for r s
    using that assms by (intro slot_mono) (auto simp: rollups_in_def window_samples_def)
  with r t have all: "sorted (map snd (map (\<lambda>r. (mr_series_id r, slot b (mr_bucket r))) ?rows @ map (sample_group b) ?tail))"
    by (auto simp: sorted_append sample_group_def comp_def)
  then have first: "sorted (map snd ([] @ map (\<lambda>r. (mr_series_id r, slot b (mr_bucket r))) ?rows))"
    by (simp add: sorted_append)
  let ?grouped = "add_points (rollup_entries b ids start limit db) []"
  have rolled: "map fst ?grouped = fold touch_key (map (\<lambda>r. (mr_series_id r, slot b (mr_bucket r))) ?rows) []"
    by (simp add: add_points_keys rollup_entries_eq comp_def)
  have "fold touch_key (map (sample_group b) ?tail) (map fst ?grouped)
      = fold touch_key (map (\<lambda>r. (mr_series_id r, slot b (mr_bucket r))) ?rows @ map (sample_group b) ?tail) []"
    by (simp only: rolled fold_append comp_apply)
  moreover have "map fst (add_points (map (\<lambda>s. (sample_group b s, sample_point s)) ?tail) ?grouped)
      = fold touch_key (map (sample_group b) ?tail) (map fst ?grouped)"
    by (simp add: add_points_keys comp_def)
  ultimately have "map fst (spliced_groups b ids start limit stop True db)
      = (if limit < stop then fold touch_key (map (\<lambda>r. (mr_series_id r, slot b (mr_bucket r))) ?rows @ map (sample_group b) ?tail) []
         else fold touch_key (map (\<lambda>r. (mr_series_id r, slot b (mr_bucket r))) ?rows) [])"
    unfolding spliced_groups_def Let_def rolled [symmetric] by (simp only: simp_thms if_distrib [of "map fst"])
  moreover have "sorted (map snd (fold touch_key ks []))" if "sorted (map snd ks)" for ks :: "(nat \<times> int) list"
    using touch_keys_sorted [of "[]" ks] that by simp
  ultimately show ?thesis using all first by (cases "limit < stop") (simp_all only: if_True if_False append_Nil)
qed

lemma one_series_eq:
  assumes "tracks d f" and "\<And>key. mset (f key) = mset (filter (\<lambda>s. sample_group b s = key) samples)"
    and "sorted (map snd (map fst d))" and "sorted (map snd (map fst (raw_groups b samples)))" and "one_at_a_time samples"
  shows "map (\<lambda>((_, sl), p). answer_of_point sl p) (filter (\<lambda>((series, _), _). series = sid) d)
      = map (\<lambda>((_, sl), p). answer_of_samples sl p) (filter (\<lambda>((series, _), _). series = sid) (raw_groups b samples))"
proof -
  let ?raw = "raw_groups b samples" and ?g = "\<lambda>key. filter (\<lambda>s. sample_group b s = key) samples"
  have ok: "dict_ok d" "dict_ok ?raw" using assms(1) raw_groups_get by (auto simp: tracks_def)
  have point: "tracked (dict_get d key) (f key)" for key using assms(1) unfolding tracks_def by blast
  have raw: "dict_get ?raw key = (if ?g key = [] then None else Some (?g key))" for key
    using raw_groups_get [of b samples key] by (simp add: Let_def)
  have empty: "f key = [] \<longleftrightarrow> ?g key = []" for key using assms(2) [of key] by (metis mset_zero_iff)
  have keys: "(sid, sl) \<in> set (map fst d) \<longleftrightarrow> (sid, sl) \<in> set (map fst ?raw)" for sl
  proof -
    have "(sid, sl) \<in> set (map fst d) \<longleftrightarrow> f (sid, sl) \<noteq> []"
      using point [of "(sid, sl)"] dict_get_keys [of d "(sid, sl)"] by (cases "dict_get d (sid, sl)") (auto simp: stands_for_def)
    moreover have "(sid, sl) \<in> set (map fst ?raw) \<longleftrightarrow> ?g (sid, sl) \<noteq> []"
      using raw [of "(sid, sl)"] dict_get_keys [of ?raw "(sid, sl)"] by (auto split: if_splits)
    ultimately show ?thesis using empty by blast
  qed
  have same: "answer_of_point (snd k) (the (dict_get d k)) = answer_of_samples (snd k) (the (dict_get ?raw k))"
    if "k \<in> set (map fst ?raw)" for k
  proof -
    have g: "?g k \<noteq> []" using that raw [of k] dict_get_keys [of ?raw k] by (auto split: if_splits)
    then have "f k \<noteq> []" using empty by blast
    then obtain p where p: "dict_get d k = Some p" "stands_for (f k) p" using point [of k] by (cases "dict_get d k") auto
    have "inj_on sm_timestamp (set (?g k))"
    proof (rule inj_onI)
      fix s t assume s: "s \<in> set (?g k)" and t: "t \<in> set (?g k)" and eq: "sm_timestamp s = sm_timestamp t"
      from s t have "sample_group b s = sample_group b t" and mem: "s \<in> set samples" "t \<in> set samples" by simp_all
      then have "(sm_series_id s, sm_timestamp s) = (sm_series_id t, sm_timestamp t)" using eq by (simp add: sample_group_def)
      from inj_onD [OF assms(5) [unfolded one_at_a_time_def] this mem] show "s = t" .
    qed
    from answer_of_point_eq [OF p(2) assms(2) this] show ?thesis by (simp add: p(1) raw g)
  qed
  have "filter (\<lambda>k. fst k = sid) (map fst d) = filter (\<lambda>k. fst k = sid) (map fst ?raw)"
    by (rule sorted_keys_unique [OF ok assms(3,4) keys])
  then show ?thesis
    unfolding answer_series_keys [OF ok(1)] answer_series_keys [OF ok(2)] by (intro map_cong) (simp_all add: same)
qed

lemma large_bucket:
  "300 \<le> select_bucket_seconds start stop n \<Longrightarrow> 300 dvd select_bucket_seconds start stop n"
proof -
  have "select_bucket_seconds start stop n \<in> set buckets"
    unfolding select_bucket_seconds_def Let_def
    by (split option.split) (auto dest: find_SomeD simp: buckets_def)
  moreover have "list_all (\<lambda>b. 300 \<le> b \<longrightarrow> 300 dvd b) buckets" by code_simp
  moreover assume "300 \<le> select_bucket_seconds start stop n"
  ultimately show ?thesis unfolding list_all_iff by blast
qed

lemma answer_series_eq:
  assumes "\<And>sid. map (\<lambda>((_, sl), p). f sl p) (filter (\<lambda>((series, _), _). series = sid) d)
      = map (\<lambda>((_, sl), p). g sl p) (filter (\<lambda>((series, _), _). series = sid) e)"
  shows "answer_series f ids d = answer_series g ids e"
  by (simp only: answer_series_def assms)

lemma spliced_series:
  assumes "rollups_cover arrived start limit db" and "bucket start" and "bucket limit" and "0 \<le> start" and "300 dvd b" and "0 < b"
    and "raw_covers arrived (max start limit) db" and "limit \<le> stop" and "one_at_a_time arrived"
  shows "answer_series answer_of_point ids (spliced_groups b ids start limit stop True db)
    = answer_series answer_of_samples ids (raw_groups b (window_samples ids start stop (db\<lparr>db_samples := arrived\<rparr>)))"
proof (rule answer_series_eq)
  fix sid
  let ?samples = "window_samples ids start stop (db\<lparr>db_samples := arrived\<rparr>)"
  obtain f where f: "tracks (spliced_groups b ids start limit stop True db) f"
    "\<And>key. mset (f key) = slot_samples b ids start stop arrived key"
    using spliced_tracks [OF assms(1-8)] by blast
  have "mset (f key) = mset (filter (\<lambda>s. sample_group b s = key) ?samples)" for key
    unfolding f(2) by (simp add: slot_samples_def window_samples_def filter_filter_mset conj_ac)
  moreover have "one_at_a_time ?samples"
    using assms(9) unfolding one_at_a_time_def by (rule inj_on_subset) (auto simp: window_samples_def)
  ultimately show "map (\<lambda>((_, sl), p). answer_of_point sl p)
        (filter (\<lambda>((series, _), _). series = sid) (spliced_groups b ids start limit stop True db))
      = map (\<lambda>((_, sl), p). answer_of_samples sl p) (filter (\<lambda>((series, _), _). series = sid) (raw_groups b ?samples))"
    by (rule one_series_eq [OF f(1) _ spliced_keys_sorted [OF assms(4,6)] raw_keys_sorted [OF assms(4,6)]])
qed

lemma query_ids_frame: "query_ids (q\<lparr>mq_aggregation := a\<rparr>) (db\<lparr>db_samples := ss\<rparr>) = query_ids q db"
proof -
  have "metric_container_ids c (db\<lparr>db_samples := ss\<rparr>) = metric_container_ids c db" for c
    by (simp add: metric_container_ids_def split: option.split)
  then have "series_wanted (q\<lparr>mq_aggregation := a\<rparr>) (db\<lparr>db_samples := ss\<rparr>) s d = series_wanted q db s d" for s d
    by (simp add: series_wanted_def split: option.split)
  then show ?thesis by (simp add: query_ids_def)
qed


definition splice_sample :: "pystr \<Rightarrow> datetime \<Rightarrow> pyfloat \<Rightarrow> metric_sample" where
  "splice_sample i t v = \<lparr>sm_timestamp = t, sm_event_id = i, sm_series_id = 1, sm_observed = t, sm_sequence = 0,
     sm_value = v, sm_experiment_id = None\<rparr>"

definition splice_arrived :: "metric_sample list" where
  "splice_arrived = [splice_sample ''a'' minute 3, splice_sample ''b'' (2 * minute) 5, splice_sample ''c'' (40 * minute) 7]"

definition splice_database :: database where
  "splice_database = empty_database
     \<lparr>db_definitions := \<lparr>trows = [\<lparr>md_id = 1, md_name = ''load'', md_unit = None\<rparr>], tseq = 1\<rparr>,
      db_series := \<lparr>trows = [\<lparr>ms_id = 1, ms_metric_definition_id = 1, ms_host_id = ''h'', ms_service_id = None,
         ms_process_id = None, ms_container_id = None, ms_dependency_id = None, ms_source_type = ''system'',
         ms_attributes = [], ms_fingerprint = ''f''\<rparr>], tseq = 1\<rparr>,
      db_samples := [splice_sample ''c'' (40 * minute) 7],
      db_metric_rollups := [metric_rollup_row 0 (0, 1) [splice_sample ''a'' minute 3, splice_sample ''b'' (2 * minute) 5]]\<rparr>"

definition splice_query :: metric_query where
  "splice_query = \<lparr>mq_start = 0, mq_end = 50 * minute, mq_series_ids = [], mq_metric = Some ''load'', mq_host_id = None,
     mq_service_id = None, mq_process_id = None, mq_dependency_id = None, mq_container_id = None,
     mq_aggregation = Auto, mq_max_points = 10\<rparr>"


end
