(* ===== verification/Calendar.thy ===== *)
theory Calendar
  imports Clock PyText
begin

text \<open>
  Reading a timestamp back: the day number of a civil date inverts \<open>civil\<close>, and
  \<open>fromisoformat\<close> inverts \<open>isoformat\<close>. Of the formats \<open>fromisoformat\<close> accepts, the one
  \<open>isoformat\<close> writes is modelled: date, time, six decimals unless they are zero, offset.
\<close>

section \<open>Day numbers\<close>

definition day_number :: "int \<times> int \<times> int \<Rightarrow> int" where
  "day_number date =
     (case date of (y, m, d) \<Rightarrow>
        let y' = (if m \<le> 2 then y - 1 else y);
            era = y' div 400;
            yoe = y' mod 400;
            mp = (if m \<le> 2 then m + 9 else m - 3);
            doy = (153 * mp + 2) div 5 + d - 1;
            doe = yoe * 365 + yoe div 4 - yoe div 100 + doy
        in era * 146097 + doe - 719468)"

text \<open>Within an era: the first day of its year \<open>y\<close>, and the sum \<open>civil\<close> divides by 365.\<close>

definition year_start :: "int \<Rightarrow> int" where
  "year_start y = (if y = 400 then 146097 else 365 * y + y div 4 - y div 100)"

definition year_days :: "int \<Rightarrow> int" where
  "year_days doe = doe - doe div 1460 + doe div 36524 - doe div 146096"

lemma year_days_step:
  assumes "0 \<le> d" and "d < 146096"
  shows "year_days d \<le> year_days (d + 1)"
proof -
  have "(d + 1) div 1460 \<le> d div 1460 + 1" by simp
  moreover have "d div 36524 \<le> (d + 1) div 36524" by (rule zdiv_mono1) simp_all
  moreover have "(d + 1) div 146096 = 0 \<or> d + 1 = 146096" using assms by auto
  moreover have "d div 146096 = 0" using assms by simp
  moreover have "d + 1 = 146096 \<Longrightarrow> year_days d \<le> year_days (d + 1)"
    by (simp add: year_days_def eq_diff_eq [symmetric])
  ultimately show ?thesis unfolding year_days_def by linarith
qed

lemma year_days_mono:
  assumes "0 \<le> a" and "a \<le> b" and "b < 146097"
  shows "year_days a \<le> year_days b"
proof -
  have "year_days a \<le> year_days (a + int n)" if "a + int n < 146097" for n
    using that
  proof (induction n)
    case (Suc n)
    have "year_days (a + int n) \<le> year_days (a + int n + 1)"
      by (rule year_days_step) (use assms(1) Suc.prems in auto)
    then show ?case using Suc by (simp add: add.assoc add.commute [of 1])
  qed simp
  from this [of "nat (b - a)"] assms show ?thesis by simp
qed

lemma year_table:
  "list_all (\<lambda>y. 365 * y \<le> year_days (year_start y) \<and> year_days (year_start (y + 1) - 1) < 365 * (y + 1)
     \<and> year_start (y + 1) - year_start y \<le> 366 \<and> 0 \<le> year_start y \<and> year_start (y + 1) \<le> 146097) [0..399]"
  by code_simp

lemma year_of_day:
  fixes doe :: int
  assumes "0 \<le> doe" and "doe < 146097"
  obtains y where "0 \<le> y" "y < 400" "year_start y \<le> doe" "doe < year_start (y + 1)"
proof -
  have "\<exists>y. 0 \<le> y \<and> y < 400 \<and> year_start y \<le> doe \<and> doe < year_start (y + 1)"
    if "doe < year_start (int n)" "n \<le> 400" for n
    using that
  proof (induction n)
    case 0
    then show ?case using assms(1) by (simp add: year_start_def)
  next
    case (Suc n)
    show ?case
    proof (cases "doe < year_start (int n)")
      case False
      then show ?thesis using Suc.prems by (intro exI [of _ "int n"]) (simp add: add.commute)
    qed (use Suc in auto)
  qed
  from this [of 400] assms(2) that show ?thesis by (auto simp: year_start_def)
qed

lemma civil_year:
  fixes doe yoe :: int
  assumes "0 \<le> doe" and "doe < 146097" and "yoe = (doe - doe div 1460 + doe div 36524 - doe div 146096) div 365"
  shows "0 \<le> yoe \<and> yoe < 400 \<and> 0 \<le> doe - (365 * yoe + yoe div 4 - yoe div 100) \<and> doe - (365 * yoe + yoe div 4 - yoe div 100) \<le> 365"
proof -
  obtain y where y: "0 \<le> y" "y < 400" "year_start y \<le> doe" "doe < year_start (y + 1)"
    using year_of_day [OF assms(1,2)] .
  have t: "365 * y \<le> year_days (year_start y)" "year_days (year_start (y + 1) - 1) < 365 * (y + 1)"
    "year_start (y + 1) - year_start y \<le> 366" "0 \<le> year_start y" "year_start (y + 1) \<le> 146097"
    using year_table y(1,2) unfolding list_all_iff by auto
  have "year_days (year_start y) \<le> year_days doe" using y t assms by (intro year_days_mono) auto
  moreover have "year_days doe \<le> year_days (year_start (y + 1) - 1)" using y t assms by (intro year_days_mono) auto
  ultimately have "365 * y \<le> year_days doe" "year_days doe < 365 * (y + 1)" using t by linarith+
  then have "yoe = y" unfolding assms(3) year_days_def [symmetric] by (intro int_div_pos_eq [of _ 365 _ "year_days doe - 365 * y"]) simp_all
  then show ?thesis using y t by (simp add: year_start_def)
qed

lemma day_number_civil: "day_number (civil n) = n"
proof -
  let ?z = "n + 719468"
  obtain era doe where ed: "era = ?z div 146097" "doe = ?z mod 146097" by simp
  have doe: "0 \<le> doe" "doe < 146097" by (simp_all add: ed)
  obtain yoe where yoe: "yoe = (doe - doe div 1460 + doe div 36524 - doe div 146096) div 365" by simp
  note year = civil_year [OF doe yoe]
  obtain doy where doy: "doy = doe - (365 * yoe + yoe div 4 - yoe div 100)" by simp
  then have d: "0 \<le> doy" "doy \<le> 365" using year by simp_all
  obtain mp where mp: "mp = (5 * doy + 2) div 153" by simp
  then have m: "0 \<le> mp" "mp \<le> 11" using d by simp_all
  have c: "civil n = (yoe + era * 400 + (if (if mp < 10 then mp + 3 else mp - 9) \<le> 2 then 1 else 0),
      if mp < 10 then mp + 3 else mp - 9, doy - (153 * mp + 2) div 5 + 1)"
    unfolding civil_def Let_def ed(1,2) [symmetric] yoe [symmetric] doy [symmetric] mp [symmetric] by simp
  have "(yoe + era * 400) div 400 = era" "(yoe + era * 400) mod 400 = yoe" using year by simp_all
  then have "day_number (civil n) = era * 146097 + doe - 719468"
    unfolding c day_number_def using m doy by (cases "mp < 10") (simp_all add: Let_def)
  also have "\<dots> = n" using div_mult_mod_eq [of ?z 146097] unfolding ed by simp
  finally show ?thesis .
qed

lemma civil_ranges:
  "case civil n of (y, m, d) \<Rightarrow> 1 \<le> m \<and> m \<le> 12 \<and> 1 \<le> d \<and> d \<le> 31"
proof -
  obtain doe where doe: "doe = (n + 719468) mod 146097" by simp
  then have b: "0 \<le> doe" "doe < 146097" by simp_all
  obtain yoe where yoe: "yoe = (doe - doe div 1460 + doe div 36524 - doe div 146096) div 365" by simp
  note year = civil_year [OF b yoe]
  obtain doy where doy: "doy = doe - (365 * yoe + yoe div 4 - yoe div 100)" by simp
  then have d: "0 \<le> doy" "doy \<le> 365" using year by simp_all
  obtain mp where mp: "mp = (5 * doy + 2) div 153" by simp
  then have m: "0 \<le> mp" "mp \<le> 11" using d by simp_all
  have "153 * mp \<le> 5 * doy + 2" "5 * doy + 2 < 153 * mp + 153" unfolding mp by linarith+
  then have "(153 * mp + 2) div 5 \<le> doy" "doy \<le> (153 * mp + 2) div 5 + 30" by linarith+
  then show ?thesis
    unfolding civil_def Let_def doe [symmetric] yoe [symmetric] doy [symmetric] mp [symmetric] prod.case
    using m by auto
qed

section \<open>Reading ISO timestamps\<close>

definition fixed_digits :: "nat \<Rightarrow> nat \<Rightarrow> pystr \<Rightarrow> int option" where
  "fixed_digits i n s =
     (let w = take n (drop i s) in
      if length w = n \<and> list_all is_digit w then Some (foldl (\<lambda>a c. 10 * a + int (of_char c - 48)) 0 w) else None)"

definition utc_offset :: "pystr \<Rightarrow> datetime option" where
  "utc_offset s =
     (if s = ''Z'' then Some 0
      else (case (fixed_digits 1 2 s, fixed_digits 4 2 s) of
              (Some h, Some m) \<Rightarrow>
                if length s = 6 \<and> s ! 3 = CHR '':'' \<and> h < 24 \<and> m < 60 \<and> s ! 0 = CHR ''+'' then Some (h * hour + m * minute)
                else if length s = 6 \<and> s ! 3 = CHR '':'' \<and> h < 24 \<and> m < 60 \<and> s ! 0 = CHR ''-'' then Some (- (h * hour + m * minute))
                else None
            | _ \<Rightarrow> None))"

definition iso_seconds :: "pystr \<Rightarrow> datetime option" where
  "iso_seconds s =
     (case (fixed_digits 0 4 s, fixed_digits 5 2 s, fixed_digits 8 2 s) of
        (Some y, Some mo, Some d) \<Rightarrow>
          (case (fixed_digits 11 2 s, fixed_digits 14 2 s, fixed_digits 17 2 s) of
             (Some h, Some mi, Some sec) \<Rightarrow>
               if s ! 4 = CHR ''-'' \<and> s ! 7 = CHR ''-'' \<and> s ! 13 = CHR '':'' \<and> s ! 16 = CHR '':''
                  \<and> 1 \<le> y \<and> civil (day_number (y, mo, d)) = (y, mo, d) \<and> h < 24 \<and> mi < 60 \<and> sec < 60
               then Some (day_number (y, mo, d) * day + h * hour + mi * minute + sec * second) else None
           | _ \<Rightarrow> None)
      | _ \<Rightarrow> None)"

definition fromisoformat :: "pystr \<Rightarrow> datetime option" where
  "fromisoformat s =
     (let (us, rest) = (if 19 < length s \<and> s ! 19 = CHR ''.'' then (fixed_digits 20 6 s, drop 26 s) else (Some 0, drop 19 s))
      in case (iso_seconds s, us, utc_offset rest) of
           (Some t, Some u, Some off) \<Rightarrow> Some (t + u - off)
         | _ \<Rightarrow> None)"

lemma nat_str_length: "n < 10 ^ Suc k \<Longrightarrow> length (nat_str n) \<le> Suc k"
proof (induction k arbitrary: n)
  case (Suc k)
  then have "n div 10 < 10 ^ Suc k" by (simp add: less_mult_imp_div_less mult.commute)
  with Suc.IH [of "n div 10"] show ?case by (subst nat_str.simps) simp
qed (subst nat_str.simps, simp)

lemma pad_digits:
  assumes "0 \<le> i" and "i < 10 ^ w" and "0 < w"
  shows "length (pad w i) = w" and "list_all is_digit (pad w i)"
    and "foldl (\<lambda>a c. 10 * a + int (of_char c - 48)) 0 (pad w i) = i"
proof -
  have "nat i < 10 ^ w" using assms(1,2) by (simp add: nat_less_iff)
  then have l: "length (nat_str (nat i)) \<le> w" using nat_str_length [of "nat i" "w - 1"] assms(3) by simp
  then show "length (pad w i) = w" by (simp add: pad_def Let_def)
  show "list_all is_digit (pad w i)"
    using nat_str_digits [of "nat i"] by (auto simp: pad_def Let_def list_all_iff is_digit_def)
  have "foldl (\<lambda>a c. 10 * a + int (of_char c - 48)) 0 (replicate k (CHR ''0'')) = 0" for k
    by (induction k) simp_all
  then show "foldl (\<lambda>a c. 10 * a + int (of_char c - 48)) 0 (pad w i) = i"
    using nat_str_digits [of "nat i"] assms(1) by (simp add: pad_def Let_def)
qed

lemma fixed_digits_pad:
  assumes "length before = k" and "0 \<le> i" and "i < 10 ^ w" and "0 < w"
  shows "fixed_digits k w (before @ pad w i @ after) = Some i"
  using assms(1) pad_digits [OF assms(2-4)] by (simp add: fixed_digits_def)

text \<open>The instants a \<open>datetime\<close> can hold: years 1 to 9999.\<close>

definition valid_instant :: "datetime \<Rightarrow> bool" where
  "valid_instant t \<longleftrightarrow> (case civil (t div day) of (y, _, _) \<Rightarrow> 1 \<le> y \<and> y \<le> 9999)"

lemma div_range:
  fixes r b k :: int
  assumes "0 \<le> r" and "r < k * b" and "0 < b"
  shows "0 \<le> r div b" and "r div b < k"
proof -
  show "0 \<le> r div b" using assms by (simp add: pos_imp_zdiv_nonneg_iff)
  have "r div b * b \<le> r" using div_mult_mod_eq [of r b] pos_mod_sign [of b r] assms(3) by linarith
  with assms(2) have "r div b * b < k * b" by linarith
  with assms(3) show "r div b < k" by simp
qed

lemma time_parts:
  "0 \<le> t mod day div hour" "t mod day div hour < 24" "0 \<le> t mod day mod hour div minute" "t mod day mod hour div minute < 60"
  "0 \<le> t mod day mod minute div second" "t mod day mod minute div second < 60"
  "0 \<le> t mod day mod second" "t mod day mod second < 10 ^ 6"
  "t = t div day * day + t mod day div hour * hour + t mod day mod hour div minute * minute
     + t mod day mod minute div second * second + t mod day mod second"
proof -
  have r: "0 \<le> t mod day" "t mod day < 24 * hour" "0 \<le> t mod day mod hour" "t mod day mod hour < 60 * minute"
    "0 \<le> t mod day mod minute" "t mod day mod minute < 60 * second"
    by (simp_all add: time_units)
  show "0 \<le> t mod day div hour" "t mod day div hour < 24" "0 \<le> t mod day mod hour div minute" "t mod day mod hour div minute < 60"
    "0 \<le> t mod day mod minute div second" "t mod day mod minute div second < 60"
    using div_range [OF r(1,2)] div_range [OF r(3,4)] div_range [OF r(5,6)] by simp_all
  show "0 \<le> t mod day mod second" "t mod day mod second < 10 ^ 6" by (simp_all add: time_units)
  have "t mod day mod hour mod minute = t mod day mod minute" "t mod day mod minute mod second = t mod day mod second"
    by (simp_all add: mod_mod_cancel time_units)
  then show "t = t div day * day + t mod day div hour * hour + t mod day mod hour div minute * minute
     + t mod day mod minute div second * second + t mod day mod second"
    using div_mult_mod_eq [of t day] div_mult_mod_eq [of "t mod day" hour] div_mult_mod_eq [of "t mod day mod hour" minute]
      div_mult_mod_eq [of "t mod day mod minute" second] by linarith
qed

lemma utc_offset_utc: "utc_offset ''+00:00'' = Some 0"
  by code_simp

lemma fromisoformat_isoformat:
  assumes "valid_instant t"
  shows "fromisoformat (isoformat t) = Some t"
proof -
  obtain y m d where c: "civil (t div day) = (y, m, d)" by (metis prod_cases3)
  have y: "1 \<le> y" "y \<le> 9999" using assms by (simp_all add: valid_instant_def c)
  have md: "1 \<le> m" "m \<le> 12" "1 \<le> d" "d \<le> 31" using civil_ranges [of "t div day"] by (simp_all add: c)
  have n: "day_number (y, m, d) = t div day" using day_number_civil [of "t div day"] by (simp add: c)
  define h mi s us where p: "h = t mod day div hour" "mi = t mod day mod hour div minute"
    "s = t mod day mod minute div second" "us = t mod day mod second"
  note parts = time_parts [of t, folded p]
  define tail where tail: "tail = (if us = 0 then [] else ''.'' @ pad 6 us) @ ''+00:00''"
  have iso: "isoformat t = pad 4 y @ ''-'' @ pad 2 m @ ''-'' @ pad 2 d @ ''T'' @ pad 2 h @ '':'' @ pad 2 mi @ '':'' @ pad 2 s @ tail"
    by (simp add: isoformat_def iso_time_def Let_def date_str_def c p tail)
  have len: "length (pad 4 y) = 4" "length (pad 2 m) = 2" "length (pad 2 d) = 2" "length (pad 2 h) = 2" "length (pad 2 mi) = 2"
    "length (pad 2 s) = 2" "length (pad 6 us) = 6"
    using y md parts by (simp_all add: pad_digits(1))
  let ?s = "isoformat t"
  have digits: "fixed_digits 0 4 ?s = Some y" "fixed_digits 5 2 ?s = Some m" "fixed_digits 8 2 ?s = Some d"
    "fixed_digits 11 2 ?s = Some h" "fixed_digits 14 2 ?s = Some mi" "fixed_digits 17 2 ?s = Some s"
    using fixed_digits_pad [of "[]" 0 y 4] fixed_digits_pad [of "pad 4 y @ ''-''" 5 m 2]
      fixed_digits_pad [of "pad 4 y @ ''-'' @ pad 2 m @ ''-''" 8 d 2]
      fixed_digits_pad [of "pad 4 y @ ''-'' @ pad 2 m @ ''-'' @ pad 2 d @ ''T''" 11 h 2]
      fixed_digits_pad [of "pad 4 y @ ''-'' @ pad 2 m @ ''-'' @ pad 2 d @ ''T'' @ pad 2 h @ '':''" 14 mi 2]
      fixed_digits_pad [of "pad 4 y @ ''-'' @ pad 2 m @ ''-'' @ pad 2 d @ ''T'' @ pad 2 h @ '':'' @ pad 2 mi @ '':''" 17 s 2]
      y md parts len
    by (simp_all add: iso)
  have marks: "?s ! 4 = CHR ''-''" "?s ! 7 = CHR ''-''" "?s ! 13 = CHR '':''" "?s ! 16 = CHR '':''"
    by (simp_all add: iso nth_append len)
  have secs: "iso_seconds ?s = Some (t div day * day + h * hour + mi * minute + s * second)"
    unfolding iso_seconds_def digits using marks y(1) parts n c by simp
  have rest: "drop 19 ?s = tail" by (simp add: iso len)
  show ?thesis
  proof (cases "us = 0")
    case True
    then have "tail = ''+00:00''" by (simp add: tail)
    moreover have "?s ! 19 = tail ! 0" by (simp add: iso nth_append len)
    ultimately show ?thesis using rest secs parts(9) True
      by (simp add: fromisoformat_def utc_offset_utc)
  next
    case False
    then have tl: "tail = ''.'' @ pad 6 us @ ''+00:00''" by (simp add: tail)
    then have "?s ! 19 = CHR ''.''" "19 < length ?s" "drop 26 ?s = ''+00:00''" by (simp_all add: iso nth_append len)
    moreover have "fixed_digits 20 6 ?s = Some us"
      using fixed_digits_pad [of "pad 4 y @ ''-'' @ pad 2 m @ ''-'' @ pad 2 d @ ''T'' @ pad 2 h @ '':'' @ pad 2 mi @ '':'' @ pad 2 s @ ''.''"
          20 us 6 "''+00:00''"] parts len by (simp add: iso tl)
    ultimately show ?thesis using secs parts(9) by (simp add: fromisoformat_def utc_offset_utc)
  qed
qed

end
