(* ===== verification/Cursor.thy ===== *)
theory Cursor
  imports Calendar Ingestion
begin

text \<open>
  The pagination cursor of \<open>server/temporalrca_server/api.py\<close>, \<open>_cursor\<close> and
  \<open>_parse_cursor\<close>: a timestamp and an event id, joined by a bar and encoded in URL-safe Base64,
  with what it uses of \<open>base64\<close> and \<open>uuid\<close>.
\<close>

section \<open>Base64\<close>

definition b64_char :: "nat \<Rightarrow> char" where
  "b64_char n = (if n < 26 then char_of (65 + n) else if n < 52 then char_of (71 + n) else if n < 62 then char_of (n - 4)
     else if n = 62 then CHR ''-'' else CHR ''_'')"

text \<open>The decoder translates the URL-safe letters to the standard ones and knows those too.\<close>

definition b64_value :: "char \<Rightarrow> nat option" where
  "b64_value c = (let n = of_char c in
     if 65 \<le> n \<and> n \<le> 90 then Some (n - 65) else if 97 \<le> n \<and> n \<le> 122 then Some (n - 71)
     else if 48 \<le> n \<and> n \<le> 57 then Some (n + 4) else if n = 43 \<or> n = 45 then Some 62
     else if n = 47 \<or> n = 95 then Some 63 else None)"

fun urlsafe_b64encode :: "bytes \<Rightarrow> pystr" where
  "urlsafe_b64encode [] = []"
| "urlsafe_b64encode [a] = (let x = of_char a in [b64_char (x div 4), b64_char (x mod 4 * 16)] @ ''=='')"
| "urlsafe_b64encode [a, b] = (let x = of_char a; y = of_char b in
     [b64_char (x div 4), b64_char (x mod 4 * 16 + y div 16), b64_char (y mod 16 * 4)] @ ''='')"
| "urlsafe_b64encode (a # b # c # rest) = (let x = of_char a; y = of_char b; z = of_char c in
     [b64_char (x div 4), b64_char (x mod 4 * 16 + y div 16), b64_char (y mod 16 * 4 + z div 64), b64_char (z mod 64)]
     @ urlsafe_b64encode rest)"

definition emit_byte :: "nat \<Rightarrow> exn + bytes \<Rightarrow> exn + bytes" where
  "emit_byte n rest = bind_result rest (\<lambda>bs. Inr (char_of n # bs))"

text \<open>
  The scan of \<open>binascii\<close>: the place in the group of four, the bits left over, the padding seen.
  Characters outside the alphabet are skipped.
\<close>

fun b64_scan :: "nat \<Rightarrow> nat \<Rightarrow> nat \<Rightarrow> pystr \<Rightarrow> exn + bytes" where
  "b64_scan q left pads [] = (if q = 0 then Inr [] else Inl ValueError)"
| "b64_scan q left pads (c # cs) =
     (if c = CHR ''='' then
        (if 2 \<le> q \<and> 4 \<le> q + Suc pads then Inr [] else b64_scan q left (if 2 \<le> q then Suc pads else pads) cs)
      else (case b64_value c of
          None \<Rightarrow> b64_scan q left pads cs
        | Some v \<Rightarrow>
            if q = 0 then b64_scan 1 v 0 cs
            else if q = 1 then emit_byte (left * 4 + v div 16) (b64_scan 2 (v mod 16) 0 cs)
            else if q = 2 then emit_byte (left * 16 + v div 4) (b64_scan 3 (v mod 4) 0 cs)
            else emit_byte (left * 64 + v) (b64_scan 0 0 0 cs)))"

definition urlsafe_b64decode :: "pystr \<Rightarrow> exn + bytes" where
  "urlsafe_b64decode s = b64_scan 0 0 0 s"

lemma b64_value_char:
  assumes "n < 64"
  shows "b64_value (b64_char n) = Some n" and "b64_char n \<noteq> CHR ''=''"
proof -
  show v: "b64_value (b64_char n) = Some n" using assms by (auto simp: b64_value_def b64_char_def Let_def)
  have "b64_value (CHR ''='') = None" by (simp add: b64_value_def)
  with v show "b64_char n \<noteq> CHR ''=''" by force
qed

lemma b64_bits:
  fixes x y z :: nat
  assumes "x < 256" and "y < 256" and "z < 256"
  shows "x div 4 < 64" and "x mod 4 * 16 < 64" and "x mod 4 * 16 + y div 16 < 64" and "y mod 16 * 4 < 64"
    and "y mod 16 * 4 + z div 64 < 64" and "z mod 64 < 64"
    and "x div 4 * 4 + x mod 4 * 16 div 16 = x" and "x div 4 * 4 + (x mod 4 * 16 + y div 16) div 16 = x"
    and "(x mod 4 * 16 + y div 16) mod 16 * 16 + y mod 16 * 4 div 4 = y"
    and "(x mod 4 * 16 + y div 16) mod 16 * 16 + (y mod 16 * 4 + z div 64) div 4 = y"
    and "(y mod 16 * 4 + z div 64) mod 4 * 64 + z mod 64 = z"
proof -
  have y: "y div 16 < 16" and z: "z div 64 < 4" and x: "x div 4 < 64"
    using assms by (simp_all add: less_mult_imp_div_less)
  have m: "x mod 4 < 4" "y mod 16 < 16" "z mod 64 < 64" by simp_all
  show "x div 4 < 64" "x mod 4 * 16 < 64" "x mod 4 * 16 + y div 16 < 64" "y mod 16 * 4 < 64"
    "y mod 16 * 4 + z div 64 < 64" "z mod 64 < 64"
    using x y z m by linarith+
  show "x div 4 * 4 + x mod 4 * 16 div 16 = x" by simp
  show "x div 4 * 4 + (x mod 4 * 16 + y div 16) div 16 = x" using y by simp
  show "(x mod 4 * 16 + y div 16) mod 16 * 16 + y mod 16 * 4 div 4 = y" using y by simp
  show "(x mod 4 * 16 + y div 16) mod 16 * 16 + (y mod 16 * 4 + z div 64) div 4 = y" using y z by simp
  show "(y mod 16 * 4 + z div 64) mod 4 * 64 + z mod 64 = z" using z by simp
qed

lemma b64_scan_digits:
  assumes "d < 64"
  shows "b64_scan 0 0 0 (b64_char d # cs) = b64_scan 1 d 0 cs"
    and "b64_scan 1 left 0 (b64_char d # cs) = emit_byte (left * 4 + d div 16) (b64_scan 2 (d mod 16) 0 cs)"
    and "b64_scan 2 left 0 (b64_char d # cs) = emit_byte (left * 16 + d div 4) (b64_scan 3 (d mod 4) 0 cs)"
    and "b64_scan 3 left 0 (b64_char d # cs) = emit_byte (left * 64 + d) (b64_scan 0 0 0 cs)"
  using b64_value_char [OF assms] by simp_all

lemma b64_scan_end: "b64_scan 2 left 0 ''=='' = Inr []" "b64_scan 3 left 0 ''='' = Inr []"
  by simp_all

lemma b64_roundtrip: "urlsafe_b64decode (urlsafe_b64encode bs) = Inr bs"
  unfolding urlsafe_b64decode_def
proof (induction bs rule: urlsafe_b64encode.induct)
  case (2 a)
  note bits = b64_bits [of "of_char a" 0 0, OF nat_of_char_less_256 zero_less_numeral zero_less_numeral]
  have "b64_scan 0 0 0 (urlsafe_b64encode [a]) = emit_byte (of_char a) (Inr [])"
    by (simp only: urlsafe_b64encode.simps Let_def append_Cons append_Nil b64_scan_digits b64_scan_end bits)
  then show ?case by (simp add: emit_byte_def)
next
  case (3 a b)
  note bits = b64_bits [of "of_char a" "of_char b" 0, OF nat_of_char_less_256 nat_of_char_less_256 zero_less_numeral]
  have "b64_scan 0 0 0 (urlsafe_b64encode [a, b]) = emit_byte (of_char a) (emit_byte (of_char b) (Inr []))"
    by (simp only: urlsafe_b64encode.simps Let_def append_Cons append_Nil b64_scan_digits b64_scan_end bits)
  then show ?case by (simp add: emit_byte_def)
next
  case (4 a b c rest)
  note bits = b64_bits [of "of_char a" "of_char b" "of_char c", OF nat_of_char_less_256 nat_of_char_less_256 nat_of_char_less_256]
  have "b64_scan 0 0 0 (urlsafe_b64encode (a # b # c # rest))
      = emit_byte (of_char a) (emit_byte (of_char b) (emit_byte (of_char c) (b64_scan 0 0 0 (urlsafe_b64encode rest))))"
    by (simp only: urlsafe_b64encode.simps Let_def append_Cons append_Nil b64_scan_digits b64_scan_end bits)
  then show ?case using 4 by (simp add: emit_byte_def)
qed simp

section \<open>UUIDs\<close>

function remove_all_of :: "pystr \<Rightarrow> pystr \<Rightarrow> pystr" where
  "remove_all_of sub s =
     (if sub = [] \<or> s = [] then s
      else if startswith sub s then remove_all_of sub (drop (length sub) s)
      else hd s # remove_all_of sub (tl s))"
  by auto
termination by (relation "measure (\<lambda>(sub, s). length s)") auto

declare remove_all_of.simps [simp del]

definition hex_digit :: "char \<Rightarrow> bool" where
  "hex_digit c = (let n = of_char c :: nat in 48 \<le> n \<and> n \<le> 57 \<or> 65 \<le> n \<and> n \<le> 70 \<or> 97 \<le> n \<and> n \<le> 102)"

definition uuid_str :: "pystr \<Rightarrow> uuid" where
  "uuid_str h = take 8 h @ ''-'' @ take 4 (drop 8 h) @ ''-'' @ take 4 (drop 12 h) @ ''-'' @ take 4 (drop 16 h) @ ''-'' @ drop 20 h"

definition parse_uuid :: "pystr \<Rightarrow> uuid option" where
  "parse_uuid s =
     (let brace = (\<lambda>c. c = CHR ''{'' \<or> c = CHR ''}'');
          plain = remove_all_of ''uuid:'' (remove_all_of ''urn:'' s);
          h = filter (\<lambda>c. c \<noteq> CHR ''-'') (rev (dropWhile brace (rev (dropWhile brace plain))))
      in if length h = 32 \<and> list_all hex_digit h then Some (uuid_str (lower h)) else None)"

text \<open>The form \<open>str(uuid)\<close> writes.\<close>

definition canonical_uuid :: "uuid \<Rightarrow> bool" where
  "canonical_uuid u \<longleftrightarrow> parse_uuid u = Some u"

lemma canonical_ascii: "canonical_uuid u \<Longrightarrow> ascii u"
proof -
  assume "canonical_uuid u"
  then obtain h where h: "list_all hex_digit h" "u = uuid_str (lower h)"
    unfolding canonical_uuid_def parse_uuid_def Let_def by (auto split: if_splits)
  have "of_char (lower_char c) < (128 :: nat)" if "hex_digit c" for c
    using that by (auto simp: hex_digit_def lower_char_def Let_def)
  then have "ascii (lower h)" using h(1) by (auto simp: ascii_def list_all_iff)
  then have part: "ascii (take i (drop k (lower h)))" "ascii (drop k (lower h))" "ascii (take i (lower h))" for i k
    unfolding ascii_def list_all_iff by (meson in_set_takeD in_set_dropD)+
  have "ascii (xs @ ys) \<longleftrightarrow> ascii xs \<and> ascii ys" for xs ys by (simp add: ascii_def)
  moreover have "ascii ''-''" by (simp add: ascii_def)
  ultimately show "ascii u" using part by (simp only: h(2) uuid_str_def)
qed

section \<open>The cursor\<close>

definition cursor :: "datetime \<Rightarrow> uuid \<Rightarrow> pystr" where
  "cursor timestamp event_id = urlsafe_b64encode (isoformat timestamp @ ''|'' @ event_id)"

definition parse_cursor :: "pystr \<Rightarrow> failure + datetime \<times> uuid" where
  "parse_cursor value =
     (case urlsafe_b64decode value of
        Inl _ \<Rightarrow> Inl (HTTPException 422 ''invalid cursor'')
      | Inr bs \<Rightarrow>
          (case partition_on (CHR ''|'') bs of (ts, found, eid) \<Rightarrow>
             (case (fromisoformat ts, parse_uuid eid) of
                (Some t, Some u) \<Rightarrow> if ascii bs \<and> found then Inr (t, u) else Inl (HTTPException 422 ''invalid cursor'')
              | _ \<Rightarrow> Inl (HTTPException 422 ''invalid cursor''))))"

lemma pad_plain: "list_all (\<lambda>c. (of_char c :: nat) < 128 \<and> c \<noteq> CHR ''|'') (pad w i)"
  using nat_str_digits [of "nat i"] by (auto simp: pad_def Let_def list_all_iff is_digit_def)

lemma iso_plain: "list_all (\<lambda>c. (of_char c :: nat) < 128 \<and> c \<noteq> CHR ''|'') (isoformat t)"
proof -
  obtain y m d where "civil (t div day) = (y, m, d)" by (metis prod_cases3)
  then show ?thesis by (simp add: isoformat_def iso_time_def Let_def date_str_def pad_plain)
qed

lemma partition_on_first: "d \<notin> set a \<Longrightarrow> partition_on d (a @ d # b) = (a, True, b)"
proof -
  assume "d \<notin> set a"
  then have "takeWhile (\<lambda>c. c \<noteq> d) (a @ d # b) = a" by (induction a) auto
  then show ?thesis by (simp add: partition_on_def)
qed

lemma parse_cursor_cursor:
  assumes "valid_instant t" and "canonical_uuid u"
  shows "parse_cursor (cursor t u) = Inr (t, u)"
proof -
  have "CHR ''|'' \<notin> set (isoformat t)" using iso_plain [of t] by (auto simp: list_all_iff)
  then have p: "partition_on (CHR ''|'') (isoformat t @ ''|'' @ u) = (isoformat t, True, u)"
    using partition_on_first by simp
  have "ascii (isoformat t @ ''|'' @ u)"
    using iso_plain [of t] canonical_ascii [OF assms(2)] by (auto simp: ascii_def list_all_iff)
  then show ?thesis
    using fromisoformat_isoformat [OF assms(1)] assms(2)
    by (simp add: parse_cursor_def cursor_def b64_roundtrip p [unfolded append_Cons append_Nil] canonical_uuid_def)
qed

end
