(* ===== verification/Log_Query.thy ===== *)
theory Log_Query
  imports Cursor Metric_Query "HOL-Library.Product_Lexorder"
begin

text \<open>
  The paged endpoints of \<open>server/temporalrca_server/api.py\<close>: logs and timeline events in the order
  of timestamp and event id, a page at a time, and the log histogram. Following the cursors from the
  first page to the last reads every matching row exactly once.
\<close>

section \<open>Pages\<close>

definition after :: "datetime \<times> uuid \<Rightarrow> datetime \<times> uuid \<Rightarrow> bool" where
  "after c k \<longleftrightarrow> fst c < fst k \<or> fst k = fst c \<and> snd c < snd k"

definition read_cursor :: "pystr option \<Rightarrow> failure + (datetime \<times> uuid) option" where
  "read_cursor c = (case c of
     None \<Rightarrow> Inr None
   | Some v \<Rightarrow> if v = [] then Inr None else bind_result (parse_cursor v) (\<lambda>k. Inr (Some k)))"

definition page :: "('r \<Rightarrow> datetime \<times> uuid) \<Rightarrow> nat \<Rightarrow> pystr option \<Rightarrow> 'r list \<Rightarrow> failure + 'r list \<times> pystr option" where
  "page key limit c rows = bind_result (read_cursor c) (\<lambda>k.
     let found = take (limit + 1) (sort_key key (filter (\<lambda>r. case k of None \<Rightarrow> True | Some x \<Rightarrow> after x (key r)) rows));
         items = take limit found
     in Inr (items, if limit < length found then Some (cursor (fst (key (last items))) (snd (key (last items)))) else None))"

section \<open>Logs\<close>

text \<open>SQL \<open>LIKE\<close> with the escape character \<open>\\<close>; \<open>ILIKE\<close> ignores case.\<close>

fun like :: "pystr \<Rightarrow> pystr \<Rightarrow> bool" where
  "like [] s \<longleftrightarrow> s = []"
| "like (p # ps) [] \<longleftrightarrow> p = CHR ''%'' \<and> like ps []"
| "like (p # ps) (c # cs) \<longleftrightarrow>
     (if p = CHR ''%'' then like ps (c # cs) \<or> like (p # ps) cs
      else if p = CHR ''_'' then like ps cs
      else if p = CHR 0x5C then (case ps of [] \<Rightarrow> False | q # qs \<Rightarrow> q = c \<and> like qs cs)
      else p = c \<and> like ps cs)"

record log_query =
  lq_start :: datetime
  lq_end :: datetime
  lq_host_id :: "uuid option"
  lq_service_id :: "uuid option"
  lq_process_id :: "uuid option"
  lq_dependency_id :: "uuid option"
  lq_severity :: "pystr list"
  lq_search :: "pystr option"
  lq_cursor :: "pystr option"
  lq_limit :: nat

definition log_matches :: "log_query \<Rightarrow> log_event \<Rightarrow> bool" where
  "log_matches q e \<longleftrightarrow> lq_start q \<le> le_timestamp e \<and> le_timestamp e < lq_end q
     \<and> wanted (lq_host_id q) (Some (le_host_id e)) \<and> wanted (lq_service_id q) (le_service_id e)
     \<and> wanted (lq_process_id q) (le_process_id e) \<and> wanted (lq_dependency_id q) (le_dependency_id e)
     \<and> (lq_severity q = [] \<or> (case le_severity e of None \<Rightarrow> False | Some s \<Rightarrow> s \<in> set (lq_severity q)))
     \<and> (case lq_search q of None \<Rightarrow> True
        | Some s \<Rightarrow> s = [] \<or> like (lower (''%'' @ s @ ''%'')) (lower (le_message e)))"

definition logs :: "log_query \<Rightarrow> database \<Rightarrow> failure + log_event list \<times> pystr option" where
  "logs q db = page log_key (lq_limit q) (lq_cursor q) (filter (log_matches q) (db_logs db))"

definition severity_name :: "log_event \<Rightarrow> pystr" where
  "severity_name e = (case le_severity e of None \<Rightarrow> ''UNSPECIFIED'' | Some s \<Rightarrow> if s = [] then ''UNSPECIFIED'' else s)"

definition log_histogram ::
  "datetime \<Rightarrow> datetime \<Rightarrow> uuid option \<Rightarrow> int \<Rightarrow> database \<Rightarrow> int \<times> ((int \<times> pystr) \<times> nat) list" where
  "log_histogram start stop host_id max_points db =
     (let bucket_seconds = select_bucket_seconds start stop max_points;
          found = filter (\<lambda>e. start \<le> le_timestamp e \<and> le_timestamp e < stop \<and> wanted host_id (Some (le_host_id e))) (db_logs db);
          grouped = fold (\<lambda>e d. let key = (slot bucket_seconds (le_timestamp e), severity_name e)
            in dict_set key (Suc (case dict_get d key of None \<Rightarrow> 0 | Some n \<Rightarrow> n)) d) found []
      in (bucket_seconds, sort_key fst grouped))"

section \<open>Timeline events\<close>

record event_query =
  eq_start :: datetime
  eq_end :: datetime
  eq_signal_type :: "pystr option"
  eq_experiment_id :: "uuid option"
  eq_cursor :: "pystr option"
  eq_limit :: nat

definition event_matches :: "event_query \<Rightarrow> timeline_event \<Rightarrow> bool" where
  "event_matches q e \<longleftrightarrow> eq_start q \<le> tl_timestamp e \<and> tl_timestamp e < eq_end q
     \<and> (case eq_signal_type q of None \<Rightarrow> True | Some s \<Rightarrow> s = [] \<or> tl_signal_type e = s)
     \<and> wanted (eq_experiment_id q) (tl_experiment_id e)"

definition timeline :: "event_query \<Rightarrow> database \<Rightarrow> failure + timeline_event list \<times> pystr option" where
  "timeline q db = page timeline_key (eq_limit q) (eq_cursor q) (filter (event_matches q) (db_timeline db))"

section \<open>Reading all pages\<close>

text \<open>A reader that follows the cursors, for at most \<open>n\<close> pages.\<close>

fun read_pages :: "nat \<Rightarrow> (pystr option \<Rightarrow> failure + 'r list \<times> pystr option) \<Rightarrow> pystr option \<Rightarrow> failure + 'r list option" where
  "read_pages 0 fetch c = Inr None"
| "read_pages (Suc n) fetch c = bind_result (fetch c) (\<lambda>(items, following).
     case following of
       None \<Rightarrow> Inr (Some items)
     | Some v \<Rightarrow> bind_result (read_pages n fetch (Some v)) (\<lambda>rest. Inr (map_option (\<lambda>r. items @ r) rest)))"

lemma cursor_nonempty: "cursor t u \<noteq> []"
proof -
  have "isoformat t @ ''|'' @ u \<noteq> []" by simp
  then show ?thesis
    unfolding cursor_def by (cases "isoformat t @ ''|'' @ u" rule: urlsafe_b64encode.cases) (auto simp: Let_def)
qed

definition readable :: "('r \<Rightarrow> datetime \<times> uuid) \<Rightarrow> 'r list \<Rightarrow> bool" where
  "readable key rows \<longleftrightarrow> distinct (map key rows) \<and> (\<forall>r \<in> set rows. valid_instant (fst (key r)) \<and> canonical_uuid (snd (key r)))"

lemma drop_after:
  assumes "sorted (map key l)" and "distinct (map key l)" and "0 < i" and "i \<le> length l"
  shows "filter (\<lambda>r. after (key (l ! (i - 1))) (key r)) l = drop i l"
proof -
  let ?k = "key (l ! (i - 1))"
  have less: "key (l ! a) < key (l ! b)" if "a < b" "b < length l" for a b
    using sorted_wrt_nth_less [of "(<)" "map key l" a b] assms(1,2) that by (simp add: strict_sorted_iff)
  have "after ?k k \<longleftrightarrow> ?k < k" for k :: "datetime \<times> uuid"
    by (auto simp: after_def less_prod_def')
  moreover have "filter (\<lambda>r. ?k < key r) (take i l) = []"
  proof (rule filter_False, rule ballI)
    fix r assume "r \<in> set (take i l)"
    then obtain j where j: "j < i" "r = l ! j" using assms(4) by (auto simp: in_set_conv_nth)
    show "\<not> ?k < key r"
    proof (cases "j = i - 1")
      case False
      then have "key r < ?k" using less [of j "i - 1"] j assms(3,4) by simp
      then show ?thesis by (rule order_less_not_sym)
    qed (simp add: j)
  qed
  moreover have "filter (\<lambda>r. ?k < key r) (drop i l) = drop i l"
  proof (rule filter_True, rule ballI)
    fix r assume "r \<in> set (drop i l)"
    then obtain j where "j < length l - i" "r = l ! (i + j)" by (auto simp: in_set_conv_nth)
    then show "?k < key r" using less [of "i - 1" "i + j"] assms(3) by simp
  qed
  moreover have "filter P l = filter P (take i l) @ filter P (drop i l)" for P
    by (metis append_take_drop_id filter_append)
  ultimately show ?thesis by simp
qed

text \<open>The cursor a reader holds before position \<open>i\<close> of the sorted rows, and the page it gets.\<close>

definition cursor_at :: "('r \<Rightarrow> datetime \<times> uuid) \<Rightarrow> 'r list \<Rightarrow> nat \<Rightarrow> pystr option" where
  "cursor_at key l i = (if i = 0 then None else Some (cursor (fst (key (l ! (i - 1)))) (snd (key (l ! (i - 1))))))"

lemma page_at:
  assumes "readable key rows" and "l = sort_key key rows" and "i \<le> length l" and "0 < limit"
  shows "page key limit (cursor_at key l i) rows
    = Inr (take limit (drop i l), if i + limit < length l then cursor_at key l (i + limit) else None)"
proof -
  have s: "sorted (map key l)" "distinct (map key l)" "set l = set rows"
    using assms(1,2) by (simp_all add: readable_def distinct_map)
  have found: "sort_key key (filter P rows) = filter P l" for P
    by (simp add: assms(2) filter_sort)
  have rest: "\<exists>k. read_cursor (cursor_at key l i) = Inr k
      \<and> filter (\<lambda>r. case k of None \<Rightarrow> True | Some x \<Rightarrow> after x (key r)) l = drop i l"
  proof (cases "i = 0")
    case False
    let ?k = "key (l ! (i - 1))"
    have "l ! (i - 1) \<in> set rows" using assms(3) False s(3) by (metis One_nat_def Suc_pred less_eq_Suc_le neq0_conv nth_mem)
    then have "parse_cursor (cursor (fst ?k) (snd ?k)) = Inr ?k"
      using assms(1) parse_cursor_cursor [of "fst ?k" "snd ?k"] by (simp add: readable_def)
    then have "read_cursor (cursor_at key l i) = Inr (Some ?k)"
      using False by (simp add: read_cursor_def cursor_at_def cursor_nonempty)
    then show ?thesis using drop_after [OF s(1,2) _ assms(3)] False by simp
  qed (simp add: read_cursor_def cursor_at_def)
  then obtain k where k: "read_cursor (cursor_at key l i) = Inr k"
    "filter (\<lambda>r. case k of None \<Rightarrow> True | Some x \<Rightarrow> after x (key r)) l = drop i l" by blast
  have cut: "take limit (take (limit + 1) (drop i l)) = take limit (drop i l)" by simp
  have "length (take (limit + 1) (drop i l)) = min (limit + 1) (length l - i)" by simp
  then have more: "limit < length (take (limit + 1) (drop i l)) \<longleftrightarrow> i + limit < length l" by auto
  have lst: "last (take limit (drop i l)) = l ! (i + limit - 1)" if "i + limit < length l"
    using that assms(4) by (subst last_conv_nth) auto
  show ?thesis
    unfolding page_def k(1) bind_result_simps Let_def found k(2) cut more
    using lst assms(4) by (simp add: cursor_at_def)
qed

lemma read_pages_at:
  assumes "readable key rows" and "l = sort_key key rows" and "0 < limit"
  shows "i \<le> length l \<Longrightarrow> length l - i < n \<Longrightarrow>
    read_pages n (\<lambda>c. page key limit c rows) (cursor_at key l i) = Inr (Some (drop i l))"
proof (induction n arbitrary: i)
  case (Suc n)
  show ?case
  proof (cases "i + limit < length l")
    case True
    then have next_page: "read_pages n (\<lambda>c. page key limit c rows) (cursor_at key l (i + limit)) = Inr (Some (drop (i + limit) l))"
      using Suc assms(3) by simp
    have "take limit (drop i l) @ drop (i + limit) l = drop i l"
      by (metis add.commute append_take_drop_id drop_drop)
    moreover have "cursor_at key l (i + limit) = Some (the (cursor_at key l (i + limit)))"
      using assms(3) by (simp add: cursor_at_def)
    ultimately show ?thesis
      using page_at [OF assms(1,2) Suc.prems(1) assms(3)] True next_page
      by (auto split: option.split)
  next
    case False
    then show ?thesis using page_at [OF assms(1,2) Suc.prems(1) assms(3)] by simp
  qed
qed simp

lemma read_all_pages:
  assumes "readable key rows" and "0 < limit" and "length rows < n"
  shows "read_pages n (\<lambda>c. page key limit c rows) None = Inr (Some (sort_key key rows))"
  using read_pages_at [OF assms(1) refl assms(2), of 0 n] assms(3) by (simp add: cursor_at_def)

lemma readable_filter: "readable key rows \<Longrightarrow> readable key (filter P rows)"
  by (simp add: readable_def distinct_map_filter)

text \<open>
  C22. Following the cursors reads every matching log exactly once, in the order of timestamp and
  event id: with any page size of at least one the pages, joined, are the sorted list of all matches,
  and one page more than there are logs is enough. The cursor survives its encoding.
\<close>

theorem log_pages_complete:
  assumes "readable log_key (db_logs db)" and "0 < lq_limit q"
  shows "read_pages (Suc (length (db_logs db))) (\<lambda>c. logs (q\<lparr>lq_cursor := c\<rparr>) db) None
    = Inr (Some (sort_key log_key (filter (log_matches q) (db_logs db))))"
proof -
  have "log_matches (q\<lparr>lq_cursor := c\<rparr>) = log_matches q" for c
    by (simp add: log_matches_def fun_eq_iff split: option.split)
  then have "(\<lambda>c. logs (q\<lparr>lq_cursor := c\<rparr>) db) = (\<lambda>c. page log_key (lq_limit q) c (filter (log_matches q) (db_logs db)))"
    by (intro ext) (simp add: logs_def)
  then show ?thesis
    by (simp only:) (rule read_all_pages [OF readable_filter [OF assms(1)] assms(2)], simp add: less_Suc_eq_le)
qed

lemma timeline_pages_complete:
  assumes "readable timeline_key (db_timeline db)" and "0 < eq_limit q"
  shows "read_pages (Suc (length (db_timeline db))) (\<lambda>c. timeline (q\<lparr>eq_cursor := c\<rparr>) db) None
    = Inr (Some (sort_key timeline_key (filter (event_matches q) (db_timeline db))))"
proof -
  have "event_matches (q\<lparr>eq_cursor := c\<rparr>) = event_matches q" for c
    by (simp add: event_matches_def fun_eq_iff split: option.split)
  then have "(\<lambda>c. timeline (q\<lparr>eq_cursor := c\<rparr>) db) = (\<lambda>c. page timeline_key (eq_limit q) c (filter (event_matches q) (db_timeline db)))"
    by (intro ext) (simp add: timeline_def)
  then show ?thesis
    by (simp only:) (rule read_all_pages [OF readable_filter [OF assms(1)] assms(2)], simp add: less_Suc_eq_le)
qed

definition demo_log :: "pystr \<Rightarrow> datetime \<Rightarrow> log_event" where
  "demo_log i t = \<lparr>le_timestamp = t, le_event_id = i, le_host_id = ''h'', le_service_id = None, le_process_id = None,
     le_container_id = None, le_dependency_id = None, le_experiment_id = None, le_observed = t, le_sequence = 0,
     le_source_type = ''system'', le_severity = None, le_event_type = None, le_message = ''up'', le_attributes = []\<rparr>"

definition demo_logs :: database where
  "demo_logs = empty_database\<lparr>db_logs := [demo_log ''00000000-0000-0000-0000-00000000000b'' second,
     demo_log ''00000000-0000-0000-0000-00000000000a'' second, demo_log ''00000000-0000-0000-0000-00000000000c'' 0]\<rparr>"

definition demo_log_query :: log_query where
  "demo_log_query = \<lparr>lq_start = 0, lq_end = minute, lq_host_id = None, lq_service_id = None, lq_process_id = None,
     lq_dependency_id = None, lq_severity = [], lq_search = Some ''U'', lq_cursor = None, lq_limit = 1\<rparr>"

theorem log_pages_complete_witness:
  "read_pages 4 (\<lambda>c. logs (demo_log_query\<lparr>lq_cursor := c\<rparr>) demo_logs) None
     = Inr (Some [demo_log ''00000000-0000-0000-0000-00000000000c'' 0, demo_log ''00000000-0000-0000-0000-00000000000a'' second,
                  demo_log ''00000000-0000-0000-0000-00000000000b'' second])"
proof -
  have "canonical_uuid ''00000000-0000-0000-0000-00000000000a''" "canonical_uuid ''00000000-0000-0000-0000-00000000000b''"
    "canonical_uuid ''00000000-0000-0000-0000-00000000000c''"
    by code_simp+
  moreover have "valid_instant 0" "valid_instant second" by code_simp+
  ultimately have "readable log_key (db_logs demo_logs)"
    by (simp add: readable_def demo_logs_def log_key_def demo_log_def)
  then have "read_pages (Suc (length (db_logs demo_logs))) (\<lambda>c. logs (demo_log_query\<lparr>lq_cursor := c\<rparr>) demo_logs) None
      = Inr (Some (sort_key log_key (filter (log_matches demo_log_query) (db_logs demo_logs))))"
    by (rule log_pages_complete) (simp add: demo_log_query_def)
  moreover have "sort_key log_key (filter (log_matches demo_log_query) (db_logs demo_logs))
      = [demo_log ''00000000-0000-0000-0000-00000000000c'' 0, demo_log ''00000000-0000-0000-0000-00000000000a'' second,
         demo_log ''00000000-0000-0000-0000-00000000000b'' second]"
    by code_simp
  ultimately show ?thesis by (simp add: demo_logs_def numeral_eq_Suc)
qed

end
