(* ===== verification/File_Logs.thy ===== *)
theory File_Logs
  imports Normalization PyText
begin

text \<open>
  The log collectors, \<open>agent/src/temporalrca_agent/collectors/logs.py\<close>: following a file from a
  cursor that is stored with the events, and reading pages of the systemd journal. A poll sees the
  file as one snapshot; \<open>loads\<close> is \<open>json.loads\<close>, \<open>None\<close> for a decode error, \<open>decode\<close> the
  decoding of bytes with replacement characters, \<open>pstr\<close> Python's \<open>str\<close> of a value that is no text.
\<close>

section \<open>Following a file\<close>

record file_cursor =
  fc_device :: int
  fc_inode :: int
  fc_offset :: nat
  fc_partial :: bytes
  fc_partial_truncated :: bool

record file_snapshot =
  fs_device :: int
  fs_inode :: int
  fs_content :: bytes

record file_collector =
  fl_name :: pystr
  fl_path :: pystr
  fl_max_line_bytes :: nat
  fl_max_lines :: nat
  fl_service_id :: "uuid option"
  fl_cursor :: "file_cursor option"
  fl_pending :: "(file_cursor \<times> pystr) option"

definition new_file_collector :: "pystr \<Rightarrow> pystr \<Rightarrow> uuid option \<Rightarrow> file_collector" where
  "new_file_collector name path service_id =
     \<lparr>fl_name = name, fl_path = path, fl_max_line_bytes = 65536, fl_max_lines = 1000, fl_service_id = service_id,
      fl_cursor = None, fl_pending = None\<rparr>"

definition newline :: char where "newline = CHR 0x0A"

text \<open>Where reading resumes: at the cursor, or at the start of a new or shortened file.\<close>

definition resume_at :: "file_snapshot \<Rightarrow> file_cursor option \<Rightarrow> nat \<times> bytes \<times> bool" where
  "resume_at file cursor =
     (case cursor of
        None \<Rightarrow> (0, [], False)
      | Some c \<Rightarrow>
          if (fc_device c, fc_inode c) \<noteq> (fs_device file, fs_inode file) \<or> length (fs_content file) < fc_offset c
          then (0, [], False) else (fc_offset c, fc_partial c, fc_partial_truncated c))"

definition cut_lines :: "nat \<Rightarrow> nat \<Rightarrow> nat \<Rightarrow> bytes \<Rightarrow> bool \<Rightarrow> bytes \<Rightarrow> (bytes \<times> bool) list \<times> nat \<times> bytes \<times> bool" where
  "cut_lines max_line_bytes max_lines offset partial partial_was_truncated chunk =
     (let parts = split_on newline (partial @ chunk);
          pieces = butlast parts;
          kept = take max_lines pieces;
          lines = map (\<lambda>(i, line). (line, if i = 0 then partial_was_truncated else False)) (enumerate 0 kept);
          over = max_lines < length pieces;
          consumed = sum_list (map (\<lambda>line. length line + 1) kept);
          final_offset = (if over then offset + (consumed - length partial) else offset + length chunk);
          trailing = (if over then [] else last parts)
      in (lines, final_offset, take max_line_bytes trailing,
          partial_was_truncated \<and> pieces = [] \<or> max_line_bytes < length trailing))"

definition read_file :: "file_collector \<Rightarrow> file_snapshot option \<Rightarrow> ((bytes \<times> bool) list \<times> file_cursor) option" where
  "read_file col file =
     (case file of
        None \<Rightarrow> None
      | Some f \<Rightarrow>
          (case resume_at f (fl_cursor col) of (offset, partial, was_truncated) \<Rightarrow>
             let chunk = take (fl_max_line_bytes col * fl_max_lines col + 1) (drop offset (fs_content f)) in
             (case cut_lines (fl_max_line_bytes col) (fl_max_lines col) offset partial was_truncated chunk of
                (lines, final_offset, trailing, trailing_truncated) \<Rightarrow>
                  Some (lines, \<lparr>fc_device = fs_device f, fc_inode = fs_inode f, fc_offset = final_offset,
                     fc_partial = trailing, fc_partial_truncated = trailing_truncated\<rparr>))))"

section \<open>The stored state\<close>

definition hex_str :: "bytes \<Rightarrow> pystr" where
  "hex_str bs = concat (map (\<lambda>c. [hex_char (of_char c div 16), hex_char (of_char c mod 16)]) bs)"

text \<open>\<open>bytes.fromhex\<close>: pairs of digits, with white space between them.\<close>

fun fromhex :: "pystr \<Rightarrow> exn + bytes" where
  "fromhex [] = Inr []"
| "fromhex [c] = (if is_space c then Inr [] else Inl ValueError)"
| "fromhex (c # d # cs) =
     (if is_space c then fromhex (d # cs)
      else (case (hex_value c, hex_value d) of
              (Some x, Some y) \<Rightarrow> bind_result (fromhex cs) (\<lambda>bs. Inr (char_of (16 * x + y) # bs))
            | _ \<Rightarrow> Inl ValueError))"

definition cursor_state :: "file_cursor \<Rightarrow> json" where
  "cursor_state c = JObj [(''device'', JInt (fc_device c)), (''inode'', JInt (fc_inode c)),
     (''offset'', JInt (int (fc_offset c))), (''partial'', JStr (hex_str (fc_partial c))),
     (''partial_truncated'', JBool (fc_partial_truncated c))]"

text \<open>Reading it back; a state written by something else is a type or key error.\<close>

definition restore_cursor :: "json \<Rightarrow> exn + file_cursor" where
  "restore_cursor state =
     (case (obj_get state ''device'', obj_get state ''inode'', obj_get state ''offset'') of
        (Some (JInt dev), Some (JInt ino), Some (JInt off)) \<Rightarrow>
          (case (obj_get state ''partial'', obj_get state ''partial_truncated'') of
             (Some (JStr h), Some (JBool b)) \<Rightarrow> bind_result (fromhex h) (\<lambda>bs.
                Inr \<lparr>fc_device = dev, fc_inode = ino, fc_offset = nat off, fc_partial = bs, fc_partial_truncated = b\<rparr>)
           | (None, None) \<Rightarrow>
                Inr \<lparr>fc_device = dev, fc_inode = ino, fc_offset = nat off, fc_partial = [], fc_partial_truncated = False\<rparr>
           | _ \<Rightarrow> Inl TypeError)
      | (Some _, Some _, Some _) \<Rightarrow> Inl TypeError
      | _ \<Rightarrow> Inl KeyError)"

section \<open>Events\<close>

definition upper_char :: "char \<Rightarrow> char" where
  "upper_char c = (let n = of_char c :: nat in
     if 97 \<le> n \<and> n \<le> 122 \<or> 224 \<le> n \<and> n \<le> 254 \<and> n \<noteq> 247 then char_of (n - 32) else c)"

definition first_of :: "json \<Rightarrow> pystr \<Rightarrow> pystr \<Rightarrow> json \<Rightarrow> json" where
  "first_of obj a b other = (case obj_get obj a of Some v \<Rightarrow> v | None \<Rightarrow> (case obj_get obj b of Some v \<Rightarrow> v | None \<Rightarrow> other))"

definition reserved_keys :: "pystr list" where
  "reserved_keys = [''severity'', ''level'', ''timestamp'', ''message'', ''msg'']"

definition log_entry ::
  "(pystr \<Rightarrow> json option) \<Rightarrow> (bytes \<Rightarrow> pystr) \<Rightarrow> (json \<Rightarrow> pystr) \<Rightarrow> file_collector \<Rightarrow> bytes \<times> bool \<Rightarrow> event_args" where
  "log_entry loads decode pstr col entry =
     (case entry of (line, forced_truncated) \<Rightarrow>
        let text = decode (take (fl_max_line_bytes col) line);
            base = [(''log.source'', JStr (fl_name col)), (''log.file.path'', JStr (fl_path col)),
                    (''truncated'', JBool (forced_truncated \<or> fl_max_line_bytes col < length line))];
            args = (event_default APPLICATION LOG ''application.log'')
              \<lparr>ea_entity := Some (no_entity\<lparr>er_service_id := fl_service_id col\<rparr>)\<rparr>;
            plain = args\<lparr>ea_severity := Some ''INFO'', ea_message := Some text, ea_attributes := base\<rparr>
        in (case loads text of
              None \<Rightarrow> plain\<lparr>ea_attributes := base @ [(''parse_error'', JBool True)]\<rparr>
            | Some (JObj items) \<Rightarrow>
                args\<lparr>ea_timestamp := (case obj_get (JObj items) ''timestamp'' of None \<Rightarrow> NoTime | Some v \<Rightarrow> TimeValue v),
                   ea_severity := Some (map upper_char (py_str pstr (first_of (JObj items) ''severity'' ''level'' (JStr ''INFO'')))),
                   ea_message := Some (py_str pstr (first_of (JObj items) ''message'' ''msg'' (JStr text))),
                   ea_attributes := dict_update (map (\<lambda>(k, v). (''log.'' @ k, v))
                     (filter (\<lambda>(k, v). k \<notin> set reserved_keys) items)) base\<rparr>
            | Some _ \<Rightarrow> plain))"

definition collect_file ::
  "(pystr \<Rightarrow> json option) \<Rightarrow> (bytes \<Rightarrow> pystr) \<Rightarrow> (json \<Rightarrow> pystr) \<Rightarrow> file_snapshot option \<Rightarrow> file_collector
    \<Rightarrow> event_args list \<times> file_collector" where
  "collect_file loads decode pstr file col =
     (case read_file col file of
        None \<Rightarrow> ([], col)
      | Some (lines, next_cursor) \<Rightarrow>
          (map (log_entry loads decode pstr col) lines,
           col\<lparr>fl_pending := Some (next_cursor, json_dumps_spaced (\<lambda>_. []) (cursor_state next_cursor))\<rparr>))"

definition pending_file_update :: "file_collector \<Rightarrow> (pystr \<times> pystr) option" where
  "pending_file_update col = map_option (\<lambda>p. (''file:'' @ fl_name col, snd p)) (fl_pending col)"

definition commit_file_update :: "file_collector \<Rightarrow> file_collector" where
  "commit_file_update col =
     (case fl_pending col of None \<Rightarrow> col | Some p \<Rightarrow> col\<lparr>fl_cursor := Some (fst p), fl_pending := None\<rparr>)"

definition restore_file :: "(pystr \<Rightarrow> json option) \<Rightarrow> (pystr \<Rightarrow> pystr option) \<Rightarrow> file_collector \<Rightarrow> exn + file_collector" where
  "restore_file loads state col =
     (case state (''file:'' @ fl_name col) of
        None \<Rightarrow> Inr col
      | Some raw \<Rightarrow> if raw = [] then Inr col
          else (case loads raw of None \<Rightarrow> Inl ValueError
                | Some v \<Rightarrow> bind_result (restore_cursor v) (\<lambda>c. Inr (col\<lparr>fl_cursor := Some c\<rparr>))))"

section \<open>The journal\<close>

record journal_collector =
  jc_name :: pystr
  jc_unit :: pystr
  jc_max_lines :: nat
  jc_service_id :: "uuid option"
  jc_pending_cursor :: "pystr option"

text \<open>Which entries a run of \<open>journalctl\<close> is asked for.\<close>

datatype journal_start = AfterCursor pystr | SinceNow

definition journal_time :: "json option \<Rightarrow> exn + event_time" where
  "journal_time realtime =
     (case realtime of
        None \<Rightarrow> Inr NoTime
      | Some v \<Rightarrow> if \<not> json_truthy v then Inr NoTime
          else (case v of
              JStr s \<Rightarrow> bind_result (int_of s) (\<lambda>t. Inr (TimeAware t))
            | JInt t \<Rightarrow> Inr (TimeAware t)
            | JBool b \<Rightarrow> Inr (TimeAware 1)
            | JFloat q \<Rightarrow> Inr (TimeAware (if 0 \<le> q then \<lfloor>q\<rfloor> else - \<lfloor>- q\<rfloor>))
            | _ \<Rightarrow> Inl TypeError))"

definition journal_text :: "(json \<Rightarrow> pystr) \<Rightarrow> json \<Rightarrow> pystr \<Rightarrow> pystr \<Rightarrow> pystr" where
  "journal_text pstr entry key other = (case obj_get entry key of None \<Rightarrow> other | Some v \<Rightarrow> py_str pstr v)"

text \<open>One record; the cursor so far may be any JSON value a record carried, \<open>None\<close> at the start.\<close>

definition journal_entry ::
  "(json \<Rightarrow> pystr) \<Rightarrow> journal_collector \<Rightarrow> json \<Rightarrow> event_args list \<times> json \<Rightarrow> exn + event_args list \<times> json" where
  "journal_entry pstr col entry acc =
     (case (entry, acc) of
        (JObj items, (events, final_cursor)) \<Rightarrow>
          let cur = (case obj_get entry ''__CURSOR'' of None \<Rightarrow> final_cursor | Some v \<Rightarrow> v) in
          bind_result (journal_time (obj_get entry ''__REALTIME_TIMESTAMP'')) (\<lambda>t.
            Inr (events @ [(event_default APPLICATION LOG ''journald.log'')
                  \<lparr>ea_timestamp := t, ea_severity := Some (journal_text pstr entry ''PRIORITY'' ''6''),
                   ea_message := Some (journal_text pstr entry ''MESSAGE'' []),
                   ea_attributes := [(''journal.unit'', JStr (jc_unit col)),
                     (''journal.cursor'', if json_truthy cur then cur else JStr [])],
                   ea_entity := Some (no_entity\<lparr>er_service_id := jc_service_id col\<rparr>)\<rparr>], cur))
      | _ \<Rightarrow> Inl AttributeError)"

text \<open>\<open>run start\<close> is the output of \<open>journalctl\<close> line by line, or its error text.\<close>

definition collect_journal ::
  "(pystr \<Rightarrow> json option) \<Rightarrow> (json \<Rightarrow> pystr) \<Rightarrow> (journal_start \<Rightarrow> pystr + pystr list) \<Rightarrow> pystr option
    \<Rightarrow> journal_collector \<Rightarrow> exn + event_args list \<times> journal_collector" where
  "collect_journal loads pstr run stored col =
     (let start = (case stored of None \<Rightarrow> SinceNow | Some c \<Rightarrow> if c = [] then SinceNow else AfterCursor c);
          initial = (case stored of None \<Rightarrow> JNull | Some c \<Rightarrow> JStr c)
      in (case run start of
            Inl err \<Rightarrow> Inl (RuntimeError (strip err))
          | Inr lines \<Rightarrow>
              bind_result (fold_result (\<lambda>line acc. case loads line of None \<Rightarrow> Inr acc | Some v \<Rightarrow> journal_entry pstr col v acc)
                  lines ([], initial))
                (\<lambda>(events, final_cursor).
                  Inr (events, if json_truthy final_cursor \<and> final_cursor \<noteq> initial
                    then col\<lparr>jc_pending_cursor := Some (py_str pstr final_cursor)\<rparr> else col))))"

definition pending_journal_update :: "journal_collector \<Rightarrow> (pystr \<times> pystr) option" where
  "pending_journal_update col = map_option (\<lambda>c. (''journal:'' @ jc_name col, c)) (jc_pending_cursor col)"

definition commit_journal_update :: "journal_collector \<Rightarrow> journal_collector" where
  "commit_journal_update col = col\<lparr>jc_pending_cursor := None\<rparr>"

end
