(* ===== verification/File_Log_Laws.thy ===== *)
theory File_Log_Laws
  imports File_Logs "HOL-Library.Sublist"
begin

text \<open>
  What following a file guarantees: while the file only grows, every complete line is emitted exactly
  once and in order, however the polls cut it; the cursor survives being stored; and the journal
  reader, which starts from now and never learns a cursor, emits nothing.
\<close>

section \<open>Splitting at newlines\<close>

lemma split_on_cons: "split_on d s = hd (split_on d s) # tl (split_on d s)"
  by simp

lemma split_on_prefix: "d \<notin> set p \<Longrightarrow> split_on d (p @ s) = (p @ hd (split_on d s)) # tl (split_on d s)"
  by (induction p) auto

lemma split_on_append:
  "split_on d (a @ b) = butlast (split_on d a) @ split_on d (last (split_on d a) @ b)"
proof (induction a)
  case (Cons c a)
  show ?case
  proof (cases "c = d")
    case False
    obtain w ws where w: "split_on d a = w # ws" by (cases "split_on d a") auto
    show ?thesis
    proof (cases ws)
      case Nil
      then have "d \<notin> set w" using w split_on_no_sep [of w d a] by simp
      then show ?thesis using Cons False w Nil by (auto split: list.split)
    next
      case (Cons v vs)
      then show ?thesis using Cons.IH False w by simp
    qed
  qed (use Cons in simp)
qed simp

lemma last_split_no_sep: "d \<notin> set (last (split_on d s))"
  using split_on_no_sep [of "last (split_on d s)" d s] by simp

text \<open>The first \<open>n\<close> pieces, each with its newline, are the text up to the \<open>n\<close>-th newline.\<close>

lemma split_on_take:
  "n < length (split_on d s) \<Longrightarrow>
     split_on d (take (sum_list (map (\<lambda>l. length l + 1) (take n (split_on d s)))) s) = take n (split_on d s) @ [[]]"
proof (induction n arbitrary: s)
  case (Suc n)
  obtain l ls where l: "split_on d s = l # ls" by (cases "split_on d s") auto
  with Suc.prems have "ls \<noteq> []" by auto
  have nol: "d \<notin> set l" using l split_on_no_sep [of l d s] by simp
  have s: "s = l @ d # join_with [d] ls"
    using join_split_on [of d s] \<open>ls \<noteq> []\<close> unfolding l by (cases ls) simp_all
  have rest: "split_on d (join_with [d] ls) = ls"
  proof -
    have "split_on d s = l # split_on d (join_with [d] ls)"
      unfolding s split_on_prefix [OF nol] by simp
    then show ?thesis using l by simp
  qed
  have "take (sum_list (map (\<lambda>l. length l + 1) (take (Suc n) (split_on d s)))) s
      = l @ d # take (sum_list (map (\<lambda>l. length l + 1) (take n ls))) (join_with [d] ls)"
    unfolding l by (subst s) simp
  moreover have "split_on d (take (sum_list (map (\<lambda>l. length l + 1) (take n ls))) (join_with [d] ls)) = take n ls @ [[]]"
    using Suc.IH [of "join_with [d] ls"] Suc.prems rest l by simp
  ultimately show ?case unfolding l by (simp add: split_on_prefix [OF nol])
qed simp

section \<open>One poll\<close>

text \<open>What a reader sees of a line, and of a line the collector hands on.\<close>

definition shown :: "nat \<Rightarrow> bytes \<Rightarrow> bytes \<times> bool" where
  "shown k line = (take k line, k < length line)"

definition line_shown :: "nat \<Rightarrow> bytes \<times> bool \<Rightarrow> bytes \<times> bool" where
  "line_shown k entry = (take k (fst entry), snd entry \<or> k < length (fst entry))"

definition complete_lines :: "bytes \<Rightarrow> bytes list" where
  "complete_lines content = butlast (split_on newline content)"

definition open_line :: "bytes \<Rightarrow> bytes" where
  "open_line content = last (split_on newline content)"

lemma complete_lines_append:
  "complete_lines (a @ b) = complete_lines a @ butlast (split_on newline (open_line a @ b))"
  "open_line (a @ b) = last (split_on newline (open_line a @ b))"
  unfolding complete_lines_def open_line_def split_on_append [of newline a b] by (simp_all add: butlast_append)

text \<open>The first piece is longer than the collector knows when its beginning was cut off.\<close>

lemma reported_pieces:
  assumes "p = take k P" and "was \<longleftrightarrow> k < length P" and "newline \<notin> set P"
  shows "map (line_shown k) (map (\<lambda>(i, line). (line, if i = 0 then was else False)) (enumerate 0 (take m (butlast (split_on newline (p @ s))))))
    = map (shown k) (take m (butlast (split_on newline (P @ s))))"
proof -
  let ?h = "hd (split_on newline s)" and ?t = "tl (split_on newline s)"
  have P: "split_on newline (P @ s) = (P @ ?h) # ?t" by (rule split_on_prefix [OF assms(3)])
  have p: "split_on newline (p @ s) = (p @ ?h) # ?t"
    using assms(1,3) by (intro split_on_prefix) (auto dest: in_set_takeD)
  have first: "line_shown k (p @ ?h, was) = shown k (P @ ?h)"
    using assms(1,2) by (auto simp: line_shown_def shown_def)
  have others: "map (line_shown k) (map (\<lambda>(i, line). (line, if i = 0 then was else False)) (enumerate (Suc n) xs)) = map (shown k) xs"
    for n and xs :: "bytes list"
    by (induction xs arbitrary: n) (simp_all add: line_shown_def shown_def)
  show ?thesis
  proof (cases "?t = []")
    case False
    then show ?thesis unfolding P p using first others [of 0] by (cases m) (simp_all)
  qed (simp add: P p)
qed

definition follows :: "nat \<Rightarrow> bytes \<Rightarrow> nat \<times> bytes \<times> bool \<Rightarrow> bool" where
  "follows k content c \<longleftrightarrow> (case c of (offset, partial, truncated) \<Rightarrow> offset \<le> length content
     \<and> (partial, truncated) = shown k (open_line (take offset content)))"

text \<open>The first \<open>m\<close> pieces of a text with the separator after each, and the part of \<open>c\<close> they end in.\<close>

definition consumed_length :: "nat \<Rightarrow> bytes \<Rightarrow> nat" where
  "consumed_length m s = sum_list (map (\<lambda>l. length l + 1) (take m (split_on newline s)))"

lemma consumed_prefix:
  assumes "newline \<notin> set p" and "0 < m" and "m < length (split_on newline (p @ c))"
  shows "length p + length (hd (split_on newline c)) + 1 \<le> consumed_length m (p @ c)"
    and "consumed_length m (p @ c) - length p \<le> length c"
    and "split_on newline (take (consumed_length m (p @ c) - length p) c)
      = hd (split_on newline c) # take (m - 1) (tl (split_on newline c)) @ [[]]"
proof -
  let ?h = "hd (split_on newline c)" and ?t = "tl (split_on newline c)"
  define kept where "kept = take m (split_on newline (p @ c))"
  define x where "x = take (consumed_length m (p @ c) - length p) c"
  have kept: "kept = (p @ ?h) # take (m - 1) ?t"
    using assms(2) by (cases m) (simp_all add: kept_def split_on_prefix [OF assms(1)])
  then show big: "length p + length ?h + 1 \<le> consumed_length m (p @ c)" by (simp add: consumed_length_def kept_def)
  have split: "split_on newline (take (consumed_length m (p @ c)) (p @ c)) = kept @ [[]]"
    using split_on_take [OF assms(3)] unfolding kept_def consumed_length_def .
  then have joined: "take (consumed_length m (p @ c)) (p @ c) = join_with [newline] (kept @ [[]])"
    using join_split_on [of newline "take (consumed_length m (p @ c)) (p @ c)"] by (simp only:)
  have "sum_list (map length kept) + length kept = consumed_length m (p @ c)"
    unfolding consumed_length_def kept_def [symmetric] by (induction kept) simp_all
  then have "length (take (consumed_length m (p @ c)) (p @ c)) = consumed_length m (p @ c)"
    unfolding joined length_join_with by simp
  then have "consumed_length m (p @ c) \<le> length (p @ c)" unfolding length_take by (metis min.cobounded1)
  then show "consumed_length m (p @ c) - length p \<le> length c" unfolding length_append by linarith
  have "take (consumed_length m (p @ c)) (p @ c) = p @ x" using big by (simp add: x_def)
  then have "kept @ [[]] = (p @ hd (split_on newline x)) # tl (split_on newline x)"
    using split split_on_prefix [OF assms(1), of x] by simp
  then show "split_on newline (take (consumed_length m (p @ c) - length p) c) = ?h # take (m - 1) ?t @ [[]]"
    unfolding x_def [symmetric] using kept split_on_cons [of newline x] by simp
qed

text \<open>What a poll has read, in terms of the file: every complete line of the chunk, or the first \<open>m\<close>.\<close>

definition advances :: "nat \<Rightarrow> bytes \<Rightarrow> nat \<Rightarrow> nat \<Rightarrow> (bytes \<times> bool) list \<times> nat \<times> bytes \<times> bool \<Rightarrow> bool" where
  "advances k content n offset r \<longleftrightarrow> (case r of (lines, final, trailing, truncated) \<Rightarrow>
     follows k content (final, trailing, truncated)
     \<and> map (shown k) (complete_lines (take offset content)) @ map (line_shown k) lines = map (shown k) (complete_lines (take final content))
     \<and> offset \<le> final \<and> (0 < n \<longrightarrow> offset < length content \<longrightarrow> offset < final))"

lemma cut_lines_all:
  assumes "follows k content (offset, partial, was)" and "chunk = take n (drop offset content)"
    and "\<not> m < length (butlast (split_on newline (partial @ chunk)))"
  shows "advances k content n offset (cut_lines k m offset partial was chunk)"
proof -
  let ?P = "open_line (take offset content)"
  obtain lines final trailing truncated where r: "cut_lines k m offset partial was chunk = (lines, final, trailing, truncated)"
    by (metis prod_cases4)
  have o: "offset \<le> length content" and p: "partial = take k ?P" and was: "was \<longleftrightarrow> k < length ?P"
    using assms(1) by (simp_all add: follows_def shown_def)
  have nl: "newline \<notin> set ?P" unfolding open_line_def by (rule last_split_no_sep)
  have P: "split_on newline (?P @ chunk) = (?P @ hd (split_on newline chunk)) # tl (split_on newline chunk)"
    by (rule split_on_prefix [OF nl])
  have T: "split_on newline (partial @ chunk) = (partial @ hd (split_on newline chunk)) # tl (split_on newline chunk)"
    using p nl by (intro split_on_prefix) (auto dest: in_set_takeD)
  have final: "final = offset + length chunk"
    and rest: "trailing = take k (last (split_on newline (partial @ chunk)))"
      "truncated \<longleftrightarrow> was \<and> butlast (split_on newline (partial @ chunk)) = [] \<or> k < length (last (split_on newline (partial @ chunk)))"
    using r assms(3) unfolding cut_lines_def Let_def by (simp_all only: if_False prod.inject)
  have content: "take final content = take offset content @ chunk"
    unfolding final assms(2) by (simp add: take_add min_def)
  have "(trailing, truncated) = shown k (last (split_on newline (?P @ chunk)))"
    unfolding rest shown_def T P using p was by (cases "tl (split_on newline chunk) = []") auto
  then have "follows k content (final, trailing, truncated)"
    using o by (simp add: follows_def content complete_lines_append(2)) (simp add: final assms(2))
  moreover have "map (line_shown k) lines = map (shown k) (take m (butlast (split_on newline (?P @ chunk))))"
    using r reported_pieces [OF p was nl, of m chunk] by (simp add: cut_lines_def Let_def)
  moreover have "length (butlast (split_on newline (?P @ chunk))) = length (butlast (split_on newline (partial @ chunk)))"
    by (simp only: T P length_butlast list.size)
  ultimately have "follows k content (final, trailing, truncated)"
    "map (line_shown k) lines = map (shown k) (butlast (split_on newline (?P @ chunk)))"
    using assms(3) by (simp_all only: take_all not_less)
  moreover have "offset \<le> final" "0 < n \<longrightarrow> offset < length content \<longrightarrow> offset < final"
    using o by (auto simp: final assms(2))
  ultimately show ?thesis
    unfolding r advances_def prod.case content complete_lines_append(1) by (simp only: map_append simp_thms)
qed

lemma cut_lines_some:
  assumes "follows k content (offset, partial, was)" and "chunk = take n (drop offset content)" and "0 < m"
    and more_pieces: "m < length (butlast (split_on newline (partial @ chunk)))"
  shows "advances k content n offset (cut_lines k m offset partial was chunk)"
proof -
  let ?P = "open_line (take offset content)" and ?h = "hd (split_on newline chunk)" and ?t = "tl (split_on newline chunk)"
  let ?consumed = "consumed_length m (partial @ chunk)"
  define x where "x = take (?consumed - length partial) chunk"
  obtain lines final trailing truncated where r: "cut_lines k m offset partial was chunk = (lines, final, trailing, truncated)"
    by (metis prod_cases4)
  have o: "offset \<le> length content" and p: "partial = take k ?P" and was: "was \<longleftrightarrow> k < length ?P"
    using assms(1) by (simp_all add: follows_def shown_def)
  have nl: "newline \<notin> set ?P" unfolding open_line_def by (rule last_split_no_sep)
  have nlp: "newline \<notin> set partial" using p nl by (auto dest: in_set_takeD)
  note T = split_on_prefix [OF nlp, of chunk] and P = split_on_prefix [OF nl, of chunk]
  have mt: "m \<le> length ?t" using more_pieces unfolding T length_butlast by simp
  have "m < length (split_on newline (partial @ chunk))" unfolding T list.size using mt by (simp only: add_Suc_right add_0_right less_Suc_eq_le)
  note consumed = consumed_prefix [OF nlp assms(3) this]
  have "take m (butlast (split_on newline (partial @ chunk))) = take m (split_on newline (partial @ chunk))"
    using more_pieces by (simp add: take_butlast)
  moreover have "butlast (split_on newline (partial @ chunk)) \<noteq> []" using more_pieces by (metis less_nat_zero_code list.size(3))
  ultimately have cut: "final = offset + (?consumed - length partial)" "trailing = []" "truncated = False"
    using r more_pieces unfolding cut_lines_def Let_def consumed_length_def by auto
  have content: "take final content = take offset content @ x"
    using consumed(2) by (simp add: cut(1) x_def assms(2) take_add min_absorb1)
  have real: "split_on newline (?P @ x) = (?P @ ?h) # take (m - 1) ?t @ [[]]"
    by (simp add: split_on_prefix [OF nl] x_def consumed(3))
  have "final \<le> length content" using o consumed(2) unfolding cut(1) assms(2) length_take length_drop by linarith
  then have "follows k content (final, trailing, truncated)"
    by (simp add: follows_def content complete_lines_append(2) real cut(2,3) shown_def)
  moreover have "map (line_shown k) lines = map (shown k) (butlast (split_on newline (?P @ x)))"
  proof -
    have "map (line_shown k) lines = map (shown k) (take m (butlast (split_on newline (?P @ chunk))))"
      using r reported_pieces [OF p was nl, of m chunk] by (simp add: cut_lines_def Let_def)
    moreover have "?t \<noteq> []" using mt assms(3) by (metis gr_zeroI le_zero_eq list.size(3) neq0_conv)
    ultimately show ?thesis unfolding real P using mt assms(3) by (cases m) (simp_all add: butlast_append take_butlast)
  qed
  moreover have "offset < final" using consumed(1) unfolding cut(1) by linarith
  ultimately show ?thesis
    unfolding r advances_def prod.case content complete_lines_append(1) by simp
qed

lemma cut_lines_follows:
  assumes "follows k content (offset, partial, was)" and "0 < m" and "cut_lines k m offset partial was (take n (drop offset content)) = (lines, final, trailing, truncated)"
  shows "follows k content (final, trailing, truncated)"
    and "map (shown k) (complete_lines (take offset content)) @ map (line_shown k) lines = map (shown k) (complete_lines (take final content))"
    and "offset \<le> final" and "0 < n \<Longrightarrow> offset < length content \<Longrightarrow> offset < final"
proof -
  have "advances k content n offset (lines, final, trailing, truncated)"
    using cut_lines_all [OF assms(1) refl, of m n] cut_lines_some [OF assms(1) refl assms(2), of n]
    unfolding assms(3) by blast
  then show "follows k content (final, trailing, truncated)"
    and "map (shown k) (complete_lines (take offset content)) @ map (line_shown k) lines = map (shown k) (complete_lines (take final content))"
    and "offset \<le> final" and "0 < n \<Longrightarrow> offset < length content \<Longrightarrow> offset < final"
    by (simp_all add: advances_def)
qed

section \<open>Many polls\<close>

text \<open>Polls of a file at successive moments, each committed before the next.\<close>

fun polls :: "file_snapshot list \<Rightarrow> file_collector \<Rightarrow> (bytes \<times> bool) list \<times> file_collector" where
  "polls [] col = ([], col)"
| "polls (f # fs) col =
     (case read_file col (Some f) of
        None \<Rightarrow> polls fs col
      | Some (lines, next_cursor) \<Rightarrow>
          (case polls fs (col\<lparr>fl_cursor := Some next_cursor\<rparr>) of
             (rest, col') \<Rightarrow> (map (line_shown (fl_max_line_bytes col)) lines @ rest, col')))"

definition at_offset :: "file_snapshot \<Rightarrow> nat \<Rightarrow> file_collector \<Rightarrow> bool" where
  "at_offset f offset col \<longleftrightarrow> (case resume_at f (fl_cursor col) of (o', partial, was) \<Rightarrow>
     o' = offset \<and> follows (fl_max_line_bytes col) (fs_content f) (offset, partial, was))"

lemma read_file_step:
  assumes "at_offset f offset col" and "0 < fl_max_lines col"
  obtains lines final cur where "read_file col (Some f) = Some (lines, cur)"
    and "fc_device cur = fs_device f" and "fc_inode cur = fs_inode f" and "fc_offset cur = final"
    and "follows (fl_max_line_bytes col) (fs_content f) (final, fc_partial cur, fc_partial_truncated cur)"
    and "map (shown (fl_max_line_bytes col)) (complete_lines (take offset (fs_content f))) @ map (line_shown (fl_max_line_bytes col)) lines
      = map (shown (fl_max_line_bytes col)) (complete_lines (take final (fs_content f)))"
    and "offset \<le> final" and "offset < length (fs_content f) \<longrightarrow> offset < final"
proof -
  let ?k = "fl_max_line_bytes col" and ?n = "fl_max_line_bytes col * fl_max_lines col + 1"
  obtain partial was where r: "resume_at f (fl_cursor col) = (offset, partial, was)"
    and fo: "follows ?k (fs_content f) (offset, partial, was)"
    using assms(1) unfolding at_offset_def by (auto split: prod.splits)
  obtain lines final trailing truncated where
    c: "cut_lines ?k (fl_max_lines col) offset partial was (take ?n (drop offset (fs_content f))) = (lines, final, trailing, truncated)"
    by (metis prod_cases4)
  note step = cut_lines_follows [OF fo assms(2) c]
  show thesis
  proof (rule that)
    show "read_file col (Some f) = Some (lines, \<lparr>fc_device = fs_device f, fc_inode = fs_inode f, fc_offset = final,
        fc_partial = trailing, fc_partial_truncated = truncated\<rparr>)"
      by (simp only: read_file_def r c Let_def option.case prod.case)
  qed (use step in \<open>simp_all, blast?\<close>)
qed

text \<open>The file afterwards: the same file, with more at its end.\<close>

definition grown :: "file_snapshot \<Rightarrow> file_snapshot \<Rightarrow> bool" where
  "grown f g \<longleftrightarrow> fs_device g = fs_device f \<and> fs_inode g = fs_inode f \<and> prefix (fs_content f) (fs_content g)"

lemma at_offset_grown:
  assumes "grown f g" and "fc_device cur = fs_device f" and "fc_inode cur = fs_inode f" and "fc_offset cur = offset"
    and "follows (fl_max_line_bytes col) (fs_content f) (offset, fc_partial cur, fc_partial_truncated cur)"
  shows "at_offset g offset (col\<lparr>fl_cursor := Some cur\<rparr>)"
proof -
  obtain tail where tail: "fs_content g = fs_content f @ tail" using assms(1) by (auto simp: grown_def prefix_def)
  have "offset \<le> length (fs_content f)" using assms(5) by (simp add: follows_def)
  then show ?thesis
    using assms by (simp add: at_offset_def resume_at_def grown_def follows_def tail)
qed

fun growing :: "file_snapshot list \<Rightarrow> bool" where
  "growing (f # g # fs) \<longleftrightarrow> grown f g \<and> growing (g # fs)"
| "growing _ \<longleftrightarrow> True"

lemma polls_at:
  assumes "growing (f # fs)" and "at_offset f offset col" and "0 < fl_max_lines col"
  shows "\<exists>final. map (shown (fl_max_line_bytes col)) (complete_lines (take offset (fs_content f))) @ fst (polls (f # fs) col)
       = map (shown (fl_max_line_bytes col)) (complete_lines (take final (fs_content (last (f # fs)))))
     \<and> final \<le> length (fs_content (last (f # fs))) \<and> min (length (fs_content f)) (offset + length (f # fs)) \<le> final"
  using assms
proof (induction fs arbitrary: f offset col)
  case Nil
  obtain lines final cur where s: "read_file col (Some f) = Some (lines, cur)"
    "follows (fl_max_line_bytes col) (fs_content f) (final, fc_partial cur, fc_partial_truncated cur)"
    "map (shown (fl_max_line_bytes col)) (complete_lines (take offset (fs_content f))) @ map (line_shown (fl_max_line_bytes col)) lines
      = map (shown (fl_max_line_bytes col)) (complete_lines (take final (fs_content f)))"
    "offset \<le> final" "offset < length (fs_content f) \<longrightarrow> offset < final"
    using read_file_step [OF Nil(2,3)] by metis
  have "min (length (fs_content f)) (offset + 1) \<le> final" using s(4,5) by (cases "offset < length (fs_content f)") auto
  with s show ?case by (intro exI [of _ final]) (simp add: follows_def)
next
  case (Cons g fs)
  let ?k = "fl_max_line_bytes col"
  obtain lines mid cur where s: "read_file col (Some f) = Some (lines, cur)"
    "fc_device cur = fs_device f" "fc_inode cur = fs_inode f" "fc_offset cur = mid"
    "follows ?k (fs_content f) (mid, fc_partial cur, fc_partial_truncated cur)"
    "map (shown ?k) (complete_lines (take offset (fs_content f))) @ map (line_shown ?k) lines
      = map (shown ?k) (complete_lines (take mid (fs_content f)))"
    "offset \<le> mid" "offset < length (fs_content f) \<longrightarrow> offset < mid"
    using read_file_step [OF Cons.prems(2,3)] by metis
  let ?col = "col\<lparr>fl_cursor := Some cur\<rparr>"
  have g: "grown f g" "growing (g # fs)" using Cons.prems(1) by simp_all
  obtain tail where tail: "fs_content g = fs_content f @ tail" using g(1) by (auto simp: grown_def prefix_def)
  have mid: "mid \<le> length (fs_content f)" using s(5) by (simp add: follows_def)
  obtain final where final: "map (shown ?k) (complete_lines (take mid (fs_content g))) @ fst (polls (g # fs) ?col)
      = map (shown ?k) (complete_lines (take final (fs_content (last (g # fs)))))"
    "final \<le> length (fs_content (last (g # fs)))" "min (length (fs_content g)) (mid + length (g # fs)) \<le> final"
    using Cons.IH [OF g(2) at_offset_grown [OF g(1) s(2,3,4,5)]] Cons.prems(3) by auto
  have out: "fst (polls (f # g # fs) col) = map (line_shown ?k) lines @ fst (polls (g # fs) ?col)"
    unfolding polls.simps(2) [of f] s(1) by (simp split: prod.split del: polls.simps)
  have "take mid (fs_content g) = take mid (fs_content f)" using mid by (simp add: tail)
  with final(1) s(6) have "map (shown ?k) (complete_lines (take offset (fs_content f))) @ fst (polls (f # g # fs) col)
      = map (shown ?k) (complete_lines (take final (fs_content (last (g # fs)))))"
    unfolding out by (metis append_assoc)
  moreover have "min (length (fs_content f)) (offset + length (f # g # fs)) \<le> final"
    using final(3) s(7,8) mid unfolding tail by (cases "offset < length (fs_content f)") auto
  ultimately show ?case using final(2) by (intro exI [of _ final]) simp
qed

text \<open>
  C23. Following a file emits every complete line exactly once and in order, cut to the limit and
  marked when it was longer, whatever was appended between the polls and however a poll cut a line or
  stopped at the line limit: the lines emitted so far are those of a beginning of the file, and each
  poll extends that beginning until everything that was there at the first poll has been read.
\<close>

theorem file_lines_exactly_once:
  assumes "growing files" and "files \<noteq> []" and "fl_cursor col = None" and "0 < fl_max_lines col"
  shows "\<exists>final. fst (polls files col) = map (shown (fl_max_line_bytes col)) (complete_lines (take final (fs_content (last files))))
     \<and> final \<le> length (fs_content (last files)) \<and> min (length (fs_content (hd files))) (length files) \<le> final"
proof -
  obtain f fs where files: "files = f # fs" using assms(2) by (cases files) auto
  have "at_offset f 0 col"
    using assms(3) by (simp add: at_offset_def resume_at_def follows_def shown_def open_line_def)
  from polls_at [OF assms(1) [unfolded files] this assms(4)] show ?thesis
    unfolding files by (simp add: complete_lines_def del: polls.simps)
qed

definition demo_file :: "bytes \<Rightarrow> file_snapshot" where
  "demo_file content = \<lparr>fs_device = 1, fs_inode = 7, fs_content = content\<rparr>"

definition demo_file_collector :: file_collector where
  "demo_file_collector = (new_file_collector ''app'' ''/var/log/app.log'' None)\<lparr>fl_max_line_bytes := 3, fl_max_lines := 1\<rparr>"

definition demo_files :: "file_snapshot list" where
  "demo_files = [demo_file (''ab'' @ [newline] @ ''c''), demo_file (''ab'' @ [newline] @ ''cdefg'' @ [newline] @ ''h'')]"

theorem file_lines_exactly_once_witness:
  "\<exists>final. fst (polls demo_files demo_file_collector)
       = map (shown (fl_max_line_bytes demo_file_collector)) (complete_lines (take final (fs_content (last demo_files))))
     \<and> final \<le> length (fs_content (last demo_files)) \<and> min (length (fs_content (hd demo_files))) (length demo_files) \<le> final"
  by (rule file_lines_exactly_once)
    (simp_all add: demo_files_def grown_def demo_file_def demo_file_collector_def new_file_collector_def)

section \<open>The stored cursor\<close>

lemma fromhex_hex_str: "fromhex (hex_str bs) = Inr bs"
proof (induction bs)
  case (Cons c bs)
  have "(of_char c :: nat) div 16 < 16" by (simp add: less_mult_imp_div_less)
  then show ?case
    using Cons hex_value_char [of "of_char c div 16"] hex_value_char [of "of_char c mod 16"]
    by (simp add: hex_str_def)
qed (simp add: hex_str_def)

text \<open>The stored state of a cursor is read back as the same cursor, whatever bytes the open line holds.\<close>

lemma restore_cursor_state: "restore_cursor (cursor_state c) = Inr c"
  by (simp add: restore_cursor_def cursor_state_def fromhex_hex_str)

section \<open>The journal never starts\<close>

text \<open>
  The journal collector never emits anything: without a stored cursor it asks for entries since now,
  of which there are none yet, so it never learns a cursor to continue from. However many polls are
  made, when each finds nothing since its own start, no event is returned and no cursor is stored.
\<close>

fun journal_polls ::
  "(pystr \<Rightarrow> json option) \<Rightarrow> (json \<Rightarrow> pystr) \<Rightarrow> (journal_start \<Rightarrow> pystr + pystr list) list \<Rightarrow> pystr option \<times> journal_collector
    \<Rightarrow> exn + event_args list \<times> pystr option" where
  "journal_polls loads pstr [] (stored, col) = Inr ([], stored)"
| "journal_polls loads pstr (run # runs) (stored, col) =
     bind_result (collect_journal loads pstr run stored col) (\<lambda>(events, col').
       bind_result (journal_polls loads pstr runs
           (case pending_journal_update col' of None \<Rightarrow> stored | Some (_, c) \<Rightarrow> Some c, commit_journal_update col'))
         (\<lambda>(rest, final). Inr (events @ rest, final)))"

lemma journal_never_starts:
  assumes "\<forall>run \<in> set runs. run SinceNow = Inr []" and "jc_pending_cursor col = None"
  shows "journal_polls loads pstr runs (None, col) = Inr ([], None)"
  using assms
proof (induction runs arbitrary: col)
  case (Cons run runs)
  have "collect_journal loads pstr run None col = Inr ([], col)" using Cons.prems(1) by (simp add: collect_journal_def)
  moreover have "pending_journal_update col = None" using Cons.prems(2) by (simp add: pending_journal_update_def)
  ultimately show ?case using Cons by (simp add: commit_journal_update_def)
qed simp

end
