(* ===== verification/Access.thy ===== *)
theory Access
  imports Inventory PyText
begin

text \<open>
  Enrolment and authentication of agents, \<open>server/temporalrca_server/security.py\<close> and the
  agent endpoints of \<open>api.py\<close>: registering an installation, rotating its credential, the
  heartbeat. The keyed hash (\<open>hmac_sha\<close>, of pepper and token), the random token and the new row
  ids are parameters. A request reads the database \<open>seen\<close> and commits into the current one.
\<close>

section \<open>Credentials\<close>

definition compare_digest :: "pystr \<Rightarrow> pystr \<Rightarrow> exn + bool" where
  "compare_digest a b = (if ascii a \<and> ascii b then Inr (a = b) else Inl TypeError)"

definition credential_hash :: "(pystr \<Rightarrow> pystr \<Rightarrow> bytes) \<Rightarrow> pystr \<Rightarrow> pystr \<Rightarrow> bytes" where
  "credential_hash hmac_sha token pepper = hmac_sha pepper token"

definition new_credential :: "pystr \<Rightarrow> pystr" where
  "new_credential token = ''trca_agent_'' @ token"

text \<open>The header without its scheme; \<open>None\<close> when it is absent or has another scheme.\<close>

definition bearer :: "pystr option \<Rightarrow> pystr option" where
  "bearer authorization = (case authorization of None \<Rightarrow> None
     | Some s \<Rightarrow> if startswith ''Bearer '' s then Some (drop 7 s) else None)"

definition identities :: "bytes \<Rightarrow> database \<Rightarrow> agent_identity list" where
  "identities digest db = concat (map (\<lambda>a. map (\<lambda>h. \<lparr>ai_agent_id = ag_id a, ai_host_id = ho_id h\<rparr>)
     (filter (\<lambda>h. ho_agent_id h = ag_id a \<and> ag_credential_hash a = digest \<and> ag_active a) (db_hosts db))) (db_agents db))"

definition authenticated_agent ::
  "(pystr \<Rightarrow> pystr \<Rightarrow> bytes) \<Rightarrow> settings \<Rightarrow> pystr option \<Rightarrow> database \<Rightarrow> failure + agent_identity" where
  "authenticated_agent hmac_sha st authorization db =
     (case bearer authorization of
        None \<Rightarrow> Inl (HTTPException 401 ''agent bearer credential required'')
      | Some token \<Rightarrow>
          (case identities (credential_hash hmac_sha token (st_credential_pepper st)) db of
             [] \<Rightarrow> Inl (HTTPException 401 ''invalid agent credential'')
           | [i] \<Rightarrow> Inr i
           | _ \<Rightarrow> Inl (Unhandled ''MultipleResultsFound'')))"

definition require_scope :: "pystr \<Rightarrow> pystr option \<Rightarrow> failure + unit" where
  "require_scope expected_token authorization =
     (case compare_digest (case bearer authorization of None \<Rightarrow> [] | Some token \<Rightarrow> token) expected_token of
        Inl _ \<Rightarrow> Inl (Unhandled ''TypeError'')
      | Inr ok \<Rightarrow> if ok then Inr () else Inl (HTTPException 401 ''scoped bearer credential required''))"

section \<open>Registration\<close>

record register_request =
  rr_enrollment_token :: pystr
  rr_installation_id :: pystr
  rr_host_external_id :: pystr
  rr_host_name :: pystr
  rr_agent_version :: "pystr option"
  rr_host_attributes :: "(pystr, json) dict"

record register_response =
  rs_agent_id :: uuid
  rs_host_id :: uuid
  rs_credential :: pystr

definition fits_column :: "nat \<Rightarrow> pystr \<Rightarrow> bool" where
  "fits_column n s \<longleftrightarrow> 1 \<le> length s \<and> length s \<le> n"

definition register_request_ok :: "register_request \<Rightarrow> bool" where
  "register_request_ok b \<longleftrightarrow> fits_column 255 (rr_installation_id b) \<and> fits_column 255 (rr_host_external_id b) \<and> fits_column 255 (rr_host_name b)"

definition new_agent :: "bytes \<Rightarrow> uuid \<Rightarrow> datetime \<Rightarrow> register_request \<Rightarrow> agent_row" where
  "new_agent digest i now b = \<lparr>ag_id = i, ag_installation_id = rr_installation_id b, ag_credential_hash = digest,
     ag_credential_version = 1, ag_version = rr_agent_version b, ag_registered_at = now, ag_last_seen_at = Some now,
     ag_active = True\<rparr>"

definition new_host :: "uuid \<Rightarrow> uuid \<Rightarrow> datetime \<Rightarrow> register_request \<Rightarrow> host_row" where
  "new_host i agent_id now b = \<lparr>ho_id = i, ho_agent_id = agent_id, ho_external_id = rr_host_external_id b,
     ho_name = rr_host_name b, ho_attributes = rr_host_attributes b, ho_first_seen_at = now, ho_last_seen_at = now,
     ho_active = True\<rparr>"

text \<open>The unique keys of agents and hosts, and the width of the version column.\<close>

definition enrolment_keys :: "database \<Rightarrow> bool" where
  "enrolment_keys db \<longleftrightarrow> distinct (map ag_id (db_agents db)) \<and> distinct (map ag_installation_id (db_agents db))
     \<and> distinct (map ho_id (db_hosts db)) \<and> distinct (map ho_agent_id (db_hosts db))"

definition version_fits :: "pystr option \<Rightarrow> bool" where
  "version_fits v = (case v of None \<Rightarrow> True | Some s \<Rightarrow> length s \<le> 64)"

definition register ::
  "(pystr \<Rightarrow> pystr \<Rightarrow> bytes) \<Rightarrow> settings \<Rightarrow> pystr \<Rightarrow> uuid \<times> uuid \<Rightarrow> datetime \<Rightarrow> register_request \<Rightarrow> database \<Rightarrow> server
    \<Rightarrow> (failure + register_response) \<times> server" where
  "register hmac_sha st token ids now body seen sv =
     (if \<not> register_request_ok body then (Inl (HTTPException 422 ''invalid registration''), sv)
      else (case compare_digest (rr_enrollment_token body) (st_enrollment_token st) of
          Inl _ \<Rightarrow> (Inl (Unhandled ''TypeError''), sv)
        | Inr ok \<Rightarrow>
            if \<not> ok then (Inl (HTTPException 401 ''invalid enrollment token''), sv)
            else if rr_installation_id body \<in> ag_installation_id ` set (db_agents seen)
            then (Inl (HTTPException 409 ''installation is already registered; rotate its credential''), sv)
            else
              let credential = new_credential token;
                  agent = new_agent (credential_hash hmac_sha credential (st_credential_pepper st)) (fst ids) now body;
                  host = new_host (snd ids) (ag_id agent) now body;
                  db = (sv_db sv)\<lparr>db_agents := db_agents (sv_db sv) @ [agent], db_hosts := db_hosts (sv_db sv) @ [host]\<rparr>
              in if \<not> version_fits (rr_agent_version body) then (Inl (Unhandled ''DataError''), sv)
                 else if \<not> enrolment_keys db then (Inl (Unhandled ''IntegrityError''), sv)
                 else (Inr \<lparr>rs_agent_id = ag_id agent, rs_host_id = ho_id host, rs_credential = credential\<rparr>,
                       sv\<lparr>sv_db := db, sv_watermarks := snd (publish InventoryMark (sv_watermarks sv))\<rparr>)))"

section \<open>Rotation and heartbeat\<close>

definition update_agent :: "uuid \<Rightarrow> (agent_row \<Rightarrow> agent_row) \<Rightarrow> database \<Rightarrow> database" where
  "update_agent i f db = db\<lparr>db_agents := map (\<lambda>a. if ag_id a = i then f a else a) (db_agents db)\<rparr>"

definition update_host :: "uuid \<Rightarrow> (host_row \<Rightarrow> host_row) \<Rightarrow> database \<Rightarrow> database" where
  "update_host i f db = db\<lparr>db_hosts := map (\<lambda>h. if ho_id h = i then f h else h) (db_hosts db)\<rparr>"

definition rotate_credential ::
  "(pystr \<Rightarrow> pystr \<Rightarrow> bytes) \<Rightarrow> settings \<Rightarrow> pystr \<Rightarrow> agent_identity \<Rightarrow> server \<Rightarrow> (failure + pystr \<times> int) \<times> server" where
  "rotate_credential hmac_sha st token ident sv =
     (case find (\<lambda>a. ag_id a = ai_agent_id ident) (db_agents (sv_db sv)) of
        None \<Rightarrow> (Inl (Unhandled ''AttributeError''), sv)
      | Some a \<Rightarrow>
          let credential = new_credential token; version = ag_credential_version a + 1
          in (Inr (credential, version),
              sv\<lparr>sv_db := update_agent (ai_agent_id ident) (\<lambda>r. r
                \<lparr>ag_credential_hash := credential_hash hmac_sha credential (st_credential_pepper st),
                 ag_credential_version := version\<rparr>) (sv_db sv)\<rparr>))"

record collector_status =
  cs_name :: pystr
  cs_healthy :: bool
  cs_message :: "pystr option"
  cs_last_success_at :: "datetime option"

record heartbeat =
  he_observed_at :: datetime
  he_agent_version :: pystr
  he_spool_bytes :: int
  he_spool_events :: int
  he_collectors :: "collector_status list"

definition status_json :: "collector_status \<Rightarrow> json" where
  "status_json c = JObj [(''name'', JStr (cs_name c)), (''healthy'', JBool (cs_healthy c)),
     (''message'', opt_str (cs_message c)),
     (''last_success_at'', case cs_last_success_at c of None \<Rightarrow> JNull | Some t \<Rightarrow> JStr (iso_utc t))]"

definition heartbeat_row :: "uuid \<Rightarrow> heartbeat \<Rightarrow> agent_heartbeat" where
  "heartbeat_row agent_id b = \<lparr>hb_agent_id = agent_id, hb_observed_at = he_observed_at b,
     hb_agent_version = he_agent_version b, hb_spool_bytes = he_spool_bytes b, hb_spool_events = he_spool_events b,
     hb_collectors = map status_json (he_collectors b)\<rparr>"

definition store_heartbeat :: "agent_identity \<Rightarrow> heartbeat \<Rightarrow> database \<Rightarrow> failure + database" where
  "store_heartbeat ident b db =
     (if he_spool_bytes b < 0 \<or> he_spool_events b < 0 then Inl (HTTPException 422 ''invalid heartbeat'')
      else if ai_agent_id ident \<notin> ag_id ` set (db_agents db) \<or> ai_host_id ident \<notin> ho_id ` set (db_hosts db)
      then Inl (Unhandled ''AttributeError'')
      else if \<not> version_fits (Some (he_agent_version b)) then Inl (Unhandled ''DataError'')
      else Inr (update_host (ai_host_id ident) (\<lambda>h. h\<lparr>ho_last_seen_at := he_observed_at b, ho_active := True\<rparr>)
        (update_agent (ai_agent_id ident) (\<lambda>a. a\<lparr>ag_last_seen_at := Some (he_observed_at b),
             ag_version := Some (he_agent_version b)\<rparr>)
           (db\<lparr>db_heartbeats := db_heartbeats db @ [heartbeat_row (ai_agent_id ident) b]\<rparr>))))"

end
