(* ===== verification/Access_Laws.thy ===== *)
theory Access_Laws
  imports Access
begin

text \<open>
  What authentication promises, against the credentials the server handed out: over every sequence of
  requests a credential authenticates exactly when it is the last one some agent was given, and then
  as that agent. The requests are those of agents: enrolment, rotation, heartbeat, inventory and
  telemetry batches, each authenticated by its header.
\<close>

section \<open>Requests\<close>

datatype access_request =
    Register pystr "uuid \<times> uuid" datetime register_request database
  | Rotate "pystr option" pystr
  | Beat "pystr option" heartbeat
  | Report "pystr option" inventory "nat \<Rightarrow> uuid"
  | Upload "pystr option" datetime bytes database

datatype access_response = Registered register_response | Rotated pystr int | Done | Failed failure

text \<open>What the requests take from outside the repository.\<close>

record access_env =
  av_hmac :: "pystr \<Rightarrow> pystr \<Rightarrow> bytes"
  av_settings :: settings
  av_api :: api_env
  av_dump :: "inventory \<Rightarrow> json"

definition authorized ::
  "access_env \<Rightarrow> pystr option \<Rightarrow> server \<Rightarrow> (agent_identity \<Rightarrow> access_response \<times> server) \<Rightarrow> access_response \<times> server" where
  "authorized env auth sv handler =
     (case authenticated_agent (av_hmac env) (av_settings env) auth (sv_db sv) of
        Inl f \<Rightarrow> (Failed f, sv) | Inr ident \<Rightarrow> handler ident)"

fun serve :: "access_env \<Rightarrow> access_request \<Rightarrow> server \<Rightarrow> access_response \<times> server" where
  "serve env (Register token ids now body seen) sv =
     (case register (av_hmac env) (av_settings env) token ids now body seen sv of
        (Inl f, sv') \<Rightarrow> (Failed f, sv') | (Inr r, sv') \<Rightarrow> (Registered r, sv'))"
| "serve env (Rotate auth token) sv = authorized env auth sv (\<lambda>ident.
     case rotate_credential (av_hmac env) (av_settings env) token ident sv of
       (Inl f, sv') \<Rightarrow> (Failed f, sv') | (Inr (c, v), sv') \<Rightarrow> (Rotated c v, sv'))"
| "serve env (Beat auth body) sv = authorized env auth sv (\<lambda>ident.
     case store_heartbeat ident body (sv_db sv) of
       Inl f \<Rightarrow> (Failed f, sv) | Inr db \<Rightarrow> (Done, sv\<lparr>sv_db := db\<rparr>))"
| "serve env (Report auth report fresh) sv = authorized env auth sv (\<lambda>ident.
     case reconcile_inventory fresh (av_dump env) ident report sv of
       (Inl f, sv') \<Rightarrow> (Failed f, sv') | (Inr _, sv') \<Rightarrow> (Done, sv'))"
| "serve env (Upload auth now raw seen) sv = authorized env auth sv (\<lambda>ident.
     case telemetry_batch_endpoint (av_api env) (av_settings env) ident now raw seen sv of
       (Inl f, sv') \<Rightarrow> (Failed f, sv') | (Inr _, sv') \<Rightarrow> (Done, sv'))"

section \<open>The credentials handed out\<close>

type_synonym issued = "pystr \<Rightarrow> agent_identity option"

text \<open>The specification: which credential is known to belong to whom, from the responses alone.\<close>

fun told :: "access_request \<Rightarrow> access_response \<Rightarrow> issued \<Rightarrow> issued" where
  "told _ (Registered r) issued = issued(rs_credential r \<mapsto> \<lparr>ai_agent_id = rs_agent_id r, ai_host_id = rs_host_id r\<rparr>)"
| "told (Rotate auth _) (Rotated c _) issued =
     (case bearer auth of None \<Rightarrow> issued
      | Some old \<Rightarrow> (\<lambda>t. if issued t = issued old then None else issued t)(c := issued old))"
| "told _ _ issued = issued"

fun run_requests :: "access_env \<Rightarrow> access_request list \<Rightarrow> issued \<times> server \<Rightarrow> issued \<times> server" where
  "run_requests env [] s = s"
| "run_requests env (r # rs) (issued, sv) =
     (case serve env r sv of (response, sv') \<Rightarrow> run_requests env rs (told r response issued, sv'))"

fun new_tokens :: "access_request \<Rightarrow> pystr list" where
  "new_tokens (Register token _ _ _ _) = [token]"
| "new_tokens (Rotate _ token) = [token]"
| "new_tokens _ = []"

section \<open>The tables behind it\<close>

definition credentials :: "database \<Rightarrow> (uuid \<times> pystr \<times> bytes \<times> bool) list" where
  "credentials db = map (\<lambda>a. (ag_id a, ag_installation_id a, ag_credential_hash a, ag_active a)) (db_agents db)"

definition homes :: "database \<Rightarrow> (uuid \<times> uuid) list" where
  "homes db = map (\<lambda>h. (ho_agent_id h, ho_id h)) (db_hosts db)"

definition agents_unique :: "database \<Rightarrow> bool" where
  "agents_unique db \<longleftrightarrow>
     distinct (map fst (credentials db)) \<and> distinct (map (\<lambda>c. fst (snd c)) (credentials db))
     \<and> distinct (map (\<lambda>c. fst (snd (snd c))) (credentials db)) \<and> (\<forall>c \<in> set (credentials db). snd (snd (snd c)))
     \<and> distinct (map fst (homes db)) \<and> distinct (map snd (homes db))
     \<and> set (map fst (homes db)) = set (map fst (credentials db))"

text \<open>The credential \<open>t\<close> is the one of agent \<open>i\<close>.\<close>

definition holds :: "(pystr \<Rightarrow> bytes) \<Rightarrow> database \<Rightarrow> pystr \<Rightarrow> agent_identity \<Rightarrow> bool" where
  "holds digest db t i \<longleftrightarrow> (\<exists>inst. (ai_agent_id i, inst, digest t, True) \<in> set (credentials db))
     \<and> (ai_agent_id i, ai_host_id i) \<in> set (homes db)"

definition knows :: "(pystr \<Rightarrow> bytes) \<Rightarrow> pystr set \<Rightarrow> issued \<Rightarrow> database \<Rightarrow> bool" where
  "knows digest used issued db \<longleftrightarrow> agents_unique db
     \<and> (\<forall>c \<in> set (credentials db). \<exists>t \<in> used. fst (snd (snd c)) = digest (new_credential t))
     \<and> (\<forall>t i. issued t = Some i \<longleftrightarrow> holds digest db t i)"

lemma concat_map_single:
  "distinct xs \<Longrightarrow> x \<in> set xs \<Longrightarrow> (\<And>y. y \<in> set xs \<Longrightarrow> y \<noteq> x \<Longrightarrow> g y = []) \<Longrightarrow> concat (map g xs) = g x"
proof (induction xs)
  case (Cons y xs)
  show ?case
  proof (cases "x = y")
    case True
    then have "\<forall>z \<in> set xs. g z = []" using Cons.prems by auto
    with True show ?thesis by (simp add: concat_eq_Nil_conv)
  next
    case False
    then have "x \<in> set xs" "distinct xs" "g y = []" using Cons.prems by auto
    then show ?thesis using Cons.IH Cons.prems(3) by simp
  qed
qed simp

lemma filter_single:
  "distinct xs \<Longrightarrow> x \<in> set xs \<Longrightarrow> P x \<Longrightarrow> (\<And>y. y \<in> set xs \<Longrightarrow> P y \<Longrightarrow> y = x) \<Longrightarrow> filter P xs = [x]"
proof (induction xs)
  case (Cons y xs)
  show ?case
  proof (cases "x = y")
    case True
    then have "filter P xs = []" using Cons.prems by (auto simp: filter_empty_conv)
    with True Cons.prems show ?thesis by simp
  next
    case False
    then have y: "\<not> P y" "x \<in> set xs" "distinct xs" using Cons.prems by auto
    from Cons.IH [OF y(3,2) Cons.prems(3)] Cons.prems(4) have "filter P xs = [x]" by (metis list.set_intros(2))
    with y(1) show ?thesis by simp
  qed
qed simp

lemma identities_holds:
  assumes "agents_unique db" and "holds digest db t i"
  shows "identities (digest t) db = [i]"
proof -
  obtain a where a: "a \<in> set (db_agents db)" "ag_id a = ai_agent_id i" "ag_credential_hash a = digest t" "ag_active a"
    using assms(2) by (auto simp: holds_def credentials_def)
  obtain h where h: "h \<in> set (db_hosts db)" "ho_agent_id h = ai_agent_id i" "ho_id h = ai_host_id i"
    using assms(2) by (auto simp: holds_def homes_def)
  have da: "distinct (map ag_credential_hash (db_agents db))" and dh: "distinct (map ho_agent_id (db_hosts db))"
    using assms(1) by (simp_all add: agents_unique_def credentials_def homes_def comp_def)
  have "filter (\<lambda>h. ho_agent_id h = ag_id a \<and> ag_credential_hash a = digest t \<and> ag_active a) (db_hosts db) = [h]"
  proof (rule filter_single)
    show "distinct (db_hosts db)" using dh by (simp add: distinct_map)
    show "k = h" if "k \<in> set (db_hosts db)" "ho_agent_id k = ag_id a \<and> ag_credential_hash a = digest t \<and> ag_active a" for k
      using that h a(2) dh by (metis distinct_map inj_on_def)
  qed (use a h in simp_all)
  moreover have "filter (\<lambda>h. ho_agent_id h = ag_id b \<and> ag_credential_hash b = digest t \<and> ag_active b) (db_hosts db) = []"
    if "b \<in> set (db_agents db)" "b \<noteq> a" for b
  proof -
    have "ag_credential_hash b \<noteq> digest t" using that a da by (metis distinct_map inj_on_def)
    then show ?thesis by simp
  qed
  ultimately show ?thesis
    unfolding identities_def using a h da
    by (subst concat_map_single [of _ a]) (simp_all add: distinct_map)
qed

lemma identities_in: "j \<in> set (identities (digest t) db) \<Longrightarrow> holds digest db t j"
  by (force simp: identities_def holds_def credentials_def homes_def)

lemma authenticated_known:
  assumes "knows (\<lambda>t. av_hmac env (st_credential_pepper (av_settings env)) t) used issued db" and "bearer auth = Some t"
  shows "authenticated_agent (av_hmac env) (av_settings env) auth db =
    (case issued t of Some i \<Rightarrow> Inr i | None \<Rightarrow> Inl (HTTPException 401 ''invalid agent credential''))"
proof -
  let ?digest = "\<lambda>t. av_hmac env (st_credential_pepper (av_settings env)) t"
  have u: "agents_unique db" and iff: "\<And>i. issued t = Some i \<longleftrightarrow> holds ?digest db t i"
    using assms(1) by (simp_all add: knows_def)
  show ?thesis
  proof (cases "issued t")
    case None
    then have "identities (?digest t) db = []"
      using identities_in [of _ ?digest t db] iff by (metis list.set_intros(1) neq_Nil_conv option.distinct(1))
    with None assms(2) show ?thesis by (simp add: authenticated_agent_def credential_hash_def)
  next
    case (Some i)
    then have "identities (?digest t) db = [i]" using iff identities_holds [OF u] by blast
    with Some assms(2) show ?thesis by (simp add: authenticated_agent_def credential_hash_def)
  qed
qed

section \<open>Operations that leave the credentials alone\<close>

definition same_access :: "database \<Rightarrow> database \<Rightarrow> bool" where
  "same_access db db' \<longleftrightarrow> credentials db' = credentials db \<and> homes db' = homes db"

lemma same_access_refl [simp, intro]: "same_access db db"
  by (simp add: same_access_def)

lemma same_access_knows: "same_access db db' \<Longrightarrow> knows digest used issued db' = knows digest used issued db"
  by (simp add: same_access_def knows_def agents_unique_def holds_def)

lemma same_access_rows: "db_agents db' = db_agents db \<Longrightarrow> db_hosts db' = db_hosts db \<Longrightarrow> same_access db db'"
  by (simp add: same_access_def credentials_def homes_def)

lemma store_heartbeat_access: "store_heartbeat ident body db = Inr db' \<Longrightarrow> same_access db db'"
  by (auto simp: store_heartbeat_def update_host_def update_agent_def same_access_def credentials_def homes_def
      split: if_split_asm)

lemma store_inventory_access:
  assumes "store_inventory fresh dump host_id report db = Inr (ids, db')"
  shows "same_access db db'"
proof -
  have commit: "same_access db d" if "commit_inventory dump host_id report i (expire_inventory host_id report s c p dl db) = Inr (ids, d)"
    for i s c p dl d
    using that unfolding commit_inventory_def expire_inventory_def Let_def
    by (auto simp: same_access_def credentials_def homes_def case_prod_beta split: if_split_asm)
  from assms show ?thesis
    unfolding store_inventory_def Let_def bind_result_Inr_iff by (elim exE conjE) (rule commit)
qed

lemma inventory_access: "reconcile_inventory fresh dump ident report sv = (r, sv') \<Longrightarrow> same_access (sv_db sv) (sv_db sv')"
  by (auto simp: reconcile_inventory_def dest: store_inventory_access split: sum.split_asm prod.split_asm)

lemma ingest_access:
  assumes "ingest_batch sha frepr pstr decode ident batch raw limit now seen current = (r, db)"
  shows "same_access current db"
proof (cases "db = current")
  case False
  with ingest_unchanged_or_fresh [OF assms] obtain resp where r: "r = Inr resp" "\<not> br_duplicate_batch resp" by blast
  obtain rejected where "write_batch (\<lambda>e. series_fingerprint sha frepr e (ai_host_id ident)) ident now
       (canonical_digest sha frepr raw) resp (accepted_events decode frepr ident seen (tb_events batch)) seen current = Inr db"
    by (rule ingest_fresh [OF assms [unfolded r(1)] r(2)])
  from write_batch_frame [OF this] show ?thesis by (intro same_access_rows) blast+
qed simp

lemma upload_access:
  assumes "telemetry_batch_endpoint env st ident now raw seen sv = (r, sv')"
  shows "same_access (sv_db sv) (sv_db sv')"
proof (cases "\<exists>payload batch. admitted env st raw payload batch")
  case True
  then obtain payload batch where a: "admitted env st raw payload batch" by blast
  obtain x db where i: "ingest_batch (en_sha env) (en_frepr env) (en_pstr env) (en_decode env) ident batch
      payload (st_normal_batch_events st) now seen (sv_db sv) = (x, db)" by force
  have "sv_db sv' = db" using assms unfolding endpoint_admitted [OF a i] by (auto split: sum.splits if_splits)
  with ingest_access [OF i] show ?thesis by simp
next
  case False
  then show ?thesis using endpoint_not_admitted [of env st raw ident now seen sv] assms by auto
qed

section \<open>Registration and rotation\<close>

lemma register_cases:
  assumes "register hmac_sha st token ids now body seen sv = (r, sv')"
  obtains (refused) f where "r = Inl f" "sv' = sv"
  | (enrolled) "r = Inr \<lparr>rs_agent_id = fst ids, rs_host_id = snd ids, rs_credential = new_credential token\<rparr>"
      "credentials (sv_db sv') = credentials (sv_db sv) @ [(fst ids, rr_installation_id body,
         hmac_sha (st_credential_pepper st) (new_credential token), True)]"
      "homes (sv_db sv') = homes (sv_db sv) @ [(fst ids, snd ids)]" "enrolment_keys (sv_db sv')"
proof (cases r)
  case (Inl f)
  then show thesis
    using assms by (intro refused) (auto simp: register_def Let_def split: if_split_asm sum.split_asm)
next
  case (Inr x)
  let ?db = "(sv_db sv)\<lparr>db_agents := db_agents (sv_db sv) @ [new_agent (credential_hash hmac_sha (new_credential token)
      (st_credential_pepper st)) (fst ids) now body], db_hosts := db_hosts (sv_db sv) @ [new_host (snd ids) (fst ids) now body]\<rparr>"
  have i: "ag_id (new_agent d i now body) = i" "ho_id (new_host h i now body) = h" for d i h
    by (simp_all add: new_agent_def new_host_def)
  have "x = \<lparr>rs_agent_id = fst ids, rs_host_id = snd ids, rs_credential = new_credential token\<rparr>
      \<and> sv_db sv' = ?db \<and> enrolment_keys ?db"
    using assms Inr by (auto simp: register_def Let_def i split: if_split_asm sum.split_asm)
  then show thesis
    using Inr by (intro enrolled) (simp_all add: credentials_def homes_def new_agent_def new_host_def credential_hash_def)
qed

lemma unique_keys:
  assumes "enrolment_keys db"
  shows "distinct (map fst (credentials db))" "distinct (map (\<lambda>c. fst (snd c)) (credentials db))"
    "distinct (map fst (homes db))" "distinct (map snd (homes db))"
  using assms by (simp_all add: enrolment_keys_def credentials_def homes_def comp_def)

lemma digest_unused:
  assumes "knows digest used issued db" and "inj digest" and "token \<notin> used"
  shows "(i, inst, digest (new_credential token), act) \<notin> set (credentials db)"
proof
  assume "(i, inst, digest (new_credential token), act) \<in> set (credentials db)"
  with assms(1) obtain t where "t \<in> used" "digest (new_credential token) = digest (new_credential t)"
    unfolding knows_def by force
  with assms(2,3) show False by (auto simp: new_credential_def dest: injD)
qed

lemma knows_register:
  assumes k: "knows digest used issued db" and inj: "inj digest" and new: "token \<notin> used"
    and c: "credentials db' = credentials db @ [(i, inst, digest (new_credential token), True)]"
    and h: "homes db' = homes db @ [(i, hid)]" and keys: "enrolment_keys db'"
  shows "knows digest (insert token used) (issued(new_credential token \<mapsto> \<lparr>ai_agent_id = i, ai_host_id = hid\<rparr>)) db'"
proof -
  note fresh = digest_unused [OF k inj new]
  have u: "agents_unique db" and iff: "\<And>t j. issued t = Some j \<longleftrightarrow> holds digest db t j"
    using k by (simp_all add: knows_def)
  have hashes: "digest (new_credential token) \<notin> (\<lambda>c. fst (snd (snd c))) ` set (credentials db)" using fresh by force
  have u': "agents_unique db'"
    using u hashes unique_keys [OF keys] by (auto simp: agents_unique_def c h)
  have i: "i \<notin> fst ` set (homes db)" using unique_keys(3) [OF keys] by (simp add: h)
  have old: "ai_agent_id j \<noteq> i" if "holds digest db t j" for t j
    using that i by (force simp: holds_def)
  have agents: "fst ` set (homes db) = fst ` set (credentials db)" using u by (simp add: agents_unique_def)
  have "holds digest db' t j \<longleftrightarrow> (if t = new_credential token then j = \<lparr>ai_agent_id = i, ai_host_id = hid\<rparr> else holds digest db t j)" for t j
  proof (cases "t = new_credential token")
    case True
    then have "holds digest db' t j \<longleftrightarrow> ai_agent_id j = i \<and> ai_host_id j = hid"
      using fresh i by (force simp: holds_def c h)
    with True show ?thesis by auto
  next
    case False
    then have "digest t \<noteq> digest (new_credential token)" using inj by (auto dest: injD)
    then have "holds digest db' t j \<longleftrightarrow> holds digest db t j"
      using i agents by (force simp: holds_def c h)
    with False show ?thesis by simp
  qed
  then show ?thesis
    using k u' iff by (auto simp: knows_def c)
qed

lemma rotate_cases:
  assumes "rotate_credential hmac_sha st token ident sv = (r, sv')" and "ai_agent_id ident \<in> fst ` set (credentials (sv_db sv))"
  obtains v where "r = Inr (new_credential token, v)" "homes (sv_db sv') = homes (sv_db sv)"
    "credentials (sv_db sv') = map (\<lambda>c. if fst c = ai_agent_id ident
       then (fst c, fst (snd c), hmac_sha (st_credential_pepper st) (new_credential token), snd (snd (snd c))) else c)
     (credentials (sv_db sv))"
proof -
  have "find (\<lambda>a. ag_id a = ai_agent_id ident) (db_agents (sv_db sv)) \<noteq> None"
    using assms(2) by (auto simp: find_None_key credentials_def image_image)
  then show thesis
    using assms(1) by (auto simp: rotate_credential_def update_agent_def credentials_def homes_def credential_hash_def Let_def
        intro!: that split: option.split_asm)
qed

lemma one_home: "agents_unique db \<Longrightarrow> (a, h) \<in> set (homes db) \<Longrightarrow> (a, h') \<in> set (homes db) \<Longrightarrow> h' = h"
  unfolding agents_unique_def distinct_map by (metis fst_conv inj_on_def snd_conv)

text \<open>The rows after the credential of agent \<open>x\<close> became the one with hash \<open>d\<close>.\<close>

definition rehashed :: "uuid \<Rightarrow> bytes \<Rightarrow> (uuid \<times> pystr \<times> bytes \<times> bool) list \<Rightarrow> (uuid \<times> pystr \<times> bytes \<times> bool) list" where
  "rehashed x d cs = map (\<lambda>c. if fst c = x then (fst c, fst (snd c), d, snd (snd (snd c))) else c) cs"

lemma rehashed_columns:
  "map fst (rehashed x d cs) = map fst cs" "map (\<lambda>c. fst (snd c)) (rehashed x d cs) = map (\<lambda>c. fst (snd c)) cs"
  "map (\<lambda>c. snd (snd (snd c))) (rehashed x d cs) = map (\<lambda>c. snd (snd (snd c))) cs"
  by (simp_all add: rehashed_def comp_def if_distrib cong: if_cong)

lemma in_rehashed: "(a, inst, e, b) \<in> set (rehashed x d cs) \<longleftrightarrow>
    (if a = x then e = d \<and> (\<exists>e'. (a, inst, e', b) \<in> set cs) else (a, inst, e, b) \<in> set cs)"
  by (force simp: rehashed_def image_iff)

lemma rehashed_hashes:
  assumes "distinct (map fst cs)" and "distinct (map (\<lambda>c. fst (snd (snd c))) cs)" and "\<And>a inst b. (a, inst, d, b) \<notin> set cs"
  shows "distinct (map (\<lambda>c. fst (snd (snd c))) (rehashed x d cs))"
proof -
  have inj: "inj_on fst (set (rehashed x d cs))" and dist: "distinct (rehashed x d cs)"
    using assms(1) rehashed_columns(1) [of x d cs] by (metis distinct_map)+
  have "inj_on (\<lambda>c. fst (snd (snd c))) (set (rehashed x d cs))"
  proof (rule inj_onI)
    fix p q assume p: "p \<in> set (rehashed x d cs)" and q: "q \<in> set (rehashed x d cs)"
      and e: "fst (snd (snd p)) = fst (snd (snd q))"
    obtain a1 i1 d1 b1 a2 i2 d2 b2 where pq: "p = (a1, i1, d1, b1)" "q = (a2, i2, d2, b2)" by (metis prod_cases4)
    have d: "d1 = d2" using e by (simp add: pq)
    have inj_h: "inj_on (\<lambda>c. fst (snd (snd c))) (set cs)" using assms(2) by (simp add: distinct_map)
    have eq: "a1 = a2"
    proof (cases "a1 = x \<or> a2 = x")
      case True
      then show ?thesis using p q assms(3) by (auto simp: pq in_rehashed d split: if_split_asm)
    next
      case False
      then show ?thesis using p q inj_onD [OF inj_h, of p q] by (simp add: pq in_rehashed d)
    qed
    from inj_onD [OF inj _ p q] show "p = q" by (simp add: pq eq)
  qed
  with dist show ?thesis by (simp add: distinct_map)
qed

lemma rehashed_unique:
  assumes "agents_unique db" and "credentials db' = rehashed x d (credentials db)" and "homes db' = homes db"
    and "\<And>a inst b. (a, inst, d, b) \<notin> set (credentials db)"
  shows "agents_unique db'"
proof -
  have "distinct (map (\<lambda>c. fst (snd (snd c))) (credentials db'))"
    using assms(1) unfolding assms(2) agents_unique_def by (intro rehashed_hashes [OF _ _ assms(4)]) simp_all
  moreover have "\<forall>c \<in> set (credentials db'). snd (snd (snd c))"
    using assms(1) rehashed_columns(3) [of x d "credentials db"] unfolding assms(2)
    by (metis (no_types, lifting) agents_unique_def imageE image_eqI image_set)
  ultimately show ?thesis
    using assms(1) unfolding agents_unique_def assms(2,3) rehashed_columns(1,2) by blast
qed

text \<open>Whom a credential belongs to afterwards.\<close>

lemma rehashed_holds:
  assumes u: "agents_unique db" and inj: "inj digest" and fresh: "\<And>a inst b. (a, inst, digest c, b) \<notin> set (credentials db)"
    and hi: "holds digest db old i" and h: "homes db' = homes db"
    and cs: "credentials db' = rehashed (ai_agent_id i) (digest c) (credentials db)"
  shows "holds digest db' t j \<longleftrightarrow> (if t = c then j = i else holds digest db t j \<and> j \<noteq> i)"
proof -
  have home: "j = i" if "(ai_agent_id i, ai_host_id j) \<in> set (homes db)" "ai_agent_id j = ai_agent_id i"
  proof -
    have "(ai_agent_id i, ai_host_id i) \<in> set (homes db)" using hi by (simp add: holds_def)
    then have "ai_host_id j = ai_host_id i" using that(1) by (rule one_home [OF u])
    then show ?thesis using that(2) by simp
  qed
  show ?thesis
  proof (cases "t = c")
    case True
    have "j = i" if "holds digest db' t j"
    proof -
      have "ai_agent_id j = ai_agent_id i" using that fresh by (auto simp: holds_def cs in_rehashed True split: if_split_asm)
      then show ?thesis using that home by (simp add: holds_def h)
    qed
    moreover have "holds digest db' t i" using hi by (auto simp: holds_def cs in_rehashed True h)
    ultimately show ?thesis using True by auto
  next
    case False
    then have "digest t \<noteq> digest c" using inj by (auto dest: injD)
    then have "holds digest db' t j \<longleftrightarrow> holds digest db t j \<and> ai_agent_id j \<noteq> ai_agent_id i"
      by (auto simp: holds_def cs in_rehashed h)
    then show ?thesis using False home by (auto simp: holds_def)
  qed
qed

lemma knows_rotate:
  assumes k: "knows digest used issued db" and inj: "inj digest" and new: "token \<notin> used"
    and i: "issued old = Some i" and h: "homes db' = homes db"
    and c: "credentials db' = rehashed (ai_agent_id i) (digest (new_credential token)) (credentials db)"
  shows "knows digest (insert token used)
     ((\<lambda>t. if issued t = issued old then None else issued t)(new_credential token := issued old)) db'"
proof -
  note fresh = digest_unused [OF k inj new]
  have u: "agents_unique db" and iff: "\<And>t j. issued t = Some j \<longleftrightarrow> holds digest db t j"
    using k by (simp_all add: knows_def)
  have "holds digest db old i" using i iff by simp
  note holds' = rehashed_holds [OF u inj fresh this h c]
  have "(((\<lambda>t. if issued t = issued old then None else issued t)(new_credential token := issued old)) t = Some j)
      \<longleftrightarrow> holds digest db' t j" for t j
    unfolding holds' by (simp add: i flip: iff) auto
  moreover have "\<forall>c \<in> set (credentials db'). \<exists>t \<in> insert token used. fst (snd (snd c)) = digest (new_credential t)"
    using k by (auto simp: c rehashed_def knows_def)
  ultimately show ?thesis using rehashed_unique [OF u c h fresh] by (simp add: knows_def)
qed

section \<open>Every request keeps the books\<close>

abbreviation digest_of :: "access_env \<Rightarrow> pystr \<Rightarrow> bytes" where
  "digest_of env \<equiv> av_hmac env (st_credential_pepper (av_settings env))"

lemma authorized_cases:
  assumes "knows (digest_of env) used issued (sv_db sv)" and "authorized env auth sv handler = (r, sv')"
  obtains (refused) f where "r = Failed f" "sv' = sv"
  | (granted) old i where "bearer auth = Some old" "issued old = Some i" "handler i = (r, sv')"
proof (cases "bearer auth")
  case None
  then show thesis using assms(2) by (intro refused) (auto simp: authorized_def authenticated_agent_def)
next
  case (Some old)
  show thesis
  proof (cases "issued old")
    case None
    then show thesis using assms(2) authenticated_known [OF assms(1) Some] by (intro refused) (auto simp: authorized_def)
  next
    case (Some i)
    then show thesis
      using assms(2) authenticated_known [OF assms(1) \<open>bearer auth = Some old\<close>] \<open>bearer auth = Some old\<close>
      by (intro granted) (auto simp: authorized_def)
  qed
qed

lemma rotate_told:
  "told (Rotate auth token) (Rotated c v) issued =
     (case bearer auth of None \<Rightarrow> issued
      | Some old \<Rightarrow> (\<lambda>t. if issued t = issued old then None else issued t)(c := issued old))"
  by simp

lemma knows_larger: "knows digest used issued db \<Longrightarrow> knows digest (insert t used) issued db"
  by (auto simp: knows_def)

lemma told_failed: "told req (Failed f) issued = issued"
  by (cases req) simp_all

text \<open>A request that leaves the credentials as they are and hands out none.\<close>

lemma authorized_keeps:
  assumes k: "knows (digest_of env) used issued (sv_db sv)" and s: "authorized env auth sv handler = (response, sv')"
    and "\<And>i. handler i = (response, sv') \<Longrightarrow> same_access (sv_db sv) (sv_db sv') \<and> told req response issued = issued"
  shows "knows (digest_of env) used (told req response issued) (sv_db sv')"
  using k s
proof (cases rule: authorized_cases)
  case (granted old i)
  then show ?thesis using same_access_knows [of "sv_db sv" "sv_db sv'"] assms(3) [OF granted(3)] k by simp
qed (use k in \<open>simp add: told_failed\<close>)

lemma register_knows:
  assumes k: "knows (digest_of env) used issued (sv_db sv)" and inj: "inj (digest_of env)"
    and "token \<notin> used" and s: "serve env (Register token ids now body seen) sv = (response, sv')"
  shows "knows (digest_of env) (insert token used) (told (Register token ids now body seen) response issued) (sv_db sv')"
proof -
  obtain r where r: "register (av_hmac env) (av_settings env) token ids now body seen sv = (r, sv')"
    and resp: "response = (case r of Inl f \<Rightarrow> Failed f | Inr x \<Rightarrow> Registered x)"
    using s by (auto split: prod.split_asm sum.split_asm)
  from r show ?thesis
  proof (cases rule: register_cases)
    case (refused f)
    with k show ?thesis by (simp add: resp knows_larger)
  next
    case enrolled
    with knows_register [OF k inj _ enrolled(2-4)] assms(3) show ?thesis by (simp add: resp)
  qed
qed

lemma rotate_knows:
  assumes k: "knows (digest_of env) used issued (sv_db sv)" and inj: "inj (digest_of env)"
    and "token \<notin> used" and s: "serve env (Rotate auth token) sv = (response, sv')"
  shows "knows (digest_of env) (insert token used) (told (Rotate auth token) response issued) (sv_db sv')"
proof -
  have "authorized env auth sv (\<lambda>ident. case rotate_credential (av_hmac env) (av_settings env) token ident sv of
     (Inl f, sv') \<Rightarrow> (Failed f, sv') | (Inr (c, v), sv') \<Rightarrow> (Rotated c v, sv')) = (response, sv')"
    using s by simp
  with k show ?thesis
  proof (cases rule: authorized_cases)
    case (refused f)
    with k show ?thesis by (simp add: knows_larger)
  next
    case (granted old i)
    have "holds (digest_of env) (sv_db sv) old i" using k granted(2) by (simp add: knows_def)
    then have there: "ai_agent_id i \<in> fst ` set (credentials (sv_db sv))" by (force simp: holds_def)
    obtain r sv1 where e: "rotate_credential (av_hmac env) (av_settings env) token i sv = (r, sv1)" by force
    obtain v where v: "r = Inr (new_credential token, v)" "homes (sv_db sv1) = homes (sv_db sv)"
      "credentials (sv_db sv1) = rehashed (ai_agent_id i) (digest_of env (new_credential token)) (credentials (sv_db sv))"
      unfolding rehashed_def using rotate_cases [OF e there] by blast
    have "response = Rotated (new_credential token) v" "sv1 = sv'" using granted(3) by (simp_all add: e v(1))
    then show ?thesis
      using knows_rotate [OF k inj assms(3) granted(2) v(2,3)] by (simp add: granted(1) del: fun_upd_apply)
  qed
qed

lemma serve_knows:
  assumes k: "knows (digest_of env) used issued (sv_db sv)" and inj: "inj (digest_of env)"
    and fresh: "set (new_tokens req) \<inter> used = {}" and s: "serve env req sv = (response, sv')"
  shows "knows (digest_of env) (set (new_tokens req) \<union> used) (told req response issued) (sv_db sv')"
proof (cases req)
  case (Register token ids now body seen)
  then show ?thesis using register_knows [OF k inj _ s [unfolded Register]] fresh by simp
next
  case (Rotate auth token)
  then show ?thesis using rotate_knows [OF k inj _ s [unfolded Rotate]] fresh by (simp del: told.simps)
next
  case (Beat auth body)
  have "knows (digest_of env) used (told req response issued) (sv_db sv')"
    using s [unfolded Beat serve.simps]
    by (rule authorized_keeps [OF k]) (auto simp: Beat dest: store_heartbeat_access split: sum.split_asm)
  then show ?thesis by (simp add: Beat)
next
  case (Report auth report fresh_id)
  have "knows (digest_of env) used (told req response issued) (sv_db sv')"
    using s [unfolded Report serve.simps]
    by (rule authorized_keeps [OF k]) (auto simp: Report dest: inventory_access split: prod.split_asm sum.split_asm)
  then show ?thesis by (simp add: Report)
next
  case (Upload auth now raw seen)
  have "knows (digest_of env) used (told req response issued) (sv_db sv')"
    using s [unfolded Upload serve.simps]
    by (rule authorized_keeps [OF k]) (auto simp: Upload dest: upload_access split: prod.split_asm sum.split_asm)
  then show ?thesis by (simp add: Upload)
qed

lemma run_knows:
  assumes "inj (digest_of env)"
  shows "knows (digest_of env) used issued (sv_db sv) \<Longrightarrow> distinct (concat (map new_tokens reqs)) \<Longrightarrow>
     set (concat (map new_tokens reqs)) \<inter> used = {} \<Longrightarrow> run_requests env reqs (issued, sv) = (issued', sv') \<Longrightarrow>
     \<exists>used'. knows (digest_of env) used' issued' (sv_db sv')"
proof (induction reqs arbitrary: used issued sv)
  case (Cons req reqs)
  obtain response sv1 where s: "serve env req sv = (response, sv1)" by force
  have "set (new_tokens req) \<inter> used = {}" using Cons.prems(3) by auto
  from serve_knows [OF Cons.prems(1) assms this s]
  have "knows (digest_of env) (set (new_tokens req) \<union> used) (told req response issued) (sv_db sv1)" .
  moreover have "run_requests env reqs (told req response issued, sv1) = (issued', sv')"
    using Cons.prems(4) by (simp add: s)
  ultimately show ?case using Cons.prems(2,3) by (intro Cons.IH) auto
qed auto

lemma knows_empty: "knows digest {} (\<lambda>_. None) empty_database"
  by (simp add: knows_def agents_unique_def holds_def credentials_def homes_def empty_database_def)

text \<open>
  C24. Authentication follows the credentials handed out. Take any sequence of requests served from
  an empty database, whatever their order, the databases they read before committing, and the
  failures on the way: afterwards a header authenticates exactly when its credential is the last one
  the server gave some agent, and then it stands for that agent and its host; a rotated credential
  and anything never handed out are refused.
\<close>

theorem authentication_follows_credentials:
  assumes "inj (av_hmac env (st_credential_pepper (av_settings env)))"
    and "distinct (concat (map new_tokens reqs))" and "sv_db sv = empty_database"
    and "run_requests env reqs (\<lambda>_. None, sv) = (issued, sv')" and "bearer auth = Some t"
  shows "authenticated_agent (av_hmac env) (av_settings env) auth (sv_db sv') =
    (case issued t of Some i \<Rightarrow> Inr i | None \<Rightarrow> Inl (HTTPException 401 ''invalid agent credential''))"
proof -
  have "knows (digest_of env) {} (\<lambda>_. None) (sv_db sv)" by (simp add: assms(3) knows_empty)
  from run_knows [OF assms(1) this assms(2) _ assms(4)] obtain used where "knows (digest_of env) used issued (sv_db sv')"
    by auto
  then show ?thesis using assms(5) by (rule authenticated_known)
qed

definition demo_access_env :: access_env where
  "demo_access_env = \<lparr>av_hmac = (\<lambda>pepper token. pepper @ token), av_settings = default_settings,
     av_api = \<lparr>en_sha = id, en_frepr = (\<lambda>_. []), en_pstr = (\<lambda>_. []), en_parse = (\<lambda>_. None), en_decode_batch = (\<lambda>_. Inl []),
       en_decode = (\<lambda>_. Inl [])\<rparr>, av_dump = (\<lambda>_. JNull)\<rparr>"

definition demo_registration :: register_request where
  "demo_registration = \<lparr>rr_enrollment_token = ''development-enrollment-token'', rr_installation_id = ''inst'',
     rr_host_external_id = ''inst'', rr_host_name = ''host'', rr_agent_version = Some ''0.1.0'', rr_host_attributes = []\<rparr>"

definition demo_access_server :: server where
  "demo_access_server = \<lparr>sv_db = empty_database, sv_watermarks = \<lparr>wm_commit = 0, wm_inventory = 0\<rparr>\<rparr>"

definition demo_requests :: "access_request list" where
  "demo_requests = [Register ''a'' (''agent'', ''host'') 5 demo_registration empty_database,
     Rotate (Some ''Bearer trca_agent_a'') ''b'']"

lemma demo_registered:
  "\<exists>sv. serve demo_access_env (Register ''a'' (''agent'', ''host'') 5 demo_registration empty_database) demo_access_server
     = (Registered \<lparr>rs_agent_id = ''agent'', rs_host_id = ''host'', rs_credential = ''trca_agent_a''\<rparr>, sv)
   \<and> credentials (sv_db sv) = [(''agent'', ''inst'', ''development-only-change-metrca_agent_a'', True)]
   \<and> homes (sv_db sv) = [(''agent'', ''host'')]"
  by (simp add: register_def register_request_ok_def fits_column_def demo_registration_def compare_digest_def ascii_def
      demo_access_env_def default_settings_def empty_database_def demo_access_server_def Let_def version_fits_def enrolment_keys_def
      new_agent_def new_host_def new_credential_def credential_hash_def credentials_def homes_def)

lemma demo_run:
  "\<exists>issued sv. run_requests demo_access_env demo_requests (\<lambda>_. None, demo_access_server) = (issued, sv)
     \<and> issued ''trca_agent_b'' = Some \<lparr>ai_agent_id = ''agent'', ai_host_id = ''host''\<rparr> \<and> issued ''trca_agent_a'' = None"
proof -
  obtain sv where 1: "serve demo_access_env (Register ''a'' (''agent'', ''host'') 5 demo_registration empty_database) demo_access_server
      = (Registered \<lparr>rs_agent_id = ''agent'', rs_host_id = ''host'', rs_credential = ''trca_agent_a''\<rparr>, sv)"
    and t: "credentials (sv_db sv) = [(''agent'', ''inst'', ''development-only-change-metrca_agent_a'', True)]"
      "homes (sv_db sv) = [(''agent'', ''host'')]"
    using demo_registered by blast
  have u: "agents_unique (sv_db sv)" by (simp add: agents_unique_def t)
  have "identities ''development-only-change-metrca_agent_a'' (sv_db sv) = [\<lparr>ai_agent_id = ''agent'', ai_host_id = ''host''\<rparr>]"
    using identities_holds [OF u, of "\<lambda>_. ''development-only-change-metrca_agent_a''"] by (simp add: holds_def t)
  then have a: "authenticated_agent (av_hmac demo_access_env) (av_settings demo_access_env) (Some ''Bearer trca_agent_a'') (sv_db sv)
      = Inr \<lparr>ai_agent_id = ''agent'', ai_host_id = ''host''\<rparr>"
    by (simp add: authenticated_agent_def bearer_def startswith_def demo_access_env_def default_settings_def credential_hash_def)
  obtain r sv2 where e: "rotate_credential (av_hmac demo_access_env) (av_settings demo_access_env) ''b''
      \<lparr>ai_agent_id = ''agent'', ai_host_id = ''host''\<rparr> sv = (r, sv2)" by force
  then obtain v where "r = Inr (new_credential ''b'', v)" by (rule rotate_cases) (simp_all add: t)
  with 1 a e show ?thesis
    by (simp add: demo_requests_def authorized_def bearer_def startswith_def new_credential_def)
qed

theorem authentication_follows_credentials_witness:
  "\<exists>issued sv. run_requests demo_access_env demo_requests (\<lambda>_. None, demo_access_server) = (issued, sv)
     \<and> authenticated_agent (av_hmac demo_access_env) (av_settings demo_access_env) (Some ''Bearer trca_agent_b'') (sv_db sv)
         = Inr \<lparr>ai_agent_id = ''agent'', ai_host_id = ''host''\<rparr>
     \<and> authenticated_agent (av_hmac demo_access_env) (av_settings demo_access_env) (Some ''Bearer trca_agent_a'') (sv_db sv)
         = Inl (HTTPException 401 ''invalid agent credential'')"
proof -
  obtain issued sv where run: "run_requests demo_access_env demo_requests (\<lambda>_. None, demo_access_server) = (issued, sv)"
    and i: "issued ''trca_agent_b'' = Some \<lparr>ai_agent_id = ''agent'', ai_host_id = ''host''\<rparr>" "issued ''trca_agent_a'' = None"
    using demo_run by blast
  have inj: "inj (av_hmac demo_access_env (st_credential_pepper (av_settings demo_access_env)))"
    by (simp add: demo_access_env_def inj_on_def)
  have "distinct (concat (map new_tokens demo_requests))" "sv_db demo_access_server = empty_database"
    by (simp_all add: demo_requests_def demo_access_server_def)
  note ok = authentication_follows_credentials [OF inj this run]
  show ?thesis
    using run ok [of "Some ''Bearer trca_agent_b''" "''trca_agent_b''"] ok [of "Some ''Bearer trca_agent_a''" "''trca_agent_a''"]
    by (simp add: bearer_def startswith_def i)
qed

section \<open>Installations stay registered\<close>

abbreviation installations :: "server \<Rightarrow> pystr set" where
  "installations sv \<equiv> (\<lambda>c. fst (snd c)) ` set (credentials (sv_db sv))"

lemma register_taken:
  assumes "rr_installation_id body \<in> installations sv"
  shows "\<exists>f. register hmac_sha st token ids now body seen sv = (Inl f, sv)"
proof -
  obtain r sv' where e: "register hmac_sha st token ids now body seen sv = (r, sv')" by force
  then show ?thesis
  proof (cases rule: register_cases)
    case enrolled
    with unique_keys(2) [OF enrolled(4)] assms show ?thesis by auto
  qed (use e in blast)
qed

lemma authorized_installations:
  assumes "authorized env auth sv handler = (r, sv')" and "\<And>i. handler i = (r, sv') \<Longrightarrow> installations sv \<subseteq> installations sv'"
  shows "installations sv \<subseteq> installations sv'"
  using assms unfolding authorized_def by (auto split: sum.split_asm)

lemma rotate_installations:
  assumes "rotate_credential hmac_sha st token i sv = (r, sv')"
  shows "installations sv \<subseteq> installations sv'"
proof -
  have "map (\<lambda>c. fst (snd c)) (credentials (sv_db sv')) = map (\<lambda>c. fst (snd c)) (credentials (sv_db sv))"
    using assms unfolding rotate_credential_def update_agent_def credentials_def
    by (auto simp: Let_def comp_def split: option.split_asm)
  then show ?thesis by (metis image_set order_refl)
qed

lemma serve_installations:
  assumes "serve env req sv = (response, sv')"
  shows "installations sv \<subseteq> installations sv'"
proof (cases req)
  case (Register token ids now body seen)
  obtain r where r: "register (av_hmac env) (av_settings env) token ids now body seen sv = (r, sv')"
    using assms by (auto simp: Register split: prod.split_asm sum.split_asm)
  then show ?thesis by (cases rule: register_cases) auto
next
  case (Rotate auth token)
  show ?thesis using assms unfolding Rotate serve.simps
    by (rule authorized_installations) (auto dest: rotate_installations split: prod.split_asm sum.split_asm)
next
  case (Beat auth body)
  show ?thesis using assms unfolding Beat serve.simps
    by (rule authorized_installations) (auto dest!: store_heartbeat_access simp: same_access_def split: sum.split_asm)
next
  case (Report auth report fresh)
  show ?thesis using assms unfolding Report serve.simps
    by (rule authorized_installations) (auto dest!: inventory_access simp: same_access_def split: prod.split_asm sum.split_asm)
next
  case (Upload auth now raw seen)
  show ?thesis using assms unfolding Upload serve.simps
    by (rule authorized_installations) (auto dest!: upload_access simp: same_access_def split: prod.split_asm sum.split_asm)
qed

lemma run_installations: "run_requests env reqs (issued, sv) = (issued', sv') \<Longrightarrow> installations sv \<subseteq> installations sv'"
proof (induction reqs arbitrary: issued sv)
  case (Cons req reqs)
  obtain response sv1 where s: "serve env req sv = (response, sv1)" by force
  have "installations sv1 \<subseteq> installations sv'" using Cons s by auto
  then show ?case using serve_installations [OF s] by (rule subset_trans [rotated])
qed simp

end
