(* ===== verification/Enrolment.thy ===== *)
theory Enrolment
  imports Runtime Access_Laws
begin

text \<open>
  Enrolment from both sides: the agent's start-up (\<open>runtime.py\<close>, \<open>transport.py\<close>) against the
  registration endpoint (\<open>api.py\<close>). The agent stores its installation id before it registers and
  the credential after; the server registers an installation once.
\<close>

section \<open>The call the agent makes\<close>

text \<open>
  What \<open>initialize\<close> stores of the answer: the credential and the document. A credential that is no
  text cannot be bound to the column of the state table as text.
\<close>

definition enrol ::
  "(rat \<Rightarrow> string) \<Rightarrow> (json \<Rightarrow> pystr) \<Rightarrow> endpoint \<Rightarrow> pystr \<Rightarrow> (pystr \<times> pystr) list \<Rightarrow> pystr \<Rightarrow> pystr \<Rightarrow> exn + pystr \<times> pystr" where
  "enrol frepr show post host_name host_attributes enrollment_token installation_id =
     bind_result (client_register show post enrollment_token installation_id host_name host_attributes)
       (\<lambda>(credential, document). case credential of
          JStr c \<Rightarrow> Inr (c, json_dumps_spaced frepr document) | _ \<Rightarrow> Inl ProgrammingError)"

definition register_json :: "register_response \<Rightarrow> json" where
  "register_json r = JObj [(''agent_id'', JStr (rs_agent_id r)), (''host_id'', JStr (rs_host_id r)),
     (''credential'', JStr (rs_credential r))]"

fun register_answer :: "failure + register_response \<Rightarrow> http_result" where
  "register_answer (Inr r) = \<lparr>hr_status = 201, hr_body = register_json r\<rparr>"
| "register_answer (Inl (HTTPException status detail)) = \<lparr>hr_status = status, hr_body = JObj [(''detail'', JStr detail)]\<rparr>"
| "register_answer (Inl (Unhandled e)) = \<lparr>hr_status = 500, hr_body = JObj [(''detail'', JStr ''Internal Server Error'')]\<rparr>"

lemma register_status: "register hmac_sha st token ids now body seen sv = (Inl f, sv') \<Longrightarrow>
    400 \<le> hr_status (register_answer (Inl f))"
  by (auto simp: register_def Let_def split: if_split_asm sum.split_asm)

section \<open>A lost answer\<close>

lemma initialize_needs_registration:
  assumes "\<not> truthy (get_state ''credential'' (rt_spool a))" and "\<not> truthy (rt_credential a)"
    and "\<not> truthy (cf_installation_id cfg)" and "get_state ''installation_id'' (rt_spool a) = Some inst" and "inst \<noteq> []"
    and "\<And>token. \<exists>e. enrolment token inst = Inl e"
  shows "\<exists>e. initialize new_id enrolment host_of cfg a = Inl e"
proof -
  have once: "\<exists>e. register_once enrolment cfg inst identity b = Inl e" if "rt_credential b = rt_credential a" for identity b
    using assms(2) that assms(6) [of "the (cf_enrollment_token cfg)"] by (auto simp: register_once_def)
  have i: "truthy (Some inst)" using assms(5) by (simp add: truthy_def)
  let ?b = "a\<lparr>rt_spool := set_state ''installation_id'' inst (rt_spool a)\<rparr>"
  obtain e where "register_once enrolment cfg inst (get_state ''identity'' (rt_spool a)) ?b = Inl e"
    using once [of ?b] by auto
  then have "initialize new_id enrolment host_of cfg a = Inl e"
    unfolding initialize_def Let_def
    by (simp only: assms(1,3) i if_False if_True assms(4) option.sel bind_result_simps)
  then show ?thesis ..
qed

text \<open>
  C25. A registration whose answer is lost locks the installation out for good. Once the server has
  registered an installation, then after any further requests, an agent that has the installation id
  in its state but not the credential, because the answer never arrived or the process died before
  storing it, cannot start: every attempt to register is refused, and start-up fails.
\<close>

theorem lost_registration_is_final:
  assumes "serve env (Register token ids now body seen) sv = (Registered r, sv1)"
    and "run_requests env reqs (issued, sv1) = (issued', sv2)"
    and "\<And>req. post req = Inr (register_answer (fst (register (av_hmac env) (av_settings env) token' ids' now'
           (body_of req) seen' sv2)))"
    and "\<And>enrollment. rr_installation_id (body_of (register_body enrollment (rr_installation_id body) host_name attrs))
           = rr_installation_id body"
    and "get_state ''installation_id'' (rt_spool a) = Some (rr_installation_id body)"
    and "\<not> truthy (get_state ''credential'' (rt_spool a))" and "\<not> truthy (rt_credential a)"
    and "\<not> truthy (cf_installation_id cfg)"
  shows "\<exists>e. initialize new_id (enrol frepr show post host_name attrs) host_of cfg a = Inl e"
proof (rule initialize_needs_registration [OF assms(6,7,8,5)])
  obtain sv1' where e: "register (av_hmac env) (av_settings env) token ids now body seen sv = (Inr r, sv1')" "sv1' = sv1"
    using assms(1) by (auto split: prod.split_asm sum.split_asm)
  from e(1) have taken: "rr_installation_id body \<in> installations sv1"
    by (cases rule: register_cases) (simp_all add: e(2))
  show "rr_installation_id body \<noteq> []"
    using e(1) by (auto simp: register_def register_request_ok_def fits_column_def split: if_split_asm)
  fix enrollment
  let ?req = "register_body enrollment (rr_installation_id body) host_name attrs"
  have "rr_installation_id (body_of ?req) \<in> installations sv2"
    using taken run_installations [OF assms(2)] assms(4) by auto
  then obtain f where f: "register (av_hmac env) (av_settings env) token' ids' now' (body_of ?req) seen' sv2 = (Inl f, sv2)"
    using register_taken by blast
  have "400 \<le> hr_status (register_answer (Inl f))" using register_status [OF f] .
  then show "\<exists>x. enrol frepr show post host_name attrs enrollment (rr_installation_id body) = Inl x"
    by (simp add: enrol_def client_register_def assms(3) f)
qed

definition demo_lost_agent :: agent where
  "demo_lost_agent = \<lparr>rt_spool = set_state ''installation_id'' ''inst'' (new_spool 100 60),
     rt_normalizer = \<lparr>nz_host_id = None, nz_sequence = 0\<rparr>, rt_health = [], rt_credential = None\<rparr>"

theorem lost_registration_is_final_witness:
  "\<exists>sv1 e. serve demo_access_env (Register ''a'' (''agent'', ''host'') 5 demo_registration empty_database) demo_access_server
       = (Registered \<lparr>rs_agent_id = ''agent'', rs_host_id = ''host'', rs_credential = ''trca_agent_a''\<rparr>, sv1)
     \<and> initialize ''new'' (enrol (\<lambda>_. []) (\<lambda>_. []) (\<lambda>_. Inr (register_answer (fst (register (av_hmac demo_access_env)
           (av_settings demo_access_env) ''b'' (''x'', ''y'') 9 demo_registration (sv_db sv1) sv1)))) ''host'' []) (\<lambda>_. None)
         \<lparr>cf_enrollment_token = Some ''development-enrollment-token'', cf_credential = None, cf_installation_id = None\<rparr>
         demo_lost_agent = Inl e"
proof -
  obtain sv1 where 1: "serve demo_access_env (Register ''a'' (''agent'', ''host'') 5 demo_registration empty_database) demo_access_server
      = (Registered \<lparr>rs_agent_id = ''agent'', rs_host_id = ''host'', rs_credential = ''trca_agent_a''\<rparr>, sv1)"
    using demo_registered by blast
  have "run_requests demo_access_env [] ((\<lambda>_. None), sv1) = (\<lambda>_. None, sv1)" by simp
  have "\<exists>e. initialize ''new'' (enrol (\<lambda>_. []) (\<lambda>_. []) (\<lambda>_. Inr (register_answer (fst (register (av_hmac demo_access_env)
           (av_settings demo_access_env) ''b'' (''x'', ''y'') 9 demo_registration (sv_db sv1) sv1)))) ''host'' []) (\<lambda>_. None)
         \<lparr>cf_enrollment_token = Some ''development-enrollment-token'', cf_credential = None, cf_installation_id = None\<rparr>
         demo_lost_agent = Inl e"
    by (rule lost_registration_is_final [OF 1 \<open>run_requests demo_access_env [] _ = _\<close>, where body_of = "\<lambda>_. demo_registration"])
      (simp_all add: demo_lost_agent_def demo_registration_def truthy_def get_state_def set_state_def new_spool_def)
  with 1 show ?thesis by blast
qed

end
