(* ===== verification/Experiments.thy ===== *)
theory Experiments
  imports Access
begin

text \<open>
  Ground truth of experiments, \<open>write_ground_truth\<close> of \<open>server/temporalrca_server/api.py\<close>: an
  experiment runner reports events, each stored once under its timestamp and id, and the experiment's
  status follows them. A request reads \<open>seen\<close> and commits into the current database.
\<close>

datatype experiment_status = RUNNING | COMPLETED | FAILED

definition status_str :: "experiment_status \<Rightarrow> pystr" where
  "status_str s = (case s of RUNNING \<Rightarrow> ''running'' | COMPLETED \<Rightarrow> ''completed'' | FAILED \<Rightarrow> ''failed'')"

record ground_truth =
  gt_event_id :: uuid
  gt_experiment_id :: uuid
  gt_timestamp :: datetime
  gt_observed :: datetime
  gt_name :: pystr
  gt_event_type :: pystr
  gt_message :: "pystr option"
  gt_host_id :: uuid
  gt_service_id :: "uuid option"
  gt_process_id :: "uuid option"
  gt_dependency_id :: "uuid option"
  gt_attributes :: "(pystr, json) dict"
  gt_experiment_name :: "pystr option"
  gt_experiment_status :: experiment_status
  gt_configuration :: "(pystr, json) dict"

definition truth_key :: "ground_truth \<Rightarrow> datetime \<times> uuid" where
  "truth_key b = (gt_timestamp b, gt_event_id b)"

definition new_experiment :: "ground_truth \<Rightarrow> experiment_row" where
  "new_experiment b = \<lparr>ex_id = gt_experiment_id b,
     ex_name = (case gt_experiment_name b of Some n \<Rightarrow> if n = [] then gt_name b else n | None \<Rightarrow> gt_name b),
     ex_status = status_str (gt_experiment_status b), ex_started_at = gt_timestamp b,
     ex_ended_at = (if gt_experiment_status b \<noteq> RUNNING then Some (gt_timestamp b) else None),
     ex_configuration = gt_configuration b\<rparr>"

definition update_experiment :: "ground_truth \<Rightarrow> experiment_row \<Rightarrow> experiment_row" where
  "update_experiment b x = x\<lparr>ex_status := status_str (gt_experiment_status b),
     ex_ended_at := (if gt_experiment_status b \<noteq> RUNNING then Some (gt_timestamp b) else ex_ended_at x)\<rparr>"

definition put_experiment :: "ground_truth \<Rightarrow> experiment_row list \<Rightarrow> experiment_row list \<Rightarrow> experiment_row list" where
  "put_experiment b seen rows =
     (case find (\<lambda>x. ex_id x = gt_experiment_id b) seen of
        None \<Rightarrow> rows @ [new_experiment b]
      | Some _ \<Rightarrow> map (\<lambda>x. if ex_id x = gt_experiment_id b then update_experiment b x else x) rows)"

definition truth_row :: "ground_truth \<Rightarrow> timeline_event" where
  "truth_row b = \<lparr>tl_timestamp = gt_timestamp b, tl_event_id = gt_event_id b, tl_host_id = gt_host_id b,
     tl_service_id = gt_service_id b, tl_process_id = gt_process_id b, tl_dependency_id = gt_dependency_id b,
     tl_experiment_id = Some (gt_experiment_id b), tl_observed = gt_observed b, tl_sequence = 0,
     tl_source_type = ''application'', tl_signal_type = ''ground-truth'', tl_name = gt_name b,
     tl_event_type = Some (gt_event_type b), tl_message = gt_message b, tl_attributes = gt_attributes b\<rparr>"

text \<open>The widths of the text columns and the keys the commit checks.\<close>

definition truth_fits :: "ground_truth \<Rightarrow> bool" where
  "truth_fits b \<longleftrightarrow> length (gt_name b) \<le> 255 \<and> length (gt_event_type b) \<le> 128
     \<and> length (ex_name (new_experiment b)) \<le> 255"

definition truth_keys_ok :: "ground_truth \<Rightarrow> database \<Rightarrow> bool" where
  "truth_keys_ok b db \<longleftrightarrow> gt_host_id b \<in> ho_id ` set (db_hosts db) \<and> distinct (map ex_id (db_experiments db))
     \<and> distinct (map timeline_key (db_timeline db))"

record truth_response =
  tr_event_id :: uuid
  tr_duplicate :: bool
  tr_commit_watermark :: "int option"

definition write_ground_truth ::
  "settings \<Rightarrow> pystr option \<Rightarrow> ground_truth \<Rightarrow> database \<Rightarrow> server \<Rightarrow> (failure + truth_response) \<times> server" where
  "write_ground_truth st authorization b seen sv =
     (case compare_digest (case bearer authorization of None \<Rightarrow> [] | Some token \<Rightarrow> token) (st_ground_truth_token st) of
        Inl _ \<Rightarrow> (Inl (Unhandled ''TypeError''), sv)
      | Inr ok \<Rightarrow>
          if \<not> ok then (Inl (HTTPException 401 ''ground-truth bearer credential required''), sv)
          else if truth_key b \<in> timeline_key ` set (db_timeline seen)
          then (Inr \<lparr>tr_event_id = gt_event_id b, tr_duplicate = True, tr_commit_watermark = None\<rparr>, sv)
          else
            let parts = ensure_partitions TIMELINE_EVENTS Hourly [gt_timestamp b] (sv_db sv);
                db = parts\<lparr>db_experiments := put_experiment b (db_experiments seen) (db_experiments parts),
                           db_timeline := db_timeline parts @ [truth_row b]\<rparr>
            in if \<not> truth_fits b then (Inl (Unhandled ''DataError''), sv)
               else if \<not> truth_keys_ok b db then (Inl (Unhandled ''IntegrityError''), sv)
               else (case publish CommitMark (sv_watermarks sv) of (watermark, wm) \<Rightarrow>
                 (Inr \<lparr>tr_event_id = gt_event_id b, tr_duplicate = False, tr_commit_watermark = Some watermark\<rparr>,
                  sv\<lparr>sv_db := db, sv_watermarks := wm\<rparr>)))"

section \<open>The state follows the distinct events\<close>

text \<open>Deliveries with the runner's credential, one after another.\<close>

fun deliver_truth :: "settings \<Rightarrow> pystr option \<Rightarrow> ground_truth list \<Rightarrow> server \<Rightarrow> server" where
  "deliver_truth st auth [] sv = sv"
| "deliver_truth st auth (b # bs) sv = deliver_truth st auth bs (snd (write_ground_truth st auth b (sv_db sv) sv))"

text \<open>An experiment as its distinct events, in the order of their first delivery, make it.\<close>

fun experiment_of :: "ground_truth list \<Rightarrow> experiment_row option" where
  "experiment_of [] = None"
| "experiment_of (b # bs) = Some (fold update_experiment bs (new_experiment b))"

definition of_experiment :: "uuid \<Rightarrow> ground_truth list \<Rightarrow> ground_truth list" where
  "of_experiment i bs = filter (\<lambda>b. gt_experiment_id b = i) bs"

lemma first_by_snoc: "first_by f (xs @ [x]) = (if f x \<in> f ` set xs then first_by f xs else first_by f xs @ [x])"
  by (induction xs) auto

lemma experiment_of_snoc:
  "experiment_of (bs @ [b]) = Some (case experiment_of bs of None \<Rightarrow> new_experiment b | Some x \<Rightarrow> update_experiment b x)"
  by (cases bs) simp_all

lemma experiment_of_None: "experiment_of bs = None \<longleftrightarrow> bs = []"
  by (cases bs) simp_all

lemma experiment_of_id:
  assumes "experiment_of (of_experiment i bs) = Some x"
  shows "ex_id x = i"
proof -
  have keep: "ex_id (fold update_experiment cs y) = ex_id y" for cs y
    by (induction cs arbitrary: y) (simp_all add: update_experiment_def)
  obtain b cs where b: "of_experiment i bs = b # cs" using assms by (cases "of_experiment i bs") simp_all
  then have "b \<in> set (of_experiment i bs)" by simp
  then have "gt_experiment_id b = i" by (simp add: of_experiment_def)
  with assms b show ?thesis by (auto simp: keep new_experiment_def)
qed

lemma find_map_same:
  "(\<And>x. ex_id (f x) = ex_id x) \<Longrightarrow>
     find (\<lambda>x. ex_id x = i) (map (\<lambda>x. if ex_id x = j then f x else x) xs) =
       map_option (\<lambda>x. if i = j then f x else x) (find (\<lambda>x. ex_id x = i) xs)"
  by (induction xs) auto

definition follows_truth :: "ground_truth list \<Rightarrow> database \<Rightarrow> bool" where
  "follows_truth bs db \<longleftrightarrow> db_timeline db = map truth_row (first_by truth_key bs)
     \<and> distinct (map ex_id (db_experiments db))
     \<and> (\<forall>i. find (\<lambda>x. ex_id x = i) (db_experiments db) = experiment_of (of_experiment i (first_by truth_key bs)))"

lemma timeline_key_truth [simp]: "timeline_key (truth_row b) = truth_key b"
  by (simp add: timeline_key_def truth_row_def truth_key_def)

lemma put_experiment_ids:
  "distinct (map ex_id rows) \<Longrightarrow> distinct (map ex_id (put_experiment b rows rows))"
  by (auto simp: put_experiment_def find_None_key new_experiment_def update_experiment_def comp_def if_distrib
      cong: if_cong split: option.split)

lemma find_put_experiment:
  "find (\<lambda>x. ex_id x = i) (put_experiment b rows rows) =
     (if i = gt_experiment_id b
      then Some (case find (\<lambda>x. ex_id x = i) rows of None \<Rightarrow> new_experiment b | Some x \<Rightarrow> update_experiment b x)
      else find (\<lambda>x. ex_id x = i) rows)"
proof -
  have app: "find P (xs @ ys) = (case find P xs of None \<Rightarrow> find P ys | Some x \<Rightarrow> Some x)" for P :: "experiment_row \<Rightarrow> bool" and xs ys
    by (induction xs) auto
  show ?thesis
    by (auto simp: put_experiment_def app find_map_same update_experiment_def new_experiment_def split: option.split)
qed

lemma write_follows:
  assumes "follows_truth bs (sv_db sv)" and "bearer auth = Some (st_ground_truth_token st)"
    and "ascii (st_ground_truth_token st)" and "truth_fits b" and "gt_host_id b \<in> ho_id ` set (db_hosts (sv_db sv))"
  shows "follows_truth (bs @ [b]) (sv_db (snd (write_ground_truth st auth b (sv_db sv) sv)))
     \<and> db_hosts (sv_db (snd (write_ground_truth st auth b (sv_db sv) sv))) = db_hosts (sv_db sv)"
proof (cases "truth_key b \<in> truth_key ` set bs")
  case True
  then have "truth_key b \<in> timeline_key ` set (db_timeline (sv_db sv))"
    using assms(1) by (simp add: follows_truth_def image_image)
  then have "snd (write_ground_truth st auth b (sv_db sv) sv) = sv"
    using assms(2,3) by (simp add: write_ground_truth_def compare_digest_def)
  then show ?thesis using assms(1) True by (simp add: follows_truth_def first_by_snoc)
next
  case False
  then have new: "truth_key b \<notin> timeline_key ` set (db_timeline (sv_db sv))"
    using assms(1) by (simp add: follows_truth_def image_image)
  obtain ps where ps: "ensure_partitions TIMELINE_EVENTS Hourly [gt_timestamp b] (sv_db sv)
      = (sv_db sv)\<lparr>db_partitions := db_partitions (sv_db sv) @ ps\<rparr>" using ensure_partitions_frame by blast
  let ?db = "(sv_db sv)\<lparr>db_partitions := db_partitions (sv_db sv) @ ps,
      db_experiments := put_experiment b (db_experiments (sv_db sv)) (db_experiments (sv_db sv)),
      db_timeline := db_timeline (sv_db sv) @ [truth_row b]\<rparr>"
  have keys: "distinct (map timeline_key (db_timeline (sv_db sv)))"
    using assms(1) distinct_first_by [of truth_key bs] by (simp add: follows_truth_def comp_def del: distinct_first_by)
  have "distinct (map ex_id (db_experiments (sv_db sv)))" using assms(1) by (simp add: follows_truth_def)
  then have ok: "truth_keys_ok b ?db"
    using keys new assms(5) put_experiment_ids by (simp add: truth_keys_ok_def)
  then have w: "sv_db (snd (write_ground_truth st auth b (sv_db sv) sv)) = ?db"
    using assms(2-4) new by (simp add: write_ground_truth_def compare_digest_def Let_def ps publish_def)
  have "follows_truth (bs @ [b]) ?db"
    using assms(1) False ok
    by (auto simp: follows_truth_def first_by_snoc truth_keys_ok_def find_put_experiment of_experiment_def
        experiment_of_snoc split: option.split)
  with w show ?thesis by simp
qed

text \<open>
  C26. Ground truth is a log with exactly-once effect: after any sequence of deliveries, with repeats
  anywhere, the timeline holds one row per distinct event in the order of first delivery, and each
  experiment is what its distinct events make it in that order: the first creates it, every other sets
  the status, a final status sets the end.
\<close>

theorem ground_truth_exactly_once:
  assumes "bearer auth = Some (st_ground_truth_token st)" and "ascii (st_ground_truth_token st)"
    and "db_timeline (sv_db sv) = []" and "db_experiments (sv_db sv) = []"
    and "\<forall>b \<in> set bs. truth_fits b \<and> gt_host_id b \<in> ho_id ` set (db_hosts (sv_db sv))"
    and "db = sv_db (deliver_truth st auth bs sv)"
  shows "db_timeline db = map truth_row (first_by truth_key bs)
     \<and> find (\<lambda>x. ex_id x = i) (db_experiments db) = experiment_of (of_experiment i (first_by truth_key bs))"
proof -
  have "follows_truth (done @ rest) (sv_db (deliver_truth st auth rest s))"
    if "follows_truth done (sv_db s)" "\<forall>b \<in> set rest. truth_fits b \<and> gt_host_id b \<in> ho_id ` set (db_hosts (sv_db s))"
    for "done" rest s
    using that
  proof (induction rest arbitrary: "done" s)
    case (Cons b rest)
    from write_follows [OF Cons.prems(1) assms(1,2), of b] Cons.prems(2)
    show ?case using Cons.IH [of "done @ [b]"] by simp
  qed simp
  from this [of "[]" sv bs] show ?thesis
    using assms(3-6) by (simp add: follows_truth_def of_experiment_def)
qed

text \<open>
  A status is the last one received, not the last one reported: an event without a status of its own
  (it defaults to running) that arrives after the final one reopens the experiment and leaves the end.
\<close>

lemma late_event_reopens:
  assumes "gt_experiment_status b = RUNNING" and "ex_ended_at x = Some t"
  shows "ex_status (update_experiment b x) = ''running'' \<and> ex_ended_at (update_experiment b x) = Some t"
  using assms by (simp add: update_experiment_def status_str_def)

definition demo_truth :: "uuid \<Rightarrow> datetime \<Rightarrow> experiment_status \<Rightarrow> ground_truth" where
  "demo_truth i t status = \<lparr>gt_event_id = i, gt_experiment_id = ''x'', gt_timestamp = t, gt_observed = t, gt_name = ''fault'',
     gt_event_type = ''inject'', gt_message = None, gt_host_id = ''h'', gt_service_id = None, gt_process_id = None,
     gt_dependency_id = None, gt_attributes = [], gt_experiment_name = None, gt_experiment_status = status,
     gt_configuration = []\<rparr>"

definition demo_truths :: "ground_truth list" where
  "demo_truths = [demo_truth ''a'' 1 RUNNING, demo_truth ''b'' 2 COMPLETED, demo_truth ''a'' 1 RUNNING]"

definition demo_truth_server :: server where
  "demo_truth_server = \<lparr>sv_db = empty_database\<lparr>db_hosts := [\<lparr>ho_id = ''h'', ho_agent_id = ''ag'', ho_external_id = ''e'',
       ho_name = ''n'', ho_attributes = [], ho_first_seen_at = 0, ho_last_seen_at = 0, ho_active = True\<rparr>]\<rparr>,
     sv_watermarks = \<lparr>wm_commit = 0, wm_inventory = 0\<rparr>\<rparr>"

theorem ground_truth_exactly_once_witness:
  "map tl_event_id (db_timeline (sv_db (deliver_truth default_settings (Some ''Bearer development-ground-truth-token'')
       demo_truths demo_truth_server))) = [''a'', ''b'']
   \<and> map_option ex_status (find (\<lambda>x. ex_id x = ''x'') (db_experiments (sv_db (deliver_truth default_settings
       (Some ''Bearer development-ground-truth-token'') demo_truths demo_truth_server)))) = Some ''completed''"
proof -
  let ?auth = "Some ''Bearer development-ground-truth-token''"
  have a: "bearer ?auth = Some (st_ground_truth_token default_settings)" "ascii (st_ground_truth_token default_settings)"
    by (simp_all add: bearer_def startswith_def default_settings_def ascii_def)
  have s: "db_timeline (sv_db demo_truth_server) = []" "db_experiments (sv_db demo_truth_server) = []"
    by (simp_all add: demo_truth_server_def empty_database_def)
  have f: "\<forall>b \<in> set demo_truths. truth_fits b \<and> gt_host_id b \<in> ho_id ` set (db_hosts (sv_db demo_truth_server))"
    by (simp add: demo_truths_def demo_truth_def truth_fits_def new_experiment_def demo_truth_server_def)
  show ?thesis
    using ground_truth_exactly_once [OF a s f refl, of "''x''"]
    by (simp add: demo_truths_def demo_truth_def truth_key_def of_experiment_def truth_row_def new_experiment_def
        update_experiment_def status_str_def)
qed

end
