(* ===== verification/Reads.thy ===== *)
theory Reads
  imports Metric_Query Inventory
begin

text \<open>
  The read endpoints of \<open>server/temporalrca_server/api.py\<close> on inventory, experiments and collector
  health. An answer is the rows themselves: the code serialises every column under its name.
\<close>

section \<open>Topology\<close>

record topology =
  to_hosts :: "host_row list"
  to_services :: "service_instance list"
  to_processes :: "process_instance list"
  to_containers :: "container_instance list"
  to_dependencies :: "dependency_row list"
  to_links :: "service_dependency list"

definition visible :: "bool \<Rightarrow> ('r \<Rightarrow> bool) \<Rightarrow> 'r list \<Rightarrow> 'r list" where
  "visible include_inactive active rows = (if include_inactive then rows else filter active rows)"

definition topology :: "bool \<Rightarrow> database \<Rightarrow> topology" where
  "topology include_inactive db =
     \<lparr>to_hosts = visible include_inactive ho_active (db_hosts db),
      to_services = visible include_inactive iv_active (db_services db),
      to_processes = visible include_inactive iv_active (db_processes db),
      to_containers = visible include_inactive iv_active (db_containers db),
      to_dependencies = visible include_inactive iv_active (db_dependencies db),
      to_links = visible include_inactive sd_active (db_links db)\<rparr>"

definition hosts :: "bool option \<Rightarrow> database \<Rightarrow> host_row list" where
  "hosts active db = sort_key ho_name (filter (\<lambda>h. case active of None \<Rightarrow> True | Some a \<Rightarrow> ho_active h = a) (db_hosts db))"

section \<open>One resource\<close>

definition found :: "pystr \<Rightarrow> 'r option \<Rightarrow> failure + 'r" where
  "found kind row = (case row of None \<Rightarrow> Inl (HTTPException 404 (kind @ '' not found'')) | Some r \<Rightarrow> Inr r)"

record host_detail =
  hd_host :: host_row
  hd_services :: "service_instance list"
  hd_processes :: "process_instance list"
  hd_containers :: "container_instance list"
  hd_dependencies :: "dependency_row list"

definition of_host :: "uuid \<Rightarrow> bool \<Rightarrow> 'a inventory_row_scheme list \<Rightarrow> 'a inventory_row_scheme list" where
  "of_host host_id include_inactive rows = visible include_inactive iv_active (filter (\<lambda>r. iv_host_id r = host_id) rows)"

definition host_detail :: "uuid \<Rightarrow> bool \<Rightarrow> database \<Rightarrow> failure + host_detail" where
  "host_detail host_id include_inactive db =
     bind_result (found ''host'' (find (\<lambda>h. ho_id h = host_id) (db_hosts db))) (\<lambda>h.
       Inr \<lparr>hd_host = h, hd_services = of_host host_id include_inactive (db_services db),
            hd_processes = of_host host_id include_inactive (db_processes db),
            hd_containers = of_host host_id include_inactive (db_containers db),
            hd_dependencies = of_host host_id include_inactive (db_dependencies db)\<rparr>)"

definition resource :: "pystr \<Rightarrow> uuid \<Rightarrow> 'a inventory_row_scheme list \<Rightarrow> failure + 'a inventory_row_scheme" where
  "resource kind i rows = found kind (find (\<lambda>r. iv_id r = i) rows)"

definition service_detail ::
  "uuid \<Rightarrow> bool \<Rightarrow> database \<Rightarrow> failure + service_instance \<times> process_instance list \<times> dependency_row list" where
  "service_detail service_id include_inactive db =
     bind_result (resource ''service'' service_id (db_services db)) (\<lambda>row.
       Inr (row, visible include_inactive iv_active (filter (\<lambda>p. pr_service_id p = Some service_id) (db_processes db)),
         concat (map (\<lambda>d. map (\<lambda>_. d) (filter (\<lambda>l. sd_dependency_id l = iv_id d \<and> sd_service_id l = service_id
             \<and> (include_inactive \<or> iv_active d \<and> sd_active l)) (db_links db))) (db_dependencies db))))"

definition process_detail :: "uuid \<Rightarrow> database \<Rightarrow> failure + process_instance" where
  "process_detail process_id db = resource ''process'' process_id (db_processes db)"

definition container_detail :: "uuid \<Rightarrow> bool \<Rightarrow> database \<Rightarrow> failure + container_instance \<times> process_instance list" where
  "container_detail container_id include_inactive db =
     bind_result (resource ''container'' container_id (db_containers db)) (\<lambda>row.
       Inr (row, visible include_inactive iv_active (filter (\<lambda>p. pr_container_id p = Some container_id) (db_processes db))))"

definition dependency_detail :: "uuid \<Rightarrow> database \<Rightarrow> failure + dependency_row" where
  "dependency_detail dependency_id db = resource ''dependency'' dependency_id (db_dependencies db)"

section \<open>Experiments and collector health\<close>

definition experiments :: "database \<Rightarrow> experiment_row list" where
  "experiments db = sort_key (\<lambda>x. - ex_started_at x) (db_experiments db)"

definition experiment_detail :: "uuid \<Rightarrow> database \<Rightarrow> failure + experiment_row \<times> timeline_event list" where
  "experiment_detail experiment_id db =
     bind_result (found ''experiment'' (find (\<lambda>x. ex_id x = experiment_id) (db_experiments db))) (\<lambda>row.
       Inr (row, sort_key tl_timestamp (filter (\<lambda>e. tl_experiment_id e = Some experiment_id) (db_timeline db))))"

text \<open>The heartbeats that carry the latest time of their agent.\<close>

definition collector_health :: "database \<Rightarrow> agent_heartbeat list" where
  "collector_health db = filter (\<lambda>h. hb_observed_at h =
     Max (hb_observed_at ` set (filter (\<lambda>g. hb_agent_id g = hb_agent_id h) (db_heartbeats db)))) (db_heartbeats db)"

text \<open>Every agent that ever sent a heartbeat is there, and nothing newer of it is left out.\<close>

lemma collector_health_latest:
  assumes "h \<in> set (db_heartbeats db)"
  shows "\<exists>g \<in> set (collector_health db). hb_agent_id g = hb_agent_id h \<and> hb_observed_at h \<le> hb_observed_at g"
proof -
  let ?ts = "hb_observed_at ` set (filter (\<lambda>g. hb_agent_id g = hb_agent_id h) (db_heartbeats db))"
  have t: "hb_observed_at h \<in> ?ts" "finite ?ts" using assms by auto
  then have "Max ?ts \<in> ?ts" by (intro Max_in) auto
  then obtain g where g: "g \<in> set (db_heartbeats db)" "hb_agent_id g = hb_agent_id h" "hb_observed_at g = Max ?ts" by auto
  then have "g \<in> set (collector_health db)" by (simp add: collector_health_def)
  moreover have "hb_observed_at h \<le> hb_observed_at g" using t g(3) by simp
  ultimately show ?thesis using g(2) by blast
qed

end
