(* ===== verification/Live.thy ===== *)
theory Live
  imports Telemetry_Api
begin

text \<open>
  The live stream of \<open>server/temporalrca_server/live.py\<close>: a client gets the pair of watermarks
  when it differs from what it was sent last, then the stream waits for a publication or fifteen
  seconds. A turn of the loop reads the watermarks, may send, and ends either notified or with a
  keep-alive; publications may happen anywhere between two readings.
\<close>

datatype live_message = Watermark int int | KeepAlive

datatype wait_result = Notified | TimedOut

type_synonym seen_marks = "(int \<times> int) option"

definition marks :: "watermarks \<Rightarrow> int \<times> int" where
  "marks w = (wm_commit w, wm_inventory w)"

text \<open>One turn: the messages it yields and the pair last sent, which starts as \<open>(-1, -1)\<close>.\<close>

definition live_turn :: "watermarks \<Rightarrow> wait_result \<Rightarrow> int \<times> int \<Rightarrow> live_message list \<times> (int \<times> int)" where
  "live_turn w waited seen =
     (let current = marks w;
          sent = (if current \<noteq> seen then [Watermark (fst current) (snd current)] else []);
          alive = (case waited of TimedOut \<Rightarrow> [KeepAlive] | Notified \<Rightarrow> [])
      in (sent @ alive, current))"

fun publish_all :: "watermark_kind list \<Rightarrow> watermarks \<Rightarrow> watermarks" where
  "publish_all [] w = w"
| "publish_all (k # ks) w = publish_all ks (snd (publish k w))"

text \<open>A stream: before each turn the publications that happened since the last reading.\<close>

fun live_events :: "(watermark_kind list \<times> wait_result) list \<Rightarrow> watermarks \<Rightarrow> int \<times> int \<Rightarrow> live_message list" where
  "live_events [] w seen = []"
| "live_events ((ks, waited) # turns) w seen =
     (let w' = publish_all ks w; (out, seen') = live_turn w' waited seen in out @ live_events turns w' seen')"

definition live_event_text :: "live_message \<Rightarrow> pystr" where
  "live_event_text m = (case m of
     Watermark c i \<Rightarrow> ''event: watermark'' @ [CHR 0x0A] @ ''data: ''
       @ json_dumps_spaced (\<lambda>_. []) (JObj [(''commit'', JInt c), (''inventory'', JInt i)]) @ [CHR 0x0A, CHR 0x0A]
   | KeepAlive \<Rightarrow> '': keepalive'' @ [CHR 0x0A, CHR 0x0A])"

fun sent_marks :: "live_message list \<Rightarrow> (int \<times> int) list" where
  "sent_marks [] = []"
| "sent_marks (Watermark c i # ms) = (c, i) # sent_marks ms"
| "sent_marks (KeepAlive # ms) = sent_marks ms"

definition grows :: "int \<times> int \<Rightarrow> int \<times> int \<Rightarrow> bool" where
  "grows a b \<longleftrightarrow> fst a \<le> fst b \<and> snd a \<le> snd b \<and> a \<noteq> b"

lemma grows_after: "fst a \<le> fst b \<Longrightarrow> snd a \<le> snd b \<Longrightarrow> grows b c \<Longrightarrow> grows a c"
  by (auto simp: grows_def prod_eq_iff)

lemma grows_le: "fst a \<le> fst b \<Longrightarrow> snd a \<le> snd b \<Longrightarrow> b \<noteq> a \<Longrightarrow> grows a b"
  by (simp add: grows_def)

lemma sent_marks_append: "sent_marks (xs @ ys) = sent_marks xs @ sent_marks ys"
  by (induction xs rule: sent_marks.induct) simp_all

lemma publish_all_marks: "fst (marks w) \<le> fst (marks (publish_all ks w)) \<and> snd (marks w) \<le> snd (marks (publish_all ks w))"
proof (induction ks arbitrary: w)
  case (Cons k ks)
  have "fst (marks w) \<le> fst (marks (snd (publish k w))) \<and> snd (marks w) \<le> snd (marks (snd (publish k w)))"
    by (cases k) (simp_all add: publish_def marks_def Let_def)
  with Cons.IH [of "snd (publish k w)"] show ?case by (auto intro: order_trans)
qed simp

lemma publish_all_append: "publish_all (xs @ ys) w = publish_all ys (publish_all xs w)"
  by (induction xs arbitrary: w) simp_all

text \<open>
  C27. A live client ends up with the current watermarks: over any interleaving of publications and
  turns, whether the stream was woken or only timed out, the pairs sent grow strictly, so nothing is
  sent twice or goes back, and the last pair sent is the state of the server at the last reading.
\<close>

theorem live_stream_converges:
  assumes start: "0 \<le> wm_commit w" "0 \<le> wm_inventory w"
  shows "sorted_wrt grows ((- 1, - 1) # sent_marks (live_events turns w (- 1, - 1)))
     \<and> (turns \<noteq> [] \<longrightarrow> last (sent_marks (live_events turns w (- 1, - 1))) = marks (publish_all (concat (map fst turns)) w))"
proof -
  have step: "sorted_wrt grows (seen # sent_marks (live_events turns w seen))
      \<and> (turns \<noteq> [] \<longrightarrow> last (seen # sent_marks (live_events turns w seen)) = marks (publish_all (concat (map fst turns)) w))"
    if "fst seen \<le> fst (marks w)" "snd seen \<le> snd (marks w)" for turns seen w
    using that
  proof (induction turns arbitrary: seen w)
    case (Cons turn turns)
    obtain ks waited where t: "turn = (ks, waited)" by force
    let ?w = "publish_all ks w"
    have le: "fst seen \<le> fst (marks ?w)" "snd seen \<le> snd (marks ?w)"
      using publish_all_marks [of w ks] Cons.prems by auto
    have sent: "sent_marks (live_events (turn # turns) w seen)
        = (if marks ?w \<noteq> seen then [marks ?w] else []) @ sent_marks (live_events turns ?w (marks ?w))"
      by (simp add: t live_turn_def Let_def sent_marks_append split: wait_result.split)
    have IH: "sorted_wrt grows (marks ?w # sent_marks (live_events turns ?w (marks ?w)))"
      "turns \<noteq> [] \<Longrightarrow> last (marks ?w # sent_marks (live_events turns ?w (marks ?w))) = marks (publish_all (concat (map fst turns)) ?w)"
      using Cons.IH [of "marks ?w" ?w] by simp_all
    have all: "\<forall>m \<in> set (sent_marks (live_events turns ?w (marks ?w))). grows seen m"
      using IH(1) grows_after [OF le] by simp
    have "turns = [] \<Longrightarrow> sent_marks (live_events turns ?w (marks ?w)) = []" by simp
    then show ?case
      unfolding sent using IH all grows_le [OF le] by (cases "turns = []") (auto simp: t publish_all_append)
  qed simp
  have nonempty: "sent_marks (live_events turns w (- 1, - 1)) \<noteq> []" if "turns \<noteq> []"
  proof -
    obtain ks waited rest where t: "turns = (ks, waited) # rest" using \<open>turns \<noteq> []\<close> by (metis list.exhaust prod.exhaust)
    have "marks (publish_all ks w) \<noteq> (- 1, - 1)"
      using publish_all_marks [of w ks] start(1) by (auto simp: marks_def)
    then show ?thesis by (simp add: t live_turn_def Let_def sent_marks_append)
  qed
  show ?thesis
    using step [of "(- 1, - 1)" w turns] nonempty start by (auto simp: marks_def)
qed

theorem live_stream_converges_witness:
  "sent_marks (live_events [([CommitMark], Notified), ([], TimedOut), ([InventoryMark, CommitMark], Notified)]
       \<lparr>wm_commit = 0, wm_inventory = 0\<rparr> (- 1, - 1)) = [(1, 0), (2, 1)]
   \<and> sorted_wrt grows [(- 1, - 1), (1, 0), (2, 1)]"
proof -
  let ?w = "\<lparr>wm_commit = 0, wm_inventory = 0\<rparr>"
  let ?turns = "[([CommitMark], Notified), ([], TimedOut), ([InventoryMark, CommitMark], Notified)]"
  have e: "sent_marks (live_events ?turns ?w (- 1, - 1)) = [(1, 0), (2, 1)]"
    by (simp add: live_turn_def marks_def publish_def Let_def)
  have "0 \<le> wm_commit ?w" "0 \<le> wm_inventory ?w" by simp_all
  from live_stream_converges [OF this, of ?turns] show ?thesis unfolding e by blast
qed

end
