(* ===== verification/Config.thy ===== *)
theory Config
  imports Discovery Runtime
begin

text \<open>
  The agent's configuration, \<open>agent/src/temporalrca_agent/config.py\<close>: the tables of the TOML file as
  parsed (\<open>raw\<close>, with TOML values as JSON ones), the environment (\<open>env\<close>), and the checks of the
  constructors. A value of another type than its field's annotation, which Python would store as it is,
  is a type error here; \<open>re_compile\<close> is \<open>re.compile\<close>.
\<close>

section \<open>Sources\<close>

record log_source =
  ls_name :: pystr
  ls_type :: pystr
  ls_path :: "pystr option"
  ls_unit :: "pystr option"
  ls_service :: "pystr option"
  ls_max_line_bytes :: int
  ls_max_lines_per_second :: int

record metrics_endpoint =
  me_name :: pystr
  me_url :: pystr
  me_service :: "pystr option"
  me_timeout_seconds :: pyfloat

record dependency_config =
  dc_name :: pystr
  dc_type :: pystr
  dc_dsn :: pystr
  dc_interval_seconds :: pyfloat
  dc_queues :: "pystr list"
  dc_streams :: "pystr list"
  dc_queue_stats_key :: pystr
  dc_services :: "pystr list"
  dc_pg_stat_statements :: bool

record config = agent_config +
  cf_central_server :: pystr
  cf_host_name :: pystr
  cf_host_attributes :: "(pystr, pystr) dict"
  cf_state_dir :: pystr
  cf_proc_root :: pystr
  cf_collection_interval_seconds :: pyfloat
  cf_discovery_interval_seconds :: pyfloat
  cf_max_monitored_processes :: int
  cf_spool_max_bytes :: int
  cf_spool_max_age_seconds :: int
  cf_docker_socket :: pystr
  cf_docker_collection_enabled :: bool
  cf_docker_collection_interval_seconds :: pyfloat
  cf_services :: "service_rule list"
  cf_logs :: "log_source list"
  cf_metrics :: "metrics_endpoint list"
  cf_dependencies :: "dependency_config list"

section \<open>Reading tables\<close>

text \<open>The keyword arguments of a constructor: unknown and missing names are type errors.\<close>

definition keywords_of :: "pystr list \<Rightarrow> pystr list \<Rightarrow> json \<Rightarrow> exn + (pystr \<times> json) list" where
  "keywords_of allowed required v = (case v of
     JObj kvs \<Rightarrow> if list_all (\<lambda>e. fst e \<in> set allowed) kvs \<and> list_all (\<lambda>r. map_of kvs r \<noteq> None) required
       then Inr kvs else Inl TypeError
   | _ \<Rightarrow> Inl TypeError)"

definition field_text :: "(pystr \<times> json) list \<Rightarrow> pystr \<Rightarrow> exn + pystr option" where
  "field_text kvs key = (case map_of kvs key of None \<Rightarrow> Inr None | Some (JStr s) \<Rightarrow> Inr (Some s) | Some _ \<Rightarrow> Inl TypeError)"

definition text_or :: "(pystr \<times> json) list \<Rightarrow> pystr \<Rightarrow> pystr \<Rightarrow> exn + pystr" where
  "text_or kvs key other = bind_result (field_text kvs key) (\<lambda>v. Inr (case v of None \<Rightarrow> other | Some s \<Rightarrow> s))"

fun number_of :: "json \<Rightarrow> exn + pyfloat" where
  "number_of (JInt i) = Inr (of_int i)"
| "number_of (JFloat q) = Inr q"
| "number_of (JBool b) = Inr (if b then 1 else 0)"
| "number_of (JStr s) = float_of s"
| "number_of _ = Inl TypeError"

definition number_or :: "(pystr \<times> json) list \<Rightarrow> pystr \<Rightarrow> pyfloat \<Rightarrow> exn + pyfloat" where
  "number_or kvs key other = (case map_of kvs key of None \<Rightarrow> Inr other | Some v \<Rightarrow> number_of v)"

definition int_or :: "(pystr \<times> json) list \<Rightarrow> pystr \<Rightarrow> int \<Rightarrow> exn + int" where
  "int_or kvs key other = (case map_of kvs key of None \<Rightarrow> Inr other | Some v \<Rightarrow> int_of_json v)"

fun texts :: "json list \<Rightarrow> exn + pystr list" where
  "texts [] = Inr []"
| "texts (JStr s # vs) = bind_result (texts vs) (\<lambda>ss. Inr (s # ss))"
| "texts (_ # vs) = Inl TypeError"

definition texts_or_empty :: "(pystr \<times> json) list \<Rightarrow> pystr \<Rightarrow> exn + pystr list" where
  "texts_or_empty kvs key = (case map_of kvs key of None \<Rightarrow> Inr [] | Some (JArr vs) \<Rightarrow> texts vs | Some _ \<Rightarrow> Inl TypeError)"

definition records_of :: "(json \<Rightarrow> exn + 'r) \<Rightarrow> json option \<Rightarrow> exn + 'r list" where
  "records_of make_record v = (case v of
     None \<Rightarrow> Inr []
   | Some x \<Rightarrow> if \<not> json_truthy x then Inr []
       else (case x of JArr vs \<Rightarrow> map_result make_record vs | _ \<Rightarrow> Inl TypeError))"

definition check_rule :: "(pystr \<Rightarrow> exn + unit) \<Rightarrow> service_rule \<Rightarrow> exn + service_rule" where
  "check_rule re_compile rule =
     bind_result (if truthy (ru_command_regex rule) then re_compile (the (ru_command_regex rule)) else Inr ()) (\<lambda>_.
       if truthy (ru_systemd_unit rule) \<or> truthy (ru_executable rule) \<or> truthy (ru_command_regex rule)
          \<or> truthy (ru_pid_file rule) \<or> truthy (ru_container_cgroup rule)
       then Inr rule else Inl ValueError)"

definition read_rule :: "(pystr \<Rightarrow> exn + unit) \<Rightarrow> json \<Rightarrow> exn + service_rule" where
  "read_rule re_compile v =
     bind_result (keywords_of [''service'', ''systemd_unit'', ''executable'', ''command_regex'', ''pid_file'', ''container_cgroup'']
         [''service''] v) (\<lambda>kvs.
     bind_result (text_or kvs ''service'' []) (\<lambda>service.
     bind_result (field_text kvs ''systemd_unit'') (\<lambda>systemd_unit.
     bind_result (field_text kvs ''executable'') (\<lambda>executable.
     bind_result (field_text kvs ''command_regex'') (\<lambda>command_regex.
     bind_result (field_text kvs ''pid_file'') (\<lambda>pid_file.
     bind_result (field_text kvs ''container_cgroup'') (\<lambda>container_cgroup.
       check_rule re_compile \<lparr>ru_service = service, ru_systemd_unit = systemd_unit, ru_executable = executable,
         ru_command_regex = command_regex, ru_pid_file = pid_file, ru_container_cgroup = container_cgroup\<rparr>)))))))"

definition read_log :: "json \<Rightarrow> exn + log_source" where
  "read_log v =
     bind_result (keywords_of [''name'', ''type'', ''path'', ''unit'', ''service'', ''max_line_bytes'', ''max_lines_per_second'']
         [''name'', ''type''] v) (\<lambda>kvs.
     bind_result (text_or kvs ''name'' []) (\<lambda>name.
     bind_result (text_or kvs ''type'' []) (\<lambda>kind.
     bind_result (field_text kvs ''path'') (\<lambda>path.
     bind_result (field_text kvs ''unit'') (\<lambda>unit.
     bind_result (field_text kvs ''service'') (\<lambda>service.
     bind_result (int_or kvs ''max_line_bytes'' 65536) (\<lambda>bytes.
     bind_result (int_or kvs ''max_lines_per_second'' 1000) (\<lambda>lines.
       Inr \<lparr>ls_name = name, ls_type = kind, ls_path = path, ls_unit = unit, ls_service = service,
            ls_max_line_bytes = bytes, ls_max_lines_per_second = lines\<rparr>))))))))"

definition read_endpoint :: "json \<Rightarrow> exn + metrics_endpoint" where
  "read_endpoint v =
     bind_result (keywords_of [''name'', ''url'', ''service'', ''timeout_seconds''] [''name'', ''url''] v) (\<lambda>kvs.
     bind_result (text_or kvs ''name'' []) (\<lambda>name.
     bind_result (text_or kvs ''url'' []) (\<lambda>url.
     bind_result (field_text kvs ''service'') (\<lambda>service.
     bind_result (number_or kvs ''timeout_seconds'' 3) (\<lambda>timeout.
       Inr \<lparr>me_name = name, me_url = url, me_service = service, me_timeout_seconds = timeout\<rparr>)))))"

definition default_queue_stats_key :: pystr where
  "default_queue_stats_key = ''temporalrca:telemetry:queue_stats''"

definition read_dependency :: "json \<Rightarrow> exn + dependency_config" where
  "read_dependency v =
     bind_result (keywords_of [''name'', ''type'', ''dsn'', ''interval_seconds'', ''queues'', ''streams'', ''queue_stats_key'',
         ''services'', ''pg_stat_statements''] [''name'', ''type'', ''dsn''] v) (\<lambda>kvs.
     bind_result (text_or kvs ''name'' []) (\<lambda>name.
     bind_result (text_or kvs ''type'' []) (\<lambda>kind.
     bind_result (text_or kvs ''dsn'' []) (\<lambda>dsn.
     bind_result (number_or kvs ''interval_seconds'' 5) (\<lambda>interval.
     bind_result (texts_or_empty kvs ''queues'') (\<lambda>queues.
     bind_result (texts_or_empty kvs ''streams'') (\<lambda>streams.
     bind_result (text_or kvs ''queue_stats_key'' default_queue_stats_key) (\<lambda>stats_key.
     bind_result (texts_or_empty kvs ''services'') (\<lambda>services.
       Inr \<lparr>dc_name = name, dc_type = kind, dc_dsn = dsn, dc_interval_seconds = interval, dc_queues = queues,
            dc_streams = streams, dc_queue_stats_key = stats_key, dc_services = services,
            dc_pg_stat_statements = (case map_of kvs ''pg_stat_statements'' of None \<Rightarrow> False | Some b \<Rightarrow> json_truthy b)\<rparr>)))))))))"

section \<open>The checks of the configuration\<close>

definition check_config :: "config \<Rightarrow> exn + config" where
  "check_config c =
     (if \<not> startswith ''http://'' (cf_central_server c) \<and> \<not> startswith ''https://'' (cf_central_server c) then Inl ValueError
      else if cf_collection_interval_seconds c < 1 / 10 then Inl ValueError
      else if cf_spool_max_bytes c \<le> 0 \<or> cf_spool_max_age_seconds c \<le> 0 then Inl ValueError
      else if cf_max_monitored_processes c \<le> 0 then Inl ValueError
      else if cf_docker_collection_interval_seconds c < 1 / 10 then Inl ValueError
      else Inr c)"

section \<open>The environment\<close>

type_synonym environment = "pystr \<Rightarrow> pystr option"

text \<open>\<open>os.getenv(name, raw.get(key))\<close>: the variable, set even to the empty text, before the file.\<close>

definition env_or_text :: "environment \<Rightarrow> pystr \<Rightarrow> (pystr \<times> json) list \<Rightarrow> pystr \<Rightarrow> exn + pystr option" where
  "env_or_text env name raw key = (case env name of Some s \<Rightarrow> Inr (Some s) | None \<Rightarrow> field_text raw key)"

definition env_or_number :: "environment \<Rightarrow> pystr \<Rightarrow> (pystr \<times> json) list \<Rightarrow> pystr \<Rightarrow> pyfloat \<Rightarrow> exn + pyfloat" where
  "env_or_number env name raw key other = (case env name of Some s \<Rightarrow> float_of s | None \<Rightarrow> number_or raw key other)"

definition docker_enabled :: "environment \<Rightarrow> (pystr \<times> json) list \<Rightarrow> bool" where
  "docker_enabled env raw =
     (let off = (\<lambda>s. lower (strip s) \<in> {''0'', ''false'', ''no'', ''off''}) in
      case env ''TEMPORALRCA_DOCKER_COLLECTION_ENABLED'' of
        Some s \<Rightarrow> \<not> off s
      | None \<Rightarrow> (case map_of raw ''docker_collection_enabled'' of
          None \<Rightarrow> True | Some (JStr s) \<Rightarrow> \<not> off s | Some v \<Rightarrow> json_truthy v))"

definition set_if_given :: "pystr \<Rightarrow> pystr option \<Rightarrow> (pystr, pystr) dict \<Rightarrow> (pystr, pystr) dict" where
  "set_if_given key v d = (if truthy v then dict_set key (the v) d else d)"

definition base_attributes :: "(json \<Rightarrow> pystr) \<Rightarrow> environment \<Rightarrow> (pystr \<times> json) list \<Rightarrow> exn + (pystr, pystr) dict" where
  "base_attributes pstr env raw =
     bind_result (case map_of raw ''host_attributes'' of None \<Rightarrow> Inr [] | Some (JObj kvs) \<Rightarrow> Inr kvs | Some _ \<Rightarrow> Inl AttributeError) (\<lambda>kvs.
       Inr (set_if_given ''runtime'' (env ''TEMPORALRCA_NODE_RUNTIME'')
         (set_if_given ''node_kind'' (env ''TEMPORALRCA_NODE_KIND'')
           (dict_update (map (\<lambda>(k, v). (k, py_str pstr v)) kvs) []))))"

section \<open>The service of a container\<close>

record sources =
  so_attributes :: "(pystr, pystr) dict"
  so_services :: "service_rule list"
  so_logs :: "log_source list"
  so_metrics :: "metrics_endpoint list"
  so_dependencies :: "dependency_config list"

definition runtime_dependency :: "pystr \<Rightarrow> pystr \<Rightarrow> pyfloat \<Rightarrow> pystr option \<Rightarrow> dependency_config list" where
  "runtime_dependency kind service interval dsn =
     (if truthy dsn then [\<lparr>dc_name = kind, dc_type = kind, dc_dsn = the dsn, dc_interval_seconds = interval, dc_queues = [],
        dc_streams = [], dc_queue_stats_key = default_queue_stats_key, dc_services = [service], dc_pg_stat_statements = False\<rparr>]
      else [])"

definition default_command_regex :: pystr where
  "default_command_regex = ''^python -m workload(?:'' @ [CHR 0x5C] @ ''s|$)''"

definition runtime_service :: "(pystr \<Rightarrow> exn + unit) \<Rightarrow> environment \<Rightarrow> pystr \<Rightarrow> sources \<Rightarrow> exn + sources" where
  "runtime_service re_compile env name so =
     bind_result
       (if \<exists>r \<in> set (so_services so). ru_service r = name then Inr (so_services so)
        else bind_result (check_rule re_compile \<lparr>ru_service = name, ru_systemd_unit = None, ru_executable = None,
               ru_command_regex = Some (case env ''TEMPORALRCA_SERVICE_COMMAND_REGEX'' of Some r \<Rightarrow> r | None \<Rightarrow> default_command_regex),
               ru_pid_file = None, ru_container_cgroup = None\<rparr>) (\<lambda>r. Inr (so_services so @ [r]))) (\<lambda>services.
     let endpoint = env ''TEMPORALRCA_METRICS_URL''; log_path = env ''TEMPORALRCA_LOG_PATH'';
         discover = lower (case env ''TEMPORALRCA_DISCOVER_RUNTIME_DEPENDENCIES'' of Some s \<Rightarrow> s | None \<Rightarrow> [])
           \<in> {''1'', ''true'', ''yes'', ''on''}
     in bind_result
          (if discover
           then bind_result (float_of (case env ''TEMPORALRCA_DEPENDENCY_INTERVAL_SECONDS'' of Some s \<Rightarrow> s | None \<Rightarrow> ''15'')) (\<lambda>interval.
             Inr (runtime_dependency ''postgresql'' name interval (env ''MONITORED_DATABASE_URL'')
                @ runtime_dependency ''redis'' name interval (env ''REDIS_URL'')))
           else Inr []) (\<lambda>found.
        Inr \<lparr>so_attributes = dict_setdefault ''service'' name (so_attributes so), so_services = services,
          so_logs = so_logs so @ (if truthy log_path then [\<lparr>ls_name = name @ ''-logs'', ls_type = ''file'', ls_path = log_path,
              ls_unit = None, ls_service = Some name, ls_max_line_bytes = 65536, ls_max_lines_per_second = 1000\<rparr>] else []),
          so_metrics = so_metrics so @ (if truthy endpoint then [\<lparr>me_name = name, me_url = the endpoint, me_service = Some name,
              me_timeout_seconds = 3\<rparr>] else []),
          so_dependencies = so_dependencies so @ found\<rparr>))"

definition read_sources ::
  "(pystr \<Rightarrow> exn + unit) \<Rightarrow> (json \<Rightarrow> pystr) \<Rightarrow> environment \<Rightarrow> (pystr \<times> json) list \<Rightarrow> exn + sources" where
  "read_sources re_compile pstr env raw =
     bind_result (base_attributes pstr env raw) (\<lambda>attributes.
     bind_result (records_of (read_rule re_compile) (map_of raw ''services'')) (\<lambda>services.
     bind_result (records_of read_log (map_of raw ''logs'')) (\<lambda>logs.
     bind_result (records_of read_endpoint (map_of raw ''metrics'')) (\<lambda>metrics.
     bind_result (records_of read_dependency (map_of raw ''dependencies'')) (\<lambda>dependencies.
       let so = \<lparr>so_attributes = attributes, so_services = services, so_logs = logs, so_metrics = metrics,
                 so_dependencies = dependencies\<rparr>;
           name = env ''TEMPORALRCA_SERVICE_NAME''
       in if truthy name then runtime_service re_compile env (the name) so else Inr so)))))"

section \<open>Loading\<close>

definition rstrip_char :: "char \<Rightarrow> pystr \<Rightarrow> pystr" where
  "rstrip_char d s = rev (dropWhile (\<lambda>c. c = d) (rev s))"

text \<open>
  \<open>raw["central_server"]\<close> is evaluated before the environment is asked, so the key is required either
  way.
\<close>

definition central_server :: "environment \<Rightarrow> (pystr \<times> json) list \<Rightarrow> exn + pystr" where
  "central_server env raw = (case map_of raw ''central_server'' of
     None \<Rightarrow> Inl KeyError
   | Some v \<Rightarrow> (case env ''TEMPORALRCA_SERVER_URL'' of
       Some s \<Rightarrow> Inr (rstrip_char (CHR ''/'') s)
     | None \<Rightarrow> (case v of JStr s \<Rightarrow> Inr (rstrip_char (CHR ''/'') s) | _ \<Rightarrow> Inl AttributeError)))"

definition load_config ::
  "(pystr \<Rightarrow> exn + unit) \<Rightarrow> (json \<Rightarrow> pystr) \<Rightarrow> environment \<Rightarrow> pystr \<Rightarrow> (pystr \<times> json) list \<Rightarrow> exn + config" where
  "load_config re_compile pstr env nodename raw =
     bind_result (env_or_text env ''TEMPORALRCA_ENROLLMENT_TOKEN'' raw ''enrollment_token'') (\<lambda>enrollment.
     bind_result (env_or_text env ''TEMPORALRCA_AGENT_CREDENTIAL'' raw ''credential'') (\<lambda>credential.
     bind_result (env_or_text env ''TEMPORALRCA_HOST_NAME'' raw ''host_name'') (\<lambda>host_name.
     bind_result (env_or_text env ''TEMPORALRCA_INSTALLATION_ID'' raw ''installation_id'') (\<lambda>installation_id.
     bind_result (read_sources re_compile pstr env raw) (\<lambda>so.
     bind_result (central_server env raw) (\<lambda>server.
     bind_result (text_or raw ''state_dir'' ''/var/lib/temporalrca-agent'') (\<lambda>state_dir.
     bind_result (text_or raw ''proc_root'' ''/proc'') (\<lambda>proc_root.
     bind_result (env_or_number env ''TEMPORALRCA_COLLECTION_INTERVAL_SECONDS'' raw ''collection_interval_seconds'' 1) (\<lambda>collection.
     bind_result (number_or raw ''discovery_interval_seconds'' 5) (\<lambda>discovery.
     bind_result (int_or raw ''max_monitored_processes'' 25) (\<lambda>monitored.
     bind_result (int_or raw ''spool_max_bytes'' (512 * 1024 * 1024)) (\<lambda>max_bytes.
     bind_result (int_or raw ''spool_max_age_seconds'' 86400) (\<lambda>max_age.
     bind_result (env_or_text env ''TEMPORALRCA_DOCKER_SOCKET'' raw ''docker_socket'') (\<lambda>socket.
     bind_result (env_or_number env ''TEMPORALRCA_DOCKER_COLLECTION_INTERVAL_SECONDS'' raw ''docker_collection_interval_seconds'' 1) (\<lambda>docker.
       check_config \<lparr>cf_enrollment_token = enrollment, cf_credential = credential, cf_installation_id = installation_id,
         cf_central_server = server, cf_host_name = (case host_name of None \<Rightarrow> nodename | Some n \<Rightarrow> n),
         cf_host_attributes = so_attributes so, cf_state_dir = state_dir, cf_proc_root = proc_root,
         cf_collection_interval_seconds = collection, cf_discovery_interval_seconds = discovery,
         cf_max_monitored_processes = monitored, cf_spool_max_bytes = max_bytes, cf_spool_max_age_seconds = max_age,
         cf_docker_socket = (case socket of None \<Rightarrow> ''/var/run/docker.sock'' | Some s \<Rightarrow> s),
         cf_docker_collection_enabled = docker_enabled env raw, cf_docker_collection_interval_seconds = docker,
         cf_services = so_services so, cf_logs = so_logs so, cf_metrics = so_metrics so,
         cf_dependencies = so_dependencies so\<rparr>)))))))))))))))"

section \<open>What a loaded configuration is\<close>

definition rule_ok :: "(pystr \<Rightarrow> exn + unit) \<Rightarrow> service_rule \<Rightarrow> bool" where
  "rule_ok re_compile r \<longleftrightarrow> check_rule re_compile r = Inr r"

definition config_ok :: "(pystr \<Rightarrow> exn + unit) \<Rightarrow> config \<Rightarrow> bool" where
  "config_ok re_compile c \<longleftrightarrow>
     (startswith ''http://'' (cf_central_server c) \<or> startswith ''https://'' (cf_central_server c))
     \<and> 1 / 10 \<le> cf_collection_interval_seconds c \<and> 1 / 10 \<le> cf_docker_collection_interval_seconds c
     \<and> 0 < cf_spool_max_bytes c \<and> 0 < cf_spool_max_age_seconds c \<and> 0 < cf_max_monitored_processes c
     \<and> list_all (rule_ok re_compile) (cf_services c)"

lemma check_rule_same: "check_rule re_compile r = Inr s \<Longrightarrow> s = r"
  by (auto simp: check_rule_def bind_result_Inr_iff split: if_split_asm)

lemma check_rule_ok: "check_rule re_compile r = Inr s \<Longrightarrow> rule_ok re_compile s"
  using check_rule_same by (fastforce simp: rule_ok_def)

lemma read_rule_ok: "read_rule re_compile v = Inr r \<Longrightarrow> rule_ok re_compile r"
  unfolding read_rule_def bind_result_Inr_iff rule_ok_def by (elim exE conjE) (metis check_rule_same)

lemma records_ok:
  assumes "records_of make_record v = Inr rs" and "\<And>x r. make_record x = Inr r \<Longrightarrow> P r"
  shows "list_all P rs"
proof -
  have "list_all P rs" if "map_result make_record vs = Inr rs" for vs
    using that assms(2) by (induction vs arbitrary: rs) (auto simp: bind_result_Inr_iff)
  then show ?thesis
    using assms(1) by (auto simp: records_of_def split: option.split_asm if_split_asm json.split_asm)
qed

lemma runtime_service_ok:
  assumes "runtime_service re_compile env name so = Inr so'" and "list_all (rule_ok re_compile) (so_services so)"
  shows "list_all (rule_ok re_compile) (so_services so')"
proof -
  obtain services found where s: "so_services so' = services" and
    r: "(if \<exists>r \<in> set (so_services so). ru_service r = name then Inr (so_services so)
        else bind_result (check_rule re_compile \<lparr>ru_service = name, ru_systemd_unit = None, ru_executable = None,
               ru_command_regex = Some (case env ''TEMPORALRCA_SERVICE_COMMAND_REGEX'' of Some r \<Rightarrow> r | None \<Rightarrow> default_command_regex),
               ru_pid_file = None, ru_container_cgroup = None\<rparr>) (\<lambda>r. Inr (so_services so @ [r]))) = Inr services"
    using assms(1) unfolding runtime_service_def Let_def bind_result_Inr_iff sum.inject by (elim exE conjE) auto
  from r assms(2) show ?thesis
    unfolding s by (auto simp: bind_result_Inr_iff dest: check_rule_ok split: if_split_asm)
qed

lemma read_sources_ok:
  assumes "read_sources re_compile pstr env raw = Inr so"
  shows "list_all (rule_ok re_compile) (so_services so)"
proof -
  define name where "name = env ''TEMPORALRCA_SERVICE_NAME''"
  obtain so0 where so0: "records_of (read_rule re_compile) (map_of raw ''services'') = Inr (so_services so0)"
    and so: "(if truthy name then runtime_service re_compile env (the name) so0 else Inr so0) = Inr so"
    using assms unfolding read_sources_def Let_def bind_result_Inr_iff name_def
    by (elim exE conjE) (metis sources.select_convs(2))
  have "list_all (rule_ok re_compile) (so_services so0)"
    by (rule records_ok [OF so0 read_rule_ok])
  with so show ?thesis by (auto dest: runtime_service_ok split: if_split_asm)
qed


text \<open>A server URL in the environment does not help a file without one.\<close>

lemma central_server_required:
  assumes "map_of raw ''central_server'' = None"
  shows "central_server env raw = Inl KeyError"
  by (simp add: central_server_def assms)

definition example_raw :: "(pystr \<times> json) list" where
  "example_raw = [(''central_server'', JStr ''https://vm1/''), (''spool_max_bytes'', JInt 1000),
     (''services'', JArr [JObj [(''service'', JStr ''api''), (''executable'', JStr ''/bin/api'')]])]"

abbreviation example_rule :: service_rule where
  "example_rule \<equiv> \<lparr>ru_service = ''api'', ru_systemd_unit = None, ru_executable = Some ''/bin/api'', ru_command_regex = None,
     ru_pid_file = None, ru_container_cgroup = None\<rparr>"

lemma example_sources:
  "read_sources (\<lambda>_. Inr ()) (\<lambda>_. []) (\<lambda>_. None) example_raw
     = Inr \<lparr>so_attributes = [], so_services = [example_rule], so_logs = [], so_metrics = [], so_dependencies = []\<rparr>"
proof -
  have rule: "read_rule (\<lambda>_. Inr ()) (JObj [(''service'', JStr ''api''), (''executable'', JStr ''/bin/api'')]) = Inr example_rule"
    by (simp add: read_rule_def keywords_of_def text_or_def field_text_def check_rule_def truthy_def)
  show ?thesis
    by (simp add: read_sources_def base_attributes_def set_if_given_def truthy_def records_of_def example_raw_def rule)
qed

lemma example_config_loads:
  "\<exists>c. load_config (\<lambda>_. Inr ()) (\<lambda>_. []) (\<lambda>_. None) ''node'' example_raw = Inr c \<and> cf_services c = [example_rule]"
proof -
  have url: "central_server (\<lambda>_. None) example_raw = Inr ''https://vm1''"
    by (simp add: central_server_def example_raw_def rstrip_char_def)
  have lookups: "map_of example_raw ''spool_max_bytes'' = Some (JInt 1000)"
    "\<And>k. k \<notin> {''central_server'', ''spool_max_bytes'', ''services''} \<Longrightarrow> map_of example_raw k = None"
    by (simp_all add: example_raw_def)
  show ?thesis
    unfolding load_config_def example_sources url
    by (simp add: lookups env_or_text_def field_text_def text_or_def env_or_number_def number_or_def int_or_def
        int_of_json.simps check_config_def startswith_def)
qed


end
