(* ===== verification/Docker.thy ===== *)
theory Docker
  imports Procfs Normalization
begin

text \<open>
  The container collector, \<open>agent/src/temporalrca_agent/collectors/docker.py\<close>: what it asks the
  Docker Engine, the conversion of one statistics answer into metrics, and a collection over all
  running containers. The exchange over the Unix socket is the parameter \<open>transport\<close>, from the path
  to status and body or an exception; \<open>loads\<close> is \<open>json.loads\<close>, \<open>pstr\<close> Python's \<open>str\<close> of a
  value that is no text. Isinstance checks for numbers accept booleans, as Python's do.
\<close>

section \<open>JSON values as Python objects\<close>

fun json_num :: "json \<Rightarrow> pyfloat option" where
  "json_num (JInt i) = Some (of_int i)"
| "json_num (JFloat q) = Some q"
| "json_num (JBool b) = Some (if b then 1 else 0)"
| "json_num _ = None"

definition trunc :: "pyfloat \<Rightarrow> int" where
  "trunc q = (if 0 \<le> q then \<lfloor>q\<rfloor> else \<lceil>q\<rceil>)"

text \<open>\<open>v.get(key, other)\<close> and \<open>v or {}\<close>.\<close>

definition entry_or :: "json \<Rightarrow> pystr \<Rightarrow> json \<Rightarrow> exn + json" where
  "entry_or v key other = (case v of
     JObj kvs \<Rightarrow> Inr (case map_of kvs key of None \<Rightarrow> other | Some x \<Rightarrow> x) | _ \<Rightarrow> Inl AttributeError)"

definition or_empty :: "json \<Rightarrow> json" where
  "or_empty v = (if json_truthy v then v else JObj [])"

definition is_obj :: "json \<Rightarrow> bool" where
  "is_obj v = (case v of JObj _ \<Rightarrow> True | _ \<Rightarrow> False)"

section \<open>The Engine\<close>

definition quote_char :: "char \<Rightarrow> pystr" where
  "quote_char c =
     (let n = of_char c :: nat;
          upper_hex = (\<lambda>d. char_of (if d < 10 then 48 + d else 55 + d));
          percent = (\<lambda>b. [CHR ''%'', upper_hex (b div 16), upper_hex (b mod 16)])
      in if 48 \<le> n \<and> n \<le> 57 \<or> 65 \<le> n \<and> n \<le> 90 \<or> 97 \<le> n \<and> n \<le> 122
            \<or> c \<in> {CHR ''_'', CHR ''.'', CHR ''-'', CHR ''~''} then [c]
         else if n < 128 then percent n else percent (192 + n div 64) @ percent (128 + n mod 64))"

definition quote_path :: "pystr \<Rightarrow> pystr" where
  "quote_path s = concat (map quote_char s)"

record docker_engine =
  de_socket_path :: pystr
  de_transport :: "pystr \<Rightarrow> exn + int \<times> bytes"
  de_describe :: "exn \<Rightarrow> pystr"
  de_decode :: "bytes \<Rightarrow> pystr"
  de_loads :: "bytes \<Rightarrow> json option"

definition engine_request :: "docker_engine \<Rightarrow> pystr \<Rightarrow> exn + json" where
  "engine_request engine path =
     (case de_transport engine path of
        Inl e \<Rightarrow> if os_error e
          then Inl (RuntimeError (''Docker socket '' @ de_socket_path engine @ '' unavailable: '' @ de_describe engine e))
          else Inl e
      | Inr (status, body) \<Rightarrow>
          if status < 200 \<or> 300 \<le> status
          then Inl (RuntimeError (''Docker Engine returned HTTP '' @ int_str status @ '': '' @ take 512 (de_decode engine body)))
          else (case de_loads engine body of
              None \<Rightarrow> Inl (RuntimeError ''Docker Engine returned invalid JSON'') | Some v \<Rightarrow> Inr v))"

definition engine_containers :: "docker_engine \<Rightarrow> exn + json list" where
  "engine_containers engine = bind_result (engine_request engine ''/containers/json'') (\<lambda>result.
     case result of
       JArr items \<Rightarrow> Inr (filter (\<lambda>item. is_obj item \<and> (case entry_or item ''Id'' JNull of Inr i \<Rightarrow> json_truthy i | Inl _ \<Rightarrow> False)) items)
     | _ \<Rightarrow> Inl (RuntimeError ''Docker Engine container list was not an array''))"

definition engine_stats :: "docker_engine \<Rightarrow> pystr \<Rightarrow> exn + json" where
  "engine_stats engine container_id =
     bind_result (engine_request engine (''/containers/'' @ quote_path container_id @ ''/stats?stream=false'')) (\<lambda>result.
       if is_obj result then Inr result
       else Inl (RuntimeError (''stats for container '' @ take 12 container_id @ '' was not an object'')))"

section \<open>Counters of one container\<close>

type_synonym totals = "(pystr, int) dict"

text \<open>A value counts when it is a number that is not negative.\<close>

definition counted :: "json option \<Rightarrow> int" where
  "counted v = (case v of None \<Rightarrow> 0
     | Some x \<Rightarrow> (case json_num x of None \<Rightarrow> 0 | Some q \<Rightarrow> if 0 \<le> q then trunc q else 0))"

definition add_network :: "json \<Rightarrow> totals \<Rightarrow> totals" where
  "add_network counters totals = (case counters of
     JObj kvs \<Rightarrow> map (\<lambda>(key, t). (key, t + counted (map_of kvs key))) totals | _ \<Rightarrow> totals)"

definition aggregate_network_bytes :: "json \<Rightarrow> exn + totals" where
  "aggregate_network_bytes networks = (case or_empty networks of
     JObj kvs \<Rightarrow> Inr (fold add_network (map snd kvs) [(''rx_bytes'', 0), (''tx_bytes'', 0)])
   | _ \<Rightarrow> Inl AttributeError)"

definition add_block :: "(json \<Rightarrow> pystr) \<Rightarrow> json \<Rightarrow> totals \<Rightarrow> totals" where
  "add_block pstr entry totals = (case entry of
     JObj kvs \<Rightarrow>
       (let op = lower (case map_of kvs ''op'' of None \<Rightarrow> [] | Some v \<Rightarrow> py_str pstr v);
            key = (if op = ''read'' then ''read_bytes'' else if op = ''write'' then ''write_bytes'' else [])
        in map (\<lambda>(k, t). (k, if k = key then t + counted (map_of kvs ''value'') else t)) totals)
   | _ \<Rightarrow> totals)"

definition count_block :: "(json \<Rightarrow> pystr) \<Rightarrow> json \<Rightarrow> totals" where
  "count_block pstr entries = (let zero = [(''read_bytes'', 0), (''write_bytes'', 0)] in
     case entries of JArr es \<Rightarrow> fold (add_block pstr) es zero | _ \<Rightarrow> zero)"

definition aggregate_block_bytes :: "(json \<Rightarrow> pystr) \<Rightarrow> json \<Rightarrow> exn + totals" where
  "aggregate_block_bytes pstr block_io =
     (let b = or_empty block_io in
      bind_result (entry_or b ''io_service_bytes_recursive'' (JArr [])) (\<lambda>recursive.
      bind_result (if json_truthy recursive then Inr recursive else entry_or b ''io_service_bytes'' (JArr [])) (\<lambda>entries.
        Inr (count_block pstr entries))))"

text \<open>The four numbers of the utilization, when all of them are.\<close>

definition cpu_numbers :: "json \<Rightarrow> json option \<Rightarrow> exn + (json \<times> json \<times> (pyfloat \<times> pyfloat \<times> pyfloat \<times> pyfloat) option)" where
  "cpu_numbers stats previous =
     bind_result (entry_or stats ''cpu_stats'' JNull) (\<lambda>c.
     bind_result (entry_or stats ''precpu_stats'' JNull) (\<lambda>o'.
       let cpu = (if json_truthy c then c else stats);
           old = (if json_truthy o' then o' else case previous of None \<Rightarrow> JObj [] | Some p \<Rightarrow> or_empty p);
           usage_of = (\<lambda>v. if is_obj v then entry_or v ''cpu_usage'' (JObj []) else Inr (JObj []));
           system_of = (\<lambda>v. if is_obj v then entry_or v ''system_cpu_usage'' JNull else Inr JNull)
       in bind_result (usage_of cpu) (\<lambda>current_usage.
          bind_result (usage_of old) (\<lambda>old_usage.
          bind_result (entry_or current_usage ''total_usage'' JNull) (\<lambda>current_total.
          bind_result (entry_or old_usage ''total_usage'' JNull) (\<lambda>old_total.
          bind_result (system_of cpu) (\<lambda>current_system.
          bind_result (system_of old) (\<lambda>old_system.
            Inr (cpu, current_usage,
              case (json_num current_total, json_num old_total, json_num current_system, json_num old_system) of
                (Some ct, Some ot, Some cs, Some os) \<Rightarrow> Some (ct, ot, cs, os)
              | _ \<Rightarrow> None)))))))))"

text \<open>\<open>len\<close> of a value.\<close>

fun json_len :: "json \<Rightarrow> exn + nat" where
  "json_len (JArr xs) = Inr (length xs)"
| "json_len (JObj kvs) = Inr (length kvs)"
| "json_len (JStr s) = Inr (length s)"
| "json_len _ = Inl TypeError"

definition online_cpus :: "json \<Rightarrow> json \<Rightarrow> exn + pyfloat" where
  "online_cpus cpu current_usage =
     bind_result (if is_obj cpu then entry_or cpu ''online_cpus'' JNull else Inr JNull) (\<lambda>online.
       case json_num online of
         Some n \<Rightarrow> if 0 < n then Inr n
           else bind_result (entry_or current_usage ''percpu_usage'' (JArr [])) (\<lambda>v.
             bind_result (json_len v) (\<lambda>k. Inr (if k = 0 then 1 else of_nat k)))
       | None \<Rightarrow> bind_result (entry_or current_usage ''percpu_usage'' (JArr [])) (\<lambda>v.
             bind_result (json_len v) (\<lambda>k. Inr (if k = 0 then 1 else of_nat k))))"

definition cpu_share :: "json \<Rightarrow> json \<Rightarrow> pyfloat \<times> pyfloat \<times> pyfloat \<times> pyfloat \<Rightarrow> exn + pyfloat option" where
  "cpu_share cpu current_usage numbers =
     (case numbers of (current_total, old_total, current_system, old_system) \<Rightarrow>
        let cpu_delta = current_total - old_total; system_delta = current_system - old_system
        in if cpu_delta < 0 \<or> system_delta \<le> 0 then Inr None
           else bind_result (online_cpus cpu current_usage) (\<lambda>online.
             Inr (Some (max 0 (min (100 * online) (cpu_delta / system_delta * online * 100))))))"

definition container_cpu_utilization :: "json \<Rightarrow> json option \<Rightarrow> exn + pyfloat option" where
  "container_cpu_utilization stats previous =
     bind_result (cpu_numbers stats previous) (\<lambda>(cpu, current_usage, numbers).
       case numbers of None \<Rightarrow> Inr None | Some ns \<Rightarrow> cpu_share cpu current_usage ns)"

record container_values =
  cv_cpu_utilization :: "pyfloat option"
  cv_memory_usage :: "int option"
  cv_memory_limit :: "int option"
  cv_memory_percent :: "pyfloat option"
  cv_counters :: totals
  cv_rates :: "(pystr, pyfloat option) dict"

text \<open>Usage without the page cache, limit and percentage.\<close>

definition memory_values :: "json \<Rightarrow> exn + int option \<times> int option \<times> pyfloat option" where
  "memory_values stats =
     bind_result (entry_or stats ''memory_stats'' JNull) (\<lambda>m.
     let memory = or_empty m in
     bind_result (entry_or memory ''usage'' JNull) (\<lambda>usage.
     bind_result (entry_or memory ''limit'' JNull) (\<lambda>limit.
     bind_result (entry_or memory ''stats'' JNull) (\<lambda>s.
     let nested = or_empty s in
     bind_result (entry_or nested ''cache'' (JInt 0)) (\<lambda>c.
     bind_result (entry_or nested ''total_inactive_file'' c) (\<lambda>t.
     bind_result (entry_or nested ''inactive_file'' t) (\<lambda>cache.
       let used = (case (json_num usage, json_num cache) of
             (Some u, Some k) \<Rightarrow> Some (max 0 (u - k)) | (u, _) \<Rightarrow> u);
           bytes = map_option trunc used
       in Inr (bytes, map_option trunc (json_num limit),
            case (bytes, json_num limit) of
              (Some b, Some l) \<Rightarrow> if 0 < l then Some (of_int b * 100 / l) else None
            | _ \<Rightarrow> None))))))))"

definition assemble_values ::
  "int option \<times> int option \<times> pyfloat option \<Rightarrow> pyfloat option \<Rightarrow> totals \<Rightarrow> totals \<Rightarrow> pyfloat \<Rightarrow> container_values" where
  "assemble_values memory cpu counters old elapsed =
     \<lparr>cv_cpu_utilization = cpu, cv_memory_usage = fst memory, cv_memory_limit = fst (snd memory),
      cv_memory_percent = snd (snd memory), cv_counters = counters,
      cv_rates = map (\<lambda>(key, v). (key, dl_value (counter_rate v (dict_get old key) elapsed))) counters\<rparr>"

definition network_of :: "json \<Rightarrow> exn + totals" where
  "network_of stats = bind_result (entry_or stats ''networks'' JNull) aggregate_network_bytes"

definition block_of :: "(json \<Rightarrow> pystr) \<Rightarrow> json \<Rightarrow> exn + totals" where
  "block_of pstr stats = bind_result (entry_or stats ''blkio_stats'' JNull) (aggregate_block_bytes pstr)"

definition container_stats_metrics :: "(json \<Rightarrow> pystr) \<Rightarrow> json \<Rightarrow> json option \<Rightarrow> pyfloat \<Rightarrow> exn + container_values" where
  "container_stats_metrics pstr stats previous elapsed =
     (let before = (case previous of None \<Rightarrow> JObj [] | Some p \<Rightarrow> or_empty p) in
      bind_result (memory_values stats) (\<lambda>memory.
      bind_result (container_cpu_utilization stats previous) (\<lambda>cpu.
      bind_result (network_of stats) (\<lambda>network.
      bind_result (block_of pstr stats) (\<lambda>block.
      bind_result (network_of before) (\<lambda>old_network.
      bind_result (block_of pstr before) (\<lambda>old_block.
        Inr (assemble_values memory cpu (network @ block) (old_network @ old_block) elapsed))))))))"

end
