(* ===== verification/Docker_Collector.thy ===== *)
theory Docker_Collector
  imports Docker
begin

text \<open>
  \<open>DockerCollector\<close> of \<open>collectors/docker.py\<close>: the inventory taken from the container list and a
  collection over the running containers. A collection that raises part of the way keeps what it had
  already stored in the collector, so the collector is returned with the result.
\<close>

section \<open>State\<close>

record container_item =
  ci_external_id :: pystr
  ci_name :: pystr
  ci_runtime :: pystr
  ci_image :: "pystr option"
  ci_service_external_id :: "pystr option"
  ci_state :: pystr
  ci_status :: pystr
  ci_restart_count :: int

record docker_collector =
  dk_previous :: "(pystr, pyfloat \<times> json) dict"
  dk_latest_inventory :: "(pystr, container_item) dict"

definition new_docker_collector :: docker_collector where
  "new_docker_collector = \<lparr>dk_previous = [], dk_latest_inventory = []\<rparr>"

definition container_attributes :: "container_item \<Rightarrow> (pystr, json) dict" where
  "container_attributes c = [(''state'', JStr (ci_state c)), (''status'', JStr (ci_status c)),
     (''restart_count'', JInt (ci_restart_count c))]"

section \<open>Inventory\<close>

definition item_id :: "(json \<Rightarrow> pystr) \<Rightarrow> json \<Rightarrow> pystr" where
  "item_id pstr item = (case obj_get item ''Id'' of None \<Rightarrow> [] | Some v \<Rightarrow> py_str pstr v)"

definition text_of :: "(json \<Rightarrow> pystr) \<Rightarrow> json \<Rightarrow> pystr \<Rightarrow> pystr" where
  "text_of pstr item key = (case obj_get item key of None \<Rightarrow> [] | Some v \<Rightarrow> py_str pstr v)"

text \<open>\<open>names[0]\<close> of the value of \<open>Names\<close>, which should be a list.\<close>

definition first_name :: "(json \<Rightarrow> pystr) \<Rightarrow> pystr \<Rightarrow> json \<Rightarrow> exn + pystr" where
  "first_name pstr external_id names =
     (if \<not> json_truthy names then Inr (take 12 external_id)
      else (case names of
          JArr (n # _) \<Rightarrow> Inr (py_str pstr n)
        | JStr (c # _) \<Rightarrow> Inr [c]
        | JObj _ \<Rightarrow> Inl KeyError
        | _ \<Rightarrow> Inl TypeError))"

definition int_of_value :: "json \<Rightarrow> exn + int" where
  "int_of_value v = (case v of
     JStr s \<Rightarrow> int_of s
   | _ \<Rightarrow> (case json_num v of Some q \<Rightarrow> Inr (trunc q) | None \<Rightarrow> Inl TypeError))"

definition restart_count :: "json \<Rightarrow> exn + int" where
  "restart_count item = (case obj_get item ''RestartCount'' of None \<Rightarrow> Inr 0
     | Some v \<Rightarrow> if json_truthy v then int_of_value v else Inr 0)"

definition optional_str :: "(json \<Rightarrow> pystr) \<Rightarrow> json option \<Rightarrow> pystr option" where
  "optional_str pstr v = (case v of None \<Rightarrow> None | Some x \<Rightarrow> if json_truthy x then Some (py_str pstr x) else None)"

definition container_entry :: "(json \<Rightarrow> pystr) \<Rightarrow> json \<Rightarrow> exn + container_item" where
  "container_entry pstr item =
     (let external_id = item_id pstr item;
          labels = (case obj_get item ''Labels'' of Some (JObj kvs) \<Rightarrow> JObj kvs | _ \<Rightarrow> JObj [])
      in bind_result (first_name pstr external_id (case obj_get item ''Names'' of None \<Rightarrow> JNull | Some v \<Rightarrow> v)) (\<lambda>name.
         bind_result (restart_count item) (\<lambda>restarts.
           Inr \<lparr>ci_external_id = external_id, ci_name = dropWhile (\<lambda>c. c = CHR ''/'') name, ci_runtime = ''docker'',
                ci_image = optional_str pstr (obj_get item ''Image''),
                ci_service_external_id = optional_str pstr (obj_get labels ''com.docker.compose.service''),
                ci_state = text_of pstr item ''State'', ci_status = text_of pstr item ''Status'',
                ci_restart_count = restarts\<rparr>)))"

definition list_containers ::
  "(json \<Rightarrow> pystr) \<Rightarrow> docker_engine \<Rightarrow> docker_collector \<Rightarrow> exn + json list \<times> docker_collector" where
  "list_containers pstr engine col =
     bind_result (engine_containers engine) (\<lambda>containers.
     bind_result (map_result (container_entry pstr) containers) (\<lambda>entries.
       Inr (containers, col\<lparr>dk_latest_inventory := dict_update (map (\<lambda>c. (ci_external_id c, c)) entries) []\<rparr>)))"

definition docker_inventory :: "docker_collector \<Rightarrow> container_item list" where
  "docker_inventory col = map snd (dk_latest_inventory col)"

section \<open>Metrics\<close>

definition container_metric :: "pystr \<Rightarrow> pyfloat \<Rightarrow> pystr \<Rightarrow> uuid \<Rightarrow> (pystr, json) dict \<Rightarrow> event_args" where
  "container_metric name v unit resource_id attrs = (event_default SYSTEM METRIC name)
     \<lparr>ea_value := Some v, ea_unit := Some unit, ea_entity := Some (no_entity\<lparr>er_container_id := Some resource_id\<rparr>),
      ea_attributes := attrs\<rparr>"

definition value_table :: "container_values \<Rightarrow> (pystr \<times> pyfloat option \<times> pystr) list" where
  "value_table v =
     (let count = (\<lambda>key. map_option of_int (dict_get (cv_counters v) key));
          rate = (\<lambda>key. case dict_get (cv_rates v) key of None \<Rightarrow> None | Some r \<Rightarrow> r)
      in [(''container.cpu.utilization'', cv_cpu_utilization v, ''%''),
          (''container.memory.usage'', map_option of_int (cv_memory_usage v), ''By''),
          (''container.memory.limit'', map_option of_int (cv_memory_limit v), ''By''),
          (''container.memory.percent'', cv_memory_percent v, ''%''),
          (''container.network.rx_bytes'', count ''rx_bytes'', ''By''),
          (''container.network.tx_bytes'', count ''tx_bytes'', ''By''),
          (''container.block_io.read_bytes'', count ''read_bytes'', ''By''),
          (''container.block_io.write_bytes'', count ''write_bytes'', ''By''),
          (''container.network.rx_bytes.rate'', rate ''rx_bytes'', ''By/s''),
          (''container.network.tx_bytes.rate'', rate ''tx_bytes'', ''By/s''),
          (''container.block_io.read_bytes.rate'', rate ''read_bytes'', ''By/s''),
          (''container.block_io.write_bytes.rate'', rate ''write_bytes'', ''By/s'')])"

definition container_events :: "container_values \<Rightarrow> container_item option \<Rightarrow> uuid \<Rightarrow> event_args list" where
  "container_events v info resource_id =
     concat (map (\<lambda>(name, x, unit). case x of None \<Rightarrow> [] | Some q \<Rightarrow> [container_metric name q unit resource_id []]) (value_table v))
     @ [container_metric ''container.restarts'' (case info of None \<Rightarrow> 0 | Some c \<Rightarrow> of_int (ci_restart_count c)) ''1'' resource_id
          [(''state'', JStr (case info of None \<Rightarrow> [] | Some c \<Rightarrow> ci_state c)),
           (''name'', JStr (case info of None \<Rightarrow> [] | Some c \<Rightarrow> ci_name c))]]"

text \<open>The loop of \<open>_events\<close>: events and ids seen so far, and the collector it updates.\<close>

fun container_loop ::
  "(json \<Rightarrow> pystr) \<Rightarrow> pyfloat \<Rightarrow> (pystr, uuid) dict \<Rightarrow> (pystr, json) dict \<Rightarrow> json list \<Rightarrow> event_args list \<times> pystr list
    \<Rightarrow> docker_collector \<Rightarrow> (exn + event_args list \<times> pystr list) \<times> docker_collector" where
  "container_loop pstr now resource_ids stats_by_id [] acc col = (Inr acc, col)"
| "container_loop pstr now resource_ids stats_by_id (item # items) (events, active_ids) col =
     (let external_id = item_id pstr item in
      case (dict_get resource_ids external_id, dict_get stats_by_id external_id) of
        (Some resource_id, Some stats) \<Rightarrow>
          if resource_id = [] then container_loop pstr now resource_ids stats_by_id items (events, active_ids) col
          else
            let old = dict_get (dk_previous col) external_id;
                elapsed = (case old of None \<Rightarrow> 0 | Some (t, _) \<Rightarrow> now - t)
            in (case container_stats_metrics pstr stats (map_option snd old) elapsed of
                  Inl e \<Rightarrow> (Inl e, col)
                | Inr v \<Rightarrow> container_loop pstr now resource_ids stats_by_id items
                    (events @ container_events v (dict_get (dk_latest_inventory col) external_id) resource_id,
                     external_id # active_ids)
                    (col\<lparr>dk_previous := dict_set external_id (now, stats) (dk_previous col)\<rparr>))
      | _ \<Rightarrow> container_loop pstr now resource_ids stats_by_id items (events, active_ids) col)"

definition docker_events ::
  "(json \<Rightarrow> pystr) \<Rightarrow> pyfloat \<Rightarrow> (pystr, uuid) dict \<Rightarrow> (pystr, json) dict \<Rightarrow> json list \<Rightarrow> docker_collector
    \<Rightarrow> (exn + event_args list) \<times> docker_collector" where
  "docker_events pstr now resource_ids stats_by_id containers col =
     (case container_loop pstr now resource_ids stats_by_id containers ([], []) col of
        (Inl e, col') \<Rightarrow> (Inl e, col')
      | (Inr (events, active_ids), col') \<Rightarrow>
          (Inr events, col'\<lparr>dk_previous := filter (\<lambda>e. fst e \<in> set active_ids) (dk_previous col')\<rparr>))"

section \<open>A collection\<close>

definition running :: "(json \<Rightarrow> pystr) \<Rightarrow> (pystr, uuid) dict \<Rightarrow> json list \<Rightarrow> json list" where
  "running pstr resource_ids containers = filter (\<lambda>item.
     truthy (dict_get resource_ids (item_id pstr item)) \<and> text_of pstr item ''State'' = ''running'') containers"

definition fetch_all :: "(json \<Rightarrow> pystr) \<Rightarrow> docker_engine \<Rightarrow> json list \<Rightarrow> (pystr \<times> (exn + json)) list" where
  "fetch_all pstr engine items = map (\<lambda>item. (item_id pstr item, engine_stats engine (item_id pstr item))) items"

definition stats_of :: "(pystr \<times> (exn + json)) list \<Rightarrow> (pystr, json) dict" where
  "stats_of results = dict_update (concat (map (\<lambda>(i, r). case r of Inr s \<Rightarrow> [(i, s)] | Inl _ \<Rightarrow> []) results)) []"

definition failures_of :: "(pystr \<times> (exn + json)) list \<Rightarrow> exn list" where
  "failures_of results = concat (map (\<lambda>(i, r). case r of Inl e \<Rightarrow> [e] | Inr _ \<Rightarrow> []) results)"

text \<open>\<open>collect_async\<close>: the requests run side by side, their results come back in order.\<close>

definition collect_async ::
  "(json \<Rightarrow> pystr) \<Rightarrow> docker_engine \<Rightarrow> pyfloat \<Rightarrow> (pystr, uuid) dict \<Rightarrow> docker_collector
    \<Rightarrow> (exn + event_args list) \<times> docker_collector" where
  "collect_async pstr engine now resource_ids col =
     (case list_containers pstr engine col of
        Inl e \<Rightarrow> (Inl e, col)
      | Inr (containers, col1) \<Rightarrow>
          let results = fetch_all pstr engine (running pstr resource_ids containers);
              failures = failures_of results; stats_by_id = stats_of results
          in (case docker_events pstr now resource_ids stats_by_id containers col1 of
                (Inl e, col2) \<Rightarrow> (Inl e, col2)
              | (Inr events, col2) \<Rightarrow>
                  if failures \<noteq> [] \<and> stats_by_id = [] then (Inl (hd failures), col2) else (Inr events, col2)))"

text \<open>The sequential \<open>collect\<close>: the first failing request ends it.\<close>

definition collect_containers ::
  "(json \<Rightarrow> pystr) \<Rightarrow> docker_engine \<Rightarrow> pyfloat \<Rightarrow> (pystr, uuid) dict \<Rightarrow> docker_collector
    \<Rightarrow> (exn + event_args list) \<times> docker_collector" where
  "collect_containers pstr engine now resource_ids col =
     (case list_containers pstr engine col of
        Inl e \<Rightarrow> (Inl e, col)
      | Inr (containers, col1) \<Rightarrow>
          (case map_result (\<lambda>item. bind_result (engine_stats engine (item_id pstr item)) (\<lambda>s. Inr (item_id pstr item, s)))
              (running pstr resource_ids containers) of
             Inl e \<Rightarrow> (Inl e, col1)
           | Inr pairs \<Rightarrow> docker_events pstr now resource_ids (dict_update pairs []) containers col1))"

section \<open>Values are sane\<close>

definition nonneg :: "totals \<Rightarrow> bool" where
  "nonneg d \<longleftrightarrow> (\<forall>(k, n) \<in> set d. 0 \<le> n)"

lemma nonneg_simps [simp]: "nonneg []" "nonneg ((k, n) # d) \<longleftrightarrow> 0 \<le> n \<and> nonneg d" "nonneg (d @ e) \<longleftrightarrow> nonneg d \<and> nonneg e"
  by (auto simp: nonneg_def)

lemma counted_nonneg: "0 \<le> counted v"
  by (simp add: counted_def trunc_def split: option.split)

lemma add_network_nonneg: "nonneg d \<Longrightarrow> nonneg (add_network v d)"
  using counted_nonneg by (auto simp: nonneg_def add_network_def split: json.split)

lemma add_block_nonneg: "nonneg d \<Longrightarrow> nonneg (add_block pstr v d)"
  using counted_nonneg by (auto simp: nonneg_def add_block_def Let_def split: json.split)

lemma fold_nonneg: "(\<And>x d. nonneg d \<Longrightarrow> nonneg (f x d)) \<Longrightarrow> nonneg d \<Longrightarrow> nonneg (fold f xs d)"
  by (induction xs arbitrary: d) simp_all

lemma network_nonneg: "aggregate_network_bytes v = Inr d \<Longrightarrow> nonneg d"
  by (auto simp: aggregate_network_bytes_def intro!: fold_nonneg add_network_nonneg split: json.split_asm)

lemma block_nonneg: "aggregate_block_bytes pstr v = Inr d \<Longrightarrow> nonneg d"
proof -
  have "nonneg (count_block pstr e)" for e
    by (auto simp: count_block_def Let_def intro!: fold_nonneg add_block_nonneg split: json.split)
  then show "aggregate_block_bytes pstr v = Inr d \<Longrightarrow> nonneg d"
    by (auto simp: aggregate_block_bytes_def Let_def bind_result_Inr_iff)
qed

lemma rate_value: "dl_value (counter_rate v old elapsed) = Some q \<Longrightarrow> 0 \<le> q \<and> 0 < elapsed"
  by (auto simp: counter_rate_def split: option.split_asm if_split_asm)

lemma online_pos: "online_cpus cpu usage = Inr n \<Longrightarrow> 0 < n"
  by (auto simp: online_cpus_def bind_result_Inr_iff split: option.split_asm if_split_asm)

lemma share_bounds:
  assumes "cpu_share cpu usage ns = Inr (Some c)"
  shows "\<exists>n. online_cpus cpu usage = Inr n \<and> 0 \<le> c \<and> c \<le> 100 * n"
proof -
  obtain a b d e where ns: "ns = (a, b, d, e)" by (metis prod_cases4)
  obtain n where n: "online_cpus cpu usage = Inr n" "c = max 0 (min (100 * n) ((a - b) / (d - e) * n * 100))"
    using assms unfolding cpu_share_def ns by (auto simp: Let_def bind_result_Inr_iff split: if_split_asm)
  then show ?thesis using online_pos [OF n(1)] by auto
qed

lemma memory_percent_value:
  assumes "memory_values stats = Inr (u, l, Some p)"
  shows "\<exists>b q. u = Some b \<and> 0 < q \<and> p = of_int b * 100 / q \<and> l = Some (trunc q)"
  using assms unfolding memory_values_def Let_def bind_result_Inr_iff
  by (auto split: option.split_asm if_split_asm)


text \<open>A statistics answer, like the ones Docker gives for a container with two counters.\<close>

definition demo_stats :: "int \<Rightarrow> int \<Rightarrow> json" where
  "demo_stats used rx = JObj [(''cpu_stats'', JObj [(''cpu_usage'', JObj [(''total_usage'', JInt used)]),
       (''system_cpu_usage'', JInt (10 * used)), (''online_cpus'', JInt 2)]),
     (''networks'', JObj [(''eth0'', JObj [(''rx_bytes'', JInt rx)])])]"


section \<open>One container's failure\<close>

text \<open>The containers of the list that were sampled, by id, and the resource each stands for.\<close>

definition sampled :: "(json \<Rightarrow> pystr) \<Rightarrow> (pystr, uuid) dict \<Rightarrow> (pystr, json) dict \<Rightarrow> json list \<Rightarrow> pystr list" where
  "sampled pstr resource_ids stats_by_id containers = filter (\<lambda>i.
     truthy (dict_get resource_ids i) \<and> dict_get stats_by_id i \<noteq> None) (map (item_id pstr) containers)"

definition restart_resources :: "event_args list \<Rightarrow> uuid option list" where
  "restart_resources events = map (\<lambda>e. case ea_entity e of None \<Rightarrow> None | Some r \<Rightarrow> er_container_id r)
     (filter (\<lambda>e. ea_name e = ''container.restarts'') events)"

lemma restart_resources_append: "restart_resources (xs @ ys) = restart_resources xs @ restart_resources ys"
  by (simp add: restart_resources_def)

lemma restart_resources_container: "restart_resources (container_events v info rid) = [Some rid]"
proof -
  have "filter (\<lambda>e. ea_name e = ''container.restarts'')
      (concat (map (\<lambda>(name, x, unit). case x of None \<Rightarrow> [] | Some q \<Rightarrow> [container_metric name q unit rid []]) (value_table v))) = []"
    by (auto simp: filter_empty_conv value_table_def Let_def container_metric_def event_default_def split: option.split_asm)
  then show ?thesis
    by (simp add: restart_resources_def container_events_def container_metric_def event_default_def no_entity_def)
qed

text \<open>The answers of the Engine convert, given a previous one: its documented shape.\<close>

definition well_shaped :: "(json \<Rightarrow> pystr) \<Rightarrow> (json \<Rightarrow> bool) \<Rightarrow> bool" where
  "well_shaped pstr good \<longleftrightarrow> (\<forall>s previous elapsed. good s \<longrightarrow> (case previous of None \<Rightarrow> True | Some p \<Rightarrow> good p) \<longrightarrow>
     (\<exists>v. container_stats_metrics pstr s previous elapsed = Inr v))"

lemma container_loop_total:
  assumes shape: "well_shaped pstr good" and stats: "\<forall>i s. dict_get st i = Some s \<longrightarrow> good s"
  shows "\<forall>i t s. dict_get (dk_previous col) i = Some (t, s) \<longrightarrow> good s \<Longrightarrow>
     \<exists>out act col'. container_loop pstr now rids st items (events, active) col = (Inr (out, act), col')
       \<and> restart_resources out = restart_resources events @ map (dict_get rids) (sampled pstr rids st items)"
proof (induction items arbitrary: events active col)
  case (Cons item items)
  let ?i = "item_id pstr item"
  show ?case
  proof (cases "truthy (dict_get rids ?i) \<and> dict_get st ?i \<noteq> None")
    case False
    then have "container_loop pstr now rids st (item # items) (events, active) col
        = container_loop pstr now rids st items (events, active) col"
      by (auto simp: truthy_def Let_def split: option.split)
    moreover have "sampled pstr rids st (item # items) = sampled pstr rids st items" using False by (simp add: sampled_def)
    ultimately show ?thesis using Cons.IH [OF Cons.prems] by simp
  next
    case True
    then obtain rid s where r: "dict_get rids ?i = Some rid" "rid \<noteq> []" "dict_get st ?i = Some s"
      by (auto simp: truthy_def)
    let ?old = "dict_get (dk_previous col) ?i"
    let ?el = "case ?old of None \<Rightarrow> 0 | Some (t, _) \<Rightarrow> now - t"
    have "case map_option snd ?old of None \<Rightarrow> True | Some p \<Rightarrow> good p"
      using Cons.prems by (cases ?old) auto
    then obtain v where v: "container_stats_metrics pstr s (map_option snd ?old) ?el = Inr v"
      using shape stats r(3) unfolding well_shaped_def by blast
    let ?col = "col\<lparr>dk_previous := dict_set ?i (now, s) (dk_previous col)\<rparr>"
    have "\<forall>i t s'. dict_get (dk_previous ?col) i = Some (t, s') \<longrightarrow> good s'"
      using Cons.prems stats r(3) by (auto simp: AList.update_conv')
    from Cons.IH [OF this, of "events @ container_events v (dict_get (dk_latest_inventory col) ?i) rid" "?i # active"]
    have IH: "\<exists>out act col'. container_loop pstr now rids st items
        (events @ container_events v (dict_get (dk_latest_inventory col) ?i) rid, ?i # active) ?col = (Inr (out, act), col')
       \<and> restart_resources out = restart_resources (events @ container_events v (dict_get (dk_latest_inventory col) ?i) rid)
           @ map (dict_get rids) (sampled pstr rids st items)" .
    have "sampled pstr rids st (item # items) = ?i # sampled pstr rids st items" using True by (simp add: sampled_def)
    moreover have "container_loop pstr now rids st (item # items) (events, active) col
        = container_loop pstr now rids st items
        (events @ container_events v (dict_get (dk_latest_inventory col) ?i) rid, ?i # active) ?col"
      using r v by (simp add: Let_def)
    ultimately show ?thesis using IH by (simp add: restart_resources_append restart_resources_container r(1))
  qed
qed (simp add: sampled_def)

lemma fetched_get:
  "dict_get (stats_of (fetch_all pstr engine items)) i =
     (if i \<in> item_id pstr ` set items then (case engine_stats engine i of Inr s \<Rightarrow> Some s | Inl _ \<Rightarrow> None) else None)"
proof -
  define pairs where "pairs = concat (map (\<lambda>(i, r). case r of Inr s \<Rightarrow> [(i, s)] | Inl _ \<Rightarrow> []) (fetch_all pstr engine items))"
  have mem: "(j, s) \<in> set pairs \<longleftrightarrow> j \<in> item_id pstr ` set items \<and> engine_stats engine j = Inr s" for j s
    unfolding pairs_def by (force simp: fetch_all_def split: sum.splits)
  have "dict_get (stats_of (fetch_all pstr engine items)) i = map_of (rev pairs) i"
    unfolding stats_of_def dict_update_get pairs_def by simp
  also have "\<dots> = (if i \<in> item_id pstr ` set items then (case engine_stats engine i of Inr s \<Rightarrow> Some s | Inl _ \<Rightarrow> None) else None)"
  proof (cases "map_of (rev pairs) i")
    case None
    then have "(i, s) \<notin> set pairs" for s by (force simp: map_of_eq_None_iff)
    with None show ?thesis using mem by (auto split: sum.split)
  next
    case (Some s)
    then have "(i, s) \<in> set pairs" by (auto dest: map_of_SomeD)
    with Some show ?thesis using mem by simp
  qed
  finally show ?thesis .
qed

text \<open>
  One container's failure stays its own: when the list of containers is read and the statistics
  that arrive have their documented shape, a collection in which at least one request succeeds (or none
  fails) returns the samples of exactly the running containers that answered and have a resource, in the
  order of the list, however many other requests failed.
\<close>

theorem container_failures_are_local:
  assumes "list_containers pstr engine col = Inr (containers, col1)" and "well_shaped pstr good"
    and "\<forall>i s. engine_stats engine i = Inr s \<longrightarrow> good s"
    and "\<forall>i t s. dict_get (dk_previous col) i = Some (t, s) \<longrightarrow> good s"
    and "results = fetch_all pstr engine (running pstr resource_ids containers)"
    and "stats_of results \<noteq> [] \<or> failures_of results = []"
  shows "\<exists>events col2. collect_async pstr engine now resource_ids col = (Inr events, col2)
     \<and> restart_resources events = map (dict_get resource_ids)
         (filter (\<lambda>i. truthy (dict_get resource_ids i) \<and> i \<in> item_id pstr ` set (running pstr resource_ids containers)
            \<and> (\<exists>s. engine_stats engine i = Inr s)) (map (item_id pstr) containers))"
proof -
  have "\<forall>i s. dict_get (stats_of results) i = Some s \<longrightarrow> good s"
    using assms(3) unfolding assms(5) fetched_get by (auto split: if_split_asm sum.split_asm)
  moreover have "\<forall>i t s. dict_get (dk_previous col1) i = Some (t, s) \<longrightarrow> good s"
    using assms(1,4) by (auto simp: list_containers_def bind_result_Inr_iff)
  ultimately obtain out act col' where l: "container_loop pstr now resource_ids (stats_of results) containers ([], []) col1
      = (Inr (out, act), col')" and r: "restart_resources out = map (dict_get resource_ids) (sampled pstr resource_ids (stats_of results) containers)"
    using container_loop_total [OF assms(2), of "stats_of results" col1 now resource_ids containers "[]" "[]"]
    by (auto simp: restart_resources_def)
  have "sampled pstr resource_ids (stats_of results) containers
      = filter (\<lambda>i. truthy (dict_get resource_ids i) \<and> i \<in> item_id pstr ` set (running pstr resource_ids containers)
            \<and> (\<exists>s. engine_stats engine i = Inr s)) (map (item_id pstr) containers)"
    unfolding sampled_def assms(5) fetched_get by (rule filter_cong) (auto split: sum.split)
  moreover have "\<exists>c. collect_async pstr engine now resource_ids col = (Inr out, c)"
    using assms(1,5,6) l by (auto simp: collect_async_def docker_events_def Let_def)
  ultimately show ?thesis using r by auto
qed

definition demo_engine :: docker_engine where
  "demo_engine = \<lparr>de_socket_path = ''/run'',
     de_transport = (\<lambda>path. if path = ''/containers/json'' then Inr (200, ''L'')
       else if path = ''/containers/aa/stats?stream=false'' then Inr (200, ''S'') else Inr (500, [])),
     de_describe = (\<lambda>_. []), de_decode = id,
     de_loads = (\<lambda>b. if b = ''L'' then Some (JArr [JObj [(''Id'', JStr ''aa''), (''State'', JStr ''running'')],
         JObj [(''Id'', JStr ''bb''), (''State'', JStr ''running'')]]) else Some (JObj []))\<rparr>"

lemma demo_engine_stats:
  "engine_stats demo_engine i = Inr s \<Longrightarrow> s = JObj []"
  by (auto simp: engine_stats_def engine_request_def demo_engine_def bind_result_Inr_iff is_obj_def split: if_split_asm)

theorem container_failures_are_local_witness:
  "\<exists>events col. collect_async (\<lambda>_. []) demo_engine 7 [(''aa'', ''r1''), (''bb'', ''r2'')] new_docker_collector = (Inr events, col)
     \<and> restart_resources events = [Some ''r1''] \<and> (\<exists>e. engine_stats demo_engine ''bb'' = Inl e)"
proof -
  let ?ids = "[(''aa'', ''r1''), (''bb'', ''r2'')]"
  let ?items = "[JObj [(''Id'', JStr ''aa''), (''State'', JStr ''running'')], JObj [(''Id'', JStr ''bb''), (''State'', JStr ''running'')]]"
  have aa: "engine_stats demo_engine ''aa'' = Inr (JObj [])"
    by (simp add: engine_stats_def engine_request_def demo_engine_def is_obj_def quote_path_def quote_char_def Let_def)
  have bb: "\<exists>e. engine_stats demo_engine ''bb'' = Inl e"
    by (simp add: engine_stats_def engine_request_def demo_engine_def is_obj_def quote_path_def quote_char_def Let_def)
  obtain col where l: "list_containers (\<lambda>_. []) demo_engine new_docker_collector = Inr (?items, col)"
    by (simp add: list_containers_def engine_containers_def engine_request_def demo_engine_def is_obj_def entry_or_def
        container_entry_def item_id_def first_name_def restart_count_def Let_def)
  have shape: "well_shaped (\<lambda>_. []) (\<lambda>s. s = JObj [])"
    by (auto simp: well_shaped_def container_stats_metrics_def memory_values_def entry_or_def or_empty_def Let_def
        container_cpu_utilization_def cpu_numbers_def is_obj_def network_of_def block_of_def
        aggregate_network_bytes_def aggregate_block_bytes_def count_block_def split: option.split)
  have run: "running (\<lambda>_. []) ?ids ?items = ?items" by (simp add: running_def item_id_def text_of_def truthy_def)
  have stats: "stats_of (fetch_all (\<lambda>_. []) demo_engine (running (\<lambda>_. []) ?ids ?items)) \<noteq> []"
    unfolding run using aa bb by (auto simp: stats_of_def fetch_all_def item_id_def)
  have good: "\<forall>i s. engine_stats demo_engine i = Inr s \<longrightarrow> s = JObj []" using demo_engine_stats by blast
  have none: "\<forall>i t s. dict_get (dk_previous new_docker_collector) i = Some (t, s) \<longrightarrow> s = JObj []"
    by (simp add: new_docker_collector_def)
  show ?thesis
    using container_failures_are_local [OF l shape good none refl disjI1 [OF stats], of 7] aa bb unfolding run
    by (auto simp: item_id_def truthy_def)
qed

text \<open>
  An answer of another shape ends the collection for all containers, at every attempt: here the memory
  statistics are a list.
\<close>

lemma malformed_stats_abort:
  "container_stats_metrics pstr (JObj [(''memory_stats'', JArr [JNull])]) previous elapsed = Inl AttributeError"
  by (simp add: container_stats_metrics_def memory_values_def entry_or_def or_empty_def Let_def)

end
