(* ===== verification/Collection.thy ===== *)
theory Collection
  imports Config Docker_Collector Proc_Collector
begin

text \<open>
  The collecting half of the agent, \<open>runtime.py\<close> 106 to 222: one turn of the host sampler, of
  discovery, of process sampling and of the container sampler, on the agent, its collectors, the last
  associations, the monitored processes and the resource ids the server handed out. A \<open>platform\<close> is what
  a turn finds outside the agent; \<open>pl_stamp\<close> gives the clock and the fresh id of the event with a sequence
  number. The events of a host or container sample are numbered when the sample is complete.
\<close>

section \<open>State\<close>

record platform =
  pl_frepr :: "rat \<Rightarrow> string"
  pl_pstr :: "json \<Rightarrow> pystr"
  pl_stamp :: "int \<Rightarrow> datetime \<times> uuid"
  pl_clk :: "nat \<Rightarrow> pyfloat"
  pl_now :: datetime
  pl_ids :: "uuid \<times> uuid"
  pl_monotonic :: pyfloat
  pl_fs :: procfs
  pl_read_text :: "pystr \<Rightarrow> exn + pystr"
  pl_re_search :: "pystr \<Rightarrow> pystr \<Rightarrow> bool"
  pl_engine :: docker_engine
  pl_put :: endpoint
  pl_show :: "exn \<Rightarrow> pystr \<times> pystr"

record collection =
  cl_agent :: agent
  cl_proc :: proc_collector
  cl_docker :: docker_collector
  cl_associations :: associations
  cl_processes :: "(process_identity, process_info) dict"
  cl_ids :: resource_ids

section \<open>Emitting what was collected\<close>

fun make_events :: "platform \<Rightarrow> event_args list \<Rightarrow> normalizer \<Rightarrow> agent_event list \<times> normalizer" where
  "make_events pl [] nz = ([], nz)"
| "make_events pl (a # as) nz =
     (let stamp = pl_stamp pl (nz_sequence nz + 1);
          ne = event (pl_frepr pl) (pl_pstr pl) (fst stamp) (snd stamp) a nz;
          rest = make_events pl as (fst ne)
      in (snd ne # fst rest, snd rest))"

definition normalized :: "platform \<Rightarrow> event_args list \<Rightarrow> collection \<Rightarrow> agent_event list \<times> collection" where
  "normalized pl args c =
     (let en = make_events pl args (rt_normalizer (cl_agent c))
      in (fst en, c\<lparr>cl_agent := (cl_agent c)\<lparr>rt_normalizer := snd en\<rparr>\<rparr>))"

definition emit_events :: "platform \<Rightarrow> agent_event list \<Rightarrow> (pystr \<times> pystr) list \<Rightarrow> collection \<Rightarrow> collection" where
  "emit_events pl events state_updates c =
     c\<lparr>cl_agent := emit (pl_frepr pl) (pl_pstr pl) (pl_clk pl) (pl_now pl) (snd (pl_ids pl)) events state_updates (cl_agent c)\<rparr>"

definition emit_args :: "platform \<Rightarrow> event_args list \<Rightarrow> (pystr \<times> pystr) list \<Rightarrow> collection \<Rightarrow> collection" where
  "emit_args pl args state_updates c =
     (let ec = normalized pl args c in emit_events pl (fst ec) state_updates (snd ec))"

section \<open>Host and containers\<close>

definition system_turn :: "platform \<Rightarrow> collection \<Rightarrow> (exn + unit) \<times> collection" where
  "system_turn pl c =
     (case collect_system (pl_monotonic pl) (pl_fs pl) (cl_proc c) of
        Inl e \<Rightarrow> (Inl e, c)
      | Inr (args, proc) \<Rightarrow> (Inr (), emit_args pl args [] (c\<lparr>cl_proc := proc\<rparr>)))"

definition docker_turn :: "platform \<Rightarrow> collection \<Rightarrow> (exn + unit) \<times> collection" where
  "docker_turn pl c =
     (case collect_async (pl_pstr pl) (pl_engine pl) (pl_monotonic pl) (ri_containers (cl_ids c)) (cl_docker c) of
        (Inl e, docker) \<Rightarrow> (Inl e, c\<lparr>cl_docker := docker\<rparr>)
      | (Inr args, docker) \<Rightarrow> (Inr (), emit_args pl args [] (c\<lparr>cl_docker := docker\<rparr>)))"

section \<open>Discovery\<close>

text \<open>Processes that end while they are read are skipped, unreadable ones are counted.\<close>

fun scan_pids :: "(int \<Rightarrow> exn + process_info) \<Rightarrow> int list \<Rightarrow> exn + process_info list \<times> nat" where
  "scan_pids read [] = Inr ([], 0)"
| "scan_pids read (pid # rest) =
     (case read pid of
        Inr p \<Rightarrow> bind_result (scan_pids read rest) (\<lambda>r. Inr (p # fst r, snd r))
      | Inl FileNotFoundError \<Rightarrow> scan_pids read rest
      | Inl ProcessLookupError \<Rightarrow> scan_pids read rest
      | Inl PermissionError \<Rightarrow> bind_result (scan_pids read rest) (\<lambda>r. Inr (fst r, Suc (snd r)))
      | Inl e \<Rightarrow> Inl e)"

text \<open>Sorting by the pair of flag and pid is sorting by the pid and then, stably, by the flag.\<close>

definition prioritised :: "(process_info \<Rightarrow> exn + pystr option) \<Rightarrow> nat \<Rightarrow> process_info list \<Rightarrow> exn + process_info list" where
  "prioritised assign limit found =
     bind_result (map_result (\<lambda>p. bind_result (assign p) (\<lambda>s. Inr (s, p))) found) (\<lambda>keyed.
       Inr (take limit (map snd (sort_key (\<lambda>k. fst k = None) (sort_key (\<lambda>k. st_pid (pi_stat (snd k))) keyed)))))"

definition assign_with :: "platform \<Rightarrow> config \<Rightarrow> process_info \<Rightarrow> exn + pystr option" where
  "assign_with pl cfg = assign_service (rule_matches (pl_re_search pl) (pl_read_text pl)) (cf_services cfg)"

definition service_names :: "config \<Rightarrow> pystr list" where
  "service_names cfg = sort (remdups (map ru_service (cf_services cfg)
     @ map the (filter truthy (map me_service (cf_metrics cfg)))
     @ map the (filter truthy (map ls_service (cf_logs cfg)))
     @ concat (map dc_services (cf_dependencies cfg))))"

record inventory_detail =
  cd_name :: pystr
  cd_runtime :: pystr
  cd_image :: "pystr option"
  cd_service :: "pystr option"
  cd_attributes :: "(pystr, json) dict"

definition detail_of :: "container_item \<Rightarrow> inventory_detail" where
  "detail_of i = \<lparr>cd_name = ci_name i, cd_runtime = ci_runtime i, cd_image = ci_image i,
     cd_service = ci_service_external_id i, cd_attributes = container_attributes i\<rparr>"

definition fallback_detail :: "pystr \<Rightarrow> inventory_detail" where
  "fallback_detail external_id = \<lparr>cd_name = take 12 external_id, cd_runtime = ''container'', cd_image = None,
     cd_service = None, cd_attributes = []\<rparr>"

definition all_containers :: "docker_collector \<Rightarrow> pystr list \<Rightarrow> (pystr, inventory_detail) dict" where
  "all_containers docker discovered =
     sort_key fst (fold (\<lambda>i d. dict_setdefault i (fallback_detail i) d) discovered
       (dict_update (map (\<lambda>i. (ci_external_id i, detail_of i)) (docker_inventory docker)) []))"

definition full_container_id :: "resource_ids \<Rightarrow> pystr \<Rightarrow> pystr option" where
  "full_container_id ids cgroup =
     (case container_id cgroup of
        None \<Rightarrow> None
      | Some found \<Rightarrow>
          if dict_get (ri_containers ids) found \<noteq> None then Some found
          else (case filter (startswith found) (map fst (ri_containers ids)) of [m] \<Rightarrow> Some m | _ \<Rightarrow> Some found))"

section \<open>The report\<close>

definition item_json :: "pystr \<Rightarrow> pystr \<Rightarrow> (pystr \<times> json) list \<Rightarrow> (pystr, json) dict \<Rightarrow> json" where
  "item_json external_id name others attrs =
     JObj ([(''external_id'', JStr external_id), (''name'', JStr name)] @ others @ [(''attributes'', JObj attrs)])"

definition container_json :: "pystr \<times> inventory_detail \<Rightarrow> json" where
  "container_json e = item_json (fst e) (cd_name (snd e))
     [(''runtime'', JStr (cd_runtime (snd e))), (''image'', opt_str (cd_image (snd e))),
      (''service_external_id'', opt_str (cd_service (snd e)))] (cd_attributes (snd e))"

definition process_json :: "associations \<Rightarrow> resource_ids \<Rightarrow> process_identity \<times> process_info \<Rightarrow> json" where
  "process_json associations ids e =
     (let i = fst e; p = snd e in
      item_json (identity_key i) (st_name (pi_stat p))
        [(''boot_id'', JStr (pd_boot_id i)), (''pid'', JInt (pd_pid i)), (''start_time_ticks'', JInt (pd_start_time_ticks i)),
         (''command'', if pi_cmdline p = [] then JNull else JStr (pi_cmdline p)),
         (''service_external_id'', opt_str (case dict_get associations i of None \<Rightarrow> None | Some s \<Rightarrow> s)),
         (''container_external_id'', opt_str (full_container_id ids (pi_cgroup p)))]
        [(''state'', JStr (st_state (pi_stat p)))])"

definition lease_seconds :: "config \<Rightarrow> int" where
  "lease_seconds cfg = max 10 (min 3600 (trunc (cf_discovery_interval_seconds cfg * 3)))"

definition inventory_report :: "platform \<Rightarrow> config \<Rightarrow> pystr list \<Rightarrow> collection \<Rightarrow> json" where
  "inventory_report pl cfg discovered_containers c =
     JObj [(''observed_at'', JStr (iso_utc (pl_now pl))), (''lease_seconds'', JInt (lease_seconds cfg)),
       (''services'', JArr (map (\<lambda>name. item_json name name [] []) (service_names cfg))),
       (''containers'', JArr (map container_json (all_containers (cl_docker c) discovered_containers))),
       (''processes'', JArr (map (process_json (cl_associations c) (cl_ids c)) (cl_processes c))),
       (''dependencies'', JArr (map (\<lambda>d. item_json (dc_name d) (dc_name d)
          [(''kind'', JStr (dc_type d)), (''service_external_ids'', JArr (map JStr (dc_services d)))] []) (cf_dependencies cfg)))]"

text \<open>The answer: a mapping of each kind is merged into the ids known so far.\<close>

definition learned :: "(json \<Rightarrow> pystr) \<Rightarrow> json \<Rightarrow> pystr \<Rightarrow> resource_map \<Rightarrow> resource_map" where
  "learned pstr response key ids =
     (case obj_get response key of
        Some (JObj kvs) \<Rightarrow> dict_update (map (\<lambda>(k, v). (k, py_str pstr v)) kvs) ids
      | _ \<Rightarrow> ids)"

definition learn_ids :: "(json \<Rightarrow> pystr) \<Rightarrow> json \<Rightarrow> resource_ids \<Rightarrow> exn + resource_ids" where
  "learn_ids pstr response ids =
     (if \<not> is_obj response then Inl AttributeError
      else Inr \<lparr>ri_services = learned pstr response ''service_ids'' (ri_services ids),
             ri_processes = learned pstr response ''process_ids'' (ri_processes ids),
             ri_containers = learned pstr response ''container_ids'' (ri_containers ids),
             ri_dependencies = learned pstr response ''dependency_ids'' (ri_dependencies ids)\<rparr>)"

definition or_empty_text :: "pystr option \<Rightarrow> pystr" where
  "or_empty_text s = (case s of None \<Rightarrow> [] | Some x \<Rightarrow> x)"

definition change_event :: "resource_ids \<Rightarrow> association_change \<Rightarrow> event_args list" where
  "change_event ids change =
     (let process_id = dict_get (ri_processes ids) (identity_key (ac_identity change)) in
      if truthy process_id
      then [(event_default PROCESS LIFECYCLE (ac_kind change))
        \<lparr>ea_entity := Some (no_entity\<lparr>er_process_id := process_id,
             er_service_id := dict_get (ri_services ids) (or_empty_text (ac_service change))\<rparr>),
         ea_attributes := [(''pid'', JInt (pd_pid (ac_identity change))),
           (''start_time_ticks'', JInt (pd_start_time_ticks (ac_identity change))),
           (''previous_service'', JStr (or_empty_text (ac_previous change))),
           (''service'', JStr (or_empty_text (ac_service change)))]\<rparr>]
      else [])"

definition denied_event :: "nat \<Rightarrow> event_args list" where
  "denied_event failures =
     (if failures \<noteq> 0
      then [(event_default SYSTEM COLLECTOR_HEALTH ''collector.process.permission_denied'')
        \<lparr>ea_severity := Some ''WARNING'', ea_attributes := [(''processes'', JInt (int failures))]\<rparr>]
      else [])"

text \<open>What a scan finds: the monitored processes, the containers of all of them, the unreadable ones.\<close>

definition find_processes ::
  "platform \<Rightarrow> config \<Rightarrow> exn + pystr \<times> process_info list \<times> pystr list \<times> nat" where
  "find_processes pl cfg =
     bind_result (boot_id (pl_fs pl)) (\<lambda>boot.
     bind_result (bind_result (pids (pl_fs pl)) (scan_pids (process (pl_fs pl)))) (\<lambda>found.
     bind_result (prioritised (assign_with pl cfg) (nat (cf_max_monitored_processes cfg)) (fst found)) (\<lambda>monitored.
       Inr (boot, monitored,
         remdups (map the (filter truthy (map (\<lambda>p. container_id (pi_cgroup p)) (fst found)))), snd found))))"

definition monitor :: "pystr \<Rightarrow> process_info list \<Rightarrow> associations \<Rightarrow> collection \<Rightarrow> collection" where
  "monitor boot monitored associations c =
     c\<lparr>cl_associations := associations,
       cl_processes := dict_update (map (\<lambda>p. (identity_of boot p, p)) monitored) []\<rparr>"

text \<open>The report is sent after the associations were replaced; when it fails they stay replaced.\<close>

definition report_turn ::
  "platform \<Rightarrow> config \<Rightarrow> pystr list \<Rightarrow> nat \<Rightarrow> association_change list \<Rightarrow> collection \<Rightarrow> (exn + unit) \<times> collection" where
  "report_turn pl cfg discovered_containers failures changes c =
     (case bind_result (client_inventory (pl_put pl) (inventory_report pl cfg discovered_containers c))
         (\<lambda>response. learn_ids (pl_pstr pl) response (cl_ids c)) of
        Inl e \<Rightarrow> (Inl e, c)
      | Inr ids \<Rightarrow>
          (Inr (), emit_args pl (concat (map (change_event ids) changes) @ denied_event failures) [] (c\<lparr>cl_ids := ids\<rparr>)))"

definition discover :: "platform \<Rightarrow> config \<Rightarrow> collection \<Rightarrow> (exn + unit) \<times> collection" where
  "discover pl cfg c =
     (case find_processes pl cfg of
        Inl e \<Rightarrow> (Inl e, c)
      | Inr (boot, monitored, discovered_containers, failures) \<Rightarrow>
          (case reconcile (assign_with pl cfg) boot monitored (cl_associations c) of
             Inl e \<Rightarrow> (Inl e, c)
           | Inr (associations, changes) \<Rightarrow>
               report_turn pl cfg discovered_containers failures changes (monitor boot monitored associations c)))"

section \<open>Sampling the monitored processes\<close>

definition fail_health :: "platform \<Rightarrow> pystr \<Rightarrow> exn \<Rightarrow> collection \<Rightarrow> collection" where
  "fail_health pl name e c =
     c\<lparr>cl_agent := health_error (pl_frepr pl) (pl_pstr pl) (pl_clk pl) (pl_now pl) (pl_ids pl) name
        (fst (pl_show pl e)) (snd (pl_show pl e)) (cl_agent c)\<rparr>"

definition sample_process ::
  "platform \<Rightarrow> config \<Rightarrow> process_identity \<Rightarrow> process_info \<Rightarrow> collection \<Rightarrow> exn + event_args list \<times> collection" where
  "sample_process pl cfg i current c =
     (if st_start_time_ticks (pi_stat current) \<noteq> pd_start_time_ticks i then Inr ([], c)
      else bind_result (assign_with pl cfg current) (\<lambda>service.
        case dict_get (ri_processes (cl_ids c)) (identity_key i) of
          None \<Rightarrow> Inr ([], c)
        | Some process_id \<Rightarrow>
            if process_id = [] then Inr ([], c)
            else bind_result (collect_process (pl_monotonic pl) (pf_clock_ticks (pl_fs pl)) current process_id
                (dict_get (ri_services (cl_ids c)) (or_empty_text service))
                (dict_get (ri_containers (cl_ids c)) (or_empty_text (full_container_id (cl_ids c) (pi_cgroup current))))
                (cl_proc c)) (\<lambda>r. Inr (fst r, c\<lparr>cl_proc := snd r\<rparr>))))"

fun sample_processes ::
  "platform \<Rightarrow> config \<Rightarrow> process_identity list \<Rightarrow> agent_event list \<Rightarrow> collection
    \<Rightarrow> (exn + agent_event list) \<times> collection" where
  "sample_processes pl cfg [] events c = (Inr events, c)"
| "sample_processes pl cfg (i # is) events c =
     (case process (pl_fs pl) (pd_pid i) of
        Inr current \<Rightarrow>
          (case sample_process pl cfg i current c of
             Inl e \<Rightarrow> (Inl e, c)
           | Inr (args, c') \<Rightarrow>
               let ec = normalized pl args c' in sample_processes pl cfg is (events @ fst ec) (snd ec))
      | Inl FileNotFoundError \<Rightarrow> sample_processes pl cfg is events c
      | Inl ProcessLookupError \<Rightarrow> sample_processes pl cfg is events c
      | Inl PermissionError \<Rightarrow>
          sample_processes pl cfg is events (fail_health pl (''process:'' @ int_str (pd_pid i)) PermissionError c)
      | Inl e \<Rightarrow> (Inl e, c))"

definition processes_turn :: "platform \<Rightarrow> config \<Rightarrow> collection \<Rightarrow> (exn + unit) \<times> collection" where
  "processes_turn pl cfg c =
     (case sample_processes pl cfg (map fst (cl_processes c)) [] c of
        (Inl e, c') \<Rightarrow> (Inl e, c')
      | (Inr events, c') \<Rightarrow> (Inr (), emit_events pl events [] c'))"

end
