(* ===== verification/Collection_Laws.thy ===== *)
theory Collection_Laws
  imports Collection "HOL-Library.Multiset"
begin

text \<open>
  What discovery promises: services come first when the number of monitored processes is capped, a scan
  that finds nothing new reports nothing, and what is lost when the report of a scan fails.
\<close>

section \<open>The cap\<close>

lemma sorted_constant: "\<forall>y \<in> set ys. f y = c \<Longrightarrow> sorted (map f ys)"
  by (induction ys) auto

lemma sort_by_flag: "sort_key f xs = filter (\<lambda>x. \<not> f x) xs @ filter f xs" for f :: "'a \<Rightarrow> bool"
proof (rule properties_for_sort_key)
  show "mset (filter (\<lambda>x. \<not> f x) xs @ filter f xs) = mset xs"
    by (simp add: union_commute flip: multiset_partition)
  show "filter (\<lambda>x. f k = f x) (filter (\<lambda>x. \<not> f x) xs @ filter f xs) = filter (\<lambda>x. f k = f x) xs" for k
    by (cases "f k") (simp_all add: conj_commute)
  show "sorted (map f (filter (\<lambda>x. \<not> f x) xs @ filter f xs))"
    by (auto simp: sorted_append intro: sorted_constant [where c = True] sorted_constant [where c = False])
qed

lemma map_insort: "map g (insort_key (\<lambda>x. f (g x)) x xs) = insort_key f (g x) (map g xs)"
  by (induction xs) simp_all

lemma map_sort: "map g (sort_key (\<lambda>x. f (g x)) xs) = sort_key f (map g xs)"
  by (induction xs) (simp_all add: map_insort)

definition of_service :: "(process_info \<Rightarrow> exn + pystr option) \<Rightarrow> process_info \<Rightarrow> bool" where
  "of_service assign p \<longleftrightarrow> assign p \<noteq> Inr None"

lemma prioritised_eq:
  assumes "prioritised assign limit found = Inr ps"
  shows "ps = take limit (filter (of_service assign) (sort_key (\<lambda>p. st_pid (pi_stat p)) found)
      @ filter (\<lambda>p. \<not> of_service assign p) (sort_key (\<lambda>p. st_pid (pi_stat p)) found))"
proof -
  let ?key = "\<lambda>k. st_pid (pi_stat (snd k))"
  obtain keyed where k: "map_result (\<lambda>p. bind_result (assign p) (\<lambda>s. Inr (s, p))) found = Inr keyed"
    and ps: "ps = take limit (map snd (sort_key (\<lambda>k. fst k = None) (sort_key ?key keyed)))"
    using assms by (auto simp: prioritised_def bind_result_Inr_iff)
  from k have "map snd keyed = found \<and> list_all (\<lambda>x. assign (snd x) = Inr (fst x)) keyed"
    by (induction found arbitrary: keyed) (auto simp: bind_result_Inr_iff)
  then have pairs: "map snd keyed = found" "\<forall>x \<in> set keyed. assign (snd x) = Inr (fst x)"
    by (simp_all add: list_all_iff)
  have sorted: "map snd (sort_key ?key keyed) = sort_key (\<lambda>p. st_pid (pi_stat p)) found"
    using map_sort [of snd "\<lambda>p. st_pid (pi_stat p)" keyed] pairs(1) by simp
  have part: "map snd (filter (\<lambda>k. (fst k = None) = b) xs) = filter (\<lambda>p. (assign p = Inr None) = b) (map snd xs)"
    if "\<forall>x \<in> set xs. assign (snd x) = Inr (fst x)" for xs b
    using that by (induction xs) auto
  show ?thesis
    using part [of "sort_key ?key keyed" True] part [of "sort_key ?key keyed" False] pairs(2)
    by (simp add: ps sort_by_flag sorted of_service_def [abs_def])
qed

lemma take_two_parts:
  fixes P :: "'a \<Rightarrow> bool"
  defines "ps \<equiv> \<lambda>n xs. take n (filter P xs @ filter (\<lambda>x. \<not> P x) xs)"
  shows "length (ps n xs) = min n (length xs)" and "mset (ps n xs) \<subseteq># mset xs"
    and "x \<in> set xs \<Longrightarrow> P x \<Longrightarrow> y \<in> set (ps n xs) \<Longrightarrow> \<not> P y \<Longrightarrow> x \<in> set (ps n xs)"
    and "length (filter P xs) \<le> n \<Longrightarrow> x \<in> set xs \<Longrightarrow> P x \<Longrightarrow> x \<in> set (ps n xs)"
    and "filter P (ps n xs) = take n (filter P xs)"
    and "filter (\<lambda>x. \<not> P x) (ps n xs) = take (n - length (filter P xs)) (filter (\<lambda>x. \<not> P x) xs)"
proof -
  show "length (ps n xs) = min n (length xs)"
    unfolding ps_def length_take length_append sum_length_filter_compl by simp
  have "mset (ps n xs) \<subseteq># mset (filter P xs @ filter (\<lambda>x. \<not> P x) xs)"
    unfolding ps_def by (metis append_take_drop_id mset_append mset_subset_eq_add_left)
  then show "mset (ps n xs) \<subseteq># mset xs" by simp
  show kept: "x \<in> set (ps n xs)" if "length (filter P xs) \<le> n" "x \<in> set xs" "P x"
    using that by (simp add: ps_def)
  show "x \<in> set (ps n xs)" if "x \<in> set xs" "P x" "y \<in> set (ps n xs)" "\<not> P y"
  proof (rule kept [OF _ that(1,2)])
    have "y \<notin> set (take n (filter P xs))" using that(4) by (auto dest: in_set_takeD)
    then have "take (n - length (filter P xs)) (filter (\<lambda>x. \<not> P x) xs) \<noteq> []" using that(3) by (auto simp: ps_def)
    then show "length (filter P xs) \<le> n" by (cases "length (filter P xs) \<le> n") auto
  qed
  have same: "filter P (take m (filter P xs)) = take m (filter P xs)" "filter P (take m (filter (\<lambda>x. \<not> P x) xs)) = []"
    "filter (\<lambda>x. \<not> P x) (take m (filter P xs)) = []"
    "filter (\<lambda>x. \<not> P x) (take m (filter (\<lambda>x. \<not> P x) xs)) = take m (filter (\<lambda>x. \<not> P x) xs)" for m
    by (auto simp: filter_empty_conv filter_id_conv dest: in_set_takeD)
  show "filter P (ps n xs) = take n (filter P xs)"
    "filter (\<lambda>x. \<not> P x) (ps n xs) = take (n - length (filter P xs)) (filter (\<lambda>x. \<not> P x) xs)"
    by (simp_all add: ps_def same)
qed

lemma sorted_part: "sorted (map f xs) \<Longrightarrow> sorted (map f (take n (filter P xs)))"
  by (metis sorted_filter sorted_wrt_take take_map)

text \<open>
  The cap on monitored processes keeps exactly as many as it allows and never drops a process of a
  service while it keeps one without: services first, in the order of their pids, then the others in
  theirs. With no more service processes than the cap, all of them are monitored.
\<close>

theorem monitored_are_prioritised:
  assumes "prioritised assign limit found = Inr ps"
  shows "length ps = min limit (length found) \<and> mset ps \<subseteq># mset found
    \<and> (\<forall>p \<in> set found. of_service assign p \<longrightarrow>
          (\<exists>q \<in> set ps. \<not> of_service assign q) \<or> length (filter (of_service assign) found) \<le> limit \<longrightarrow> p \<in> set ps)
    \<and> sorted (map (\<lambda>p. st_pid (pi_stat p)) (filter (of_service assign) ps))
    \<and> sorted (map (\<lambda>p. st_pid (pi_stat p)) (filter (\<lambda>p. \<not> of_service assign p) ps))"
proof -
  let ?pid = "\<lambda>p. st_pid (pi_stat p)" and ?P = "of_service assign"
  let ?xs = "sort_key ?pid found"
  note ps = prioritised_eq [OF assms] and parts = take_two_parts [where P = ?P and n = limit and xs = ?xs, folded prioritised_eq [OF assms]]
  have "length (filter ?P ?xs) = length (filter ?P found)"
    by (metis mset_filter mset_sort size_mset)
  with parts show ?thesis by (auto intro: sorted_part)
qed

definition demo_found :: "process_info list" where
  "demo_found = [demo_process 3 1 0, demo_process 7 1 0, demo_process 9 1 0]"

definition demo_assign :: "process_info \<Rightarrow> exn + pystr option" where
  "demo_assign p = Inr (if st_pid (pi_stat p) = 9 then Some ''api'' else None)"

theorem monitored_are_prioritised_witness:
  "\<exists>ps. prioritised demo_assign 2 demo_found = Inr ps \<and> map (\<lambda>p. st_pid (pi_stat p)) ps = [9, 3]
     \<and> length ps = min 2 (length demo_found)"
proof -
  have [simp]: "st_pid (pi_stat (demo_process pid start cpu)) = pid" for pid start cpu by (simp add: demo_process_def)
  let ?keyed = "[(None, demo_process 3 1 0), (None, demo_process 7 1 0), (Some ''api'', demo_process 9 1 0)]"
  have "map_result (\<lambda>p. bind_result (demo_assign p) (\<lambda>s. Inr (s, p))) demo_found = Inr ?keyed"
    by (simp add: demo_found_def demo_assign_def)
  moreover have "sort_key (\<lambda>k. st_pid (pi_stat (snd k))) ?keyed = ?keyed"
    by simp
  moreover have "sort_key (\<lambda>k. fst k = None) ?keyed = [(Some ''api'', demo_process 9 1 0), (None, demo_process 3 1 0), (None, demo_process 7 1 0)]"
    unfolding sort_by_flag by simp
  ultimately have "prioritised demo_assign 2 demo_found = Inr [demo_process 9 1 0, demo_process 3 1 0]"
    unfolding prioritised_def by (simp only: bind_result_simps) simp
  note ps = this
  have "map (\<lambda>p. st_pid (pi_stat p)) [demo_process 9 1 0, demo_process 3 1 0] = [9, 3]" by simp
  moreover from monitored_are_prioritised [OF ps]
  have "length [demo_process 9 1 0, demo_process 3 1 0] = min 2 (length demo_found)" by (rule conjunct1)
  ultimately show ?thesis using ps by (intro exI conjI)
qed

section \<open>Scanning again\<close>

lemma scan_again:
  assumes "scan assign boot old ps (current, changes) = Inr (current', changes')"
    and "\<forall>p \<in> set ps. \<forall>s. assign p = Inr s \<longrightarrow> dict_get new (identity_of boot p) = Some s"
  shows "scan assign boot new ps (current, changes2) = Inr (current', changes2)"
  using assms
  by (induction ps arbitrary: current changes) (auto simp: bind_result_Inr_iff change_of_def Let_def)

lemma scan_gets:
  assumes "scan assign boot old ps (current, changes) = Inr (current', changes')" and "distinct (map (identity_of boot) ps)"
  shows "(\<forall>p \<in> set ps. \<forall>s. assign p = Inr s \<longrightarrow> dict_get current' (identity_of boot p) = Some s)
     \<and> (\<forall>i. i \<notin> identity_of boot ` set ps \<longrightarrow> dict_get current' i = dict_get current i)"
  using assms
proof (induction ps arbitrary: current changes)
  case (Cons p ps)
  obtain s where s: "assign p = Inr s"
    "scan assign boot old ps (dict_set (identity_of boot p) s current, changes @ change_of old (identity_of boot p) s)
      = Inr (current', changes')"
    using Cons.prems(1) by (auto simp: bind_result_Inr_iff Let_def)
  from Cons.IH [OF s(2)] Cons.prems(2) show ?case by (auto simp: s(1) update_conv')
qed simp

lemma reconcile_again:
  assumes "reconcile assign boot ps old = Inr (associations, changes)" and "distinct (map (identity_of boot) ps)"
  shows "reconcile assign boot ps associations = Inr (associations, [])"
proof -
  obtain changes1 where "scan assign boot old ps ([], []) = Inr (associations, changes1)"
    using assms(1) by (auto simp: reconcile_def bind_result_Inr_iff)
  from scan_again [OF this] scan_gets [OF this assms(2)] have "scan assign boot associations ps ([], []) = Inr (associations, [])"
    by blast
  then show ?thesis by (simp add: reconcile_def)
qed


definition empty_platform :: "endpoint \<Rightarrow> platform" where
  "empty_platform put = \<lparr>pl_frepr = (\<lambda>_. []), pl_pstr = (\<lambda>_. []), pl_stamp = (\<lambda>_. (0, [])), pl_clk = (\<lambda>_. 0), pl_now = 0,
     pl_ids = ([], []), pl_monotonic = 0,
     pl_fs = \<lparr>pf_read = (\<lambda>_. Inr ''b''), pf_readlink = (\<lambda>_. Inl FileNotFoundError), pf_count = (\<lambda>_. Inr 0), pf_entries = [],
        pf_clock_ticks = 100, pf_page_size = 4096\<rparr>,
     pl_read_text = (\<lambda>_. Inl FileNotFoundError), pl_re_search = (\<lambda>_ _. False),
     pl_engine = \<lparr>de_socket_path = [], de_transport = (\<lambda>_. Inl FileNotFoundError), de_describe = (\<lambda>_. []),
        de_decode = (\<lambda>_. []), de_loads = (\<lambda>_. None)\<rparr>,
     pl_put = put, pl_show = (\<lambda>_. ([], []))\<rparr>"

abbreviation (input) refused :: endpoint where
  "refused \<equiv> \<lambda>_. Inl (ConnectionError [])"

abbreviation (input) answered :: endpoint where
  "answered \<equiv> \<lambda>_. Inr \<lparr>hr_status = 200, hr_body = JObj []\<rparr>"

definition ended_process :: collection where
  "ended_process = \<lparr>cl_agent = \<lparr>rt_spool = new_spool 1000 60, rt_normalizer = \<lparr>nz_host_id = None, nz_sequence = 0\<rparr>,
       rt_health = [], rt_credential = None\<rparr>,
     cl_proc = new_collector, cl_docker = new_docker_collector,
     cl_associations = [(\<lparr>pd_boot_id = ''b'', pd_pid = 9, pd_start_time_ticks = 4\<rparr>, Some ''api'')], cl_processes = [],
     cl_ids = \<lparr>ri_services = [], ri_processes = [(''b:9:4'', ''r'')], ri_containers = [], ri_dependencies = []\<rparr>\<rparr>"

lemma empty_scan: "find_processes (empty_platform put) cfg = Inr (''b'', [], [], 0)"
  by (simp add: find_processes_def empty_platform_def boot_id_def pids_def prioritised_def strip_no_space is_space_def)


end
