(* ===== verification/Json_Text.thy ===== *)
theory Json_Text
  imports PyText
begin

text \<open>
  \<open>json.loads\<close>, which the agent restores its stored cursors with: the recursive parser of the library with
  its white space, escapes and numbers, and the law that it reads back what \<open>json.dumps\<close> writes. \<open>wide\<close>
  renders a code point beyond the first 256; the words \<open>NaN\<close> and \<open>Infinity\<close>, which the library also
  accepts, are refused. The fuel of the recursion is twice the length of the text, more than any
  nesting of it can use.
\<close>

abbreviation quote_mark :: char where "quote_mark \<equiv> CHR 0x22"
abbreviation backslash :: char where "backslash \<equiv> CHR 0x5C"
abbreviation line_feed :: char where "line_feed \<equiv> CHR 0x0A"

section \<open>Characters\<close>

definition json_blank :: "char \<Rightarrow> bool" where
  "json_blank c \<longleftrightarrow> c \<in> {CHR '' '', CHR 0x09, line_feed, CHR 0x0D}"

definition skip :: "pystr \<Rightarrow> pystr" where
  "skip s = dropWhile json_blank s"

fun hex_number :: "nat \<Rightarrow> pystr \<Rightarrow> nat option" where
  "hex_number acc [] = Some acc"
| "hex_number acc (c # cs) = (case hex_value c of None \<Rightarrow> None | Some d \<Rightarrow> hex_number (16 * acc + d) cs)"

definition hex_prefix :: "nat \<Rightarrow> pystr \<Rightarrow> nat option" where
  "hex_prefix n s = (if length s < n then None else hex_number 0 (take n s))"

definition code_point :: "(nat \<Rightarrow> pystr) \<Rightarrow> nat \<Rightarrow> pystr" where
  "code_point wide n = (if n < 256 then [char_of n] else wide n)"

definition json_escape :: "char \<Rightarrow> char option" where
  "json_escape c = map_of
     [(quote_mark, quote_mark), (backslash, backslash), (CHR ''/'', CHR ''/''), (CHR ''b'', CHR 0x08), (CHR ''f'', CHR 0x0C),
      (CHR ''n'', line_feed), (CHR ''r'', CHR 0x0D), (CHR ''t'', CHR 0x09)] c"

text \<open>A \<open>\u\<close> escape after its letter; a high surrogate followed by a low one is one code point.\<close>

definition unicode_escape :: "pystr \<Rightarrow> (nat \<times> pystr) option" where
  "unicode_escape s =
     (case hex_prefix 4 s of
        None \<Rightarrow> None
      | Some n \<Rightarrow>
          (case (if 0xD800 \<le> n \<and> n < 0xDC00 \<and> startswith [backslash, CHR ''u''] (drop 4 s) then hex_prefix 4 (drop 6 s) else None) of
             Some m \<Rightarrow> if 0xDC00 \<le> m \<and> m < 0xE000 then Some (0x10000 + (n - 0xD800) * 0x400 + (m - 0xDC00), drop 10 s)
                       else Some (n, drop 4 s)
           | None \<Rightarrow> Some (n, drop 4 s)))"

lemma unicode_escape_length: "unicode_escape s = Some (n, rest) \<Longrightarrow> length rest \<le> length s"
  by (auto simp: unicode_escape_def split: option.split_asm if_split_asm)

function parse_chars :: "(nat \<Rightarrow> pystr) \<Rightarrow> pystr \<Rightarrow> (pystr \<times> pystr) option" where
  "parse_chars wide [] = None"
| "parse_chars wide (c # cs) =
     (if c = quote_mark then Some ([], cs)
      else if c = backslash
      then (case cs of
          [] \<Rightarrow> None
        | d # ds \<Rightarrow>
            if d = CHR ''u''
            then (case unicode_escape ds of
                None \<Rightarrow> None
              | Some (n, rest) \<Rightarrow> map_option (\<lambda>r. (code_point wide n @ fst r, snd r)) (parse_chars wide rest))
            else (case json_escape d of
                None \<Rightarrow> None
              | Some e \<Rightarrow> map_option (\<lambda>r. (e # fst r, snd r)) (parse_chars wide ds)))
      else if (of_char c :: nat) < 32 then None
      else map_option (\<lambda>r. (c # fst r, snd r)) (parse_chars wide cs))"
  by pat_completeness auto
termination by (relation "measure (\<lambda>(wide, s). length s)") (auto dest: unicode_escape_length)

section \<open>Numbers\<close>

definition parse_fraction :: "pystr \<Rightarrow> pystr" where
  "parse_fraction s =
     (if s \<noteq> [] \<and> hd s = CHR ''.'' \<and> takeWhile is_digit (tl s) \<noteq> [] then CHR ''.'' # takeWhile is_digit (tl s) else [])"

definition parse_exponent :: "pystr \<Rightarrow> pystr" where
  "parse_exponent s =
     (if s \<noteq> [] \<and> hd s \<in> {CHR ''e'', CHR ''E''}
      then let t = tl s; sign = (if t \<noteq> [] \<and> hd t \<in> {CHR ''+'', CHR ''-''} then [hd t] else []);
               digits = takeWhile is_digit (drop (length sign) t)
           in if digits = [] then [] else hd s # sign @ digits
      else [])"

definition parse_number :: "pystr \<Rightarrow> (json \<times> pystr) option" where
  "parse_number s =
     (let sign = (if startswith ''-'' s then ''-'' else []);
          t = drop (length sign) s;
          whole = (if startswith ''0'' t then ''0'' else takeWhile is_digit t);
          fraction = parse_fraction (drop (length whole) t);
          expo = parse_exponent (drop (length whole + length fraction) t);
          rest = drop (length whole + length fraction + length expo) t
      in if whole = [] then None
         else if fraction = [] \<and> expo = [] then map_option (\<lambda>i. (JInt i, rest)) (py_int (sign @ whole))
         else map_option (\<lambda>q. (JFloat q, rest)) (py_float (sign @ whole @ fraction @ expo)))"

section \<open>Values\<close>

fun parse_value :: "(nat \<Rightarrow> pystr) \<Rightarrow> nat \<Rightarrow> pystr \<Rightarrow> (json \<times> pystr) option"
  and parse_items :: "(nat \<Rightarrow> pystr) \<Rightarrow> nat \<Rightarrow> pystr \<Rightarrow> (json list \<times> pystr) option"
  and parse_members :: "(nat \<Rightarrow> pystr) \<Rightarrow> nat \<Rightarrow> pystr \<Rightarrow> ((pystr \<times> json) list \<times> pystr) option" where
  "parse_value wide 0 s = None"
| "parse_value wide (Suc n) s =
     (if s \<noteq> [] \<and> hd s = quote_mark then map_option (\<lambda>r. (JStr (fst r), snd r)) (parse_chars wide (tl s))
      else if s \<noteq> [] \<and> hd s = CHR ''[''
      then (let t = skip (tl s) in
            if t \<noteq> [] \<and> hd t = CHR '']'' then Some (JArr [], tl t)
            else map_option (\<lambda>r. (JArr (fst r), snd r)) (parse_items wide n t))
      else if s \<noteq> [] \<and> hd s = CHR 0x7B
      then (let t = skip (tl s) in
            if t \<noteq> [] \<and> hd t = CHR 0x7D then Some (JObj [], tl t)
            else map_option (\<lambda>r. (JObj (dict_update (fst r) []), snd r)) (parse_members wide n t))
      else if startswith ''null'' s then Some (JNull, drop 4 s)
      else if startswith ''true'' s then Some (JBool True, drop 4 s)
      else if startswith ''false'' s then Some (JBool False, drop 5 s)
      else parse_number s)"
| "parse_items wide 0 s = None"
| "parse_items wide (Suc n) s =
     (case parse_value wide n s of
        None \<Rightarrow> None
      | Some (v, rest) \<Rightarrow>
          (case skip rest of
             [] \<Rightarrow> None
           | c # cs \<Rightarrow> if c = CHR '']'' then Some ([v], cs)
               else if c = CHR '','' then map_option (\<lambda>r. (v # fst r, snd r)) (parse_items wide n (skip cs)) else None))"
| "parse_members wide 0 s = None"
| "parse_members wide (Suc n) s =
     (if s = [] \<or> hd s \<noteq> quote_mark then None
      else (case parse_chars wide (tl s) of
        None \<Rightarrow> None
      | Some (k, after) \<Rightarrow>
          (case skip after of
             [] \<Rightarrow> None
           | d # ds \<Rightarrow> if d \<noteq> CHR '':'' then None
               else (case parse_value wide n (skip ds) of
                 None \<Rightarrow> None
               | Some (v, rest) \<Rightarrow>
                   (case skip rest of
                      [] \<Rightarrow> None
                    | c # cs \<Rightarrow> if c = CHR 0x7D then Some ([(k, v)], cs)
                        else if c = CHR '','' then map_option (\<lambda>r. ((k, v) # fst r, snd r)) (parse_members wide n (skip cs))
                        else None)))))"

definition json_loads :: "(nat \<Rightarrow> pystr) \<Rightarrow> pystr \<Rightarrow> json option" where
  "json_loads wide s =
     (case parse_value wide (2 * length s + 1) (skip s) of
        None \<Rightarrow> None
      | Some (v, rest) \<Rightarrow> if skip rest = [] then Some v else None)"

section \<open>What is written is read back\<close>

definition printable :: "pystr \<Rightarrow> bool" where
  "printable s \<longleftrightarrow> list_all (\<lambda>c. 32 \<le> (of_char c :: nat) \<and> (of_char c :: nat) < 128) s"

text \<open>
  Values whose objects have distinct keys, which is what a Python dictionary has: without floats, and with
  floats whose rendering \<open>frepr\<close> is read back as the number it renders.
\<close>

primrec plain_json :: "json \<Rightarrow> bool" where
  "plain_json JNull = True"
| "plain_json (JBool b) = True"
| "plain_json (JInt i) = True"
| "plain_json (JFloat q) = False"
| "plain_json (JStr s) = True"
| "plain_json (JArr xs) = list_all plain_json xs"
| "plain_json (JObj kvs) = (distinct (map fst kvs) \<and> list_all snd (map (map_prod id plain_json) kvs))"

primrec read_back :: "(rat \<Rightarrow> string) \<Rightarrow> json \<Rightarrow> bool" where
  "read_back frepr JNull = True"
| "read_back frepr (JBool b) = True"
| "read_back frepr (JInt i) = True"
| "read_back frepr (JFloat q) = (printable (frepr q) \<and> parse_number (frepr q) = Some (JFloat q, []))"
| "read_back frepr (JStr s) = True"
| "read_back frepr (JArr xs) = list_all (read_back frepr) xs"
| "read_back frepr (JObj kvs) = (distinct (map fst kvs) \<and> list_all snd (map (map_prod id (read_back frepr)) kvs))"

lemma plain_read_back: "plain_json v \<Longrightarrow> read_back frepr v"
  by (induction v) (auto simp: list_all_iff)

lemma hex_pair: "unicode_escape (CHR ''0'' # CHR ''0'' # hex_char (of_char c div 16) # hex_char (of_char c mod 16) # rest) = Some (of_char c, rest)"
proof -
  have "(of_char c :: nat) div 16 < 16" by (simp add: less_mult_imp_div_less)
  moreover have z: "hex_value (CHR ''0'') = Some 0" by (simp add: hex_value_def)
  ultimately have "hex_prefix 4 (CHR ''0'' # CHR ''0'' # hex_char (of_char c div 16) # hex_char (of_char c mod 16) # rest) = Some (of_char c)"
    using hex_value_char [of "of_char c div 16"] hex_value_char [of "of_char c mod 16"] by (simp add: hex_prefix_def z)
  moreover have "\<not> 0xD800 \<le> (of_char c :: nat)" using nat_of_char_less_256 [of c] by linarith
  ultimately show ?thesis by (simp add: unicode_escape_def)
qed

lemma parse_escape_char: "parse_chars wide (escape_char c @ s) = map_option (\<lambda>r. (c # fst r, snd r)) (parse_chars wide s)"
proof -
  have iff: "(of_char c :: nat) = 34 \<longleftrightarrow> c = quote_mark" "(of_char c :: nat) = 92 \<longleftrightarrow> c = backslash"
    "(of_char c :: nat) = 10 \<longleftrightarrow> c = line_feed" "(of_char c :: nat) = 13 \<longleftrightarrow> c = CHR 0x0D"
    "(of_char c :: nat) = 9 \<longleftrightarrow> c = CHR 0x09" "(of_char c :: nat) = 8 \<longleftrightarrow> c = CHR 0x08" "(of_char c :: nat) = 12 \<longleftrightarrow> c = CHR 0x0C"
    using of_char_eq_iff [where 'a = nat, of c quote_mark] of_char_eq_iff [where 'a = nat, of c backslash]
      of_char_eq_iff [where 'a = nat, of c line_feed] of_char_eq_iff [where 'a = nat, of c "CHR 0x0D"]
      of_char_eq_iff [where 'a = nat, of c "CHR 0x09"] of_char_eq_iff [where 'a = nat, of c "CHR 0x08"]
      of_char_eq_iff [where 'a = nat, of c "CHR 0x0C"] by simp_all
  consider "c \<in> {quote_mark, backslash, line_feed, CHR 0x0D, CHR 0x09, CHR 0x08, CHR 0x0C}"
    | "c \<notin> {quote_mark, backslash, line_feed, CHR 0x0D, CHR 0x09, CHR 0x08, CHR 0x0C}" "(of_char c :: nat) < 32 \<or> 126 < (of_char c :: nat)"
    | "c \<notin> {quote_mark, backslash, line_feed, CHR 0x0D, CHR 0x09, CHR 0x08, CHR 0x0C}" "32 \<le> (of_char c :: nat)" "(of_char c :: nat) \<le> 126"
    by linarith
  then show ?thesis
  proof cases
    case 1
    then show ?thesis by (auto simp: escape_char_def json_escape_def)
  next
    case 2
    then show ?thesis by (simp add: escape_char_def Let_def iff hex_pair code_point_def)
  next
    case 3
    then show ?thesis by (simp add: escape_char_def Let_def iff)
  qed
qed

lemma parse_quoted: "parse_chars wide (concat (map escape_char s) @ quote_mark # rest) = Some (s, rest)"
  by (induction s) (simp_all add: parse_escape_char del: parse_chars.simps(2), simp_all)

definition stops :: "pystr \<Rightarrow> bool" where
  "stops s \<longleftrightarrow> s = [] \<or> hd s \<in> {CHR '','', CHR '']'', CHR 0x7D}"

lemma nat_str_head: "hd (nat_str n) = CHR ''0'' \<Longrightarrow> n = 0"
proof (induction n rule: nat_str.induct)
  case (1 n)
  show ?case
  proof (cases "n < 10")
    case True
    then have "char_of (48 + n) = CHR ''0''" using 1(2) by (subst (asm) nat_str.simps) (simp add: digit_char_def)
    from arg_cong [OF this, where f = "of_char :: char \<Rightarrow> nat"] True show ?thesis by simp
  next
    case False
    have "hd (nat_str n) = hd (nat_str (n div 10))"
      using False nat_str_digits [of "n div 10"] by (subst nat_str.simps) simp
    with 1 False show ?thesis by simp
  qed
qed

lemma parse_whole:
  assumes "stops rest"
  shows "(if startswith ''0'' (nat_str n @ rest) then ''0'' else takeWhile is_digit (nat_str n @ rest)) = nat_str n"
proof -
  have d: "nat_str n \<noteq> []" "\<forall>c \<in> set (nat_str n). is_digit c" using nat_str_digits [of n] by (simp_all add: list_all_iff)
  have "rest = [] \<or> \<not> is_digit (hd rest)" using assms by (auto simp: stops_def is_digit_def)
  then have run: "takeWhile is_digit (nat_str n @ rest) = nat_str n" using d(2) by (cases rest) (simp_all add: takeWhile_append2)
  have zero: "nat_str 0 = ''0''" by code_simp
  show ?thesis
  proof (cases "startswith ''0'' (nat_str n @ rest)")
    case True
    then have "hd (nat_str n) = CHR ''0''" using d(1) by (cases "nat_str n") (auto simp: startswith_def)
    then have "n = 0" by (rule nat_str_head)
    then show ?thesis using True by (simp add: zero)
  qed (simp add: run)
qed

lemma parse_int_str:
  assumes "stops rest"
  shows "parse_number (int_str i @ rest) = Some (JInt i, rest)"
proof -
  define sign where "sign = (if i < 0 then ''-'' else [])"
  define n where "n = nat \<bar>i\<bar>"
  have n: "int_str i = sign @ nat_str n" by (simp add: int_str_def sign_def n_def)
  have "nat_str n \<noteq> []" "is_digit (hd (nat_str n))" using nat_str_digits [of n] by (auto simp: list_all_iff)
  then have no_sign: "\<not> startswith ''-'' (nat_str n @ rest)"
    using digits_not_special by (cases "nat_str n") (auto simp: startswith_def)
  have s: "(if startswith ''-'' (int_str i @ rest) then ''-'' else []) = sign"
    unfolding n using no_sign by (simp add: sign_def) (simp add: startswith_def)
  have end': "parse_fraction rest = []" "parse_exponent rest = []"
    using assms by (auto simp: parse_fraction_def parse_exponent_def stops_def)
  have val: "py_int (sign @ nat_str n) = Some i" using py_int_int_str [of i] by (simp add: n)
  have ne: "nat_str n \<noteq> []" using nat_str_digits by blast
  have t: "drop (length sign) (int_str i @ rest) = nat_str n @ rest" by (simp add: n)
  show ?thesis
    unfolding parse_number_def Let_def s t parse_whole [OF assms]
    by (simp add: end' val ne)
qed

text \<open>A number ends where a value may end.\<close>

lemma no_digits: "stops rest \<Longrightarrow> takeWhile is_digit rest = []"
  by (cases rest) (auto simp: stops_def is_digit_def)

lemma digits_stop: "stops rest \<Longrightarrow> takeWhile is_digit (s @ rest) = takeWhile is_digit s"
  by (induction s) (simp_all add: no_digits)

lemma parse_fraction_stops: "stops rest \<Longrightarrow> parse_fraction (s @ rest) = parse_fraction s"
  by (cases s) (auto simp: parse_fraction_def digits_stop, auto simp: stops_def)

lemma parse_exponent_stops:
  assumes "stops rest"
  shows "parse_exponent (s @ rest) = parse_exponent s"
proof (cases s)
  case (Cons c t)
  show ?thesis
  proof (cases t)
    case Nil
    have "rest = [] \<or> hd rest \<notin> {CHR ''+'', CHR ''-''}" using assms by (auto simp: stops_def)
    then show ?thesis by (auto simp: parse_exponent_def Cons Nil Let_def no_digits [OF assms])
  next
    case (Cons d ds)
    have "parse_exponent (c # d # ds @ rest) = parse_exponent (c # d # ds)"
      using digits_stop [OF assms, of ds] digits_stop [OF assms, of "d # ds"]
      by (simp add: parse_exponent_def Let_def)
    then show ?thesis by (simp add: Cons \<open>s = c # t\<close>)
  qed
qed (use assms in \<open>auto simp: parse_exponent_def stops_def\<close>)

lemma parse_fraction_length: "length (parse_fraction s) \<le> length s"
  using length_takeWhile_le [of is_digit "tl s"] by (cases s) (auto simp: parse_fraction_def)

lemma parse_exponent_length: "length (parse_exponent s) \<le> length s"
proof (cases s)
  case (Cons c t)
  show ?thesis
    using length_takeWhile_le [of is_digit t] length_takeWhile_le [of is_digit "tl t"]
    by (cases t) (auto simp: parse_exponent_def Cons Let_def)
qed (simp add: parse_exponent_def)

lemma parse_number_stops:
  assumes "parse_number s = Some (v, r)" and "stops rest"
  shows "parse_number (s @ rest) = Some (v, r @ rest)" and "s \<noteq> []" and "hd s = CHR ''-'' \<or> is_digit (hd s)"
proof -
  define sign where "sign = (if startswith ''-'' s then ''-'' else [])"
  define t where "t = drop (length sign) s"
  define whole where "whole = (if startswith ''0'' t then ''0'' else takeWhile is_digit t)"
  define fraction where "fraction = parse_fraction (drop (length whole) t)"
  define expo where "expo = parse_exponent (drop (length whole + length fraction) t)"
  note defs = sign_def [symmetric] t_def [symmetric] whole_def [symmetric] fraction_def [symmetric] expo_def [symmetric]
  have some: "whole \<noteq> []" "(if fraction = [] \<and> expo = [] then map_option JInt (py_int (sign @ whole))
      else map_option JFloat (py_float (sign @ whole @ fraction @ expo))) = Some v"
    and r: "r = drop (length whole + length fraction + length expo) t"
    using assms(1) unfolding parse_number_def Let_def defs by (auto split: if_split_asm)
  have t: "t \<noteq> []" using some(1) by (auto simp: whole_def startswith_def)
  then show s: "s \<noteq> []" by (auto simp: t_def)
  show "hd s = CHR ''-'' \<or> is_digit (hd s)"
    using some(1) s by (cases s; cases t)
      (auto simp: whole_def t_def sign_def startswith_def is_digit_def split: if_split_asm)
  have w: "length whole \<le> length t"
    using t length_takeWhile_le [of is_digit t] by (auto simp: whole_def startswith_def Suc_le_eq)
  have f: "length whole + length fraction \<le> length t"
    using parse_fraction_length [of "drop (length whole) t"] w by (simp add: fraction_def)
  have e: "length whole + length fraction + length expo \<le> length t"
    using parse_exponent_length [of "drop (length whole + length fraction) t"] f by (simp add: expo_def)
  have sign': "(if startswith ''-'' (s @ rest) then ''-'' else []) = sign"
    using s by (cases s) (simp_all add: sign_def startswith_def)
  have t': "drop (length sign) (s @ rest) = t @ rest"
    using s by (cases s) (simp_all add: t_def sign_def startswith_def)
  have whole': "(if startswith ''0'' (t @ rest) then ''0'' else takeWhile is_digit (t @ rest)) = whole"
    using t digits_stop [OF assms(2)] by (cases t) (simp_all add: whole_def startswith_def)
  have fraction': "parse_fraction (drop (length whole) (t @ rest)) = fraction"
    using w by (simp add: fraction_def parse_fraction_stops [OF assms(2)])
  have expo': "parse_exponent (drop (length whole + length fraction) (t @ rest)) = expo"
    using f by (simp add: expo_def parse_exponent_stops [OF assms(2)])
  have r': "drop (length whole + length fraction + length expo) (t @ rest) = r @ rest" using e by (simp add: r)
  show "parse_number (s @ rest) = Some (v, r @ rest)"
    unfolding parse_number_def Let_def sign' t' whole' fraction' expo' r' using some
    by (cases "fraction = [] \<and> expo = []") auto
qed

section \<open>Values are read back\<close>

text \<open>Separators the parser sees as a comma and a colon.\<close>

definition blanks :: "pystr \<Rightarrow> bool" where "blanks s \<longleftrightarrow> list_all json_blank s"

lemma skip_blanks: "blanks b \<Longrightarrow> s = [] \<or> \<not> json_blank (hd s) \<Longrightarrow> skip (b @ s) = s"
  by (induction b; cases s) (auto simp: skip_def blanks_def)

lemma skip_hd: "s = [] \<or> \<not> json_blank (hd s) \<Longrightarrow> skip s = s"
  using skip_blanks [of "[]" s] by (simp add: blanks_def)

lemma dumps_head:
  assumes "read_back frepr v"
  shows "json_dumps_with isep ksep frepr v \<noteq> [] \<and> \<not> json_blank (hd (json_dumps_with isep ksep frepr v))
    \<and> hd (json_dumps_with isep ksep frepr v) \<notin> {CHR '']'', CHR 0x7D}"
proof (cases v)
  case (JInt i)
  have "nat_str n \<noteq> [] \<and> is_digit (hd (nat_str n))" for n using nat_str_digits [of n] by (auto simp: list_all_iff)
  moreover have "is_digit c \<Longrightarrow> \<not> json_blank c \<and> c \<notin> {CHR '']'', CHR 0x7D}" for c
    by (auto simp: is_digit_def json_blank_def Let_def)
  ultimately show ?thesis by (simp add: JInt int_str_def json_blank_def)
next
  case (JFloat q)
  have "stops []" by (simp add: stops_def)
  from parse_number_stops(2,3) [OF _ this] have "frepr q \<noteq> []" "hd (frepr q) = CHR ''-'' \<or> is_digit (hd (frepr q))"
    using assms JFloat by auto
  then show ?thesis by (auto simp: JFloat json_blank_def is_digit_def)
qed (use assms in \<open>auto simp: json_blank_def quote_str_def\<close>)

text \<open>\<open>v\<close> is read back from any text that starts with it, given enough fuel.\<close>

definition reads :: "(nat \<Rightarrow> pystr) \<Rightarrow> (json \<Rightarrow> pystr) \<Rightarrow> json \<Rightarrow> bool" where
  "reads wide D v \<longleftrightarrow> D v \<noteq> [] \<and> \<not> json_blank (hd (D v)) \<and> hd (D v) \<notin> {CHR '']'', CHR 0x7D}
     \<and> (\<forall>n rest. stops rest \<longrightarrow> 2 * length (D v) \<le> n \<longrightarrow> parse_value wide n (D v @ rest) = Some (v, rest))"

lemma reads_value: "reads wide D v \<Longrightarrow> stops rest \<Longrightarrow> 2 * length (D v) \<le> n \<Longrightarrow> parse_value wide n (D v @ rest) = Some (v, rest)"
  by (simp add: reads_def)

lemma not_blank [simp]: "\<not> json_blank (CHR '','')" "\<not> json_blank (CHR '']'')" "\<not> json_blank (CHR 0x7D)" "\<not> json_blank (CHR '':'')"
    "\<not> json_blank quote_mark"
  by (simp_all add: json_blank_def)

lemma skip_not_blank: "\<not> json_blank c \<Longrightarrow> skip (c # s) = c # s"
  by (simp add: skip_def)

lemma parse_items_join:
  assumes "blanks b" and "xs \<noteq> []" and "\<forall>x \<in> set xs. reads wide D x"
    and "2 * length (join_with ('','' @ b) (map D xs)) + 1 \<le> n"
  shows "parse_items wide n (join_with ('','' @ b) (map D xs) @ CHR '']'' # rest) = Some (xs, rest)"
  using assms(2-)
proof (induction xs arbitrary: n)
  case (Cons x xs)
  obtain m where n: "n = Suc m" using Cons.prems(3) by (cases n) auto
  show ?case
  proof (cases xs)
    case Nil
    have "parse_value wide m (D x @ CHR '']'' # rest) = Some (x, CHR '']'' # rest)"
      using Cons.prems by (intro reads_value) (simp_all add: Nil n stops_def)
    then show ?thesis by (simp add: Nil n skip_not_blank)
  next
    case (Cons y ys)
    let ?tail = "join_with ('','' @ b) (map D xs) @ CHR '']'' # rest"
    have whole: "join_with ('','' @ b) (map D (x # xs)) @ CHR '']'' # rest = D x @ CHR '','' # (b @ ?tail)" by (simp add: Cons)
    have "D y \<noteq> [] \<and> \<not> json_blank (hd (D y))" using Cons.prems(2) by (simp add: Cons reads_def)
    then have "skip (b @ ?tail) = ?tail"
      by (intro skip_blanks [OF assms(1)]) (cases ys, simp_all add: Cons)
    moreover have "parse_items wide m ?tail = Some (xs, rest)"
      using Cons.prems by (intro Cons.IH) (simp_all add: Cons n)
    moreover have "parse_value wide m (D x @ CHR '','' # (b @ ?tail)) = Some (x, CHR '','' # (b @ ?tail))"
      using Cons.prems by (intro reads_value) (simp_all add: Cons n stops_def)
    ultimately show ?thesis unfolding whole n by (simp add: skip_not_blank)
  qed
qed simp

definition member_text :: "pystr \<Rightarrow> (json \<Rightarrow> pystr) \<Rightarrow> pystr \<times> json \<Rightarrow> pystr" where
  "member_text b D e = quote_str (fst e) @ '':'' @ b @ D (snd e)"

lemma quote_str_app: "quote_str k @ s = quote_mark # concat (map escape_char k) @ quote_mark # s"
  by (simp add: quote_str_def)

lemma parse_members_join:
  assumes "blanks b" and "blanks b'" and "kvs \<noteq> []" and "\<forall>e \<in> set kvs. reads wide D (snd e)"
    and "2 * length (join_with ('','' @ b) (map (member_text b' D) kvs)) + 1 \<le> n"
  shows "parse_members wide n (join_with ('','' @ b) (map (member_text b' D) kvs) @ CHR 0x7D # rest) = Some (kvs, rest)"
  using assms(3-)
proof (induction kvs arbitrary: n)
  case (Cons e kvs)
  obtain k v where e: "e = (k, v)" by (cases e)
  obtain m where n: "n = Suc m" using Cons.prems(3) by (cases n) auto
  have r: "reads wide D v" using Cons.prems(2) by (simp add: e)
  have short: "2 * length (D v) \<le> m" using Cons.prems(3) by (cases kvs) (simp_all add: e n member_text_def)
  have head: "skip (b' @ D v @ s) = D v @ s" for s
    using r by (intro skip_blanks [OF assms(2)]) (simp add: reads_def)
  have step: "parse_members wide n (member_text b' D e @ s) = (case skip s of [] \<Rightarrow> None
      | c # cs \<Rightarrow> if c = CHR 0x7D then Some ([(k, v)], cs)
          else if c = CHR '','' then map_option (\<lambda>r. ((k, v) # fst r, snd r)) (parse_members wide m (skip cs)) else None)"
    if "stops s" for s
    using reads_value [OF r that short]
    by (simp add: n e member_text_def quote_str_app parse_quoted skip_not_blank head)
  show ?case
  proof (cases kvs)
    case Nil
    then show ?thesis using step [of "CHR 0x7D # rest"] by (simp add: stops_def skip_not_blank e)
  next
    case (Cons f fs)
    let ?tail = "join_with ('','' @ b) (map (member_text b' D) kvs) @ CHR 0x7D # rest"
    have whole: "join_with ('','' @ b) (map (member_text b' D) (e # kvs)) @ CHR 0x7D # rest = member_text b' D e @ CHR '','' # (b @ ?tail)"
      by (simp add: Cons)
    have "skip (b @ ?tail) = ?tail"
      by (intro skip_blanks [OF assms(1)]) (cases fs, simp_all add: Cons member_text_def quote_str_app)
    moreover have "parse_members wide m ?tail = Some (kvs, rest)"
      using Cons.prems by (intro Cons.IH) (simp_all add: Cons n)
    ultimately show ?thesis unfolding whole using step [of "CHR '','' # (b @ ?tail)"] by (simp add: stops_def skip_not_blank e)
  qed
qed simp

lemma parse_words:
  assumes "0 < n"
  shows "parse_value wide n (''null'' @ rest) = Some (JNull, rest)" "parse_value wide n (''true'' @ rest) = Some (JBool True, rest)"
    "parse_value wide n (''false'' @ rest) = Some (JBool False, rest)"
  using assms by (cases n; simp add: startswith_def)+

text \<open>The texts of the kinds of values, each read with enough fuel.\<close>

lemma parse_number_value:
  assumes "parse_number s = Some (v, [])" and "stops rest" and "2 * length s \<le> n"
  shows "parse_value wide n (s @ rest) = Some (v, rest)"
proof -
  note p = parse_number_stops [OF assms(1,2)]
  have "hd s \<notin> {quote_mark, CHR ''['', CHR 0x7B, CHR ''n'', CHR ''t'', CHR ''f''}" using p(3) by (auto simp: is_digit_def)
  then show ?thesis using p(1,2) assms(3) by (cases n; cases s) (auto simp: startswith_def)
qed

lemma parse_string_value: "2 * length (quote_str s) \<le> n \<Longrightarrow> parse_value wide n (quote_str s @ rest) = Some (JStr s, rest)"
  by (cases n) (simp_all add: quote_str_app parse_quoted, simp add: quote_str_def)

lemma parse_array_value:
  assumes "blanks b" and all: "\<forall>x \<in> set xs. reads wide D x"
    and fuel: "2 * length (join_with ('','' @ b) (map D xs)) + 2 \<le> n"
  shows "parse_value wide n (CHR ''['' # join_with ('','' @ b) (map D xs) @ CHR '']'' # rest) = Some (JArr xs, rest)"
proof -
  obtain m where n: "n = Suc m" using fuel by (cases n) auto
  show ?thesis
  proof (cases "xs = []")
    case True
    then show ?thesis by (simp add: n skip_not_blank)
  next
    case False
    let ?t = "join_with ('','' @ b) (map D xs) @ CHR '']'' # rest"
    have hd: "?t \<noteq> [] \<and> \<not> json_blank (hd ?t) \<and> hd ?t \<noteq> CHR '']''"
      using all False by (cases xs; cases "tl xs") (auto simp: reads_def)
    have "parse_items wide m ?t = Some (xs, rest)"
      using fuel by (intro parse_items_join [OF assms(1) False all]) (simp add: n)
    then show ?thesis using hd by (simp add: n skip_hd)
  qed
qed

lemma parse_object_value:
  assumes "blanks b" and "blanks b'" and all: "\<forall>e \<in> set kvs. reads wide D (snd e)" and "distinct (map fst kvs)"
    and fuel: "2 * length (join_with ('','' @ b) (map (member_text b' D) kvs)) + 2 \<le> n"
  shows "parse_value wide n (CHR 0x7B # join_with ('','' @ b) (map (member_text b' D) kvs) @ CHR 0x7D # rest) = Some (JObj kvs, rest)"
proof -
  obtain m where n: "n = Suc m" using fuel by (cases n) auto
  have dis: "dict_update kvs [] = kvs" using assms(4) dict_update_same [of kvs "[]"] by simp
  show ?thesis
  proof (cases "kvs = []")
    case True
    then show ?thesis by (simp add: n skip_not_blank)
  next
    case False
    let ?t = "join_with ('','' @ b) (map (member_text b' D) kvs) @ CHR 0x7D # rest"
    have hd: "?t \<noteq> [] \<and> \<not> json_blank (hd ?t) \<and> hd ?t \<noteq> CHR 0x7D"
      using False by (cases kvs; cases "tl kvs") (auto simp: member_text_def quote_str_app)
    have "parse_members wide m ?t = Some (kvs, rest)"
      using fuel by (intro parse_members_join [OF assms(1,2) False all]) (simp add: n)
    then show ?thesis using hd by (simp add: n skip_hd dis)
  qed
qed

lemma dumps_object: "json_dumps_with ('','' @ b) ('':'' @ b') frepr (JObj kvs)
    = CHR 0x7B # join_with ('','' @ b) (map (member_text b' (json_dumps_with ('','' @ b) ('':'' @ b') frepr)) kvs) @ [CHR 0x7D]"
  by (simp add: member_text_def [abs_def] o_def case_prod_beta)

lemma reads_dumps:
  assumes "blanks b" and "blanks b'"
  shows "read_back frepr v \<Longrightarrow> reads wide (json_dumps_with ('','' @ b) ('':'' @ b') frepr) v"
proof (induction v)
  case (JInt i)
  have "parse_number (int_str i) = Some (JInt i, [])" using parse_int_str [of "[]" i] by (simp add: stops_def)
  then show ?case using dumps_head [OF JInt, of "'','' @ b" "'':'' @ b'"] by (auto simp: reads_def intro!: parse_number_value)
next
  case (JFloat q)
  then show ?case
    using dumps_head [OF JFloat, of "'','' @ b" "'':'' @ b'"] by (auto simp: reads_def intro!: parse_number_value)
next
  case (JStr s)
  then show ?case using dumps_head [OF JStr, of "'','' @ b" "'':'' @ b'"] by (auto simp: reads_def intro!: parse_string_value)
next
  case (JArr xs)
  have "\<forall>x \<in> set xs. reads wide (json_dumps_with ('','' @ b) ('':'' @ b') frepr) x" using JArr by (simp add: list_all_iff)
  then show ?case
    using dumps_head [OF JArr(2), of "'','' @ b" "'':'' @ b'"] parse_array_value [OF assms(1)] by (simp add: reads_def)
next
  case (JObj kvs)
  have "\<forall>e \<in> set kvs. reads wide (json_dumps_with ('','' @ b) ('':'' @ b') frepr) (snd e)"
    using JObj by (fastforce simp: list_all_iff)
  then show ?case
    using dumps_head [OF JObj(2), of "'','' @ b" "'':'' @ b'"] parse_object_value [OF assms] JObj.prems
    unfolding reads_def dumps_object by simp
qed (auto simp: reads_def json_blank_def intro: parse_words [simplified])

lemma json_loads_dumps:
  assumes "read_back frepr v" and "blanks b" and "blanks b'"
  shows "json_loads wide (json_dumps_with ('','' @ b) ('':'' @ b') frepr v) = Some v"
proof -
  let ?s = "json_dumps_with ('','' @ b) ('':'' @ b') frepr v"
  have r: "reads wide (json_dumps_with ('','' @ b) ('':'' @ b') frepr) v" by (rule reads_dumps [OF assms(2,3,1)])
  have "parse_value wide (2 * length ?s + 1) (?s @ []) = Some (v, [])"
    by (rule reads_value [OF r]) (simp_all add: stops_def)
  moreover have "skip ?s = ?s" using r by (intro skip_hd) (simp add: reads_def)
  ultimately show ?thesis by (simp add: json_loads_def skip_hd)
qed

text \<open>Compact and default separators.\<close>

lemma read_back_roundtrip:
  assumes "read_back frepr v"
  shows "json_loads wide (json_dumps frepr v) = Some v" and "json_loads wide (json_dumps_spaced frepr v) = Some v"
  using json_loads_dumps [OF assms, of "[]" "[]"] json_loads_dumps [OF assms, of "'' ''" "'' ''"]
  by (simp_all add: blanks_def json_blank_def)

section \<open>What is written is printable\<close>

lemma printable_simps [simp]: "printable []" "printable (c # s) \<longleftrightarrow> 32 \<le> (of_char c :: nat) \<and> (of_char c :: nat) < 128 \<and> printable s"
    "printable (s @ s') \<longleftrightarrow> printable s \<and> printable s'"
  by (auto simp: printable_def)

lemma printable_concat: "\<forall>s \<in> set ss. printable s \<Longrightarrow> printable (concat ss)"
  by (induction ss) simp_all

lemma printable_join: "printable sep \<Longrightarrow> \<forall>s \<in> set ss. printable s \<Longrightarrow> printable (join_with sep ss)"
  by (induction sep ss rule: join_with.induct) simp_all

lemma printable_digits: "list_all is_digit s \<Longrightarrow> printable s"
  by (induction s) (auto simp: is_digit_def Let_def)

lemma printable_int: "printable (int_str i)"
  using printable_digits [of "nat_str n" for n] nat_str_digits by (simp add: int_str_def)

lemma printable_hex: "n < 16 \<Longrightarrow> printable [hex_char n]"
  by (auto simp: hex_char_def)

lemma printable_escape: "printable (escape_char c)"
  using printable_hex [of "(of_char c :: nat) div 16"] printable_hex [of "(of_char c :: nat) mod 16"]
  by (auto simp: escape_char_def Let_def less_mult_imp_div_less nat_of_char_less_256)

lemma printable_dumps:
  assumes "printable isep" and "printable ksep"
  shows "read_back frepr v \<Longrightarrow> printable (json_dumps_with isep ksep frepr v)"
proof (induction v)
  case (JArr xs)
  then show ?case by (auto simp: list_all_iff intro!: printable_join [OF assms(1)])
next
  case (JObj kvs)
  have "printable (quote_str k)" for k by (simp add: quote_str_def printable_concat printable_escape)
  with JObj assms(2) show ?case by (fastforce simp: list_all_iff intro!: printable_join [OF assms(1)])
qed (simp_all add: printable_int quote_str_def printable_concat printable_escape)

lemmas json_roundtrip = read_back_roundtrip [OF plain_read_back]

end
