(* ===== verification/Open_Metrics.thy ===== *)
theory Open_Metrics
  imports Normalization Json_Text
begin

text \<open>
  The OpenMetrics collector, \<open>agent/src/temporalrca_agent/collectors/openmetrics.py\<close>. The two regular
  expressions are deterministic scans: \<open>_LABEL\<close> and the start of \<open>_SAMPLE\<close> have one way to match, and the
  greedy label part of \<open>_SAMPLE\<close> ends at the last brace after which the rest of the line fits. The loop
  over labels is partial, so that its end is a theorem. Values are the finite ones; \<open>wide\<close> renders a code
  point of an escape beyond the first 256, \<open>named\<close> looks up the name of one.
\<close>

section \<open>Labels\<close>

definition is_alpha :: "char \<Rightarrow> bool" where
  "is_alpha c = (let n = of_char c :: nat in 65 \<le> n \<and> n \<le> 90 \<or> 97 \<le> n \<and> n \<le> 122)"

definition label_start :: "char \<Rightarrow> bool" where "label_start c \<longleftrightarrow> is_alpha c \<or> c = CHR ''_''"
definition label_char :: "char \<Rightarrow> bool" where "label_char c \<longleftrightarrow> label_start c \<or> is_digit c"

text \<open>The text between the quotes and what follows the closing one.\<close>

fun label_body :: "pystr \<Rightarrow> (pystr \<times> pystr) option" where
  "label_body [] = None"
| "label_body (c # cs) =
     (if c = quote_mark then Some ([], cs)
      else if c = backslash
      then (case cs of
          [] \<Rightarrow> None
        | d # ds \<Rightarrow> if d = line_feed then None else map_option (\<lambda>r. (c # d # fst r, snd r)) (label_body ds))
      else map_option (\<lambda>r. (c # fst r, snd r)) (label_body cs))"

text \<open>One match of \<open>_LABEL\<close>: name, text, and the rest after the comma or at the end.\<close>

definition label_end :: "pystr \<Rightarrow> pystr option" where
  "label_end s = (case s of [] \<Rightarrow> Some [] | c # cs \<Rightarrow> if c = CHR '','' then Some cs else if s = [line_feed] then Some s else None)"

definition match_label :: "pystr \<Rightarrow> (pystr \<times> pystr \<times> pystr) option" where
  "match_label s =
     (let name = takeWhile label_char s; rest = dropWhile label_char s in
      if name \<noteq> [] \<and> label_start (hd name) \<and> startswith [CHR ''='', quote_mark] rest
      then (case label_body (drop 2 rest) of
          None \<Rightarrow> None
        | Some (body, after_body) \<Rightarrow> map_option (\<lambda>after. (name, body, after)) (label_end after_body))
      else None)"

section \<open>Escapes\<close>

definition octal_digit :: "char \<Rightarrow> bool" where
  "octal_digit c = (let n = of_char c :: nat in 48 \<le> n \<and> n \<le> 55)"

definition octal_number :: "pystr \<Rightarrow> nat" where
  "octal_number ds = foldl (\<lambda>acc c. 8 * acc + (of_char c - 48)) 0 ds"

text \<open>The simple escapes; a backslash before a line feed stands for nothing.\<close>

definition simple_escape :: "char \<Rightarrow> pystr option" where
  "simple_escape c = map_of
     [(line_feed, []), (backslash, [backslash]), (CHR 0x27, [CHR 0x27]), (quote_mark, [quote_mark]),
      (CHR ''b'', [CHR 0x08]), (CHR ''f'', [CHR 0x0C]), (CHR ''t'', [CHR 0x09]), (CHR ''n'', [line_feed]),
      (CHR ''r'', [CHR 0x0D]), (CHR ''v'', [CHR 0x0B]), (CHR ''a'', [CHR 0x07])] c"

definition hex_length :: "char \<Rightarrow> nat option" where
  "hex_length c = map_of [(CHR ''x'', 2), (CHR ''u'', 4), (CHR ''U'', 8)] c"

text \<open>
  One escape after its backslash: the characters it stands for and the rest, by \<open>unicode_escape\<close>. An
  unknown one stays as it is.
\<close>

definition read_escape :: "(nat \<Rightarrow> pystr) \<Rightarrow> (pystr \<Rightarrow> pystr option) \<Rightarrow> char \<Rightarrow> pystr \<Rightarrow> exn + pystr \<times> pystr" where
  "read_escape wide named c cs =
     (case simple_escape c of
        Some t \<Rightarrow> Inr (t, cs)
      | None \<Rightarrow>
          (case hex_length c of
             Some n \<Rightarrow> (case (if length cs < n then None else hex_number 0 (take n cs)) of
                 None \<Rightarrow> Inl ValueError
               | Some k \<Rightarrow> if k \<le> 0x10FFFF then Inr (code_point wide k, drop n cs) else Inl ValueError)
           | None \<Rightarrow>
               if octal_digit c
               then let ds = c # takeWhile octal_digit (take 2 cs) in Inr (code_point wide (octal_number ds), drop (length ds - 1) cs)
               else if c = CHR ''N''
               then (case cs of
                   d # ds \<Rightarrow> if d \<noteq> CHR 0x7B \<or> CHR 0x7D \<notin> set ds then Inl ValueError
                     else (case named (takeWhile (\<lambda>x. x \<noteq> CHR 0x7D) ds) of
                         None \<Rightarrow> Inl ValueError
                       | Some t \<Rightarrow> Inr (t, drop (Suc (length (takeWhile (\<lambda>x. x \<noteq> CHR 0x7D) ds))) ds))
                 | [] \<Rightarrow> Inl ValueError)
               else Inr ([backslash, c], cs)))"

lemma read_escape_length: "read_escape wide named c cs = Inr (t, rest) \<Longrightarrow> length rest \<le> length cs"
  by (auto simp: read_escape_def Let_def split: option.split_asm if_split_asm list.split_asm)

function unescape :: "(nat \<Rightarrow> pystr) \<Rightarrow> (pystr \<Rightarrow> pystr option) \<Rightarrow> pystr \<Rightarrow> exn + pystr" where
  "unescape wide named [] = Inr []"
| "unescape wide named (c # cs) =
     (if c \<noteq> backslash then bind_result (unescape wide named cs) (\<lambda>t. Inr (c # t))
      else (case cs of
          [] \<Rightarrow> Inl ValueError
        | d # ds \<Rightarrow> (case read_escape wide named d ds of
            Inl e \<Rightarrow> Inl e
          | Inr (t, rest) \<Rightarrow> bind_result (unescape wide named rest) (\<lambda>u. Inr (t @ u)))))"
  by pat_completeness auto
termination by (relation "measure (\<lambda>(wide, named, s). length s)") (auto dest: read_escape_length)

text \<open>\<open>bytes(s, "utf-8")\<close> of characters up to 255, which \<open>unicode_escape\<close> then reads byte by byte.\<close>

definition utf8_char :: "char \<Rightarrow> pystr" where
  "utf8_char c = (let n = of_char c :: nat in if n < 128 then [c] else [char_of (192 + n div 64), char_of (128 + n mod 64)])"

definition label_text :: "(nat \<Rightarrow> pystr) \<Rightarrow> (pystr \<Rightarrow> pystr option) \<Rightarrow> pystr \<Rightarrow> exn + pystr" where
  "label_text wide named body = unescape wide named (concat (map utf8_char body))"

section \<open>The loop over the labels\<close>

partial_function (option) labels_loop ::
  "(nat \<Rightarrow> pystr) \<Rightarrow> (pystr \<Rightarrow> pystr option) \<Rightarrow> pystr \<Rightarrow> (pystr, pystr) dict \<Rightarrow> (exn + (pystr, pystr) dict) option" where
  "labels_loop wide named raw result =
     (if raw = [] then Some (Inr result)
      else (case match_label raw of
          None \<Rightarrow> Some (Inl ValueError)
        | Some (name, body, rest) \<Rightarrow> (case label_text wide named body of
            Inl e \<Rightarrow> Some (Inl e)
          | Inr t \<Rightarrow> labels_loop wide named rest (dict_set name t result))))"

definition parse_labels :: "(nat \<Rightarrow> pystr) \<Rightarrow> (pystr \<Rightarrow> pystr option) \<Rightarrow> pystr option \<Rightarrow> (exn + (pystr, pystr) dict) option" where
  "parse_labels wide named raw = (case raw of None \<Rightarrow> Some (Inr []) | Some s \<Rightarrow> labels_loop wide named s [])"

section \<open>Samples\<close>

definition metric_start :: "char \<Rightarrow> bool" where "metric_start c \<longleftrightarrow> label_start c \<or> c = CHR '':''"
definition metric_char :: "char \<Rightarrow> bool" where "metric_char c \<longleftrightarrow> metric_start c \<or> is_digit c"

text \<open>White space, the value, and possibly a timestamp, up to the end of the line.\<close>

definition match_value :: "pystr \<Rightarrow> (pystr \<times> pystr option) option" where
  "match_value s =
     (if s = [] \<or> \<not> is_space (hd s) \<or> is_space (last s) then None
      else (case split_ws s of
          [v] \<Rightarrow> Some (v, None)
        | [v, t] \<Rightarrow> if list_all is_digit t then Some (v, Some t) else None
        | _ \<Rightarrow> None))"

fun match_braces :: "pystr \<Rightarrow> (pystr \<times> pystr \<times> pystr option) option" where
  "match_braces [] = None"
| "match_braces (c # cs) =
     (case match_braces cs of
        Some (labels, v) \<Rightarrow> Some (c # labels, v)
      | None \<Rightarrow> if c = CHR 0x7D then map_option (\<lambda>v. ([], v)) (match_value cs) else None)"

definition match_sample :: "pystr \<Rightarrow> (pystr \<times> pystr option \<times> pystr \<times> pystr option) option" where
  "match_sample line =
     (let name = takeWhile metric_char line; rest = dropWhile metric_char line in
      if name = [] \<or> \<not> metric_start (hd name) then None
      else if rest \<noteq> [] \<and> hd rest = CHR 0x7B
      then map_option (\<lambda>m. (name, Some (fst m), snd m)) (match_braces (tl rest))
      else map_option (\<lambda>v. (name, None, v)) (match_value rest))"

record sample =
  sm_name :: pystr
  sm_value :: pyfloat
  sm_labels :: "(pystr, pystr) dict"
  sm_timestamp_ms :: "int option"
  sm_metric_type :: "pystr option"
  sm_unit :: pystr

text \<open>\<open>line.split(maxsplit=3)\<close>, unpacked into four parts.\<close>

definition four_parts :: "pystr \<Rightarrow> (pystr \<times> pystr) option" where
  "four_parts line =
     (let word = takeWhile (\<lambda>c. \<not> is_space c); after = (\<lambda>s. lstrip (dropWhile (\<lambda>c. \<not> is_space c) (lstrip s)));
          third = after (after line); fourth = after third
      in if fourth = [] then None else Some (word third, fourth))"

definition family :: "pystr \<Rightarrow> pystr" where
  "family name = (if drop (length name - 6) name = ''_total'' then take (length name - 6) name else name)"

record exposition =
  ex_samples :: "sample list"
  ex_types :: "(pystr, pystr) dict"
  ex_units :: "(pystr, pystr) dict"

definition family_entry :: "(pystr, pystr) dict \<Rightarrow> pystr \<Rightarrow> pystr option" where
  "family_entry d name = (case dict_get d name of Some v \<Rightarrow> Some v | None \<Rightarrow> dict_get d (family name))"

definition new_sample :: "exposition \<Rightarrow> pystr \<Rightarrow> pyfloat \<Rightarrow> (pystr, pystr) dict \<Rightarrow> pystr option \<Rightarrow> exn + sample" where
  "new_sample ex name number labels timestamp =
     bind_result (case timestamp of None \<Rightarrow> Inr None | Some t \<Rightarrow> bind_result (int_of t) (\<lambda>i. Inr (Some i))) (\<lambda>ms.
       Inr \<lparr>sm_name = name, sm_value = number, sm_labels = labels, sm_timestamp_ms = ms,
            sm_metric_type = family_entry (ex_types ex) name,
            sm_unit = (case family_entry (ex_units ex) name of None \<Rightarrow> ''1'' | Some u \<Rightarrow> u)\<rparr>)"

definition parse_sample :: "(nat \<Rightarrow> pystr) \<Rightarrow> (pystr \<Rightarrow> pystr option) \<Rightarrow> pystr \<Rightarrow> exposition \<Rightarrow> (exn + exposition) option" where
  "parse_sample wide named line ex =
     (case match_sample line of
        None \<Rightarrow> Some (Inr ex)
      | Some (name, labels, v, timestamp) \<Rightarrow>
          (case py_float v of
             None \<Rightarrow> Some (Inr ex)
           | Some number \<Rightarrow> map_option (\<lambda>parsed. bind_result parsed (\<lambda>ls.
               bind_result (new_sample ex name number ls timestamp) (\<lambda>s. Inr (ex\<lparr>ex_samples := ex_samples ex @ [s]\<rparr>))))
               (parse_labels wide named labels)))"

definition parse_line :: "(nat \<Rightarrow> pystr) \<Rightarrow> (pystr \<Rightarrow> pystr option) \<Rightarrow> pystr \<Rightarrow> exposition \<Rightarrow> (exn + exposition) option" where
  "parse_line wide named raw ex =
     (let line = strip raw in
      if line = [] \<or> line = ''# EOF'' then Some (Inr ex)
      else if startswith ''# TYPE '' line
      then Some (case four_parts line of None \<Rightarrow> Inl ValueError
        | Some (name, kind) \<Rightarrow> Inr (ex\<lparr>ex_types := dict_set name kind (ex_types ex)\<rparr>))
      else if startswith ''# UNIT '' line
      then Some (case four_parts line of None \<Rightarrow> Inl ValueError
        | Some (name, unit) \<Rightarrow> Inr (ex\<lparr>ex_units := dict_set name unit (ex_units ex)\<rparr>))
      else if startswith ''#'' line then Some (Inr ex)
      else parse_sample wide named line ex)"

fun parse_lines :: "(nat \<Rightarrow> pystr) \<Rightarrow> (pystr \<Rightarrow> pystr option) \<Rightarrow> pystr list \<Rightarrow> exposition \<Rightarrow> (exn + exposition) option" where
  "parse_lines wide named [] ex = Some (Inr ex)"
| "parse_lines wide named (l # ls) ex =
     (case parse_line wide named l ex of
        None \<Rightarrow> None
      | Some (Inl e) \<Rightarrow> Some (Inl e)
      | Some (Inr ex') \<Rightarrow> parse_lines wide named ls ex')"

definition parse_openmetrics :: "(nat \<Rightarrow> pystr) \<Rightarrow> (pystr \<Rightarrow> pystr option) \<Rightarrow> pystr \<Rightarrow> (exn + sample list) option" where
  "parse_openmetrics wide named text =
     map_option (\<lambda>r. bind_result r (\<lambda>ex. Inr (ex_samples ex)))
       (parse_lines wide named (splitlines text) \<lparr>ex_samples = [], ex_types = [], ex_units = []\<rparr>)"

section \<open>The collector\<close>

record metrics_collector =
  om_name :: pystr
  om_service_id :: "uuid option"

definition sample_event :: "metrics_collector \<Rightarrow> sample \<Rightarrow> event_args" where
  "sample_event col s = (event_default APPLICATION METRIC (sm_name s))
     \<lparr>ea_value := Some (sm_value s), ea_unit := Some (sm_unit s),
      ea_attributes := dict_update (map (\<lambda>(k, v). (k, JStr v)) (sm_labels s))
        [(''collector'', JStr (om_name col)), (''metric_type'', opt_str (sm_metric_type s))],
      ea_entity := Some (no_entity\<lparr>er_service_id := om_service_id col\<rparr>)\<rparr>"

definition collect_metrics ::
  "(nat \<Rightarrow> pystr) \<Rightarrow> (pystr \<Rightarrow> pystr option) \<Rightarrow> metrics_collector \<Rightarrow> exn + pystr \<Rightarrow> (exn + event_args list) option" where
  "collect_metrics wide named col fetched =
     (case fetched of
        Inl e \<Rightarrow> Some (Inl e)
      | Inr t \<Rightarrow> map_option (\<lambda>r. bind_result r (\<lambda>samples. Inr (map (sample_event col) samples))) (parse_openmetrics wide named t))"

end
