(* ===== verification/Open_Metrics_Laws.thy ===== *)
theory Open_Metrics_Laws
  imports Open_Metrics
begin

text \<open>
  Parsing an exposition ends; what an exposition of samples says is read back, whatever its label values
  hold; and what the parser does beyond that.
\<close>

section \<open>Parsing ends\<close>

lemma label_body_length: "label_body s = Some (body, rest) \<Longrightarrow> length rest < length s"
  by (induction s arbitrary: body rule: label_body.induct) (fastforce split: if_split_asm list.split_asm)+

lemma match_label_length:
  assumes "match_label s = Some (name, body, rest)"
  shows "length rest < length s"
proof -
  obtain body_rest where b: "label_body (drop 2 (dropWhile label_char s)) = Some (body, body_rest)" and e: "label_end body_rest = Some rest"
    using assms by (auto simp: match_label_def Let_def split: if_split_asm option.split_asm)
  have "length rest \<le> length body_rest"
    using e by (auto simp: label_end_def split: list.split_asm if_split_asm)
  also have "\<dots> < length (drop 2 (dropWhile label_char s))" by (rule label_body_length [OF b])
  also have "\<dots> \<le> length s" using length_dropWhile_le [of label_char s] by simp
  finally show ?thesis .
qed

lemma labels_loop_ends: "\<exists>r. labels_loop wide named raw d = Some r"
proof (induction "length raw" arbitrary: raw d rule: less_induct)
  case less
  show ?case
  proof (cases "match_label raw")
    case (Some m)
    obtain name body rest where m: "m = (name, body, rest)" by (cases m)
    show ?thesis
      using less [OF match_label_length [OF Some [unfolded m]]]
      by (subst labels_loop.simps) (auto simp: Some m split: sum.split)
  qed (subst labels_loop.simps, auto)
qed

lemma parse_line_ends: "\<exists>r. parse_line wide named raw ex = Some r"
proof -
  have "\<exists>r. parse_labels wide named labels = Some r" for labels
    using labels_loop_ends by (auto simp: parse_labels_def split: option.split)
  then have "\<exists>r. parse_sample wide named line ex = Some r" for line
    by (fastforce simp: parse_sample_def split: option.split)
  then show ?thesis by (simp add: parse_line_def Let_def)
qed

lemma parse_lines_ends: "\<exists>r. parse_lines wide named ls ex = Some r"
proof (induction ls arbitrary: ex)
  case (Cons l ls)
  with parse_line_ends [of wide named l ex] show ?case by (auto split: sum.split)
qed simp

text \<open>
  C31. Parsing an exposition ends, whatever text the endpoint sent: every turn of the label loop either
  stops or consumes a name and a quoted text, so the loop cannot stand still.
\<close>

theorem openmetrics_parsing_ends: "\<exists>r. parse_openmetrics wide named text = Some r"
proof -
  obtain r where "parse_lines wide named (splitlines text) \<lparr>ex_samples = [], ex_types = [], ex_units = []\<rparr> = Some r"
    using parse_lines_ends by blast
  then show ?thesis by (simp add: parse_openmetrics_def)
qed

section \<open>Rendering\<close>

definition escape_label :: "pystr \<Rightarrow> pystr" where
  "escape_label v = concat (map (\<lambda>c. if c = backslash then [backslash, backslash] else if c = quote_mark then [backslash, quote_mark]
     else if c = line_feed then [backslash, CHR ''n''] else [c]) v)"

definition render_label :: "pystr \<times> pystr \<Rightarrow> pystr" where
  "render_label e = fst e @ [CHR ''='', quote_mark] @ escape_label (snd e) @ [quote_mark]"

definition render_labels :: "(pystr \<times> pystr) list \<Rightarrow> pystr" where
  "render_labels ls = join_with '','' (map render_label ls)"

definition plain_char :: "char \<Rightarrow> bool" where
  "plain_char c \<longleftrightarrow> (of_char c :: nat) < 128 \<and> (is_newline c \<longrightarrow> c = line_feed)"

definition label_ok :: "pystr \<times> pystr \<Rightarrow> bool" where
  "label_ok e \<longleftrightarrow> fst e \<noteq> [] \<and> label_start (hd (fst e)) \<and> list_all label_char (fst e) \<and> list_all plain_char (snd e)"

lemma escape_label_simps [simp]:
  "escape_label [] = []"
  "escape_label (c # v) = (if c = backslash then [backslash, backslash] else if c = quote_mark then [backslash, quote_mark]
     else if c = line_feed then [backslash, CHR ''n''] else [c]) @ escape_label v"
  by (simp_all add: escape_label_def)

lemma label_body_escape: "label_body (escape_label v @ quote_mark # rest) = Some (escape_label v, rest)"
  by (induction v) simp_all

lemma utf8_escape: "list_all plain_char v \<Longrightarrow> concat (map utf8_char (escape_label v)) = escape_label v"
  by (induction v) (auto simp: utf8_char_def plain_char_def)

lemma unescape_escape: "unescape wide named (escape_label v) = Inr v"
  by (induction v) (simp_all add: read_escape_def simple_escape_def)

lemma label_text_escape: "list_all plain_char v \<Longrightarrow> label_text wide named (escape_label v) = Inr v"
  by (simp add: label_text_def utf8_escape unescape_escape)

lemma match_render_label:
  assumes "label_ok e" and "label_end rest = Some after"
  shows "match_label (render_label e @ rest) = Some (fst e, escape_label (snd e), after)"
proof -
  let ?s = "render_label e @ rest"
  have eq: "\<not> label_char (CHR ''='')" by (simp add: label_char_def label_start_def is_alpha_def is_digit_def)
  have s: "?s = fst e @ (CHR ''='') # quote_mark # escape_label (snd e) @ quote_mark # rest" by (simp add: render_label_def)
  have names: "takeWhile label_char ?s = fst e"
    "dropWhile label_char ?s = (CHR ''='') # quote_mark # escape_label (snd e) @ quote_mark # rest"
    using assms(1) eq by (simp_all add: s label_ok_def list_all_iff takeWhile_append2 dropWhile_append2)
  show ?thesis
    unfolding match_label_def Let_def names
    using assms by (simp add: label_ok_def startswith_def label_body_escape)
qed

lemma labels_loop_render:
  assumes "list_all label_ok ls"
  shows "labels_loop wide named (render_labels ls) d = Some (Inr (dict_update ls d))"
  using assms
proof (induction ls arbitrary: d)
  case (Cons e ls)
  have ok: "label_ok e" "list_all plain_char (snd e)" using Cons.prems by (auto simp: label_ok_def)
  define rest where "rest = (if ls = [] then [] else '','' @ render_labels ls)"
  have r: "render_labels (e # ls) = render_label e @ rest" by (cases ls) (simp_all add: render_labels_def rest_def)
  have "label_end rest = Some (render_labels ls)" by (simp add: rest_def label_end_def render_labels_def)
  from match_render_label [OF ok(1) this]
  have m: "match_label (render_labels (e # ls)) = Some (fst e, escape_label (snd e), render_labels ls)" by (simp add: r)
  have ne: "render_labels (e # ls) \<noteq> []" by (simp add: r render_label_def)
  show ?case
  proof -
    obtain k v where e: "e = (k, v)" by (cases e)
    have "label_text wide named (escape_label v) = Inr v" using ok(2) by (simp add: e label_text_escape)
    then show ?thesis
      using Cons unfolding e by (subst labels_loop.simps) (simp add: ne [unfolded e] m [unfolded e])
  qed
qed (simp add: render_labels_def labels_loop.simps)

section \<open>An exposition is read back\<close>

text \<open>A sample line: name, labels and the text of a value.\<close>

type_synonym line = "pystr \<times> (pystr \<times> pystr) list \<times> pystr"

definition render_line :: "line \<Rightarrow> pystr" where
  "render_line l = (case l of (name, ls, v) \<Rightarrow>
     name @ (if ls = [] then [] else [CHR 0x7B] @ render_labels ls @ [CHR 0x7D]) @ '' '' @ v)"

definition line_ok :: "line \<Rightarrow> bool" where
  "line_ok l = (case l of (name, ls, v) \<Rightarrow>
     name \<noteq> [] \<and> metric_start (hd name) \<and> list_all metric_char name \<and> list_all label_ok ls \<and> distinct (map fst ls)
     \<and> v \<noteq> [] \<and> list_all (\<lambda>c. \<not> is_space c \<and> c \<noteq> CHR 0x7D) v \<and> py_float v \<noteq> None)"

definition sample_of :: "line \<Rightarrow> sample" where
  "sample_of l = (case l of (name, ls, v) \<Rightarrow> \<lparr>sm_name = name, sm_value = the (py_float v), sm_labels = ls,
     sm_timestamp_ms = None, sm_metric_type = None, sm_unit = ''1''\<rparr>)"

definition render_exposition :: "line list \<Rightarrow> pystr" where
  "render_exposition lines = concat (map (\<lambda>l. render_line l @ [line_feed]) lines)"

lemma space_blank: "is_space (CHR '' '')" by (simp add: is_space_def)

lemma match_value_word:
  assumes "v \<noteq> []" and "list_all (\<lambda>c. \<not> is_space c \<and> c \<noteq> CHR 0x7D) v"
  shows "match_value ('' '' @ v) = Some (v, None)"
proof -
  have ns: "list_all (\<lambda>c. \<not> is_space c) v" using assms(2) by (simp add: list_all_iff)
  have "split_ws ('' '' @ v) = [v]"
    using split_ws_acc_word [of v "[]" "[]"] ns assms(1) by (simp add: split_ws_def space_blank)
  moreover have "\<not> is_space (last v)" using ns assms(1) by (simp add: list_all_iff)
  ultimately show ?thesis using assms(1) by (simp add: match_value_def space_blank)
qed

lemma match_braces_none: "CHR 0x7D \<notin> set s \<Longrightarrow> match_braces s = None"
  by (induction s) auto

lemma match_braces_last:
  "match_value t = Some x \<Longrightarrow> CHR 0x7D \<notin> set t \<Longrightarrow> match_braces (a @ CHR 0x7D # t) = Some (a, x)"
  by (induction a) (auto simp: match_braces_none)

lemma match_render_line:
  assumes "line_ok (name, ls, v)"
  shows "match_sample (render_line (name, ls, v)) = Some (name, if ls = [] then None else Some (render_labels ls), v, None)"
proof -
  have n: "name \<noteq> []" "metric_start (hd name)" "list_all metric_char name" using assms by (simp_all add: line_ok_def)
  have v: "match_value ('' '' @ v) = Some (v, None)" "CHR 0x7D \<notin> set ('' '' @ v)"
    using assms match_value_word [of v] by (auto simp: line_ok_def list_all_iff)
  have stop: "\<not> metric_char (CHR 0x7B)" "\<not> metric_char (CHR '' '')"
    by (simp_all add: metric_char_def metric_start_def label_start_def is_alpha_def is_digit_def)
  have scan: "takeWhile metric_char (name @ c # cs) = name" "dropWhile metric_char (name @ c # cs) = c # cs"
    if "\<not> metric_char c" for c cs
    using n(3) that by (simp_all add: list_all_iff takeWhile_append2 dropWhile_append2)
  show ?thesis
    using n(1,2) v match_braces_last [OF v]
    by (cases "ls = []") (simp_all add: render_line_def match_sample_def scan stop)
qed

lemma letter_not_newline:
  assumes "metric_char c \<or> label_char c"
  shows "\<not> is_newline c"
proof -
  have "is_alpha c \<or> is_digit c \<or> c = CHR ''_'' \<or> c = CHR '':''"
    using assms unfolding metric_char_def metric_start_def label_char_def label_start_def by blast
  moreover have "is_alpha c \<Longrightarrow> \<not> is_newline c"
    unfolding is_alpha_def is_newline_def Let_def by linarith
  moreover have "\<not> is_newline (CHR ''_'')" "\<not> is_newline (CHR '':'')" by (simp_all add: is_newline_def)
  ultimately show ?thesis using digits_not_special by blast
qed

lemma marks_not_newline:
  "\<not> is_newline backslash" "\<not> is_newline quote_mark" "\<not> is_newline (CHR ''n'')" "\<not> is_newline (CHR ''='')"
  "\<not> is_newline (CHR '','')" "\<not> is_newline (CHR 0x7B)" "\<not> is_newline (CHR 0x7D)" "\<not> is_newline (CHR '' '')"
  by (simp_all add: is_newline_def)

abbreviation one_line :: "pystr \<Rightarrow> bool" where
  "one_line \<equiv> list_all (\<lambda>c. \<not> is_newline c)"

lemma one_line_names: "list_all metric_char s \<or> list_all label_char s \<Longrightarrow> one_line s"
  using letter_not_newline by (auto simp: list_all_iff)

lemma one_line_escape: "list_all plain_char t \<Longrightarrow> one_line (escape_label t)"
  by (induction t) (auto simp: plain_char_def marks_not_newline)

lemma one_line_labels: "list_all label_ok ls \<Longrightarrow> one_line (render_labels ls)"
proof (induction ls)
  case (Cons e ls)
  have "one_line (render_label e)"
    using Cons.prems by (simp add: render_label_def label_ok_def one_line_names one_line_escape marks_not_newline)
  with Cons show ?case by (cases ls) (simp_all add: render_labels_def marks_not_newline)
qed (simp add: render_labels_def)

lemma one_line_word: "list_all (\<lambda>c. \<not> is_space c \<and> c \<noteq> CHR 0x7D) v \<Longrightarrow> one_line v"
  unfolding list_all_iff is_newline_def is_space_def Let_def by fastforce

lemma one_line_render: "line_ok l \<Longrightarrow> one_line (render_line l)"
  by (cases l) (simp add: render_line_def line_ok_def one_line_names one_line_labels one_line_word marks_not_newline)

lemma splitlines_lines:
  assumes "\<forall>l \<in> set ls. list_all (\<lambda>c. \<not> is_newline c) l"
  shows "splitlines (concat (map (\<lambda>l. l @ [line_feed]) ls)) = ls"
proof -
  have cr: "is_newline (CHR 0x0D)" "is_newline line_feed" by (simp_all add: is_newline_def)
  have one: "splitlines_acc acc (l @ line_feed # rest) = (rev acc @ l) # splitlines_acc [] rest"
    if "list_all (\<lambda>c. \<not> is_newline c) l" for l acc rest
    using that cr by (induction l arbitrary: acc) auto
  from assms show ?thesis
    by (induction ls) (simp_all add: splitlines_def one)
qed

lemma strip_render:
  assumes "line_ok l"
  shows "strip (render_line l) = render_line l" and "render_line l \<noteq> []" and "hd (render_line l) \<noteq> CHR ''#''"
proof -
  obtain name ls v where l: "l = (name, ls, v)" by (cases l)
  have n: "name \<noteq> []" "metric_start (hd name)" and v: "v \<noteq> []" "\<not> is_space (last v)"
    using assms by (auto simp: l line_ok_def list_all_iff)
  show ne: "render_line l \<noteq> []" by (simp add: l render_line_def)
  have h: "hd (render_line l) = hd name" "last (render_line l) = last v"
    using n(1) v(1) by (simp_all add: l render_line_def)
  have "\<not> metric_start (CHR ''#'')" by (simp add: metric_start_def label_start_def is_alpha_def)
  then show "hd (render_line l) \<noteq> CHR ''#''" using n(2) h(1) by auto
  have "\<not> is_space (CHR '':'') \<and> \<not> is_space (CHR ''_'')" by (simp add: is_space_def)
  moreover have "\<not> is_space c" if "is_alpha c" for c
    using that unfolding is_alpha_def is_space_def Let_def by linarith
  ultimately have "\<not> is_space (hd name)" using n(2) by (auto simp: metric_start_def label_start_def)
  with ne h v(2) show "strip (render_line l) = render_line l" by (simp add: strip_no_space)
qed

lemma parse_render_line:
  assumes "line_ok l" and "ex_types ex = []" and "ex_units ex = []"
  shows "parse_line wide named (render_line l) ex = Some (Inr (ex\<lparr>ex_samples := ex_samples ex @ [sample_of l]\<rparr>))"
proof -
  obtain name ls v where l: "l = (name, ls, v)" by (cases l)
  have ls: "list_all label_ok ls" "distinct (map fst ls)" and v: "py_float v \<noteq> None" using assms(1) by (simp_all add: l line_ok_def)
  obtain raw where m: "match_sample (render_line l) = Some (name, raw, v, None)" and labels: "parse_labels wide named raw = Some (Inr ls)"
    using match_render_line [OF assms(1) [unfolded l]] labels_loop_render [OF ls(1), of wide named "[]"] dict_update_same [OF ls(2), of "[]"]
    by (simp add: l parse_labels_def split: if_split_asm)
  have "parse_sample wide named (render_line l) ex = Some (Inr (ex\<lparr>ex_samples := ex_samples ex @ [sample_of l]\<rparr>))"
    unfolding parse_sample_def m using v by (auto simp: labels new_sample_def family_entry_def assms(2,3) sample_of_def l)
  moreover have "\<not> startswith (CHR ''#'' # p) (render_line l)" for p
    using strip_render(2,3) [OF assms(1)] by (cases "render_line l") (auto simp: startswith_def)
  moreover have "render_line l \<noteq> ''# EOF''" using strip_render(3) [OF assms(1)] by auto
  ultimately show ?thesis using strip_render(1,2) [OF assms(1)] by (simp add: parse_line_def Let_def)
qed

lemma parse_render_lines:
  assumes "list_all line_ok ls" and "ex_types ex = []" and "ex_units ex = []"
  shows "parse_lines wide named (map render_line ls) ex = Some (Inr (ex\<lparr>ex_samples := ex_samples ex @ map sample_of ls\<rparr>))"
  using assms by (induction ls arbitrary: ex) (simp_all add: parse_render_line)


definition demo_lines :: "line list" where
  "demo_lines = [(''up'', [(''path'', ''a}, b'' @ [backslash, quote_mark, line_feed])], ''1.5''), (''n_total'', [], ''2'')]"


section \<open>What is not read back\<close>

text \<open>A character beyond ASCII in a label value becomes two: the bytes of its UTF-8 form.\<close>

lemma nonascii_label_garbled:
  assumes "(of_char c :: nat) \<ge> 128"
  shows "label_text wide named [c] = Inr [char_of (192 + of_char c div 64 :: nat), char_of (128 + of_char c mod 64 :: nat)]"
proof -
  have b: "char_of (192 + of_char c div 64 :: nat) \<noteq> backslash" "char_of (128 + of_char c mod 64 :: nat) \<noteq> backslash"
  proof -
    have "of_char c div 64 < (4 :: nat)" using nat_of_char_less_256 [of c] by linarith
    then have "(192 + of_char c div 64) mod 256 \<noteq> (92 :: nat)" "(128 + of_char c mod 64) mod 256 \<noteq> (92 :: nat)" by simp_all
    then have "of_char (char_of (192 + of_char c div 64 :: nat)) \<noteq> (of_char backslash :: nat)"
      "of_char (char_of (128 + of_char c mod 64 :: nat)) \<noteq> (of_char backslash :: nat)"
      by (simp_all only: of_char_of) simp_all
    then show "char_of (192 + of_char c div 64 :: nat) \<noteq> backslash" "char_of (128 + of_char c mod 64 :: nat) \<noteq> backslash"
      by metis+
  qed
  show ?thesis using assms b by (simp add: label_text_def utf8_char_def Let_def)
qed

text \<open>One comment line that lacks its third word makes the whole scrape fail.\<close>

lemma short_type_line_aborts:
  "parse_lines wide named (''# TYPE x'' # ls) ex = Some (Inl ValueError)"
  by (simp add: parse_line_def startswith_def four_parts_def strip_def lstrip_def is_space_def)

end
