(* ===== verification/Agent_Loop.thy ===== *)
theory Agent_Loop
  imports Collection File_Log_Laws Json_Text
begin

text \<open>
  The collectors behind the guarded loops of \<open>Agent.run\<close>, \<open>runtime.py\<close> 287 to 343: the turn that collects,
  stores the events together with the collector's cursor and only then commits the cursor in memory; which
  collectors and tasks a configuration gives; and the restore at start-up. The second half is about a
  process that dies: a collector restored from the stored state goes on where the stored events end.
\<close>

section \<open>One turn of a collector\<close>

text \<open>With a resource to find, a collector waits until the server has handed out its id.\<close>

definition prepared :: "(resource_map \<times> pystr) option \<Rightarrow> (uuid \<Rightarrow> 'c \<Rightarrow> 'c) \<Rightarrow> 'c \<Rightarrow> 'c option" where
  "prepared mapping set_id col =
     (case mapping of
        None \<Rightarrow> Some col
      | Some (ids, external_id) \<Rightarrow>
          if external_id = [] then Some col
          else (case dict_get ids external_id of
              None \<Rightarrow> None
            | Some resource_id \<Rightarrow> if resource_id = [] then None else Some (set_id resource_id col)))"

definition emit_collector ::
  "platform \<Rightarrow> ('c \<Rightarrow> (exn + event_args list) \<times> 'c) \<Rightarrow> ('c \<Rightarrow> (pystr \<times> pystr) option) \<Rightarrow> ('c \<Rightarrow> 'c) \<Rightarrow> 'c option
    \<Rightarrow> 'c \<times> collection \<Rightarrow> (exn + unit) \<times> 'c \<times> collection" where
  "emit_collector pl collect pending commit ready cc =
     (case ready of
        None \<Rightarrow> (Inr (), cc)
      | Some col \<Rightarrow>
          (case collect col of
             (Inl e, col1) \<Rightarrow> (Inl e, col1, snd cc)
           | (Inr args, col1) \<Rightarrow>
               (Inr (), commit col1, emit_args pl args (case pending col1 of None \<Rightarrow> [] | Some u \<Rightarrow> [u]) (snd cc))))"

definition service_mapping :: "pystr option \<Rightarrow> collection \<Rightarrow> (resource_map \<times> pystr) option" where
  "service_mapping service c = (if truthy service then Some (ri_services (cl_ids c), the service) else None)"

definition file_turn ::
  "platform \<Rightarrow> (pystr \<Rightarrow> json option) \<Rightarrow> (bytes \<Rightarrow> pystr) \<Rightarrow> pystr option \<Rightarrow> file_snapshot option
    \<Rightarrow> file_collector \<times> collection \<Rightarrow> (exn + unit) \<times> file_collector \<times> collection" where
  "file_turn pl loads decode service file cc =
     emit_collector pl (\<lambda>col. let r = collect_file loads decode (pl_pstr pl) file col in (Inr (fst r), snd r))
       pending_file_update commit_file_update
       (prepared (service_mapping service (snd cc)) (\<lambda>i col. col\<lparr>fl_service_id := Some i\<rparr>) (fst cc)) cc"

definition journal_turn ::
  "platform \<Rightarrow> (pystr \<Rightarrow> json option) \<Rightarrow> (journal_start \<Rightarrow> pystr + pystr list) \<Rightarrow> pystr option
    \<Rightarrow> journal_collector \<times> collection \<Rightarrow> (exn + unit) \<times> journal_collector \<times> collection" where
  "journal_turn pl loads output service cc =
     emit_collector pl (\<lambda>col. case collect_journal loads (pl_pstr pl) output
           (get_state (''journal:'' @ jc_name col) (rt_spool (cl_agent (snd cc)))) col of
         Inl e \<Rightarrow> (Inl e, col) | Inr r \<Rightarrow> (Inr (fst r), snd r))
       pending_journal_update commit_journal_update
       (prepared (service_mapping service (snd cc)) (\<lambda>i col. col\<lparr>jc_service_id := Some i\<rparr>) (fst cc)) cc"

section \<open>What a configuration runs\<close>

definition file_collectors :: "config \<Rightarrow> (log_source \<times> file_collector) list" where
  "file_collectors cfg = map (\<lambda>i. (i, (new_file_collector (ls_name i) (or_empty_text (ls_path i)) None)
       \<lparr>fl_max_line_bytes := nat (ls_max_line_bytes i), fl_max_lines := nat (ls_max_lines_per_second i)\<rparr>))
     (filter (\<lambda>i. ls_type i = ''file'') (cf_logs cfg))"

definition journal_collectors :: "config \<Rightarrow> (log_source \<times> journal_collector) list" where
  "journal_collectors cfg = map (\<lambda>i. (i, \<lparr>jc_name = ls_name i, jc_unit = or_empty_text (ls_unit i),
       jc_max_lines = nat (ls_max_lines_per_second i), jc_service_id = None, jc_pending_cursor = None\<rparr>))
     (filter (\<lambda>i. ls_type i = ''journald'') (cf_logs cfg))"

definition dependency_adapters :: "config \<Rightarrow> dependency_config list" where
  "dependency_adapters cfg = filter (\<lambda>d. dc_type d \<in> {''postgresql'', ''redis''}) (cf_dependencies cfg)"

text \<open>The guarded loops that are started, by name and interval; the sender runs beside them.\<close>

definition guarded_tasks :: "config \<Rightarrow> (pystr \<times> pyfloat) list" where
  "guarded_tasks cfg =
     [(''system'', cf_collection_interval_seconds cfg), (''process'', cf_collection_interval_seconds cfg),
      (''discovery'', cf_discovery_interval_seconds cfg), (''heartbeat'', 10)]
     @ (if cf_docker_collection_enabled cfg then [(''docker'', cf_docker_collection_interval_seconds cfg)] else [])
     @ map (\<lambda>e. (''log:'' @ fl_name (snd e), 1)) (file_collectors cfg)
     @ map (\<lambda>e. (''log:'' @ jc_name (snd e), 1)) (journal_collectors cfg)
     @ map (\<lambda>e. (''metrics:'' @ me_name e, cf_collection_interval_seconds cfg)) (cf_metrics cfg)
     @ map (\<lambda>d. (''dependency:'' @ dc_name d, dc_interval_seconds d)) (dependency_adapters cfg)"

definition initial_health :: "config \<Rightarrow> (pystr, health) dict" where
  "initial_health cfg = (if cf_docker_collection_enabled cfg then []
     else [(''docker'', \<lparr>h_status = ''disabled'', h_message = None\<rparr>)])"

definition restore_files :: "(pystr \<Rightarrow> json option) \<Rightarrow> config \<Rightarrow> agent \<Rightarrow> exn + file_collector list" where
  "restore_files loads cfg a = map_result (\<lambda>e. restore_file loads (\<lambda>k. get_state k (rt_spool a)) (snd e)) (file_collectors cfg)"

section \<open>Collectors that resume\<close>

text \<open>
  A poll gives events, the collector after its commit, and the state update stored with the events.
  \<open>core\<close> is what later polls depend on, \<open>restore\<close> what a new process makes of the stored state.
\<close>

type_synonym stored = "pystr \<Rightarrow> pystr option"

definition store_update :: "(pystr \<times> pystr) option \<Rightarrow> stored \<Rightarrow> stored" where
  "store_update u st = (case u of None \<Rightarrow> st | Some (k, v) \<Rightarrow> st(k \<mapsto> v))"

datatype 'p poll_op = Poll 'p | Killed 'p | Restarted

text \<open>A process that is killed after polling loses the events and the update; the next one restores.\<close>

fun run_polls ::
  "('p \<Rightarrow> 'c \<Rightarrow> 'e list \<times> 'c \<times> (pystr \<times> pystr) option) \<Rightarrow> (stored \<Rightarrow> 'c) \<Rightarrow> 'p poll_op list \<Rightarrow> 'c \<times> stored \<Rightarrow> 'e list \<times> 'c \<times> stored" where
  "run_polls poll restore [] cs = ([], cs)"
| "run_polls poll restore (Poll p # ops) (c, st) =
     (let r = poll p c; rest = run_polls poll restore ops (fst (snd r), store_update (snd (snd r)) st)
      in (fst r @ fst rest, snd rest))"
| "run_polls poll restore (Killed p # ops) (c, st) = run_polls poll restore ops (restore st, st)"
| "run_polls poll restore (Restarted # ops) (c, st) = run_polls poll restore ops (restore st, st)"

definition uninterrupted :: "'p poll_op list \<Rightarrow> 'p poll_op list" where
  "uninterrupted ops = filter (\<lambda>op. case op of Poll p \<Rightarrow> True | _ \<Rightarrow> False) ops"

locale resumable =
  fixes poll :: "'p \<Rightarrow> 'c \<Rightarrow> 'e list \<times> 'c \<times> (pystr \<times> pystr) option"
    and restore :: "stored \<Rightarrow> 'c"
    and core :: "'c \<Rightarrow> 'k"
  assumes poll_core: "core c = core c' \<Longrightarrow> fst (poll p c) = fst (poll p c') \<and> snd (snd (poll p c)) = snd (snd (poll p c'))
      \<and> core (fst (snd (poll p c))) = core (fst (snd (poll p c')))"
    and resume: "core (restore st) = core c \<Longrightarrow>
      core (restore (store_update (snd (snd (poll p c))) st)) = core (fst (snd (poll p c)))"
begin

lemma restarts_invisible:
  assumes "core (restore st) = core c" and "core c' = core c"
  shows "fst (run_polls poll restore ops (c', st)) = fst (run_polls poll restore (uninterrupted ops) (c, st))
    \<and> snd (snd (run_polls poll restore ops (c', st))) = snd (snd (run_polls poll restore (uninterrupted ops) (c, st)))"
  using assms
proof (induction ops arbitrary: c c' st)
  case (Cons op ops)
  show ?case
  proof (cases op)
    case (Poll p)
    note same = poll_core [OF Cons.prems(2), of p] and next_core = resume [OF Cons.prems(1), of p]
    show ?thesis
      using Cons.IH [OF next_core, of "fst (snd (poll p c'))"] same by (simp add: Poll uninterrupted_def Let_def)
  qed (use Cons in \<open>simp_all add: uninterrupted_def\<close>)
qed (simp add: uninterrupted_def)

end

section \<open>Following a file resumes\<close>

text \<open>
  A turn of a file collector as a poll: \<open>None\<close> while its service has no id yet, else the id it labels its
  events with.
\<close>

definition poll_file ::
  "(pystr \<Rightarrow> json option) \<Rightarrow> (bytes \<Rightarrow> pystr) \<Rightarrow> (json \<Rightarrow> pystr) \<Rightarrow> uuid option option \<times> file_snapshot option
    \<Rightarrow> file_collector \<Rightarrow> event_args list \<times> file_collector \<times> (pystr \<times> pystr) option" where
  "poll_file loads decode pstr p col =
     (case fst p of
        None \<Rightarrow> ([], col, None)
      | Some service_id \<Rightarrow>
          let r = collect_file loads decode pstr (snd p) (col\<lparr>fl_service_id := service_id\<rparr>)
          in (fst r, commit_file_update (snd r), pending_file_update (snd r)))"

definition restored_file :: "(nat \<Rightarrow> pystr) \<Rightarrow> file_collector \<Rightarrow> stored \<Rightarrow> file_collector" where
  "restored_file wide col st =
     (let fresh = col\<lparr>fl_service_id := None, fl_cursor := None, fl_pending := None\<rparr>
      in case restore_file (json_loads wide) st fresh of Inl e \<Rightarrow> fresh | Inr c \<Rightarrow> c)"

definition file_core :: "file_collector \<Rightarrow> file_collector" where
  "file_core col = col\<lparr>fl_service_id := None\<rparr>"

lemma plain_cursor: "plain_json (cursor_state c)"
  by (simp add: cursor_state_def)

lemma restore_stored:
  assumes "st (''file:'' @ fl_name col) = Some (json_dumps_spaced frepr (cursor_state c))"
  shows "restore_file (json_loads wide) st col = Inr (col\<lparr>fl_cursor := Some c\<rparr>)"
proof -
  have "json_dumps_spaced frepr (cursor_state c) \<noteq> []" by (simp add: cursor_state_def)
  then show ?thesis
    unfolding restore_file_def assms by (simp add: json_roundtrip(2) [OF plain_cursor] restore_cursor_state)
qed

lemma file_core_eq: "file_core c = file_core c' \<Longrightarrow> c\<lparr>fl_service_id := i\<rparr> = c'\<lparr>fl_service_id := i\<rparr>"
  by (cases c; cases c') (simp add: file_core_def)

lemma restored_config:
  "fl_name (restored_file wide col st) = fl_name col" "fl_pending (restored_file wide col st) = None"
  "fl_path (restored_file wide col st) = fl_path col" "fl_max_line_bytes (restored_file wide col st) = fl_max_line_bytes col"
  "fl_max_lines (restored_file wide col st) = fl_max_lines col" "fl_service_id (restored_file wide col st) = None"
  by (auto simp: restored_file_def restore_file_def Let_def bind_result_def split: option.split sum.split)

lemma file_resumes:
  assumes "file_core (restored_file wide col0 st) = file_core c"
  shows "file_core (restored_file wide col0 (store_update (snd (snd (poll_file loads decode pstr p c))) st))
    = file_core (fst (snd (poll_file loads decode pstr p c)))"
proof -
  have c: "fl_name c = fl_name col0" "fl_pending c = None" "fl_path c = fl_path col0" "fl_max_line_bytes c = fl_max_line_bytes col0"
    "fl_max_lines c = fl_max_lines col0"
    using assms restored_config [of wide col0 st] by (metis file_core_def file_collector.select_convs file_collector.update_convs(5) file_collector.surjective)+
  consider "fst p = None" | i where "fst p = Some i" "snd p = None" | i f where "fst p = Some i" "snd p = Some f"
    by (cases "fst p"; cases "snd p") auto
  then show ?thesis
  proof cases
    case 1
    then show ?thesis using assms by (simp add: poll_file_def store_update_def)
  next
    case 2
    then show ?thesis
      using assms c(2) by (simp add: poll_file_def store_update_def collect_file_def read_file_def pending_file_update_def
          commit_file_update_def file_core_def Let_def)
  next
    case (3 i f)
    have "\<exists>lines cur. read_file (c\<lparr>fl_service_id := i\<rparr>) (Some f) = Some (lines, cur)"
      by (simp add: read_file_def Let_def split: prod.split)
    then obtain lines cur where r: "read_file (c\<lparr>fl_service_id := i\<rparr>) (Some f) = Some (lines, cur)" by blast
    let ?fresh = "col0\<lparr>fl_service_id := None, fl_cursor := None, fl_pending := None\<rparr>"
    let ?st = "store_update (snd (snd (poll_file loads decode pstr p c))) st"
    have "?st (''file:'' @ fl_name ?fresh) = Some (json_dumps_spaced (\<lambda>_. []) (cursor_state cur))"
      using c(1) 3 r by (simp add: poll_file_def store_update_def collect_file_def pending_file_update_def Let_def)
    from restore_stored [of ?st ?fresh "\<lambda>_. []" cur wide, OF this] have "restored_file wide col0 ?st = ?fresh\<lparr>fl_cursor := Some cur\<rparr>"
      unfolding restored_file_def Let_def by (simp only: sum.case)
    moreover have "fst (snd (poll_file loads decode pstr p c)) = c\<lparr>fl_service_id := i, fl_cursor := Some cur, fl_pending := None\<rparr>"
      using 3 r by (simp add: poll_file_def collect_file_def commit_file_update_def Let_def)
    ultimately show ?thesis
      using c by (cases col0; cases c) (simp add: file_core_def)
  qed
qed

interpretation file_logs: resumable "poll_file loads decode pstr" "restored_file wide col0" file_core
  for loads decode pstr wide col0
proof
  fix c c' :: file_collector and p
  assume "file_core c = file_core c'"
  note same = file_core_eq [OF this] and this
  then show "fst (poll_file loads decode pstr p c) = fst (poll_file loads decode pstr p c')
      \<and> snd (snd (poll_file loads decode pstr p c)) = snd (snd (poll_file loads decode pstr p c'))
      \<and> file_core (fst (snd (poll_file loads decode pstr p c))) = file_core (fst (snd (poll_file loads decode pstr p c')))"
    by (auto simp: poll_file_def Let_def split: option.split)
qed (rule file_resumes)

text \<open>The agent's turn is such a poll, and the state update reaches the spool with the events.\<close>

definition file_ready :: "pystr option \<Rightarrow> file_collector \<Rightarrow> collection \<Rightarrow> uuid option option" where
  "file_ready service col c =
     (if truthy service
      then (case dict_get (ri_services (cl_ids c)) (the service) of None \<Rightarrow> None | Some r \<Rightarrow> if r = [] then None else Some (Some r))
      else Some (fl_service_id col))"

lemma file_turn_polls:
  assumes "poll_file loads decode (pl_pstr pl) (file_ready service col c, file) col = (es, col', u)"
  shows "file_turn pl loads decode service file (col, c) =
    (Inr (), col', if file_ready service col c = None then c else emit_args pl es (case u of None \<Rightarrow> [] | Some x \<Rightarrow> [x]) c)"
proof -
  have ready: "prepared (service_mapping service c) (\<lambda>i col. col\<lparr>fl_service_id := Some i\<rparr>) col
      = map_option (\<lambda>i. col\<lparr>fl_service_id := i\<rparr>) (file_ready service col c)"
    by (cases service) (auto simp: prepared_def service_mapping_def file_ready_def truthy_def split: option.split)
  show ?thesis
    using assms unfolding file_turn_def emit_collector_def fst_conv snd_conv ready
    by (cases "file_ready service col c") (auto simp: poll_file_def Let_def)
qed

lemma append_sync_state: "get_state key (fst (append_sync t enc us s)) = dict_get (dict_update us (sp_state s)) key"
  by (simp add: append_sync_def append_rows_def get_state_def)

lemma emit_state:
  assumes "key \<noteq> ''sequence''"
  shows "get_state key (rt_spool (emit frepr pstr clk now new_id events us a)) = dict_get (dict_update us (sp_state (rt_spool a))) key"
proof -
  have "dict_get (sp_state (fst (append_sync t enc us' s))) key = dict_get (dict_update us' (sp_state s)) key" for t enc us' s
    using append_sync_state by (simp add: get_state_def)
  then show ?thesis
    using assms by (simp add: emit_def Let_def case_prod_beta append_sync_state) (simp add: get_state_def)
qed

lemma emit_stores:
  assumes "key \<noteq> ''sequence''"
  shows "get_state key (rt_spool (cl_agent (emit_args pl args (case u of None \<Rightarrow> [] | Some x \<Rightarrow> [x]) c)))
    = store_update u (\<lambda>k. get_state k (rt_spool (cl_agent c))) key"
  using assms
  by (cases u) (auto simp: emit_args_def emit_events_def normalized_def Let_def store_update_def get_state_def emit_state [unfolded get_state_def] update_conv')

text \<open>
  C33. Following a file survives the process: whatever is polled, and however often the agent is killed
  after it read lines but before it stored them, or restarted in between, the events handed to the spool
  are those of the completed polls alone, in order, as if one process had made them; the cursor in memory
  that a new process restores is the one stored with the last of those events.
\<close>

theorem file_log_survives_restarts:
  assumes "file_core (restored_file wide col st) = file_core col"
  shows "fst (run_polls (poll_file loads decode pstr) (restored_file wide col) ops (col, st))
     = fst (run_polls (poll_file loads decode pstr) (restored_file wide col) (uninterrupted ops) (col, st))
   \<and> snd (snd (run_polls (poll_file loads decode pstr) (restored_file wide col) ops (col, st)))
     = snd (snd (run_polls (poll_file loads decode pstr) (restored_file wide col) (uninterrupted ops) (col, st)))"
  by (rule file_logs.restarts_invisible [OF assms refl])

definition restart_ops :: "(uuid option option \<times> file_snapshot option) poll_op list" where
  "restart_ops = [Poll (Some None, Some (demo_file (''ab'' @ [newline] @ ''c''))), Killed (Some None, Some (demo_file (''ab'' @ [newline] @ ''cd''))),
     Restarted, Poll (Some None, Some (demo_file (''ab'' @ [newline] @ ''cd'' @ [newline])))]"

theorem file_log_survives_restarts_witness:
  "fst (run_polls (poll_file (\<lambda>_. None) id (\<lambda>_. [])) (restored_file (\<lambda>_. []) demo_file_collector) restart_ops (demo_file_collector, \<lambda>_. None))
   = fst (run_polls (poll_file (\<lambda>_. None) id (\<lambda>_. [])) (restored_file (\<lambda>_. []) demo_file_collector) (uninterrupted restart_ops)
       (demo_file_collector, \<lambda>_. None))"
proof -
  have "file_core (restored_file (\<lambda>_. []) demo_file_collector (\<lambda>_. None)) = file_core demo_file_collector"
    by (simp add: restored_file_def restore_file_def demo_file_collector_def new_file_collector_def file_core_def)
  from file_log_survives_restarts [OF this] show ?thesis by blast
qed

end
