(* ===== verification/Experiment_Runner.thy ===== *)
theory Experiment_Runner
  imports Json_Text Transport
begin

text \<open>
  The experiment runner, \<open>src/deployment/experiment-runner/runner.py\<close>: the allow-listed faults with their
  checked parameters, the clean-up of each, and a run with its ground-truth records. What the outside does
  is the function \<open>env\<close> from the actions so far, the newest last, to an exception or a number: an exit code
  for a waited process, 0 for a process that still runs. Closures of the code are the constructors of
  \<open>cleanup\<close>. A run that is cancelled from outside is not modelled.
\<close>

section \<open>Commands and actions\<close>

datatype command =
    StressCpu int int
  | StressVm int int int
  | Fio pystr int int
  | SystemctlStop pystr
  | SystemctlStart pystr
  | QdiscReplace pystr int
  | QdiscDel pystr
  | Psql pystr pystr
  | RedisPush pystr pystr pystr
  | RedisRemove pystr pystr pystr

fun argv :: "command \<Rightarrow> pystr list" where
  "argv (StressCpu workers duration) =
     [''stress-ng'', ''--cpu'', int_str workers, ''--timeout'', int_str duration @ ''s'', ''--metrics-brief'']"
| "argv (StressVm workers percent duration) =
     [''stress-ng'', ''--vm'', int_str workers, ''--vm-bytes'', int_str percent @ ''%'', ''--timeout'', int_str duration @ ''s'']"
| "argv (Fio path megabytes duration) =
     [''fio'', ''--name=temporalrca'', ''--filename='' @ path, ''--rw=randrw'', ''--direct=1'', ''--size='' @ int_str megabytes @ ''M'',
      ''--runtime='' @ int_str duration, ''--time_based=1'']"
| "argv (SystemctlStop unit) = [''systemctl'', ''stop'', unit]"
| "argv (SystemctlStart unit) = [''systemctl'', ''start'', unit]"
| "argv (QdiscReplace interface delay) =
     [''tc'', ''qdisc'', ''replace'', ''dev'', interface, ''root'', ''netem'', ''delay'', int_str delay @ ''ms'']"
| "argv (QdiscDel interface) = [''tc'', ''qdisc'', ''del'', ''dev'', interface, ''root'']"
| "argv (Psql dsn sql) = [''psql'', dsn, ''-v'', ''ON_ERROR_STOP=1'', ''-c'', sql]"
| "argv (RedisPush url queue v) = [''redis-cli'', ''-u'', url, ''RPUSH'', queue, v]"
| "argv (RedisRemove url queue v) = [''redis-cli'', ''-u'', url, ''LREM'', queue, ''0'', v]"

datatype action =
    Spawn command
  | Wait command
  | Status command
  | Signal command
  | Kill command
  | Unlink pystr
  | Sleep int
  | Record pystr json

type_synonym machine = "action list \<Rightarrow> exn + int"
type_synonym 'a run = "machine \<Rightarrow> action list \<Rightarrow> (exn + 'a) \<times> action list"

definition return_run :: "'a \<Rightarrow> 'a run" where
  "return_run x env tr = (Inr x, tr)"

definition raise_run :: "exn \<Rightarrow> 'a run" where
  "raise_run e env tr = (Inl e, tr)"

definition bind_run :: "'a run \<Rightarrow> ('a \<Rightarrow> 'b run) \<Rightarrow> 'b run" where
  "bind_run m f env tr = (case m env tr of (Inl e, tr') \<Rightarrow> (Inl e, tr') | (Inr x, tr') \<Rightarrow> f x env tr')"

definition act :: "action \<Rightarrow> int run" where
  "act a env tr = (env (tr @ [a]), tr @ [a])"

text \<open>\<open>stderr\<close> is what a failed command wrote.\<close>

definition run_command :: "(command \<Rightarrow> pystr) \<Rightarrow> command \<Rightarrow> unit run" where
  "run_command stderr c =
     bind_run (act (Spawn c)) (\<lambda>_. bind_run (act (Wait c)) (\<lambda>code.
       if code \<noteq> 0 then raise_run (RuntimeError (stderr c)) else return_run ()))"

text \<open>A command whose exit code nobody reads.\<close>

definition try_command :: "command \<Rightarrow> unit run" where
  "try_command c = bind_run (act (Spawn c)) (\<lambda>_. bind_run (act (Wait c)) (\<lambda>_. return_run ()))"

text \<open>\<open>terminate\<close>: a timeout, which is an \<open>OSError\<close>, of the ten seconds is ignored.\<close>

definition wait_ten :: "command \<Rightarrow> unit run" where
  "wait_ten c env tr = (case act (Wait c) env tr of
     (Inl e, tr') \<Rightarrow> if e = OSError then (Inr (), tr') else (Inl e, tr')
   | (Inr _, tr') \<Rightarrow> (Inr (), tr'))"

definition terminate :: "command \<Rightarrow> unit run" where
  "terminate c =
     bind_run (act (Status c)) (\<lambda>s. if s \<noteq> 0 then return_run ()
       else bind_run (act (Signal c)) (\<lambda>_. bind_run (wait_ten c) (\<lambda>_. bind_run (act (Status c)) (\<lambda>s.
         if s \<noteq> 0 then return_run () else bind_run (act (Kill c)) (\<lambda>_. return_run ())))))"

section \<open>Parameters\<close>

type_synonym params = "(pystr \<times> json) list"

definition param :: "params \<Rightarrow> pystr \<Rightarrow> json \<Rightarrow> json" where
  "param ps key other = (case map_of ps key of None \<Rightarrow> other | Some v \<Rightarrow> v)"

definition checked_int :: "params \<Rightarrow> pystr \<Rightarrow> int \<Rightarrow> int \<Rightarrow> int \<Rightarrow> exn + int" where
  "checked_int ps key other low high =
     bind_result (int_of_json (param ps key (JInt other))) (\<lambda>v.
       if low \<le> v \<and> v \<le> high then Inr v else Inl ValueError)"

definition safe_char :: "char \<Rightarrow> bool" where
  "safe_char c = (let n = of_char c :: nat in
     97 \<le> n \<and> n \<le> 122 \<or> 65 \<le> n \<and> n \<le> 90 \<or> 48 \<le> n \<and> n \<le> 57 \<or> c \<in> {CHR ''_'', CHR ''.'', CHR '':'', CHR ''@'', CHR ''-''})"

definition safe_name :: "pystr \<Rightarrow> bool" where
  "safe_name s \<longleftrightarrow> s \<noteq> [] \<and> list_all safe_char s"

definition worker_units :: "pystr list" where
  "worker_units = [''temporalrca-worker@1.service'', ''temporalrca-worker@2.service'', ''temporalrca-worker@3.service'']"

section \<open>Faults\<close>

datatype cleanup =
    TerminateOnly command
  | TerminateUnlink command pystr
  | Restart pystr
  | RemoveDelay pystr
  | RemoveItems pystr pystr "pystr list"

record running_fault =
  rf_process :: "command option"
  rf_cleanup :: cleanup

definition process_fault :: "command \<Rightarrow> running_fault" where
  "process_fault c = \<lparr>rf_process = Some c, rf_cleanup = TerminateOnly c\<rparr>"

text \<open>What a run reads besides its parameters: the environment variables and the fresh identifiers.\<close>

record run_context =
  rc_stderr :: "command \<Rightarrow> pystr"
  rc_database_url :: pystr
  rc_redis_url :: pystr
  rc_hex :: pystr
  rc_uuid :: "nat \<Rightarrow> pystr"
  rc_str :: "json \<Rightarrow> pystr"

definition lift_run :: "exn + 'a \<Rightarrow> 'a run" where
  "lift_run r = (case r of Inl e \<Rightarrow> raise_run e | Inr x \<Rightarrow> return_run x)"

definition fault_value :: "run_context \<Rightarrow> nat \<Rightarrow> pystr" where
  "fault_value cx index = json_dumps (\<lambda>_. [])
     (JObj [(''fault'', JBool True), (''experiment'', JStr (rc_uuid cx index)), (''index'', JInt (int index))])"

fun remove_items :: "pystr \<Rightarrow> pystr \<Rightarrow> pystr list \<Rightarrow> unit run" where
  "remove_items url queue [] = return_run ()"
| "remove_items url queue (v # vs) = bind_run (try_command (RedisRemove url queue v)) (\<lambda>_. remove_items url queue vs)"

text \<open>The items still to push, and those pushed so far.\<close>

fun push_items :: "pystr \<Rightarrow> pystr \<Rightarrow> pystr list \<Rightarrow> pystr list \<Rightarrow> (pystr list) run" where
  "push_items url queue [] values = return_run values"
| "push_items url queue (v # vs) values =
     bind_run (act (Spawn (RedisPush url queue v))) (\<lambda>_. bind_run (act (Wait (RedisPush url queue v))) (\<lambda>code.
       if code \<noteq> 0
       then bind_run (remove_items url queue values) (\<lambda>_. raise_run (RuntimeError ''redis-cli failed''))
       else push_items url queue vs (values @ [v])))"

definition spawn_fault :: "command \<Rightarrow> running_fault run" where
  "spawn_fault c = bind_run (act (Spawn c)) (\<lambda>_. return_run (process_fault c))"

definition lock_sql :: "int \<Rightarrow> pystr" where
  "lock_sql duration = ''BEGIN; LOCK TABLE processed_jobs IN ACCESS EXCLUSIVE MODE; SELECT pg_sleep('' @ int_str duration @ ''); ROLLBACK;''"

definition slow_sql :: "int \<Rightarrow> pystr" where
  "slow_sql duration = ''SELECT pg_sleep('' @ int_str duration @ '');''"

definition start_cpu :: "params \<Rightarrow> int \<Rightarrow> running_fault run" where
  "start_cpu ps duration = bind_run (lift_run (checked_int ps ''workers'' 1 1 8)) (\<lambda>workers.
     spawn_fault (StressCpu workers duration))"

definition start_memory :: "params \<Rightarrow> int \<Rightarrow> running_fault run" where
  "start_memory ps duration = bind_run (lift_run (checked_int ps ''workers'' 1 1 4)) (\<lambda>workers.
     bind_run (lift_run (checked_int ps ''percent'' 20 1 60)) (\<lambda>percent. spawn_fault (StressVm workers percent duration)))"

definition start_disk :: "run_context \<Rightarrow> params \<Rightarrow> int \<Rightarrow> running_fault run" where
  "start_disk cx ps duration = bind_run (lift_run (checked_int ps ''size_mb'' 128 8 1024)) (\<lambda>megabytes.
     let path = ''/tmp/temporalrca-fault-'' @ rc_hex cx @ ''.bin''; c = Fio path megabytes duration
     in bind_run (act (Spawn c)) (\<lambda>_. return_run \<lparr>rf_process = Some c, rf_cleanup = TerminateUnlink c path\<rparr>))"

definition start_termination :: "run_context \<Rightarrow> params \<Rightarrow> running_fault run" where
  "start_termination cx ps =
     (let unit = py_str (rc_str cx) (param ps ''unit'' (JStr ''temporalrca-worker@1.service'')) in
      if unit \<notin> set worker_units then raise_run ValueError
      else bind_run (run_command (rc_stderr cx) (SystemctlStop unit)) (\<lambda>_.
        return_run \<lparr>rf_process = None, rf_cleanup = Restart unit\<rparr>))"

definition start_delay :: "run_context \<Rightarrow> params \<Rightarrow> running_fault run" where
  "start_delay cx ps =
     (let interface = py_str (rc_str cx) (param ps ''interface'' (JStr ''eth0'')) in
      bind_run (lift_run (checked_int ps ''delay_ms'' 100 1 2000)) (\<lambda>delay.
        if \<not> safe_name interface then raise_run ValueError
        else bind_run (run_command (rc_stderr cx) (QdiscReplace interface delay)) (\<lambda>_.
          return_run \<lparr>rf_process = None, rf_cleanup = RemoveDelay interface\<rparr>)))"

definition start_postgres :: "run_context \<Rightarrow> bool \<Rightarrow> params \<Rightarrow> int \<Rightarrow> running_fault run" where
  "start_postgres cx lock ps duration =
     spawn_fault (Psql (py_str (rc_str cx) (param ps ''dsn'' (JStr (rc_database_url cx)))) (if lock then lock_sql duration else slow_sql duration))"

definition start_backlog :: "run_context \<Rightarrow> params \<Rightarrow> running_fault run" where
  "start_backlog cx ps =
     (let queue = py_str (rc_str cx) (param ps ''queue'' (JStr ''temporalrca:jobs'')) in
      bind_run (lift_run (checked_int ps ''items'' 500 1 10000)) (\<lambda>items.
        if \<not> safe_name queue then raise_run ValueError
        else let url = py_str (rc_str cx) (param ps ''url'' (JStr (rc_redis_url cx)))
             in bind_run (push_items url queue (map (fault_value cx) [0..<nat items]) []) (\<lambda>values.
               return_run \<lparr>rf_process = None, rf_cleanup = RemoveItems url queue values\<rparr>)))"

definition start_fault :: "run_context \<Rightarrow> pystr \<Rightarrow> params \<Rightarrow> int \<Rightarrow> running_fault run" where
  "start_fault cx kind ps duration =
     (if kind \<in> {''cpu_pressure'', ''process_contention''} then start_cpu ps duration
      else if kind = ''memory_pressure'' then start_memory ps duration
      else if kind = ''disk_io'' then start_disk cx ps duration
      else if kind = ''worker_termination'' then start_termination cx ps
      else if kind = ''network_delay'' then start_delay cx ps
      else if kind \<in> {''postgres_lock'', ''postgres_slowdown''} then start_postgres cx (kind = ''postgres_lock'') ps duration
      else if kind = ''redis_backlog'' then start_backlog cx ps
      else raise_run ValueError)"

fun clean_up :: "run_context \<Rightarrow> cleanup \<Rightarrow> unit run" where
  "clean_up cx (TerminateOnly c) = terminate c"
| "clean_up cx (TerminateUnlink c path) = bind_run (terminate c) (\<lambda>_. bind_run (act (Unlink path)) (\<lambda>_. return_run ()))"
| "clean_up cx (Restart unit) = run_command (rc_stderr cx) (SystemctlStart unit)"
| "clean_up cx (RemoveDelay interface) = try_command (QdiscDel interface)"
| "clean_up cx (RemoveItems url queue values) = remove_items url queue values"

section \<open>A run\<close>

text \<open>
  One entry of the configuration. Parameters that are no mapping fail when the fault is started; a list
  of pairs, which \<open>dict\<close> would take, counts as none.
\<close>

record experiment_run =
  er_kind :: pystr
  er_duration :: int
  er_params :: json
  er_base :: "(pystr \<times> json) list"

definition read_experiment :: "run_context \<Rightarrow> pystr \<Rightarrow> json \<Rightarrow> exn + experiment_run" where
  "read_experiment cx new_id entry =
     (case entry of
        JObj ps \<Rightarrow>
          (case map_of ps ''scenario'' of
             None \<Rightarrow> Inl KeyError
           | Some scenario \<Rightarrow>
               let kind = py_str (rc_str cx) scenario; parameters = param ps ''parameters'' (JObj [])
               in bind_result (int_of_json (param ps ''duration_seconds'' (JInt 30))) (\<lambda>duration.
                 Inr \<lparr>er_kind = kind, er_duration = duration, er_params = parameters,
                   er_base = [(''experiment_id'', JStr (py_str (rc_str cx) (param ps ''id'' (JStr new_id)))),
                     (''name'', JStr (py_str (rc_str cx) (param ps ''name'' (JStr kind)))), (''scenario'', JStr kind),
                     (''host'', param ps ''host'' JNull), (''parameters'', parameters)]\<rparr>))
      | _ \<Rightarrow> Inl TypeError)"

definition start_run :: "run_context \<Rightarrow> experiment_run \<Rightarrow> running_fault run" where
  "start_run cx x = (case er_params x of
     JObj ps \<Rightarrow> start_fault cx (er_kind x) ps (er_duration x)
   | JArr [] \<Rightarrow> start_fault cx (er_kind x) [] (er_duration x)
   | JStr s \<Rightarrow> (if s = [] then start_fault cx (er_kind x) [] (er_duration x) else raise_run ValueError)
   | _ \<Rightarrow> raise_run TypeError)"

text \<open>The time stamp of the event is left to \<open>record_truth\<close>.\<close>

definition record_state :: "experiment_run \<Rightarrow> pystr \<Rightarrow> json \<Rightarrow> int run" where
  "record_state x state err = act (Record state (JObj (er_base x @ [(''state'', JStr state)] @ (if err = JNull then [] else [(''error'', err)]))))"

text \<open>The body of the \<open>try\<close>: a process is awaited for fifteen seconds longer than its duration.\<close>

definition hold_fault :: "run_context \<Rightarrow> experiment_run \<Rightarrow> running_fault \<Rightarrow> unit run" where
  "hold_fault cx x fault =
     bind_run (case rf_process fault of
         Some c \<Rightarrow> bind_run (act (Wait c)) (\<lambda>code. if code \<noteq> 0 then raise_run (RuntimeError (rc_stderr cx c)) else return_run ())
       | None \<Rightarrow> bind_run (act (Sleep (er_duration x))) (\<lambda>_. return_run ())) (\<lambda>_.
     bind_run (record_state x ''ended'' JNull) (\<lambda>_. return_run ()))"

text \<open>The handler: the failure is recorded and raised again, unless recording it raises.\<close>

definition record_failure :: "run_context \<Rightarrow> (exn \<Rightarrow> pystr) \<Rightarrow> experiment_run \<Rightarrow> exn \<Rightarrow> unit run" where
  "record_failure cx msg x e = bind_run (record_state x ''failed'' (JStr (msg e))) (\<lambda>_. raise_run e)"

text \<open>
  The \<open>finally\<close> with the clean-up: its own failure is recorded and raised when nothing failed before,
  and swallowed otherwise.
\<close>

definition finish_fault :: "run_context \<Rightarrow> (exn \<Rightarrow> pystr) \<Rightarrow> experiment_run \<Rightarrow> running_fault \<Rightarrow> exn + unit \<Rightarrow> unit run" where
  "finish_fault cx msg x fault outcome env tr =
     (case clean_up cx (rf_cleanup fault) env tr of
        (Inr _, tr') \<Rightarrow> (outcome, tr')
      | (Inl e, tr') \<Rightarrow>
          (case outcome of
             Inl e0 \<Rightarrow> (outcome, tr')
           | Inr _ \<Rightarrow> bind_run (record_state x ''failed'' (JStr (''cleanup failed: '' @ msg e))) (\<lambda>_. raise_run e) env tr'))"

definition try_fault :: "run_context \<Rightarrow> (exn \<Rightarrow> pystr) \<Rightarrow> experiment_run \<Rightarrow> unit run" where
  "try_fault cx msg x env tr =
     (case start_run cx x env tr of
        (Inl e, tr1) \<Rightarrow> record_failure cx msg x e env tr1
      | (Inr fault, tr1) \<Rightarrow>
          (case (case hold_fault cx x fault env tr1 of
                   (Inl e, tr2) \<Rightarrow> record_failure cx msg x e env tr2 | (Inr _, tr2) \<Rightarrow> (Inr (), tr2)) of
             (outcome, tr3) \<Rightarrow> finish_fault cx msg x fault outcome env tr3))"

definition max_duration :: int where "max_duration = 300"

definition run_experiment :: "run_context \<Rightarrow> (exn \<Rightarrow> pystr) \<Rightarrow> experiment_run \<Rightarrow> unit run" where
  "run_experiment cx msg x =
     (if er_duration x < 1 \<or> max_duration < er_duration x then raise_run ValueError
      else bind_run (record_state x ''started'' JNull) (\<lambda>_. try_fault cx msg x))"

fun run_experiments :: "run_context \<Rightarrow> (exn \<Rightarrow> pystr) \<Rightarrow> experiment_run list \<Rightarrow> unit run" where
  "run_experiments cx msg [] = return_run ()"
| "run_experiments cx msg (x # xs) = bind_run (run_experiment cx msg x) (\<lambda>_. run_experiments cx msg xs)"

section \<open>Ground truth\<close>

definition run_status :: "pystr \<Rightarrow> pystr" where
  "run_status state = (if state = ''started'' then ''running'' else if state = ''failed'' then ''failed'' else ''completed'')"

definition event_text :: "(json \<Rightarrow> pystr) \<Rightarrow> json \<Rightarrow> pystr \<Rightarrow> pystr" where
  "event_text pstr event key = (case obj_get event key of Some v \<Rightarrow> if json_truthy v then py_str pstr v else [] | None \<Rightarrow> [])"

text \<open>
  The host of a record: an identifier as it is, otherwise the first host of the topology with that name
  or external id. \<open>uuid_of\<close> is \<open>str(uuid.UUID(s))\<close>.
\<close>

definition names_host :: "pystr \<Rightarrow> json \<Rightarrow> bool" where
  "names_host host_ref item \<longleftrightarrow> obj_get item ''name'' = Some (JStr host_ref) \<or> obj_get item ''external_id'' = Some (JStr host_ref)"

definition truth_host :: "(pystr \<Rightarrow> pystr option) \<Rightarrow> (json \<Rightarrow> pystr) \<Rightarrow> (exn + json) \<Rightarrow> pystr \<Rightarrow> exn + pystr" where
  "truth_host uuid_of pstr topology host_ref =
     (case uuid_of host_ref of
        Some i \<Rightarrow> Inr i
      | None \<Rightarrow> bind_result topology (\<lambda>t.
          case find (names_host host_ref) (case obj_get t ''hosts'' of Some (JArr hs) \<Rightarrow> hs | _ \<Rightarrow> []) of
            None \<Rightarrow> Inl ValueError
          | Some h \<Rightarrow> (case obj_get h ''id'' of None \<Rightarrow> Inl KeyError | Some i \<Rightarrow> Inr (py_str pstr i))))"

definition truth_payload :: "(json \<Rightarrow> pystr) \<Rightarrow> pystr \<Rightarrow> pystr \<Rightarrow> pystr \<Rightarrow> pystr \<Rightarrow> json \<Rightarrow> json" where
  "truth_payload pstr new_id stamp state host_id event =
     (let get = (\<lambda>key. case obj_get event key of None \<Rightarrow> JNull | Some v \<Rightarrow> v);
          parameters = (case obj_get event ''parameters'' of None \<Rightarrow> JObj [] | Some v \<Rightarrow> v)
      in JObj [(''event_id'', JStr new_id), (''experiment_id'', get ''experiment_id''), (''timestamp'', JStr stamp),
        (''observed_timestamp'', JStr stamp), (''name'', get ''scenario''), (''event_type'', JStr state), (''message'', get ''error''),
        (''host_id'', JStr host_id),
        (''attributes'', JObj [(''parameters'', parameters), (''configured_host'', JStr (event_text pstr event ''host''))]),
        (''experiment_name'', get ''name''), (''experiment_status'', JStr (run_status state)),
        (''configuration'', JObj [(''scenario'', get ''scenario''), (''parameters'', parameters)])])"

text \<open>
  \<open>record\<close>: the line of the local log, always, and the request, when there is a token. A status of 400 or
  more raises.
\<close>

definition record_truth ::
  "(pystr \<Rightarrow> pystr option) \<Rightarrow> (json \<Rightarrow> pystr) \<Rightarrow> (json \<Rightarrow> pystr) \<Rightarrow> pystr \<Rightarrow> (exn + json) \<Rightarrow> endpoint \<Rightarrow> pystr \<Rightarrow> pystr \<Rightarrow> json
    \<Rightarrow> pystr \<Rightarrow> json \<Rightarrow> pystr list \<Rightarrow> (exn + unit) \<times> pystr list" where
  "record_truth uuid_of pstr dumps_line token topology post new_id stamp recorded_at state event lines =
     (let stored = (case event of JObj kvs \<Rightarrow> JObj (dict_set ''recorded_at'' recorded_at kvs) | _ \<Rightarrow> event);
          lines' = lines @ [dumps_line stored]
      in if token = [] then (Inr (), lines')
         else (bind_result (truth_host uuid_of pstr topology (event_text pstr event ''host'')) (\<lambda>host_id.
           bind_result (post (truth_payload pstr new_id stamp state host_id event)) (\<lambda>answer.
             if 400 \<le> hr_status answer then Inl (RuntimeError (int_str (hr_status answer))) else Inr ())), lines'))"

end
