(* ===== verification/Experiment_Runner_Laws.thy ===== *)
theory Experiment_Runner_Laws
  imports Experiment_Runner
begin

text \<open>
  What the runner leaves behind. A trace of actions has effects on the machine; the laws say that a run
  undoes those of its fault on every path, and that the ground truth it records agrees with how it ended.
\<close>

declare append_assoc [simp del]

section \<open>Effects\<close>

datatype effect =
    Running command
  | FaultFile pystr
  | Stopped pystr
  | Delayed pystr
  | Pushed pystr pystr pystr

text \<open>What starting a command brings about, what its end does unless the exit code reports a failure, and what it undoes.\<close>

fun spawn_effects :: "command \<Rightarrow> effect set" where
  "spawn_effects (Fio path megabytes duration) = {Running (Fio path megabytes duration), FaultFile path}"
| "spawn_effects (StressCpu w d) = {Running (StressCpu w d)}"
| "spawn_effects (StressVm w q d) = {Running (StressVm w q d)}"
| "spawn_effects (Psql dsn sql) = {Running (Psql dsn sql)}"
| "spawn_effects _ = {}"

fun done_effects :: "command \<Rightarrow> effect set" where
  "done_effects (SystemctlStop unit) = {Stopped unit}"
| "done_effects (QdiscReplace interface delay) = {Delayed interface}"
| "done_effects (RedisPush url queue v) = {Pushed url queue v}"
| "done_effects _ = {}"

fun undone_effects :: "command \<Rightarrow> effect set" where
  "undone_effects (SystemctlStart unit) = {Stopped unit}"
| "undone_effects (QdiscDel interface) = {Delayed interface}"
| "undone_effects (RedisRemove url queue v) = {Pushed url queue v}"
| "undone_effects c = {Running c}"

text \<open>
  A command that was started and whose exit code is not known may have done its work; an undoing command
  counts only with exit code 0, while any end of a process ends it.
\<close>

definition undoing :: "command \<Rightarrow> bool" where
  "undoing c \<longleftrightarrow> Running c \<notin> undone_effects c"

fun effect_step :: "action \<Rightarrow> exn + int \<Rightarrow> effect set \<Rightarrow> effect set" where
  "effect_step (Spawn c) (Inr _) E = E \<union> spawn_effects c"
| "effect_step (Wait c) (Inr code) E =
     (if code = 0 then E \<union> done_effects c - undone_effects c else if undoing c then E else E - {Running c})"
| "effect_step (Wait c) (Inl _) E = E \<union> done_effects c"
| "effect_step (Status c) (Inr s) E = (if s = 0 then E else E - {Running c})"
| "effect_step (Kill c) (Inr _) E = E - {Running c}"
| "effect_step (Unlink path) (Inr _) E = E - {FaultFile path}"
| "effect_step _ _ E = E"

fun left_after :: "machine \<Rightarrow> action list \<Rightarrow> action list \<Rightarrow> effect set \<Rightarrow> effect set" where
  "left_after env past [] E = E"
| "left_after env past (a # as) E = left_after env (past @ [a]) as (effect_step a (env (past @ [a])) E)"

definition left_behind :: "machine \<Rightarrow> action list \<Rightarrow> effect set" where
  "left_behind env tr = left_after env [] tr {}"

lemma left_after_snoc: "left_after env past (as @ [a]) E = effect_step a (env (past @ as @ [a])) (left_after env past as E)"
  by (induction as arbitrary: past E) (auto simp: append_assoc)

lemma left_behind_snoc [simp]: "left_behind env (tr @ [a]) = effect_step a (env (tr @ [a])) (left_behind env tr)"
  by (simp add: left_behind_def left_after_snoc [where past = "[]", simplified])

lemma left_behind_Nil [simp]: "left_behind env [] = {}"
  by (simp add: left_behind_def)

section \<open>Weakest preconditions\<close>

text \<open>\<open>Q\<close> holds of the result of \<open>m\<close> and the trace it ends with.\<close>

definition wp :: "machine \<Rightarrow> 'a run \<Rightarrow> (exn + 'a \<Rightarrow> action list \<Rightarrow> bool) \<Rightarrow> action list \<Rightarrow> bool" where
  "wp env m Q tr = (case m env tr of (r, tr') \<Rightarrow> Q r tr')"

lemma wp_return [simp]: "wp env (return_run x) Q tr = Q (Inr x) tr"
  by (simp add: wp_def return_run_def)

lemma wp_raise [simp]: "wp env (raise_run e) Q tr = Q (Inl e) tr"
  by (simp add: wp_def raise_run_def)

lemma wp_act [simp]: "wp env (act a) Q tr = Q (env (tr @ [a])) (tr @ [a])"
  by (simp add: wp_def act_def)

lemma wp_bind [simp]:
  "wp env (bind_run m f) Q tr = wp env m (\<lambda>r tr'. case r of Inl e \<Rightarrow> Q (Inl e) tr' | Inr x \<Rightarrow> wp env (f x) Q tr') tr"
  by (auto simp: wp_def bind_run_def split: sum.splits prod.splits)

lemma wp_lift [simp]: "wp env (lift_run r) Q tr = Q r tr"
  by (simp add: lift_run_def split: sum.split)

lemma wp_wait_ten [simp]:
  "wp env (wait_ten c) Q tr = (case env (tr @ [Wait c]) of
     Inl e \<Rightarrow> Q (if e = OSError then Inr () else Inl e) (tr @ [Wait c]) | Inr _ \<Rightarrow> Q (Inr ()) (tr @ [Wait c]))"
  by (simp add: wp_def wait_ten_def act_def split: sum.split)

lemma wp_mono: "wp env m Q tr \<Longrightarrow> (\<And>r tr'. Q r tr' \<Longrightarrow> Q' r tr') \<Longrightarrow> wp env m Q' tr"
  by (auto simp: wp_def)

lemma wp_try_fault:
  "wp env (try_fault cx msg x) Q tr = wp env (start_run cx x) (\<lambda>r tr1. case r of
     Inl e \<Rightarrow> wp env (record_failure cx msg x e) Q tr1
   | Inr fault \<Rightarrow> wp env (hold_fault cx x fault) (\<lambda>r tr2. case r of
       Inl e \<Rightarrow> wp env (record_failure cx msg x e) (\<lambda>r tr3. wp env (finish_fault cx msg x fault r) Q tr3) tr2
     | Inr _ \<Rightarrow> wp env (finish_fault cx msg x fault (Inr ())) Q tr2) tr1) tr"
  by (auto simp: wp_def try_fault_def split: sum.splits prod.splits)

lemma wp_finish_fault:
  "wp env (finish_fault cx msg x fault outcome) Q tr = wp env (clean_up cx (rf_cleanup fault)) (\<lambda>r tr1. case r of
     Inr _ \<Rightarrow> Q outcome tr1
   | Inl e \<Rightarrow> (case outcome of
       Inl _ \<Rightarrow> Q outcome tr1
     | Inr _ \<Rightarrow> wp env (bind_run (record_state x ''failed'' (JStr (''cleanup failed: '' @ msg e))) (\<lambda>_. raise_run e)) Q tr1)) tr"
  unfolding wp_def finish_fault_def
  by (cases "clean_up cx (rf_cleanup fault) env tr"; cases "fst (clean_up cx (rf_cleanup fault) env tr)"; cases outcome) simp_all

section \<open>What may fail\<close>

text \<open>
  The commands that undo a fault work, a process that is signalled or waited for does not raise anything
  but the timeout, and no push of an item fails to start; anything else may.
\<close>

fun dependable :: "action \<Rightarrow> exn + int \<Rightarrow> bool" where
  "dependable (Spawn (RedisPush url queue v)) r = (\<not> isl r)"
| "dependable (Spawn c) r = (undoing c \<longrightarrow> \<not> isl r)"
| "dependable (Wait c) r =
     (if undoing c then r = Inr 0 else case r of Inl e \<Rightarrow> e = OSError \<and> done_effects c = {} | Inr _ \<Rightarrow> True)"
| "dependable (Record state event) r = True"
| "dependable (Sleep n) r = True"
| "dependable _ r = (\<not> isl r)"

definition reliable :: "machine \<Rightarrow> bool" where
  "reliable env \<longleftrightarrow> (\<forall>tr a. dependable a (env (tr @ [a])))"

lemma reliableD: "reliable env \<Longrightarrow> dependable a (env (tr @ [a]))"
  by (simp add: reliable_def)

lemma reliable_answers [simp]:
  assumes "reliable env"
  shows "env (tr @ [Status c]) \<noteq> Inl e" and "env (tr @ [Signal c]) \<noteq> Inl e" and "env (tr @ [Kill c]) \<noteq> Inl e"
    and "env (tr @ [Unlink path]) \<noteq> Inl e" and "env (tr @ [Spawn (RedisPush url queue v)]) \<noteq> Inl e"
  using reliableD [OF assms, of "Status c" tr] reliableD [OF assms, of "Signal c" tr] reliableD [OF assms, of "Kill c" tr]
    reliableD [OF assms, of "Unlink path" tr] reliableD [OF assms, of "Spawn (RedisPush url queue v)" tr] by auto

lemma reliable_undo [simp]:
  assumes "reliable env" and "undoing c"
  shows "env (tr @ [Spawn c]) \<noteq> Inl e" and "env (tr @ [Wait c]) = Inr 0"
  using assms(2) reliableD [OF assms(1), of "Spawn c" tr] reliableD [OF assms(1), of "Wait c" tr]
  by (cases c; auto)+

lemma reliable_wait:
  assumes "reliable env" and "env (tr @ [Wait c]) = Inl e"
  shows "e = OSError \<and> done_effects c = {}"
  using assms(2) reliableD [OF assms(1), of "Wait c" tr] by (auto split: if_splits)

section \<open>What is left behind\<close>

definition at_most :: "machine \<Rightarrow> effect set \<Rightarrow> action list \<Rightarrow> bool" where
  "at_most env E tr \<longleftrightarrow> left_behind env tr \<subseteq> E"

fun fault_effects :: "cleanup \<Rightarrow> effect set" where
  "fault_effects (TerminateOnly c) = {Running c}"
| "fault_effects (TerminateUnlink c path) = {Running c, FaultFile path}"
| "fault_effects (Restart unit) = {Stopped unit}"
| "fault_effects (RemoveDelay interface) = {Delayed interface}"
| "fault_effects (RemoveItems url queue pushed) = Pushed url queue ` set pushed"

lemma at_most_mono: "at_most env E tr \<Longrightarrow> E \<subseteq> F \<Longrightarrow> at_most env F tr"
  by (auto simp: at_most_def)

lemma not_undoing [simp]: "\<not> undoing c \<Longrightarrow> undone_effects c = {Running c}"
  by (cases c) (auto simp: undoing_def)

lemma undoing_simps [simp]:
  "undoing (SystemctlStart unit)" "undoing (QdiscDel interface)" "undoing (RedisRemove url queue v)"
  "\<not> undoing (SystemctlStop unit)" "\<not> undoing (QdiscReplace interface delay)" "\<not> undoing (RedisPush url queue v)"
  "\<not> undoing (StressCpu w d)" "\<not> undoing (StressVm w q d)" "\<not> undoing (Fio path m d)" "\<not> undoing (Psql dsn sql)"
  by (simp_all add: undoing_def)

lemma terminate_undoes:
  assumes "reliable env" and "at_most env (insert (Running c) E) tr" and "done_effects c = {}" "\<not> undoing c"
  shows "wp env (terminate c) (\<lambda>r tr'. \<not> isl r \<and> at_most env E tr') tr"
  using assms reliable_wait [OF assms(1), of _ c]
  by (auto simp: terminate_def at_most_def split: sum.splits if_splits)

lemma remove_items_undoes:
  assumes "reliable env" and "at_most env (Pushed url queue ` set vs \<union> E) tr"
  shows "wp env (remove_items url queue vs) (\<lambda>r tr'. \<not> isl r \<and> at_most env E tr') tr"
  using assms(2)
proof (induction vs arbitrary: tr)
  case Nil
  then show ?case by simp
next
  case (Cons v vs)
  have "at_most env (Pushed url queue ` set vs \<union> E) ((tr @ [Spawn (RedisRemove url queue v)]) @ [Wait (RedisRemove url queue v)])"
    using Cons.prems assms(1) by (cases "env (tr @ [Spawn (RedisRemove url queue v)])") (auto simp: at_most_def)
  from Cons.IH [OF this] show ?case
    using assms(1) by (cases "env (tr @ [Spawn (RedisRemove url queue v)])") (auto simp: try_command_def)
qed

lemma push_items_bound:
  assumes "reliable env" and "at_most env (Pushed url queue ` set pushed \<union> E) tr"
  shows "wp env (push_items url queue vs pushed) (\<lambda>r tr'. case r of
     Inl _ \<Rightarrow> at_most env E tr' | Inr pushed' \<Rightarrow> at_most env (Pushed url queue ` set pushed' \<union> E) tr') tr"
  using assms(2)
proof (induction vs arbitrary: tr pushed)
  case Nil
  then show ?case by simp
next
  case (Cons v vs)
  let ?c = "RedisPush url queue v"
  obtain n where s: "env (tr @ [Spawn ?c]) = Inr n"
    using assms(1) by (cases "env (tr @ [Spawn ?c])") auto
  obtain code where w: "env ((tr @ [Spawn ?c]) @ [Wait ?c]) = Inr code"
    using reliable_wait [OF assms(1), of "tr @ [Spawn ?c]" ?c] by (cases "env ((tr @ [Spawn ?c]) @ [Wait ?c])") auto
  have "at_most env (Pushed url queue ` set (if code = 0 then pushed @ [v] else pushed) \<union> E) ((tr @ [Spawn ?c]) @ [Wait ?c])"
    using Cons.prems s w by (auto simp: at_most_def)
  then have "if code = 0 then at_most env (Pushed url queue ` set (pushed @ [v]) \<union> E) ((tr @ [Spawn ?c]) @ [Wait ?c])
      else at_most env (Pushed url queue ` set pushed \<union> E) ((tr @ [Spawn ?c]) @ [Wait ?c])"
    by (simp split: if_splits)
  then show ?case
    using s w Cons.IH [of "pushed @ [v]" "(tr @ [Spawn ?c]) @ [Wait ?c]"]
      remove_items_undoes [OF assms(1), of url queue pushed E "(tr @ [Spawn ?c]) @ [Wait ?c]"]
    by (cases "code = 0") (simp_all, auto elim!: wp_mono split: sum.splits)
qed

definition started_bound :: "machine \<Rightarrow> effect set \<Rightarrow> exn + running_fault \<Rightarrow> action list \<Rightarrow> bool" where
  "started_bound env E r tr = (case r of
     Inl _ \<Rightarrow> at_most env E tr
   | Inr fault \<Rightarrow> at_most env (fault_effects (rf_cleanup fault) \<union> E) tr
       \<and> (case rf_process fault of None \<Rightarrow> True | Some c \<Rightarrow> done_effects c = {} \<and> \<not> undoing c)
       \<and> (case rf_cleanup fault of TerminateOnly c \<Rightarrow> rf_process fault = Some c | TerminateUnlink c path \<Rightarrow> rf_process fault = Some c
          | _ \<Rightarrow> True))"

lemma spawn_fault_bound:
  assumes "at_most env E tr" and "done_effects c = {}" "\<not> undoing c" "spawn_effects c = {Running c}"
  shows "wp env (spawn_fault c) (started_bound env E) tr"
  using assms by (cases "env (tr @ [Spawn c])") (auto simp: spawn_fault_def started_bound_def process_fault_def at_most_def)

lemma run_command_bound:
  assumes "reliable env" and "at_most env E tr" and "spawn_effects c = {}" "done_effects c = {x}" "\<not> undoing c"
  shows "wp env (run_command stderr c) (\<lambda>r tr'. case r of Inl _ \<Rightarrow> at_most env E tr' | Inr _ \<Rightarrow> at_most env (insert x E) tr') tr"
  using assms by (auto simp: run_command_def at_most_def split: sum.splits if_splits dest: reliable_wait)

lemma started_Inl [simp]: "started_bound env E (Inl e) tr = at_most env E tr"
  by (simp add: started_bound_def)

lemma start_process_bounds:
  assumes "at_most env E tr"
  shows "wp env (start_cpu ps d) (started_bound env E) tr"
    and "wp env (start_memory ps d) (started_bound env E) tr"
    and "wp env (start_postgres cx lock ps d) (started_bound env E) tr"
  using assms by (auto simp: start_cpu_def start_memory_def start_postgres_def spawn_fault_bound split: sum.split)

lemma start_disk_bound: "at_most env E tr \<Longrightarrow> wp env (start_disk cx ps d) (started_bound env E) tr"
  by (auto simp: start_disk_def Let_def started_bound_def at_most_def split: sum.split)

lemma start_termination_bound:
  assumes "reliable env" and "at_most env E tr"
  shows "wp env (start_termination cx ps) (started_bound env E) tr"
  using assms unfolding start_termination_def Let_def
  by (auto intro!: wp_mono [OF run_command_bound [OF assms]] simp: started_bound_def split: sum.splits)

lemma start_delay_bound:
  assumes "reliable env" and "at_most env E tr"
  shows "wp env (start_delay cx ps) (started_bound env E) tr"
  using assms unfolding start_delay_def Let_def
  by (auto intro!: wp_mono [OF run_command_bound [OF assms]] simp: started_bound_def split: sum.splits)

lemma start_backlog_bound:
  assumes "reliable env" and "at_most env E tr"
  shows "wp env (start_backlog cx ps) (started_bound env E) tr"
proof -
  have "wp env (push_items url queue vs []) (\<lambda>r tr'. case r of
      Inl e \<Rightarrow> started_bound env E (Inl e) tr'
    | Inr pushed \<Rightarrow> wp env (return_run \<lparr>rf_process = None, rf_cleanup = RemoveItems url queue pushed\<rparr>) (started_bound env E) tr') tr" for url queue vs
    by (rule wp_mono [OF push_items_bound [OF assms(1), of url queue "[]" E]])
      (use assms(2) in \<open>auto simp: started_bound_def split: sum.splits\<close>)
  then show ?thesis
    using assms(2) by (cases "checked_int ps ''items'' 500 1 10000") (simp_all add: start_backlog_def Let_def)
qed

lemma start_run_bound:
  assumes "reliable env" and "at_most env E tr"
  shows "wp env (start_run cx x) (started_bound env E) tr"
  using assms by (auto simp: start_run_def start_fault_def start_process_bounds start_disk_bound start_termination_bound
      start_delay_bound start_backlog_bound split: json.split list.split)

lemma record_keeps [simp]:
  "at_most env E (tr @ [Record state event]) = at_most env E tr" "at_most env E (tr @ [Sleep n]) = at_most env E tr"
  by (auto simp: at_most_def)

lemma record_state_keeps: "at_most env E tr \<Longrightarrow> wp env (record_state x state err) (\<lambda>_. at_most env E) tr"
  by (simp add: record_state_def)

lemma record_failure_keeps: "at_most env E tr \<Longrightarrow> wp env (record_failure cx msg x e) (\<lambda>_. at_most env E) tr"
  by (auto simp: record_failure_def record_state_def split: sum.split)

lemma wait_keeps: "at_most env E tr \<Longrightarrow> done_effects c = {} \<Longrightarrow> at_most env E (tr @ [Wait c])"
  by (cases "env (tr @ [Wait c])") (auto simp: at_most_def)

lemma hold_fault_keeps:
  assumes "at_most env E tr" and "case rf_process fault of None \<Rightarrow> True | Some c \<Rightarrow> done_effects c = {} \<and> \<not> undoing c"
  shows "wp env (hold_fault cx x fault) (\<lambda>_. at_most env E) tr"
  using assms by (auto simp: hold_fault_def record_state_def wait_keeps split: option.splits sum.split)

lemma clean_up_undoes:
  assumes "reliable env" and "started_bound env E (Inr fault) tr'" and "at_most env (fault_effects (rf_cleanup fault) \<union> E) tr"
  shows "wp env (clean_up cx (rf_cleanup fault)) (\<lambda>_. at_most env E) tr"
proof (cases "rf_cleanup fault")
  case (TerminateOnly c)
  then show ?thesis
    using wp_mono [OF terminate_undoes [OF assms(1), of c E tr]] assms(2,3) by (auto simp: started_bound_def)
next
  case (TerminateUnlink c path)
  have "wp env (terminate c) (\<lambda>r tr'. \<not> isl r \<and> at_most env (insert (FaultFile path) E) tr') tr"
    by (rule terminate_undoes) (use assms TerminateUnlink in \<open>auto simp: started_bound_def insert_commute\<close>)
  then show ?thesis
    using assms(1) by (auto simp: TerminateUnlink at_most_def elim!: wp_mono split: sum.split)
next
  case (Restart unit)
  then show ?thesis
    using assms(1,3) by (auto simp: run_command_def at_most_def split: sum.split)
next
  case (RemoveDelay interface)
  then show ?thesis
    using assms(1,3) by (auto simp: try_command_def at_most_def split: sum.split)
next
  case (RemoveItems url queue pushed)
  then show ?thesis
    using wp_mono [OF remove_items_undoes [OF assms(1), of url queue pushed E tr]] assms(3) by auto
qed

lemma finish_fault_undoes:
  assumes "reliable env" and "started_bound env E (Inr fault) tr'" and "at_most env (fault_effects (rf_cleanup fault) \<union> E) tr"
  shows "wp env (finish_fault cx msg x fault outcome) (\<lambda>_. at_most env E) tr"
  unfolding wp_finish_fault
  by (rule wp_mono [OF clean_up_undoes [OF assms]]) (auto simp: record_state_def split: sum.split)

lemma try_fault_undoes:
  assumes "reliable env" and "at_most env E tr"
  shows "wp env (try_fault cx msg x) (\<lambda>_. at_most env E) tr"
  unfolding wp_try_fault
proof (rule wp_mono [OF start_run_bound [OF assms]], goal_cases)
  case (1 r tr1)
  show ?case
  proof (cases r)
    case (Inl e)
    with 1 show ?thesis
      by (simp add: record_failure_keeps)
  next
    case (Inr fault)
    let ?F = "fault_effects (rf_cleanup fault) \<union> E"
    note s = 1 [unfolded Inr]
    have "wp env (hold_fault cx x fault) (\<lambda>_. at_most env ?F) tr1"
      by (rule hold_fault_keeps) (use s in \<open>auto simp: started_bound_def\<close>)
    then show ?thesis
      unfolding Inr sum.case
      by (rule wp_mono)
        (auto split: sum.split intro: finish_fault_undoes [OF assms(1) s] wp_mono [OF record_failure_keeps])
  qed
qed

lemma run_experiment_undoes:
  assumes "reliable env" and "at_most env E tr"
  shows "wp env (run_experiment cx msg x) (\<lambda>_. at_most env E) tr"
  using assms by (auto simp: run_experiment_def record_state_def try_fault_undoes split: sum.split)

lemma run_experiments_undo:
  assumes "reliable env" and "at_most env E tr"
  shows "wp env (run_experiments cx msg xs) (\<lambda>_. at_most env E) tr"
  using assms(2)
proof (induction xs arbitrary: tr)
  case Nil
  then show ?case by simp
next
  case (Cons x xs)
  show ?case
    using wp_mono [OF run_experiment_undoes [OF assms(1) Cons.prems, of cx msg x]] Cons.IH by (auto split: sum.split)
qed


definition sample_context :: run_context where
  "sample_context = \<lparr>rc_stderr = (\<lambda>_. []), rc_database_url = ''postgresql://localhost'', rc_redis_url = ''redis://localhost'',
     rc_hex = ''00'', rc_uuid = (\<lambda>_. ''u''), rc_str = (\<lambda>_. [])\<rparr>"

definition sample_delay :: experiment_run where
  "sample_delay = \<lparr>er_kind = ''network_delay'', er_duration = 30, er_params = JObj [], er_base = []\<rparr>"

text \<open>A machine on which every record of an ended run fails.\<close>

definition sample_machine :: machine where
  "sample_machine tr = (case last tr of
     Record state event \<Rightarrow> if state = ''ended'' then Inl OSError else Inr 0 | Status c \<Rightarrow> Inr 1 | _ \<Rightarrow> Inr 0)"

lemma sample_machine_reliable: "reliable sample_machine"
  unfolding reliable_def
proof (intro allI)
  fix tr a
  show "dependable a (sample_machine (tr @ [a]))"
  proof (cases a)
    case (Spawn c)
    then show ?thesis by (cases c) (simp_all add: sample_machine_def)
  qed (simp_all add: sample_machine_def)
qed


section \<open>What is recorded\<close>

definition states_of :: "action list \<Rightarrow> pystr list" where
  "states_of tr = concat (map (\<lambda>a. case a of Record state event \<Rightarrow> [state] | _ \<Rightarrow> []) tr)"

definition says :: "pystr list \<Rightarrow> action list \<Rightarrow> bool" where
  "says states tr \<longleftrightarrow> states_of tr = states"

lemma says_snoc [simp]:
  "says ss (tr @ [Spawn c]) = says ss tr" "says ss (tr @ [Wait c]) = says ss tr" "says ss (tr @ [Status c]) = says ss tr"
  "says ss (tr @ [Signal c]) = says ss tr" "says ss (tr @ [Kill c]) = says ss tr" "says ss (tr @ [Unlink path]) = says ss tr"
  "says ss (tr @ [Sleep n]) = says ss tr"
  by (simp_all add: says_def states_of_def)

lemma says_Record [simp]: "says (ss @ [state]) (tr @ [Record state event]) = says ss tr"
  by (simp add: says_def states_of_def)

lemma says_Record_last: "says ss tr \<Longrightarrow> says (ss @ [state]) (tr @ [Record state event])"
  by simp

lemma remove_items_silent: "says ss tr \<Longrightarrow> wp env (remove_items url queue vs) (\<lambda>_. says ss) tr"
  by (induction vs arbitrary: tr) (auto simp: try_command_def split: sum.split)

lemma push_items_silent: "says ss tr \<Longrightarrow> wp env (push_items url queue vs pushed) (\<lambda>_. says ss) tr"
  by (induction vs arbitrary: tr pushed)
    (auto split: sum.split intro!: wp_mono [OF remove_items_silent])

lemma terminate_silent: "says ss tr \<Longrightarrow> wp env (terminate c) (\<lambda>_. says ss) tr"
  by (auto simp: terminate_def split: sum.split)

lemma run_command_silent: "says ss tr \<Longrightarrow> wp env (run_command stderr c) (\<lambda>_. says ss) tr"
  by (auto simp: run_command_def split: sum.split)

lemma start_run_silent:
  assumes "says ss tr"
  shows "wp env (start_run cx x) (\<lambda>_. says ss) tr"
proof -
  have "wp env (start_backlog cx ps) (\<lambda>_. says ss) tr" for ps
    using assms unfolding start_backlog_def Let_def
    by (auto intro!: wp_mono [OF push_items_silent] split: sum.split)
  moreover have "wp env (start_termination cx ps) (\<lambda>_. says ss) tr" "wp env (start_delay cx ps) (\<lambda>_. says ss) tr" for ps
    using assms unfolding start_termination_def start_delay_def Let_def
    by (auto intro!: wp_mono [OF run_command_silent] split: sum.split)
  moreover have "wp env (start_disk cx ps d) (\<lambda>_. says ss) tr" "wp env (start_cpu ps d) (\<lambda>_. says ss) tr"
    "wp env (start_memory ps d) (\<lambda>_. says ss) tr" "wp env (start_postgres cx lock ps d) (\<lambda>_. says ss) tr" for ps d lock
    using assms by (auto simp: start_disk_def start_cpu_def start_memory_def start_postgres_def spawn_fault_def Let_def split: sum.split)
  ultimately show ?thesis
    using assms by (auto simp: start_run_def start_fault_def split: json.split list.split)
qed

lemma clean_up_silent:
  assumes "says ss tr"
  shows "wp env (clean_up cx c) (\<lambda>_. says ss) tr"
  using assms
  by (cases c) (auto simp: terminate_silent run_command_silent remove_items_silent try_command_def
      intro!: wp_mono [OF terminate_silent] split: sum.split)

text \<open>Ground truth can always be written.\<close>

definition recordable :: "machine \<Rightarrow> bool" where
  "recordable env \<longleftrightarrow> (\<forall>tr state event. \<not> isl (env (tr @ [Record state event])))"

lemma recordable_answer [simp]: "recordable env \<Longrightarrow> env (tr @ [Record state event]) \<noteq> Inl e"
  unfolding recordable_def by (metis sum.disc(1))

definition told :: "pystr list \<Rightarrow> exn + unit \<Rightarrow> action list \<Rightarrow> bool" where
  "told ss r tr \<longleftrightarrow> (case r of Inr _ \<Rightarrow> says (ss @ [''ended'']) tr | Inl _ \<Rightarrow> says (ss @ [''failed'']) tr)"

lemma hold_fault_told:
  assumes "recordable env" and "says ss tr"
  shows "wp env (hold_fault cx x fault) (\<lambda>r tr'. case r of Inr _ \<Rightarrow> says (ss @ [''ended'']) tr' | Inl _ \<Rightarrow> says ss tr') tr"
  using assms by (auto simp: hold_fault_def record_state_def split: option.splits sum.split)

lemma record_failure_told:
  assumes "recordable env" and "says ss tr"
  shows "wp env (record_failure cx msg x e) (\<lambda>r tr'. r = Inl e \<and> says (ss @ [''failed'']) tr') tr"
  using assms by (auto simp: record_failure_def record_state_def split: sum.split)

definition outcome_told :: "pystr list \<Rightarrow> exn + unit \<Rightarrow> action list \<Rightarrow> bool" where
  "outcome_told ss r tr \<longleftrightarrow> (case r of
     Inr _ \<Rightarrow> says (ss @ [''ended'']) tr
   | Inl _ \<Rightarrow> says (ss @ [''failed'']) tr \<or> says (ss @ [''ended'', ''failed'']) tr)"

lemma finish_fault_told:
  assumes "recordable env" and "told ss outcome tr"
  shows "wp env (finish_fault cx msg x fault outcome) (outcome_told ss) tr"
proof -
  have s: "says (ss @ [if isl outcome then ''failed'' else ''ended'']) tr"
    using assms(2) by (cases outcome) (auto simp: told_def)
  have two: "says (ss @ [''ended'', ''failed'']) (tr' @ [Record ''failed'' event]) = says (ss @ [''ended'']) tr'" for tr' event
    using says_Record [of "ss @ [''ended'']" "''failed''"] by (simp add: append_assoc)
  show ?thesis
    unfolding wp_finish_fault
    by (rule wp_mono [OF clean_up_silent [OF s]])
      (use assms(1) in \<open>cases outcome; auto simp: outcome_told_def record_state_def two split: sum.split\<close>)
qed

lemma try_fault_told:
  assumes "recordable env" and "says ss tr"
  shows "wp env (try_fault cx msg x) (outcome_told ss) tr"
  unfolding wp_try_fault
proof (rule wp_mono [OF start_run_silent [OF assms(2)]], goal_cases)
  case (1 r tr1)
  show ?case
  proof (cases r)
    case (Inl e)
    then show ?thesis
      using wp_mono [OF record_failure_told [OF assms(1) 1]] by (auto simp: outcome_told_def)
  next
    case (Inr fault)
    show ?thesis
      unfolding Inr sum.case
      by (rule wp_mono [OF hold_fault_told [OF assms(1) 1]])
        (auto simp: told_def split: sum.splits intro!: finish_fault_told [OF assms(1)] wp_mono [OF record_failure_told [OF assms(1)]])
  qed
qed


text \<open>A machine that refuses the delay.\<close>

definition refusing_machine :: machine where
  "refusing_machine tr = (case last tr of Wait (QdiscReplace interface delay) \<Rightarrow> Inr 2 | _ \<Rightarrow> Inr 0)"


section \<open>What the laws leave out\<close>

text \<open>
  The exit code of the command that removes a delay is not read: a delay that \<open>tc\<close> refuses to remove
  stays, and the run counts as completed.
\<close>

definition sticky_machine :: machine where
  "sticky_machine tr = (case last tr of Wait (QdiscDel interface) \<Rightarrow> Inr 2 | _ \<Rightarrow> Inr 0)"

lemma delay_stays_unnoticed:
  "case run_experiment sample_context (\<lambda>_. []) sample_delay sticky_machine [] of (r, tr) \<Rightarrow>
     r = Inr () \<and> states_of tr = [''started'', ''ended''] \<and> left_behind sticky_machine tr = {Delayed ''eth0''}"
  by code_simp

text \<open>The items pushed before a \<open>redis-cli\<close> that cannot be started stay in the queue.\<close>

definition sample_backlog :: experiment_run where
  "sample_backlog = \<lparr>er_kind = ''redis_backlog'', er_duration = 30, er_params = JObj [(''items'', JInt 2)], er_base = []\<rparr>"

definition exhausted_machine :: machine where
  "exhausted_machine tr = (case last tr of
     Spawn (RedisPush url queue v) \<Rightarrow> if 3 < length tr then Inl OSError else Inr 0 | _ \<Rightarrow> Inr 0)"

lemma pushed_items_stay:
  "case run_experiment sample_context (\<lambda>_. []) sample_backlog exhausted_machine [] of (r, tr) \<Rightarrow>
     r = Inl OSError \<and> left_behind exhausted_machine tr = {Pushed ''redis://localhost'' ''temporalrca:jobs'' (fault_value sample_context 0)}"
  by code_simp

end
