(* ===== verification/Export.thy ===== *)
theory Export
  imports Exactly_Once Experiments Normalization "HOL-Library.Product_Lexorder"
begin

text \<open>
  The export of an experiment, \<open>server/temporalrca_server/export.py\<close> with its endpoint in \<open>api.py\<close>: the
  rows of twelve tables that go into the bundle, the manifest and the archive. The Parquet encoding of a
  dataset is the parameter \<open>parquet\<close>, SHA-256 of it is \<open>sha\<close> and the indented JSON text of the manifest is
  \<open>dumps_indent\<close>. A query without an order gives the rows as the table has them.
\<close>

section \<open>The selected rows\<close>

record export_bundle =
  eb_metrics :: "metric_sample list"
  eb_series :: "metric_series list"
  eb_definitions :: "metric_definition list"
  eb_logs :: "log_event list"
  eb_events :: "timeline_event list"
  eb_hosts :: "host_row list"
  eb_services :: "service_instance list"
  eb_processes :: "process_instance list"
  eb_containers :: "container_instance list"
  eb_dependencies :: "dependency_row list"
  eb_links :: "service_dependency list"
  eb_snapshots :: "inventory_snapshot list"

definition among :: "('a \<Rightarrow> 'k) \<Rightarrow> 'k set \<Rightarrow> 'a list \<Rightarrow> 'a list" where
  "among key ids rows = filter (\<lambda>r. key r \<in> ids) rows"

definition export_rows :: "uuid \<Rightarrow> database \<Rightarrow> export_bundle" where
  "export_rows i db =
     (let metrics = sort_key (\<lambda>r. (sm_timestamp r, sm_event_id r)) (filter (\<lambda>r. sm_experiment_id r = Some i) (db_samples db));
          logs = sort_key (\<lambda>r. (le_timestamp r, le_event_id r)) (filter (\<lambda>r. le_experiment_id r = Some i) (db_logs db));
          events = sort_key (\<lambda>r. (tl_timestamp r, tl_event_id r)) (filter (\<lambda>r. tl_experiment_id r = Some i) (db_timeline db));
          series = among ms_id (sm_series_id ` set metrics) (trows (db_series db));
          definitions = among md_id (ms_metric_definition_id ` set series) (trows (db_definitions db));
          host_ids = le_host_id ` set logs \<union> tl_host_id ` set events \<union> ms_host_id ` set series;
          services = among iv_host_id host_ids (db_services db)
      in \<lparr>eb_metrics = metrics, eb_series = series, eb_definitions = definitions, eb_logs = logs, eb_events = events,
          eb_hosts = among ho_id host_ids (db_hosts db), eb_services = services,
          eb_processes = among iv_host_id host_ids (db_processes db),
          eb_containers = among iv_host_id host_ids (db_containers db),
          eb_dependencies = among iv_host_id host_ids (db_dependencies db),
          eb_links = among sd_service_id (iv_id ` set services) (db_links db),
          eb_snapshots = sort_key sn_observed_at (among sn_host_id host_ids (db_snapshots db))\<rparr>)"

section \<open>The bundle\<close>

datatype dataset =
    Metrics "metric_sample list"
  | Series "metric_series list"
  | Definitions "metric_definition list"
  | Logs "log_event list"
  | Events "timeline_event list"
  | Hosts "host_row list"
  | Services "service_instance list"
  | Processes "process_instance list"
  | Containers "container_instance list"
  | Dependencies "dependency_row list"
  | Links "service_dependency list"
  | Snapshots "inventory_snapshot list"

definition datasets :: "export_bundle \<Rightarrow> (pystr \<times> dataset) list" where
  "datasets b =
     [(''metrics.parquet'', Metrics (eb_metrics b)), (''metric_series.parquet'', Series (eb_series b)),
      (''metric_definitions.parquet'', Definitions (eb_definitions b)), (''logs.parquet'', Logs (eb_logs b)),
      (''lifecycle_ground_truth.parquet'', Events (eb_events b)), (''hosts.parquet'', Hosts (eb_hosts b)),
      (''services.parquet'', Services (eb_services b)), (''processes.parquet'', Processes (eb_processes b)),
      (''containers.parquet'', Containers (eb_containers b)), (''dependencies.parquet'', Dependencies (eb_dependencies b)),
      (''service_dependencies.parquet'', Links (eb_links b)), (''inventory_history.parquet'', Snapshots (eb_snapshots b))]"

definition iso_offset :: "datetime \<Rightarrow> pystr" where
  "iso_offset t = iso_time t @ ''+00:00''"

definition export_times :: "export_bundle \<Rightarrow> datetime list" where
  "export_times b = map sm_timestamp (eb_metrics b) @ map le_timestamp (eb_logs b) @ map tl_timestamp (eb_events b)"

definition time_range :: "experiment_row \<Rightarrow> datetime list \<Rightarrow> datetime \<times> datetime" where
  "time_range x ts =
     (if ts \<noteq> [] then (Min (set ts), Max (set ts))
      else (ex_started_at x, case ex_ended_at x of Some t \<Rightarrow> t | None \<Rightarrow> ex_started_at x))"

definition manifest :: "experiment_row \<Rightarrow> datetime list \<Rightarrow> (pystr \<times> pystr) list \<Rightarrow> json" where
  "manifest x ts checksums =
     JObj [(''schema_version'', JStr ''1.0''), (''experiment_id'', JStr (ex_id x)), (''experiment_name'', JStr (ex_name x)),
       (''status'', JStr (ex_status x)),
       (''time_range'', JObj [(''start'', JStr (iso_offset (fst (time_range x ts)))), (''end'', JStr (iso_offset (snd (time_range x ts))))]),
       (''configuration'', JObj (ex_configuration x)), (''files'', JObj (map (map_prod id JStr) checksums))]"

text \<open>\<open>export_experiment\<close>: the entries of the archive, by name, the manifest last.\<close>

definition export_experiment ::
  "(dataset \<Rightarrow> bytes) \<Rightarrow> (bytes \<Rightarrow> pystr) \<Rightarrow> (json \<Rightarrow> pystr) \<Rightarrow> uuid \<Rightarrow> database \<Rightarrow> exn + (pystr \<times> bytes) list" where
  "export_experiment parquet sha dumps_indent i db =
     (case find (\<lambda>x. ex_id x = i) (db_experiments db) of
        None \<Rightarrow> Inl ValueError
      | Some x \<Rightarrow>
          let b = export_rows i db;
              files = map (map_prod id parquet) (datasets b);
              checksums = map (map_prod id sha) files
          in Inr (sort_key fst files @ [(''manifest.json'', dumps_indent (manifest x (export_times b) checksums) @ ''\<newline>'')]))"

definition experiment_export ::
  "(dataset \<Rightarrow> bytes) \<Rightarrow> (bytes \<Rightarrow> pystr) \<Rightarrow> (json \<Rightarrow> pystr) \<Rightarrow> uuid \<Rightarrow> database \<Rightarrow> failure + (pystr \<times> bytes) list" where
  "experiment_export parquet sha dumps_indent i db =
     (case export_experiment parquet sha dumps_indent i db of
        Inl _ \<Rightarrow> Inl (HTTPException 404 ''experiment not found'') | Inr entries \<Rightarrow> Inr entries)"

section \<open>Self-containment\<close>

text \<open>
  What the foreign keys and the checks of ingestion and inventory give: every reference leads to a row, and
  the resources a row names belong to its host.
\<close>

definition owned_or_none :: "uuid \<Rightarrow> ('a inventory_row_scheme) list \<Rightarrow> uuid option \<Rightarrow> bool" where
  "owned_or_none host rows reference \<longleftrightarrow> \<not> foreign reference (owned_ids host rows)"

definition owns_all :: "database \<Rightarrow> uuid \<Rightarrow> uuid option \<Rightarrow> uuid option \<Rightarrow> uuid option \<Rightarrow> uuid option \<Rightarrow> bool" where
  "owns_all db host service process container dependency \<longleftrightarrow> host \<in> ho_id ` set (db_hosts db)
     \<and> owned_or_none host (db_services db) service \<and> owned_or_none host (db_processes db) process
     \<and> owned_or_none host (db_containers db) container \<and> owned_or_none host (db_dependencies db) dependency"

definition consistent :: "database \<Rightarrow> bool" where
  "consistent db \<longleftrightarrow>
     (\<forall>m \<in> set (db_samples db). sm_series_id m \<in> ms_id ` set (trows (db_series db)))
     \<and> (\<forall>s \<in> set (trows (db_series db)). ms_metric_definition_id s \<in> md_id ` set (trows (db_definitions db))
         \<and> owns_all db (ms_host_id s) (ms_service_id s) (ms_process_id s) (ms_container_id s) (ms_dependency_id s))
     \<and> (\<forall>l \<in> set (db_logs db). owns_all db (le_host_id l) (le_service_id l) (le_process_id l) (le_container_id l) (le_dependency_id l))
     \<and> (\<forall>e \<in> set (db_timeline db). owns_all db (tl_host_id e) (tl_service_id e) (tl_process_id e) None (tl_dependency_id e))
     \<and> (\<forall>p \<in> set (db_processes db). owned_or_none (iv_host_id p) (db_services db) (pr_service_id p)
         \<and> owned_or_none (iv_host_id p) (db_containers db) (pr_container_id p))
     \<and> (\<forall>c \<in> set (db_containers db). owned_or_none (iv_host_id c) (db_services db) (cn_service_id c))
     \<and> (\<forall>l \<in> set (db_links db). \<forall>s \<in> set (db_services db). iv_id s = sd_service_id l \<longrightarrow>
         owned_or_none (iv_host_id s) (db_dependencies db) (Some (sd_dependency_id l)))"

end
