(* ===== verification/Export_Laws.thy ===== *)
theory Export_Laws
  imports Export
begin

text \<open>
  What an exported bundle holds: every reference of its rows leads to a row of the bundle, and nothing an
  agent measured during the experiment is in it.
\<close>

section \<open>Self-containment\<close>

definition resolves :: "('a inventory_row_scheme) list \<Rightarrow> uuid option \<Rightarrow> bool" where
  "resolves rows reference = (case reference of None \<Rightarrow> True | Some i \<Rightarrow> i \<in> iv_id ` set rows)"

definition all_resolve :: "export_bundle \<Rightarrow> uuid \<Rightarrow> uuid option \<Rightarrow> uuid option \<Rightarrow> uuid option \<Rightarrow> uuid option \<Rightarrow> bool" where
  "all_resolve b host service process container dependency \<longleftrightarrow> host \<in> ho_id ` set (eb_hosts b)
     \<and> resolves (eb_services b) service \<and> resolves (eb_processes b) process
     \<and> resolves (eb_containers b) container \<and> resolves (eb_dependencies b) dependency"

definition self_contained :: "export_bundle \<Rightarrow> bool" where
  "self_contained b \<longleftrightarrow>
     (\<forall>m \<in> set (eb_metrics b). sm_series_id m \<in> ms_id ` set (eb_series b))
     \<and> (\<forall>s \<in> set (eb_series b). ms_metric_definition_id s \<in> md_id ` set (eb_definitions b)
         \<and> all_resolve b (ms_host_id s) (ms_service_id s) (ms_process_id s) (ms_container_id s) (ms_dependency_id s))
     \<and> (\<forall>l \<in> set (eb_logs b). all_resolve b (le_host_id l) (le_service_id l) (le_process_id l) (le_container_id l) (le_dependency_id l))
     \<and> (\<forall>e \<in> set (eb_events b). all_resolve b (tl_host_id e) (tl_service_id e) (tl_process_id e) None (tl_dependency_id e))
     \<and> (\<forall>p \<in> set (eb_processes b). resolves (eb_services b) (pr_service_id p) \<and> resolves (eb_containers b) (pr_container_id p))
     \<and> (\<forall>c \<in> set (eb_containers b). resolves (eb_services b) (cn_service_id c))
     \<and> (\<forall>l \<in> set (eb_links b). sd_service_id l \<in> iv_id ` set (eb_services b)
         \<and> sd_dependency_id l \<in> iv_id ` set (eb_dependencies b))"

lemma set_among [simp]: "set (among key ids rows) = {r \<in> set rows. key r \<in> ids}"
  by (auto simp: among_def)

lemma among_covers: "x \<in> A \<Longrightarrow> k x \<in> key ` set rows \<Longrightarrow> k x \<in> key ` set (among key (k ` A) rows)"
  unfolding set_among by (metis (mono_tags, lifting) imageE imageI mem_Collect_eq)

lemma owned_resolves: "owned_or_none host rows reference \<Longrightarrow> host \<in> hosts \<Longrightarrow> resolves (among iv_host_id hosts rows) reference"
  by (auto simp: owned_or_none_def foreign_def owned_ids_def resolves_def image_iff split: option.splits)

text \<open>The rows of a bundle, as sets.\<close>

definition exported_hosts :: "uuid \<Rightarrow> database \<Rightarrow> uuid set" where
  "exported_hosts i db = le_host_id ` set (eb_logs (export_rows i db)) \<union> tl_host_id ` set (eb_events (export_rows i db))
     \<union> ms_host_id ` set (eb_series (export_rows i db))"

lemma export_fields:
  "set (eb_metrics (export_rows i db)) = {m \<in> set (db_samples db). sm_experiment_id m = Some i}"
  "set (eb_logs (export_rows i db)) = {l \<in> set (db_logs db). le_experiment_id l = Some i}"
  "set (eb_events (export_rows i db)) = {e \<in> set (db_timeline db). tl_experiment_id e = Some i}"
  "eb_series (export_rows i db) = among ms_id (sm_series_id ` set (eb_metrics (export_rows i db))) (trows (db_series db))"
  "eb_definitions (export_rows i db) = among md_id (ms_metric_definition_id ` set (eb_series (export_rows i db))) (trows (db_definitions db))"
  "eb_hosts (export_rows i db) = among ho_id (exported_hosts i db) (db_hosts db)"
  "eb_services (export_rows i db) = among iv_host_id (exported_hosts i db) (db_services db)"
  "eb_processes (export_rows i db) = among iv_host_id (exported_hosts i db) (db_processes db)"
  "eb_containers (export_rows i db) = among iv_host_id (exported_hosts i db) (db_containers db)"
  "eb_dependencies (export_rows i db) = among iv_host_id (exported_hosts i db) (db_dependencies db)"
  "eb_links (export_rows i db) = among sd_service_id (iv_id ` set (eb_services (export_rows i db))) (db_links db)"
  by (simp_all add: export_rows_def exported_hosts_def Let_def)

lemma owned_all_resolve:
  assumes "owns_all db host service process container dependency" and "host \<in> exported_hosts i db"
  shows "all_resolve (export_rows i db) host service process container dependency"
  using assms unfolding owns_all_def all_resolve_def export_fields(6-10) by (auto intro: owned_resolves)


section \<open>What agents measure is not exported\<close>

text \<open>An absent optional field takes its default when an event is validated.\<close>

definition defaults_experiment :: "decoder \<Rightarrow> bool" where
  "defaults_experiment decode \<longleftrightarrow>
     (\<forall>raw w. obj_get raw ''experiment_id'' = None \<longrightarrow> decode raw = Inr w \<longrightarrow> te_experiment_id w = None)"

text \<open>A delivery of events the agent built, in any state of the agent.\<close>

inductive agent_step ::
  "(string \<Rightarrow> string) \<Rightarrow> (rat \<Rightarrow> string) \<Rightarrow> (json \<Rightarrow> pystr) \<Rightarrow> decoder \<Rightarrow> int \<Rightarrow> database \<Rightarrow> database \<Rightarrow> bool"
  for sha frepr pstr decode limit where
  "tb_events batch = map as_dict events \<Longrightarrow>
    ingest_batch sha frepr pstr decode ident batch raw limit now seen db = (result, db') \<Longrightarrow>
    agent_step sha frepr pstr decode limit db db'"

lemma map_of_filter_absent: "key \<notin> fst ` set xs \<Longrightarrow> map_of (filter P xs) key = None"
  by (auto simp: map_of_eq_None_iff)

lemma agent_names_no_experiment: "obj_get (as_dict e) ''experiment_id'' = None"
  unfolding as_dict_def obj_get.simps by (rule map_of_filter_absent) simp

lemma agent_accepted:
  assumes "defaults_experiment decode" and "e \<in> set (accepted_events decode frepr ident seen (map as_dict events))"
  shows "te_experiment_id e = None"
proof -
  obtain a where "validate_event decode frepr (as_dict a) = Inr e"
    using assms(2) check_event_validated unfolding accepted_events_def by (fastforce simp: in_valid_events)
  then obtain w t u where "decode (as_dict a) = Inr w" "e = with_times t u w"
    unfolding validate_event_Inr by blast
  then show ?thesis
    using assms(1) agent_names_no_experiment by (auto simp: defaults_experiment_def)
qed

lemma agent_step_adds:
  assumes "agent_step sha frepr pstr decode limit db db'" and "defaults_experiment decode"
  obtains samples logs where "db_samples db' = db_samples db @ samples" "\<forall>m \<in> set samples. sm_experiment_id m = None"
    "db_logs db' = db_logs db @ logs" "\<forall>l \<in> set logs. le_experiment_id l = None"
  using assms(1)
proof cases
  case (1 batch events ident raw now seen result)
  note i = 1(2)
  show thesis
  proof (cases "db' = db")
    case True
    then show thesis by (intro that [of "[]" "[]"]) simp_all
  next
    case False
    then obtain resp where r: "result = Inr resp" "\<not> br_duplicate_batch resp"
      using ingest_unchanged_or_fresh [OF i] by blast
    let ?acc = "accepted_events decode frepr ident seen (map as_dict events)"
    obtain digest where "write_batch (\<lambda>e. series_fingerprint sha frepr e (ai_host_id ident)) ident now digest resp ?acc seen db = Inr db'"
      using ingest_fresh [OF i [unfolded r(1)] r(2)] 1(1) by metis
    from write_batch_frame [OF this] obtain samples where
      s: "map sm_experiment_id samples = map te_experiment_id (metrics_of ?acc)"
        "db_samples db' = db_samples db @ samples" "db_logs db' = db_logs db @ map (log_row ident) (logs_of ?acc)"
      by blast
    have "\<forall>m \<in> set samples. sm_experiment_id m = None"
      using arg_cong [OF s(1), of set] agent_accepted [OF assms(2)] by (auto simp: image_iff)
    then show thesis
      using s(2,3) agent_accepted [OF assms(2)] by (intro that) (auto simp: log_row_def)
  qed
qed

text \<open>
  An export never holds what agents measured: whatever batches of whatever agents the server ingests, the
  samples and the log lines of an experiment's bundle stay as they were before, because no envelope an agent
  builds names an experiment.
\<close>

theorem agent_telemetry_not_exported:
  assumes "(agent_step sha frepr pstr decode limit)\<^sup>*\<^sup>* db db'" and "defaults_experiment decode"
  shows "eb_metrics (export_rows i db') = eb_metrics (export_rows i db) \<and> eb_logs (export_rows i db') = eb_logs (export_rows i db)"
  using assms(1)
proof (induction rule: rtranclp_induct)
  case base
  then show ?case by simp
next
  case (step db1 db2)
  obtain samples logs where s: "db_samples db2 = db_samples db1 @ samples" "\<forall>m \<in> set samples. sm_experiment_id m = None"
    and l: "db_logs db2 = db_logs db1 @ logs" "\<forall>l \<in> set logs. le_experiment_id l = None"
    using agent_step_adds [OF step.hyps(2) assms(2)] by blast
  have "filter (\<lambda>m. sm_experiment_id m = Some i) samples = []" "filter (\<lambda>l. le_experiment_id l = Some i) logs = []"
    using s(2) l(2) by (auto simp: filter_empty_conv)
  with step.IH show ?case
    by (simp add: export_rows_def Let_def s(1) l(1))
qed

section \<open>Concrete bundles\<close>

definition demo_row :: "uuid \<Rightarrow> uuid \<Rightarrow> inventory_row" where
  "demo_row i host = \<lparr>iv_id = i, iv_host_id = host, iv_external_id = i, iv_name = i, iv_attributes = [], iv_first_seen_at = 0,
     iv_last_seen_at = 0, iv_lease_expires_at = 9, iv_active = True\<rparr>"

text \<open>Two hosts with a service each; the experiment has one event on the first.\<close>

definition demo_export_db :: database where
  "demo_export_db = (sv_db demo_truth_server)\<lparr>db_services := [demo_row ''s1'' ''h'', demo_row ''s2'' ''other''],
     db_timeline := [truth_row ((demo_truth ''a'' 1 RUNNING)\<lparr>gt_service_id := Some ''s1''\<rparr>)]\<rparr>"


text \<open>
  Ingestion checks the resources an event names; \<open>write_ground_truth\<close> does not, so a recorded event may name a
  resource the bundle does not hold.
\<close>

definition dangling_truth :: ground_truth where
  "dangling_truth = (demo_truth ''a'' 1 RUNNING)\<lparr>gt_service_id := Some ''gone''\<rparr>"

lemma truth_may_dangle:
  "\<not> self_contained (export_rows ''x'' (sv_db (snd (write_ground_truth default_settings
     (Some ''Bearer development-ground-truth-token'') dangling_truth (sv_db demo_truth_server) demo_truth_server))))"
  by code_simp

definition demo_agent_event :: agent_event where
  "demo_agent_event = snd (event (\<lambda>_. []) (\<lambda>_. []) 0 ''id'' (event_default SYSTEM LOG ''n'') \<lparr>nz_host_id = None, nz_sequence = 0\<rparr>)"

definition demo_agent_batch :: telemetry_batch where
  "demo_agent_batch = (demo_batch ''b'' 1)\<lparr>tb_events := map as_dict [demo_agent_event]\<rparr>"

lemma demo_agent_step:
  "\<exists>db'. agent_step (\<lambda>_. ''d'') (\<lambda>_. []) (\<lambda>_. []) (\<lambda>_. Inr demo_wire) 500 empty_database db'
     \<and> db_logs db' = [log_row demo_identity demo_event]"
proof -
  have e: "te_event_id demo_event = ''e''" "te_signal_type demo_event = LOG"
    by (simp_all add: demo_event_def demo_wire_def)
  have p: "\<exists>ps. ensure_partitions TIMELINE_EVENTS Hourly [] (ensure_partitions LOG_EVENTS Hourly [te_timestamp demo_event]
      (ensure_partitions METRIC_SAMPLES Hourly [] empty_database)) = empty_database\<lparr>db_partitions := ps\<rparr>"
    using ensure_partitions_frame [of LOG_EVENTS Hourly "[te_timestamp demo_event]" empty_database]
    by (auto simp: ensure_partitions_def)
  have "\<exists>result db'. ingest_batch (\<lambda>_. ''d'') (\<lambda>_. []) (\<lambda>_. []) (\<lambda>_. Inr demo_wire) demo_identity demo_agent_batch (JObj [])
      500 7 empty_database empty_database = (result, db') \<and> db_logs db' = [log_row demo_identity demo_event]"
    using p unfolding ingest_batch_def Let_def demo_agent_batch_def demo_batch_def write_batch_def
    by (auto simp: demo_check e find_receipt_def duplicate_ids_def metric_series_batch_def store_events_def
        keys_ok_def empty_database_def)
  moreover have "tb_events demo_agent_batch = map as_dict [demo_agent_event]"
    by (simp add: demo_agent_batch_def)
  ultimately show ?thesis
    using agent_step.intros by blast
qed

theorem agent_telemetry_not_exported_witness:
  "\<exists>db'. db_logs db' = [log_row demo_identity demo_event]
     \<and> agent_step (\<lambda>_. ''d'') (\<lambda>_. []) (\<lambda>_. []) (\<lambda>_. Inr demo_wire) 500 empty_database db'
     \<and> eb_logs (export_rows ''x'' db') = eb_logs (export_rows ''x'' empty_database)"
proof -
  obtain db' where s: "agent_step (\<lambda>_. ''d'') (\<lambda>_. []) (\<lambda>_. []) (\<lambda>_. Inr demo_wire) 500 empty_database db'"
    and l: "db_logs db' = [log_row demo_identity demo_event]"
    using demo_agent_step by blast
  have "defaults_experiment (\<lambda>_. Inr demo_wire)"
    by (simp add: defaults_experiment_def demo_wire_def)
  from agent_telemetry_not_exported [OF r_into_rtranclp [of "agent_step _ _ _ _ _", OF s] this, of "''x''"] show ?thesis
    using s l by blast
qed

end
