(* ===== verification/Workload.thy ===== *)
theory Workload
  imports Config Json_Text
begin

text \<open>
  The demo workload, \<open>demo-workload/workload/__main__.py\<close>: the queues, the event stream and the statistics
  hash that its tasks share in Redis, one turn of every task's loop, and what a turn counts and logs. What
  the outside decides in a turn - clocks, random choices, the answers of Redis and of the database - is an
  argument. A task whose loop an exception leaves is dead; the process around it goes on.
\<close>

section \<open>Shared state\<close>

text \<open>
  Lists, the statistics hash and the stream of Redis, the two tables of the database, and what a process
  counts, shows and logs. A stream entry has an increasing id.
\<close>

record workload =
  wl_lists :: "(pystr, pystr list) dict"
  wl_stats :: "(pystr, pyfloat) dict"
  wl_stream :: "(nat \<times> (pystr, pystr) dict) list"
  wl_next_id :: nat
  wl_jobs :: "pystr list"
  wl_events :: "pystr list"
  wl_counters :: "(pystr list, int) dict"
  wl_gauges :: "(pystr list, pyfloat) dict"
  wl_lines :: "json list"

definition idle_workload :: workload where
  "idle_workload = \<lparr>wl_lists = [], wl_stats = [], wl_stream = [], wl_next_id = 1, wl_jobs = [], wl_events = [],
     wl_counters = [], wl_gauges = [], wl_lines = []\<rparr>"

definition value_or :: "('k, 'v) dict \<Rightarrow> 'k \<Rightarrow> 'v \<Rightarrow> 'v" where
  "value_or d k other = (case dict_get d k of None \<Rightarrow> other | Some v \<Rightarrow> v)"

definition inc :: "pystr list \<Rightarrow> workload \<Rightarrow> workload" where
  "inc labels w = w\<lparr>wl_counters := dict_set labels (value_or (wl_counters w) labels 0 + 1) (wl_counters w)\<rparr>"

definition dec :: "pystr list \<Rightarrow> workload \<Rightarrow> workload" where
  "dec labels w = w\<lparr>wl_counters := dict_set labels (value_or (wl_counters w) labels 0 - 1) (wl_counters w)\<rparr>"

definition gauge_to :: "pystr list \<Rightarrow> pyfloat \<Rightarrow> workload \<Rightarrow> workload" where
  "gauge_to labels v w = w\<lparr>wl_gauges := dict_set labels v (wl_gauges w)\<rparr>"

definition DEFAULT_QUEUE :: pystr where "DEFAULT_QUEUE = ''temporalrca:jobs''"
definition PRIORITY_QUEUE :: pystr where "PRIORITY_QUEUE = ''temporalrca:priority''"
definition SCHEDULED_QUEUE :: pystr where "SCHEDULED_QUEUE = ''temporalrca:scheduled''"
definition EVENT_STREAM_NAME :: pystr where "EVENT_STREAM_NAME = ''temporalrca:events''"

section \<open>Lines and jobs\<close>

text \<open>The values of the moment: the clock, the service name, the logging stride, a fresh id and a random value.\<close>

record moment =
  mo_now :: pyfloat
  mo_service :: pystr
  mo_log_every :: int
  mo_id :: pystr
  mo_value :: int
  mo_duration :: pyfloat

definition emit_line :: "pyfloat \<Rightarrow> pystr \<Rightarrow> pystr \<Rightarrow> pystr \<Rightarrow> pystr option \<Rightarrow> (pystr \<times> json) list \<Rightarrow> json" where
  "emit_line now service name severity message attrs =
     JObj [(''timestamp'', JFloat now), (''severity'', JStr severity), (''event_type'', JStr name), (''service'', JStr service),
       (''message'', JStr (case message of Some m \<Rightarrow> if m \<noteq> [] then m else map (\<lambda>c. if c = CHR ''_'' then CHR '' '' else c) name
          | None \<Rightarrow> map (\<lambda>c. if c = CHR ''_'' then CHR '' '' else c) name)),
       (''attributes'', JObj attrs)]"

definition log_line :: "moment \<Rightarrow> pystr \<Rightarrow> pystr \<Rightarrow> (pystr \<times> json) list \<Rightarrow> workload \<Rightarrow> workload" where
  "log_line mo name severity attrs w =
     w\<lparr>wl_lines := wl_lines w @ [emit_line (mo_now mo) (mo_service mo) name severity None attrs]\<rparr>"

definition make_job :: "moment \<Rightarrow> pystr \<Rightarrow> pystr \<Rightarrow> pyfloat option \<Rightarrow> json" where
  "make_job mo job_type source scheduled_for =
     JObj [(''id'', JStr (mo_id mo)), (''created_at'', JFloat (mo_now mo)),
       (''scheduled_for'', case scheduled_for of None \<Rightarrow> JNull | Some t \<Rightarrow> JFloat t), (''job_type'', JStr job_type),
       (''source'', JStr source), (''value'', JInt (mo_value mo)), (''attempt'', JInt 1)]"

definition should_log :: "moment \<Rightarrow> int \<Rightarrow> bool" where
  "should_log mo sequence \<longleftrightarrow> sequence mod max 1 (mo_log_every mo) = 0"

section \<open>Queue statistics\<close>

definition queue_stat_field :: "pystr \<Rightarrow> pystr \<Rightarrow> pystr" where
  "queue_stat_field destination statistic = destination @ ''|'' @ statistic"

definition statistics :: "pystr list" where
  "statistics = [''produced'', ''consumed'', ''failures'', ''processing_seconds'', ''processing_count'']"

definition seed_queue_stats :: "pystr \<Rightarrow> (pystr, pyfloat) dict \<Rightarrow> (pystr, pyfloat) dict" where
  "seed_queue_stats destination stats = fold (\<lambda>s. dict_setdefault (queue_stat_field destination s) 0) statistics stats"

definition incr_by :: "pystr \<Rightarrow> pyfloat \<Rightarrow> (pystr, pyfloat) dict \<Rightarrow> (pystr, pyfloat) dict" where
  "incr_by key v stats = dict_set key (value_or stats key 0 + v) stats"

definition record_processing :: "pystr \<Rightarrow> pyfloat \<Rightarrow> bool \<Rightarrow> (pystr, pyfloat) dict \<Rightarrow> (pystr, pyfloat) dict" where
  "record_processing destination duration succeeded stats =
     (let s1 = incr_by (queue_stat_field destination ''consumed'') 1 (seed_queue_stats destination stats);
          s2 = (if succeeded then s1 else incr_by (queue_stat_field destination ''failures'') 1 s1);
          s3 = incr_by (queue_stat_field destination ''processing_seconds'') duration s2
      in incr_by (queue_stat_field destination ''processing_count'') 1 s3)"

section \<open>Producers\<close>

text \<open>The transaction, and the depth it answers.\<close>

definition push_job :: "pystr \<Rightarrow> pystr \<Rightarrow> workload \<Rightarrow> nat \<times> workload" where
  "push_job qn item w =
     (let items = value_or (wl_lists w) qn [] @ [item]
      in (length items, w\<lparr>wl_lists := dict_set qn items (wl_lists w),
            wl_stats := incr_by (queue_stat_field qn ''produced'') 1 (seed_queue_stats qn (wl_stats w))\<rparr>))"

definition job_type_of :: "(json \<Rightarrow> pystr) \<Rightarrow> json \<Rightarrow> pystr" where
  "job_type_of pstr job = (case obj_get job ''job_type'' of None \<Rightarrow> ''standard'' | Some v \<Rightarrow> py_str pstr v)"

definition enqueue :: "(rat \<Rightarrow> string) \<Rightarrow> (json \<Rightarrow> pystr) \<Rightarrow> pystr \<Rightarrow> json \<Rightarrow> pystr \<Rightarrow> workload \<Rightarrow> nat \<times> workload" where
  "enqueue frepr pstr qn job role w =
     (case push_job qn (json_dumps frepr job) w of (depth, w1) \<Rightarrow>
        (depth, gauge_to [''queue'', qn] (of_nat depth) (inc [''jobs'', role, ''queued'', job_type_of pstr job, qn] w1)))"

text \<open>
  One round of a producer. An exception of the transaction, which no handler of the loop catches, ends the
  task; the state is as before.
\<close>

definition producer_turn ::
  "(rat \<Rightarrow> string) \<Rightarrow> (json \<Rightarrow> pystr) \<Rightarrow> moment \<Rightarrow> pystr \<Rightarrow> pystr \<Rightarrow> pystr \<Rightarrow> int \<Rightarrow> exn + unit \<Rightarrow> workload \<Rightarrow> (exn + unit) \<times> workload"
where
  "producer_turn frepr pstr mo role qn job_type sequence redis w =
     (case redis of
        Inl e \<Rightarrow> (Inl e, w)
      | Inr _ \<Rightarrow>
          (case enqueue frepr pstr qn (make_job mo job_type role None) role w of (depth, w1) \<Rightarrow>
             let w2 = gauge_to [''last_success'', role] (mo_now mo) w1
             in (Inr (), if should_log mo sequence then log_line mo ''job_queued'' ''INFO''
                   [(''job_id'', JStr (mo_id mo)), (''job_type'', JStr job_type), (''queue'', JStr qn), (''queue_depth'', JInt (int depth))] w2
                 else w2)))"

text \<open>The jobs of a burst, each at its moment; the loop stops at the first exception.\<close>

fun burst_loop ::
  "(rat \<Rightarrow> string) \<Rightarrow> (json \<Rightarrow> pystr) \<Rightarrow> (moment \<times> (exn + unit)) list \<Rightarrow> nat \<Rightarrow> workload \<Rightarrow> (exn + nat) \<times> workload" where
  "burst_loop frepr pstr [] depth w = (Inr depth, w)"
| "burst_loop frepr pstr ((mo, Inl e) # rest) depth w = (Inl e, w)"
| "burst_loop frepr pstr ((mo, Inr _) # rest) depth w =
     (case enqueue frepr pstr DEFAULT_QUEUE (make_job mo ''batch'' ''burst-producer'' None) ''burst-producer'' w of (depth', w1) \<Rightarrow>
        burst_loop frepr pstr rest depth' w1)"

definition burst_turn ::
  "(rat \<Rightarrow> string) \<Rightarrow> (json \<Rightarrow> pystr) \<Rightarrow> moment \<Rightarrow> pyfloat \<Rightarrow> (moment \<times> (exn + unit)) list \<Rightarrow> workload \<Rightarrow> (exn + unit) \<times> workload" where
  "burst_turn frepr pstr mo duration_ms jobs w =
     (case burst_loop frepr pstr jobs 0 w of
        (Inl e, w1) \<Rightarrow> (Inl e, w1)
      | (Inr depth, w1) \<Rightarrow>
          let w2 = gauge_to [''last_success'', ''burst-producer''] (mo_now mo) w1
          in if jobs = [] then (Inl IndexError, w2)
             else (Inr (), log_line mo ''job_batch_queued'' ''INFO'' [(''batch_size'', JInt (int (length jobs))), (''queue'', JStr DEFAULT_QUEUE),
               (''queue_depth'', JInt (int depth)), (''duration_ms'', JFloat duration_ms)] w2))"

text \<open>A scheduled run: its handler catches everything.\<close>

definition scheduler_turn ::
  "(rat \<Rightarrow> string) \<Rightarrow> (json \<Rightarrow> pystr) \<Rightarrow> (exn \<Rightarrow> pystr) \<Rightarrow> moment \<Rightarrow> pyfloat \<Rightarrow> pystr \<Rightarrow> pystr \<Rightarrow> pyfloat \<Rightarrow> pystr \<Rightarrow> exn + unit
    \<Rightarrow> workload \<Rightarrow> workload" where
  "scheduler_turn frepr pstr ename mo duration_ms role schedule interval job_type redis w =
     (let w0 = log_line mo ''cron_started'' ''INFO'' [(''schedule'', JStr schedule), (''cadence_seconds'', JFloat interval)]
            (inc [''cron'', schedule, ''started''] w)
      in case redis of
           Inl e \<Rightarrow> log_line mo ''cron_failed'' ''ERROR'' [(''schedule'', JStr schedule), (''error'', JStr (ename e))] (inc [''cron'', schedule, ''error''] w0)
         | Inr _ \<Rightarrow>
             (case enqueue frepr pstr SCHEDULED_QUEUE (make_job mo job_type role (Some (mo_now mo))) role w0 of (depth, w1) \<Rightarrow>
                log_line mo ''cron_completed'' ''INFO'' [(''schedule'', JStr schedule), (''job_id'', JStr (mo_id mo)),
                    (''queue_depth'', JInt (int depth)), (''duration_ms'', JFloat duration_ms)]
                  (gauge_to [''last_success'', role] (mo_now mo) (inc [''cron'', schedule, ''ok''] w1))))"

section \<open>Consumers\<close>

text \<open>What a turn of a consumer meets: a simulated failure, and the outcomes of the insert, of the statistics and of \<open>LLEN\<close>.\<close>

record consumer_world =
  cw_simulated :: bool
  cw_insert :: "exn + unit"
  cw_record :: "exn + unit"
  cw_length :: "exn + unit"

definition add_once :: "'a \<Rightarrow> 'a list \<Rightarrow> 'a list" where
  "add_once x xs = (if x \<in> set xs then xs else xs @ [x])"

definition key_value :: "json \<Rightarrow> pystr \<Rightarrow> exn + json" where
  "key_value job key = (case obj_get job key of None \<Rightarrow> Inl KeyError | Some v \<Rightarrow> Inr v)"

text \<open>Reading the item, which happens before the \<open>try\<close>: the job and its waiting time.\<close>

definition read_job :: "(nat \<Rightarrow> pystr) \<Rightarrow> pyfloat \<Rightarrow> pystr \<Rightarrow> exn + json \<times> pyfloat" where
  "read_job surrogate now item =
     (case json_loads surrogate item of
        None \<Rightarrow> Inl ValueError
      | Some (JObj kvs) \<Rightarrow>
          bind_result (number_of (case map_of kvs ''created_at'' of None \<Rightarrow> JFloat now | Some v \<Rightarrow> v)) (\<lambda>t.
            Inr (JObj kvs, max 0 (now - t)))
      | Some _ \<Rightarrow> Inl AttributeError)"

text \<open>The body of the \<open>try\<close> up to the insert: the id of the row.\<close>

definition process_job :: "consumer_world \<Rightarrow> json \<Rightarrow> exn + pystr" where
  "process_job cw job =
     bind_result (case obj_get job ''scheduled_for'' of None \<Rightarrow> Inr 0 | Some v \<Rightarrow> if json_truthy v then number_of v else Inr 0) (\<lambda>_.
       if cw_simulated cw then Inl (RuntimeError ''simulated_processing_failure'')
       else bind_result (key_value job ''id'') (\<lambda>i. bind_result (key_value job ''value'') (\<lambda>v.
         bind_result (int_of_json v) (\<lambda>_. bind_result (cw_insert cw) (\<lambda>_.
           case i of JStr s \<Rightarrow> Inr s | _ \<Rightarrow> Inl TypeError)))))"

definition job_succeeded ::
  "(json \<Rightarrow> pystr) \<Rightarrow> moment \<Rightarrow> pystr \<Rightarrow> pystr \<Rightarrow> int \<Rightarrow> json \<Rightarrow> pyfloat \<Rightarrow> pystr \<Rightarrow> workload \<Rightarrow> workload" where
  "job_succeeded pstr mo role qn sequence job wait_ms i w =
     (let w1 = gauge_to [''last_success'', role] (mo_now mo)
            (inc [''jobs'', role, ''ok'', job_type_of pstr job, qn] (w\<lparr>wl_jobs := add_once i (wl_jobs w)\<rparr>))
      in if should_log mo sequence then log_line mo ''job_processed'' ''INFO'' [(''job_id'', JStr i), (''job_type'', JStr (job_type_of pstr job)),
           (''queue'', JStr qn), (''queue_wait_ms'', JFloat wait_ms)] w1 else w1)"

definition job_failed :: "(json \<Rightarrow> pystr) \<Rightarrow> (exn \<Rightarrow> pystr) \<Rightarrow> moment \<Rightarrow> pystr \<Rightarrow> pystr \<Rightarrow> json \<Rightarrow> exn \<Rightarrow> workload \<Rightarrow> workload" where
  "job_failed pstr ename mo role qn job e w =
     log_line mo ''job_failed'' ''ERROR'' [(''job_id'', case obj_get job ''id'' of None \<Rightarrow> JNull | Some v \<Rightarrow> v),
         (''job_type'', JStr (job_type_of pstr job)), (''queue'', JStr qn), (''error'', JStr (ename e))]
       (inc [''jobs'', role, ''error'', job_type_of pstr job, qn] w)"

definition count_processing :: "(exn \<Rightarrow> pystr) \<Rightarrow> moment \<Rightarrow> pystr \<Rightarrow> exn + unit \<Rightarrow> bool \<Rightarrow> workload \<Rightarrow> workload" where
  "count_processing ename mo destination answer succeeded w =
     (case answer of
        Inr _ \<Rightarrow> w\<lparr>wl_stats := record_processing destination (mo_duration mo) succeeded (wl_stats w)\<rparr>
      | Inl e \<Rightarrow> log_line mo ''queue_telemetry_failed'' ''WARNING'' [(''queue'', JStr destination), (''error'', JStr (ename e))] w)"

text \<open>The \<open>finally\<close>: the statistics, whose failure is only logged, and the depth, whose failure is not caught.\<close>

definition consumer_finally ::
  "(exn \<Rightarrow> pystr) \<Rightarrow> moment \<Rightarrow> pystr \<Rightarrow> pystr \<Rightarrow> pystr \<Rightarrow> consumer_world \<Rightarrow> bool \<Rightarrow> workload \<Rightarrow> (exn + unit) \<times> workload" where
  "consumer_finally ename mo role qn job_type cw succeeded w =
     (let w2 = count_processing ename mo qn (cw_record cw) succeeded (dec [''in_flight'', role, job_type] w)
      in case cw_length cw of
           Inl e \<Rightarrow> (Inl e, w2)
         | Inr _ \<Rightarrow> (Inr (), gauge_to [''queue'', qn] (of_nat (length (value_or (wl_lists w2) qn []))) w2))"

definition consumer_turn ::
  "(nat \<Rightarrow> pystr) \<Rightarrow> (json \<Rightarrow> pystr) \<Rightarrow> (exn \<Rightarrow> pystr) \<Rightarrow> moment \<Rightarrow> pyfloat \<Rightarrow> pystr \<Rightarrow> pystr \<Rightarrow> int \<Rightarrow> consumer_world
    \<Rightarrow> workload \<Rightarrow> (exn + unit) \<times> workload" where
  "consumer_turn surrogate pstr ename mo wait_ms role qn sequence cw w =
     (case value_or (wl_lists w) qn [] of
        [] \<Rightarrow> (Inr (), gauge_to [''queue'', qn] 0 w)
      | item # rest \<Rightarrow>
          let w0 = w\<lparr>wl_lists := dict_set qn rest (wl_lists w)\<rparr>
          in (case read_job surrogate (mo_now mo) item of
                Inl e \<Rightarrow> (Inl e, w0)
              | Inr (job, queue_wait) \<Rightarrow>
                  let w1 = inc [''in_flight'', role, job_type_of pstr job] w0;
                      (succeeded, w2) = (case process_job cw job of
                         Inr i \<Rightarrow> (True, job_succeeded pstr mo role qn sequence job wait_ms i w1)
                       | Inl e \<Rightarrow> (False, job_failed pstr ename mo role qn job e w1))
                  in consumer_finally ename mo role qn (job_type_of pstr job) cw succeeded w2))"

section \<open>The event stream\<close>

text \<open>One published event; \<open>keep\<close> is how many entries the approximate trimming leaves, at least ten thousand.\<close>

definition publish_event :: "moment \<Rightarrow> nat \<Rightarrow> pystr \<Rightarrow> pystr \<Rightarrow> workload \<Rightarrow> workload" where
  "publish_event mo keep event_type created_at w =
     (let entries = wl_stream w @ [(wl_next_id w, [(''event_id'', mo_id mo), (''event_type'', event_type), (''created_at'', created_at),
            (''value'', int_str (mo_value mo))])];
          kept = drop (length entries - max 10000 keep) entries
      in w\<lparr>wl_stream := kept, wl_next_id := wl_next_id w + 1,
           wl_stats := incr_by (queue_stat_field EVENT_STREAM_NAME ''produced'') 1 (seed_queue_stats EVENT_STREAM_NAME (wl_stats w))\<rparr>)"

definition publisher_turn :: "moment \<Rightarrow> nat \<Rightarrow> pystr \<Rightarrow> pystr \<Rightarrow> exn + unit \<Rightarrow> workload \<Rightarrow> (exn + unit) \<times> workload" where
  "publisher_turn mo keep event_type created_at redis w =
     (case redis of
        Inl e \<Rightarrow> (Inl e, w)
      | Inr _ \<Rightarrow>
          let w1 = publish_event mo keep event_type created_at w; depth = length (wl_stream w1)
          in (Inr (), log_line mo ''domain_event_published'' ''INFO'' [(''event_id'', JStr (mo_id mo)), (''domain_event'', JStr event_type),
               (''stream'', JStr EVENT_STREAM_NAME), (''stream_depth'', JInt (int depth))]
             (gauge_to [''last_success'', ''event-publisher''] (mo_now mo) (gauge_to [''stream'', EVENT_STREAM_NAME] (of_nat depth)
               (inc [''events'', ''event-publisher'', event_type, ''published''] w1)))))"

text \<open>
  \<open>XREAD\<close> after a cursor: the first twenty entries with a larger id. The cursor \<open>$\<close>, here \<open>None\<close>, stands for the
  last id there is when the call is made.
\<close>

definition read_after :: "nat option \<Rightarrow> nat \<Rightarrow> (nat \<times> 'e) list \<Rightarrow> (nat \<times> 'e) list" where
  "read_after cursor last_id entries = take 20 (filter (\<lambda>e. (case cursor of None \<Rightarrow> last_id | Some c \<Rightarrow> c) < fst e) entries)"

definition handle_event ::
  "(exn \<Rightarrow> pystr) \<Rightarrow> moment \<Rightarrow> pyfloat \<Rightarrow> consumer_world \<Rightarrow> pystr \<Rightarrow> (pystr, pystr) dict \<Rightarrow> workload \<Rightarrow> workload" where
  "handle_event ename mo duration_ms cw message_id payload w =
     (let event_type = value_or payload ''event_type'' ''unknown''; i = value_or payload ''event_id'' message_id;
          shown = (case dict_get payload ''event_id'' of None \<Rightarrow> JNull | Some s \<Rightarrow> JStr s);
          answer = (if cw_simulated cw then Inl (RuntimeError ''simulated_event_failure'') else cw_insert cw);
          w1 = (case answer of
             Inr _ \<Rightarrow> log_line mo ''domain_event_processed'' ''INFO'' [(''event_id'', shown), (''domain_event'', JStr event_type),
                 (''stream_id'', JStr message_id), (''duration_ms'', JFloat duration_ms)]
               (gauge_to [''last_success'', ''event-worker''] (mo_now mo) (inc [''database'', ''event_insert'', ''ok'']
                 (inc [''events'', ''event-worker'', event_type, ''processed''] (w\<lparr>wl_events := add_once i (wl_events w)\<rparr>))))
           | Inl e \<Rightarrow> log_line mo ''domain_event_failed'' ''ERROR'' [(''event_id'', shown), (''domain_event'', JStr event_type),
                 (''error'', JStr (ename e))]
               (inc [''database'', ''event_insert'', ''error''] (inc [''events'', ''event-worker'', event_type, ''error''] w)))
      in count_processing ename mo EVENT_STREAM_NAME (cw_record cw) (\<not> isl answer) w1)"

text \<open>The messages of one answer, each with what its turn meets; the new cursor is the last id.\<close>

fun handle_events ::
  "(exn \<Rightarrow> pystr) \<Rightarrow> (nat \<Rightarrow> moment \<times> pyfloat \<times> consumer_world) \<Rightarrow> nat option \<Rightarrow> (nat \<times> (pystr, pystr) dict) list \<Rightarrow> workload
    \<Rightarrow> nat option \<times> workload" where
  "handle_events ename world cursor [] w = (cursor, w)"
| "handle_events ename world cursor ((i, payload) # rest) w =
     (case world i of (mo, duration_ms, cw) \<Rightarrow>
        handle_events ename world (Some i) rest (handle_event ename mo duration_ms cw (nat_str i) payload w))"

text \<open>One round: \<open>last_id\<close> is the newest id when \<open>XREAD\<close> is called, \<open>w\<close> the state when it answers.\<close>

definition event_worker_turn ::
  "(exn \<Rightarrow> pystr) \<Rightarrow> (nat \<Rightarrow> moment \<times> pyfloat \<times> consumer_world) \<Rightarrow> nat \<Rightarrow> exn + unit \<Rightarrow> nat option \<Rightarrow> workload
    \<Rightarrow> (exn + nat option) \<times> workload" where
  "event_worker_turn ename world last_id len cursor w =
     (case handle_events ename world cursor (read_after cursor last_id (wl_stream w)) w of (cursor', w1) \<Rightarrow>
        (case len of
           Inl e \<Rightarrow> (Inl e, w1)
         | Inr _ \<Rightarrow> (Inr cursor', gauge_to [''stream'', EVENT_STREAM_NAME] (of_nat (length (wl_stream w1))) w1)))"

section \<open>The other tasks\<close>

definition database_turn :: "(exn \<Rightarrow> pystr) \<Rightarrow> moment \<Rightarrow> exn + (int \<times> int \<times> pyfloat) \<Rightarrow> workload \<Rightarrow> workload" where
  "database_turn ename mo answer w = (case answer of
     Inr (jobs, recent, average) \<Rightarrow> log_line mo ''database_snapshot'' ''INFO''
         [(''jobs'', JInt jobs), (''recent_jobs'', JInt recent), (''average_value'', JFloat average)]
       (gauge_to [''last_success'', ''database-worker''] (mo_now mo) (inc [''database'', ''analytics_query'', ''ok''] w))
   | Inl e \<Rightarrow> log_line mo ''database_snapshot_failed'' ''ERROR'' [(''error'', JStr (ename e))]
       (inc [''database'', ''analytics_query'', ''error''] w))"

definition file_turn_demo :: "moment \<Rightarrow> int \<Rightarrow> nat list \<Rightarrow> workload \<Rightarrow> workload" where
  "file_turn_demo mo sequence content w =
     (let w1 = gauge_to [''last_success'', ''file-processor''] (mo_now mo) (inc [''jobs'', ''file-processor'', ''ok'', ''file'', ''filesystem''] w)
      in if should_log mo sequence
         then log_line mo ''file_processed'' ''INFO'' [(''bytes'', JInt (int (length content))), (''checksum'', JInt (int (sum_list content mod 65536)))] w1
         else w1)"

text \<open>The tasks of the roles.\<close>

datatype operation =
    Producer pystr pystr pystr
  | BurstProducer
  | Consumer pystr pystr
  | Scheduler pystr pystr pyfloat pystr
  | EventPublisher
  | EventWorker
  | DatabaseWorker
  | FileProcessor

definition operation_for :: "(pyfloat \<Rightarrow> pyfloat) \<Rightarrow> pystr \<Rightarrow> exn + operation" where
  "operation_for cron_interval role =
     (case map_of
        [(''producer'', Producer ''producer'' DEFAULT_QUEUE ''standard''), (''burst-producer'', BurstProducer),
         (''priority-producer'', Producer ''priority-producer'' PRIORITY_QUEUE ''priority''),
         (''consumer'', Consumer ''consumer'' DEFAULT_QUEUE), (''consumer-b'', Consumer ''consumer-b'' DEFAULT_QUEUE),
         (''priority-consumer'', Consumer ''priority-consumer'' PRIORITY_QUEUE),
         (''scheduled-consumer'', Consumer ''scheduled-consumer'' SCHEDULED_QUEUE),
         (''report-cron'', Scheduler ''report-cron'' ''report-refresh'' (cron_interval 15) ''scheduled-report''),
         (''cleanup-cron'', Scheduler ''cleanup-cron'' ''cleanup-scan'' (cron_interval 30) ''scheduled-cleanup''),
         (''event-publisher'', EventPublisher), (''event-worker'', EventWorker), (''database-worker'', DatabaseWorker),
         (''file-processor'', FileProcessor)] role of
        None \<Rightarrow> Inl KeyError | Some x \<Rightarrow> Inr x)"

definition roles :: "pystr list" where
  "roles = [''producer'', ''burst-producer'', ''priority-producer'', ''consumer'', ''consumer-b'', ''priority-consumer'',
     ''scheduled-consumer'', ''report-cron'', ''cleanup-cron'', ''event-publisher'', ''event-worker'', ''database-worker'',
     ''file-processor'', ''metrics'']"

end
