(* ===== verification/Adapters.thy ===== *)
theory Adapters
  imports Config Docker Json_Text
begin

text \<open>
  The dependency adapters, \<open>agent/src/temporalrca_agent/adapters.py\<close>: PostgreSQL and Redis statistics,
  the rates derived from their counters, queue depths, ages and processing latencies. The drivers are
  parameters: the rows of the statistics views, with numbers in numeric columns, and the answers of the
  Redis client. Non-finite numbers are not modelled.
\<close>

section \<open>Vendor metrics\<close>

record vendor_metric =
  vm_vendor_name :: pystr
  vm_concept :: pystr
  vm_value :: pyfloat
  vm_unit :: pystr
  vm_attributes :: "(pystr, json) dict"

definition system_attributes :: "pystr \<Rightarrow> (pystr, json) dict" where
  "system_attributes kind =
     [(''dependency.system'', JStr kind)] @ (if kind = ''postgresql'' then [(''db.system'', JStr kind)] else [])"

definition vendor_event :: "pystr \<Rightarrow> pystr \<Rightarrow> vendor_metric \<Rightarrow> event_args" where
  "vendor_event dependency_id kind m = (event_default DEPENDENCY METRIC (vm_concept m))
     \<lparr>ea_value := Some (vm_value m), ea_unit := Some (vm_unit m),
      ea_entity := Some (no_entity\<lparr>er_dependency_id := Some dependency_id\<rparr>),
      ea_attributes := dict_update (system_attributes kind)
        (dict_update (vm_attributes m) [(''vendor_metric_name'', JStr (vm_vendor_name m))])\<rparr>"

definition normalize_vendor_metrics :: "pystr \<Rightarrow> pystr \<Rightarrow> vendor_metric list \<Rightarrow> event_args list" where
  "normalize_vendor_metrics dependency_id kind metrics = map (vendor_event dependency_id kind) metrics"

section \<open>Counters\<close>

text \<open>What an adapter remembers: the last value under each key and the time of the last collection.\<close>

record 'k adapter =
  ad_previous :: "('k, pyfloat) dict"
  ad_previous_at :: "pyfloat option"

definition new_adapter :: "'k adapter" where
  "new_adapter = \<lparr>ad_previous = [], ad_previous_at = None\<rparr>"

definition elapsed_since :: "pyfloat \<Rightarrow> 'k adapter \<Rightarrow> pyfloat" where
  "elapsed_since collected_at st = (case ad_previous_at st of Some t \<Rightarrow> collected_at - t | None \<Rightarrow> 0)"

text \<open>
  One counter: its sample, its rate when there is an earlier value, time has passed and the value did not
  fall, and the value to remember.
\<close>

definition rate_metric :: "pyfloat \<Rightarrow> pyfloat \<Rightarrow> vendor_metric \<Rightarrow> pystr \<Rightarrow> vendor_metric" where
  "rate_metric elapsed previous m unit = m\<lparr>vm_concept := vm_concept m @ ''.rate'',
     vm_value := (vm_value m - previous) / elapsed, vm_unit := unit,
     vm_attributes := dict_set ''derived'' (JStr ''counter_rate'') (vm_attributes m)\<rparr>"

definition rates_of :: "pyfloat \<Rightarrow> pyfloat option \<Rightarrow> vendor_metric \<Rightarrow> pystr \<Rightarrow> vendor_metric list" where
  "rates_of elapsed previous m unit = (case previous of
     Some p \<Rightarrow> if 0 < elapsed \<and> p \<le> vm_value m then [rate_metric elapsed p m unit] else []
   | None \<Rightarrow> [])"

definition count_on ::
  "pyfloat \<Rightarrow> 'k \<Rightarrow> vendor_metric \<Rightarrow> pystr \<Rightarrow> vendor_metric list \<times> ('k, pyfloat) dict \<Rightarrow> vendor_metric list \<times> ('k, pyfloat) dict"
where
  "count_on elapsed key m unit = (\<lambda>(metrics, previous).
     (metrics @ [m] @ rates_of elapsed (dict_get previous key) m unit, dict_set key (vm_value m) previous))"

section \<open>PostgreSQL\<close>

record pg_database =
  pd_datname :: pystr
  pd_values :: "(pystr, pyfloat option) dict"

text \<open>\<open>pr_statements\<close> are the three sums of \<open>pg_stat_statements\<close>, when they are read.\<close>

record pg_result =
  pr_connect_latency :: pyfloat
  pr_locks :: nat
  pr_waiting_locks :: nat
  pr_databases :: "pg_database list"
  pr_statements :: "(pyfloat option \<times> pyfloat option \<times> pyfloat option) option"

definition column :: "pg_database \<Rightarrow> pystr \<Rightarrow> pyfloat option" where
  "column d vendor = (case dict_get (pd_values d) vendor of None \<Rightarrow> None | Some v \<Rightarrow> v)"

definition plain_metric :: "pystr \<Rightarrow> pystr \<Rightarrow> pyfloat \<Rightarrow> pystr \<Rightarrow> vendor_metric" where
  "plain_metric vendor concept v unit =
     \<lparr>vm_vendor_name = vendor, vm_concept = concept, vm_value = v, vm_unit = unit, vm_attributes = []\<rparr>"

definition root_metrics :: "pg_result \<Rightarrow> vendor_metric list" where
  "root_metrics r =
     [plain_metric ''connect_latency_seconds'' ''dependency.connectivity.latency'' (pr_connect_latency r) ''s'',
      plain_metric ''locks'' ''dependency.locks'' (of_nat (pr_locks r)) ''1'',
      plain_metric ''waiting_locks'' ''dependency.locks.waiting'' (of_nat (pr_waiting_locks r)) ''1'']"

definition database_mapping :: "(pystr \<times> pystr) list" where
  "database_mapping =
     [(''numbackends'', ''dependency.connections''), (''xact_commit'', ''dependency.transactions.committed''),
      (''xact_rollback'', ''dependency.transactions.rolled_back''), (''blks_read'', ''dependency.blocks.read''),
      (''blks_hit'', ''dependency.blocks.hit''), (''tup_returned'', ''dependency.rows.returned''),
      (''tup_fetched'', ''dependency.rows.fetched''), (''tup_inserted'', ''dependency.rows.inserted''),
      (''tup_updated'', ''dependency.rows.updated''), (''tup_deleted'', ''dependency.rows.deleted''),
      (''conflicts'', ''dependency.errors.conflicts''), (''temp_files'', ''dependency.temporary.files''),
      (''temp_bytes'', ''dependency.temporary.bytes''), (''deadlocks'', ''dependency.locks.deadlocks''),
      (''database_size'', ''dependency.storage.size'')]"

definition database_attributes :: "pg_database \<Rightarrow> (pystr, json) dict" where
  "database_attributes d =
     [(''database'', JStr (pd_datname d)), (''db.namespace'', JStr (pd_datname d)), (''db.name'', JStr (pd_datname d))]"

definition database_metric :: "pg_database \<Rightarrow> pystr \<Rightarrow> pystr \<Rightarrow> pyfloat \<Rightarrow> vendor_metric" where
  "database_metric d vendor concept v =
     \<lparr>vm_vendor_name = ''pg_stat_database.'' @ vendor, vm_concept = concept, vm_value = v,
      vm_unit = (if vendor \<in> {''temp_bytes'', ''database_size''} then ''By'' else ''1''), vm_attributes = database_attributes d\<rparr>"

text \<open>The body of the inner loop; the gauges have no rate.\<close>

definition database_step ::
  "pyfloat \<Rightarrow> pg_database \<Rightarrow> pystr \<times> pystr \<Rightarrow> vendor_metric list \<times> (pystr \<times> pystr, pyfloat) dict
    \<Rightarrow> vendor_metric list \<times> (pystr \<times> pystr, pyfloat) dict" where
  "database_step elapsed d = (\<lambda>(vendor, concept) acc.
     case column d vendor of
       None \<Rightarrow> acc
     | Some v \<Rightarrow> count_on (if vendor \<in> {''numbackends'', ''database_size''} then 0 else elapsed) (pd_datname d, vendor)
         (database_metric d vendor concept v) (if vendor = ''temp_bytes'' then ''By/s'' else ''1/s'') acc)"

definition databases_loop ::
  "pyfloat \<Rightarrow> pg_database list \<Rightarrow> vendor_metric list \<times> (pystr \<times> pystr, pyfloat) dict
    \<Rightarrow> vendor_metric list \<times> (pystr \<times> pystr, pyfloat) dict" where
  "databases_loop elapsed ds acc = fold (\<lambda>d. fold (database_step elapsed d) database_mapping) ds acc"

text \<open>\<open>x or 0\<close> of the three sums.\<close>

definition statement_values :: "pg_result \<Rightarrow> (pystr \<times> pystr \<times> pystr \<times> pyfloat) list" where
  "statement_values r = (case pr_statements r of
     None \<Rightarrow> []
   | Some (calls, time, rows) \<Rightarrow>
       [(''calls'', ''dependency.queries.calls'', ''1'', case calls of None \<Rightarrow> 0 | Some v \<Rightarrow> v),
        (''total_exec_time_ms'', ''dependency.queries.execution_time'', ''ms'', case time of None \<Rightarrow> 0 | Some v \<Rightarrow> v),
        (''rows'', ''dependency.queries.rows'', ''1'', case rows of None \<Rightarrow> 0 | Some v \<Rightarrow> v)])"

definition statement_step ::
  "pyfloat \<Rightarrow> pystr \<times> pystr \<times> pystr \<times> pyfloat \<Rightarrow> vendor_metric list \<times> (pystr \<times> pystr, pyfloat) dict
    \<Rightarrow> vendor_metric list \<times> (pystr \<times> pystr, pyfloat) dict" where
  "statement_step elapsed = (\<lambda>(vendor, concept, unit, v).
     count_on elapsed (''pg_stat_statements'', vendor) (plain_metric (''pg_stat_statements.'' @ vendor) concept v unit) (unit @ ''/s''))"

text \<open>\<open>collect\<close>: a query that fails leaves the adapter as it is; one without rows counts as empty.\<close>

definition postgres_metrics :: "pyfloat \<Rightarrow> pg_result option \<Rightarrow> (pystr \<times> pystr) adapter \<Rightarrow> vendor_metric list \<times> (pystr \<times> pystr) adapter" where
  "postgres_metrics collected_at res st =
     (case (case res of
              None \<Rightarrow> ([], ad_previous st)
            | Some r \<Rightarrow> fold (statement_step (elapsed_since collected_at st)) (statement_values r)
                (databases_loop (elapsed_since collected_at st) (pr_databases r) (root_metrics r, ad_previous st))) of
        (metrics, previous) \<Rightarrow> (metrics, \<lparr>ad_previous = previous, ad_previous_at = Some collected_at\<rparr>))"

definition postgres_collect ::
  "pystr \<Rightarrow> pyfloat \<Rightarrow> exn + pg_result option \<Rightarrow> (pystr \<times> pystr) adapter \<Rightarrow> (exn + event_args list) \<times> (pystr \<times> pystr) adapter" where
  "postgres_collect dependency_id collected_at answer st = (case answer of
     Inl e \<Rightarrow> (Inl e, st)
   | Inr res \<Rightarrow> (case postgres_metrics collected_at res st of (metrics, st') \<Rightarrow>
       (Inr (normalize_vendor_metrics dependency_id ''postgresql'' metrics), st')))"

section \<open>Redis\<close>

text \<open>The answers of the client during one fetch: an entry of a stream is its fields.\<close>

record redis_client =
  rc_info :: "exn + (pystr, json) dict"
  rc_llen :: "pystr \<Rightarrow> exn + nat"
  rc_xlen :: "pystr \<Rightarrow> exn + nat"
  rc_lindex :: "pystr \<Rightarrow> exn + pystr option"
  rc_xrange :: "pystr \<Rightarrow> exn + (pystr, pystr) dict option"
  rc_hgetall :: "pystr \<Rightarrow> exn + (pystr, pystr) dict"

record redis_adapter =
  ra_queues :: "pystr list"
  ra_streams :: "pystr list"
  ra_stats_key :: pystr
  ra_memory :: "pystr adapter"

text \<open>\<open>_created_at_age\<close>: the payload is text of a list item or the fields of a stream entry.\<close>

datatype payload = NoPayload | TextPayload pystr | FieldsPayload "(pystr, pystr) dict"

definition age_of :: "json \<Rightarrow> pyfloat \<Rightarrow> pyfloat option" where
  "age_of v now = (case v of
     JObj kvs \<Rightarrow> (case number_of (case map_of kvs ''created_at'' of None \<Rightarrow> JNull | Some x \<Rightarrow> x) of
       Inl _ \<Rightarrow> None | Inr t \<Rightarrow> Some (max 0 (now - t)))
   | _ \<Rightarrow> None)"

definition created_at_age :: "(nat \<Rightarrow> pystr) \<Rightarrow> payload \<Rightarrow> pyfloat \<Rightarrow> pyfloat option" where
  "created_at_age surrogate p now = (case p of
     NoPayload \<Rightarrow> Some 0
   | TextPayload s \<Rightarrow> (case json_loads surrogate s of None \<Rightarrow> None | Some v \<Rightarrow> age_of v now)
   | FieldsPayload kvs \<Rightarrow> age_of (JObj (map (map_prod id JStr) kvs)) now)"

record redis_data =
  rd_info :: "(pystr, json) dict"
  rd_queue_depths :: "(pystr, nat) dict"
  rd_stream_depths :: "(pystr, nat) dict"
  rd_queue_ages :: "(pystr, pyfloat) dict"
  rd_stream_ages :: "(pystr, pyfloat) dict"
  rd_queue_stats :: "(pystr, (pystr, pyfloat) dict) dict"

text \<open>A dict comprehension over awaited answers; an age that cannot be told is left out.\<close>

definition fetch_depths :: "(pystr \<Rightarrow> exn + nat) \<Rightarrow> pystr list \<Rightarrow> exn + (pystr, nat) dict" where
  "fetch_depths len names = fold_result (\<lambda>name d. bind_result (len name) (\<lambda>n. Inr (dict_set name n d))) names []"

definition fetch_ages ::
  "(nat \<Rightarrow> pystr) \<Rightarrow> pyfloat \<Rightarrow> (pystr \<Rightarrow> exn + payload) \<Rightarrow> pystr list \<Rightarrow> exn + (pystr, pyfloat) dict" where
  "fetch_ages surrogate now oldest names = fold_result (\<lambda>name d. bind_result (oldest name) (\<lambda>p.
     Inr (case created_at_age surrogate p now of None \<Rightarrow> d | Some age \<Rightarrow> dict_set name age d))) names []"

definition split_field :: "pystr \<Rightarrow> (pystr \<times> pystr) option" where
  "split_field s = map_option (\<lambda>i. (take i s, drop (Suc i) s)) (rfind_char (CHR ''|'') s)"

definition stats_step ::
  "pystr \<times> pystr \<Rightarrow> (pystr, (pystr, pyfloat) dict) dict \<Rightarrow> (pystr, (pystr, pyfloat) dict) dict" where
  "stats_step = (\<lambda>(key, raw) stats. case split_field key of
     None \<Rightarrow> stats
   | Some (destination, statistic) \<Rightarrow> (case py_float raw of
       None \<Rightarrow> stats
     | Some v \<Rightarrow> dict_set destination (dict_set statistic v (case dict_get stats destination of None \<Rightarrow> [] | Some d \<Rightarrow> d)) stats))"

definition queue_stats :: "(pystr, pystr) dict \<Rightarrow> (pystr, (pystr, pyfloat) dict) dict" where
  "queue_stats entries = fold stats_step entries []"

text \<open>\<open>_fetch\<close>: \<open>latency\<close> and \<open>now\<close> are the clock's answers.\<close>

definition redis_fetch :: "(nat \<Rightarrow> pystr) \<Rightarrow> pyfloat \<Rightarrow> pyfloat \<Rightarrow> redis_client \<Rightarrow> redis_adapter \<Rightarrow> exn + redis_data" where
  "redis_fetch surrogate latency now c ra =
     bind_result (rc_info c) (\<lambda>info.
     bind_result (fetch_depths (rc_llen c) (ra_queues ra)) (\<lambda>depths.
     bind_result (fetch_depths (rc_xlen c) (ra_streams ra)) (\<lambda>stream_depths.
     bind_result (fetch_ages surrogate now (\<lambda>q. bind_result (rc_lindex c q) (\<lambda>item.
        Inr (case item of None \<Rightarrow> NoPayload | Some s \<Rightarrow> TextPayload s))) (ra_queues ra)) (\<lambda>queue_ages.
     bind_result (fetch_ages surrogate now (\<lambda>q. bind_result (rc_xrange c q) (\<lambda>entry.
        Inr (case entry of None \<Rightarrow> NoPayload | Some kvs \<Rightarrow> FieldsPayload kvs))) (ra_streams ra)) (\<lambda>stream_ages.
     bind_result (rc_hgetall c (ra_stats_key ra)) (\<lambda>entries.
     Inr \<lparr>rd_info = dict_set ''connect_latency_seconds'' (JFloat latency) info, rd_queue_depths = depths,
       rd_stream_depths = stream_depths, rd_queue_ages = queue_ages, rd_stream_ages = stream_ages,
       rd_queue_stats = queue_stats entries\<rparr>))))))"

definition redis_mapping :: "(pystr \<times> pystr \<times> pystr) list" where
  "redis_mapping =
     [(''connect_latency_seconds'', ''dependency.connectivity.latency'', ''s''), (''connected_clients'', ''dependency.connections'', ''1''),
      (''used_memory'', ''dependency.memory.used'', ''By''), (''used_memory_rss'', ''dependency.memory.rss'', ''By''),
      (''total_commands_processed'', ''dependency.operations'', ''1''), (''total_net_input_bytes'', ''dependency.network.received'', ''By''),
      (''total_net_output_bytes'', ''dependency.network.sent'', ''By''), (''rejected_connections'', ''dependency.connections.rejected'', ''1''),
      (''evicted_keys'', ''dependency.keys.evicted'', ''1''), (''expired_keys'', ''dependency.keys.expired'', ''1''),
      (''rdb_last_bgsave_status'', ''dependency.persistence.rdb_ok'', ''1''), (''master_repl_offset'', ''dependency.replication.offset'', ''By''),
      (''total_error_replies'', ''dependency.errors'', ''1'')]"

definition redis_counters :: "pystr list" where
  "redis_counters = [''total_commands_processed'', ''total_net_input_bytes'', ''total_net_output_bytes'', ''rejected_connections'',
     ''evicted_keys'', ''expired_keys'', ''total_error_replies'']"

definition info_value :: "(pystr, json) dict \<Rightarrow> pystr \<Rightarrow> pyfloat option" where
  "info_value info vendor = (if vendor = ''rdb_last_bgsave_status'' then Some (if dict_get info vendor = Some (JStr ''ok'') then 1 else 0)
     else case dict_get info vendor of None \<Rightarrow> None | Some v \<Rightarrow> json_num v)"

definition info_step ::
  "pyfloat \<Rightarrow> (pystr, json) dict \<Rightarrow> pystr \<times> pystr \<times> pystr \<Rightarrow> vendor_metric list \<times> (pystr, pyfloat) dict
    \<Rightarrow> vendor_metric list \<times> (pystr, pyfloat) dict" where
  "info_step elapsed info = (\<lambda>(vendor, concept, unit) acc. case info_value info vendor of
     None \<Rightarrow> acc
   | Some v \<Rightarrow> if vendor \<in> set redis_counters
       then count_on elapsed vendor (plain_metric vendor concept v unit) (if unit = ''By'' then ''By/s'' else ''1/s'') acc
       else (fst acc @ [plain_metric vendor concept v unit], snd acc))"

definition role_metrics :: "(pystr, json) dict \<Rightarrow> vendor_metric list" where
  "role_metrics info = (case dict_get info ''role'' of
     None \<Rightarrow> []
   | Some role \<Rightarrow> if json_truthy role then [(plain_metric ''role'' ''dependency.replication.role'' 1 ''1'')\<lparr>vm_attributes := [(''role'', role)]\<rparr>] else [])"

text \<open>A destination: its name, kind, queue type, command, depth and age of its oldest item.\<close>

record destination =
  de_name :: pystr
  de_kind :: pystr
  de_type :: pystr
  de_command :: pystr
  de_depth :: nat
  de_age :: "pyfloat option"

definition destinations :: "redis_data \<Rightarrow> destination list" where
  "destinations r =
     map (\<lambda>(q, n). \<lparr>de_name = q, de_kind = ''queue'', de_type = ''redis_list'', de_command = ''LLEN'', de_depth = n,
        de_age = dict_get (rd_queue_ages r) q\<rparr>) (rd_queue_depths r)
     @ map (\<lambda>(q, n). \<lparr>de_name = q, de_kind = ''stream'', de_type = ''redis_stream'', de_command = ''XLEN'', de_depth = n,
        de_age = dict_get (rd_stream_ages r) q\<rparr>) (rd_stream_depths r)"

definition destination_attributes :: "destination \<Rightarrow> (pystr, json) dict" where
  "destination_attributes d =
     [(''queue'', JStr (de_name d)), (''queue_type'', JStr (de_type d)), (''messaging.system'', JStr ''redis''),
      (''messaging.destination.name'', JStr (de_name d)), (''messaging.destination.kind'', JStr (de_kind d))]"

definition destination_metric :: "destination \<Rightarrow> pystr \<Rightarrow> pystr \<Rightarrow> pyfloat \<Rightarrow> pystr \<Rightarrow> vendor_metric" where
  "destination_metric d vendor concept v unit = (plain_metric vendor concept v unit)\<lparr>vm_attributes := destination_attributes d\<rparr>"

definition depth_metrics :: "destination \<Rightarrow> vendor_metric list" where
  "depth_metrics d = [destination_metric d (de_command d) ''dependency.queue.depth'' (of_nat (de_depth d)) ''1'']
     @ (case de_age d of None \<Rightarrow> []
        | Some age \<Rightarrow> [destination_metric d (de_type d @ ''.oldest_item.created_at'') ''dependency.messaging.oldest_item.age'' age ''s''])"

definition messaging_key :: "pystr \<Rightarrow> pystr \<Rightarrow> pystr" where
  "messaging_key destination statistic = ''messaging:'' @ destination @ '':'' @ statistic"

definition messaging_mapping :: "(pystr \<times> pystr) list" where
  "messaging_mapping = [(''produced'', ''dependency.messaging.produced''), (''consumed'', ''dependency.messaging.consumed''),
     (''failures'', ''dependency.messaging.failures'')]"

definition statistic_step ::
  "pystr \<Rightarrow> pyfloat \<Rightarrow> (pystr, pyfloat) dict \<Rightarrow> destination \<Rightarrow> pystr \<times> pystr \<Rightarrow> vendor_metric list \<times> (pystr, pyfloat) dict
    \<Rightarrow> vendor_metric list \<times> (pystr, pyfloat) dict" where
  "statistic_step stats_key elapsed statistics d = (\<lambda>(statistic, concept) acc. case dict_get statistics statistic of
     None \<Rightarrow> acc
   | Some v \<Rightarrow> count_on elapsed (messaging_key (de_name d) statistic)
       (destination_metric d (stats_key @ ''.'' @ statistic) concept v ''1'') ''1/s'' acc)"

text \<open>
  The processing latency: the mean of the interval when both totals were seen before, the count grew and
  the time did not shrink; the mean of all time otherwise.
\<close>

definition latency_of :: "pyfloat \<Rightarrow> pyfloat \<Rightarrow> pyfloat option \<Rightarrow> pyfloat option \<Rightarrow> pyfloat \<times> pystr" where
  "latency_of seconds num previous_seconds previous_count =
     (case (previous_seconds, previous_count) of
        (Some s, Some c) \<Rightarrow> if 0 < num - c \<and> 0 \<le> seconds - s then ((seconds - s) / (num - c), ''interval_mean'')
          else (seconds / num, ''cumulative_mean'')
      | _ \<Rightarrow> (seconds / num, ''cumulative_mean''))"

definition latency_step ::
  "pystr \<Rightarrow> (pystr, pyfloat) dict \<Rightarrow> destination \<Rightarrow> vendor_metric list \<times> (pystr, pyfloat) dict
    \<Rightarrow> vendor_metric list \<times> (pystr, pyfloat) dict" where
  "latency_step stats_key statistics d = (\<lambda>(metrics, previous).
     case (dict_get statistics ''processing_seconds'', dict_get statistics ''processing_count'') of
       (Some seconds, Some num) \<Rightarrow>
         if num = 0 then (metrics, previous)
         else let seconds_key = messaging_key (de_name d) ''processing_seconds''; count_key = messaging_key (de_name d) ''processing_count''
              in (case latency_of seconds num (dict_get previous seconds_key) (dict_get previous count_key) of (latency, aggregation) \<Rightarrow>
                (metrics @ [(destination_metric d (stats_key @ ''.processing_seconds'') ''dependency.messaging.processing.latency'' latency ''s'')
                   \<lparr>vm_attributes := dict_set ''aggregation'' (JStr aggregation) (destination_attributes d)\<rparr>],
                 dict_set count_key num (dict_set seconds_key seconds previous)))
     | _ \<Rightarrow> (metrics, previous))"

definition destination_step ::
  "pystr \<Rightarrow> pyfloat \<Rightarrow> (pystr, (pystr, pyfloat) dict) dict \<Rightarrow> destination \<Rightarrow> vendor_metric list \<times> (pystr, pyfloat) dict
    \<Rightarrow> vendor_metric list \<times> (pystr, pyfloat) dict" where
  "destination_step stats_key elapsed stats d acc =
     (let statistics = (case dict_get stats (de_name d) of None \<Rightarrow> [] | Some x \<Rightarrow> x)
      in latency_step stats_key statistics d
           (fold (statistic_step stats_key elapsed statistics d) messaging_mapping (fst acc @ depth_metrics d, snd acc)))"

definition redis_metrics :: "pyfloat \<Rightarrow> redis_data \<Rightarrow> redis_adapter \<Rightarrow> vendor_metric list \<times> redis_adapter" where
  "redis_metrics collected_at r ra =
     (let elapsed = elapsed_since collected_at (ra_memory ra);
          (metrics, previous) = fold (info_step elapsed (rd_info r)) redis_mapping ([], ad_previous (ra_memory ra));
          (metrics', previous') = fold (destination_step (ra_stats_key ra) elapsed (rd_queue_stats r)) (destinations r)
            (metrics @ role_metrics (rd_info r), previous)
      in (metrics', ra\<lparr>ra_memory := \<lparr>ad_previous = previous', ad_previous_at = Some collected_at\<rparr>\<rparr>))"

definition redis_collect ::
  "(nat \<Rightarrow> pystr) \<Rightarrow> pyfloat \<Rightarrow> pyfloat \<Rightarrow> redis_client \<Rightarrow> pystr \<Rightarrow> pyfloat \<Rightarrow> redis_adapter \<Rightarrow> (exn + event_args list) \<times> redis_adapter"
where
  "redis_collect surrogate latency now c dependency_id collected_at ra =
     (case redis_fetch surrogate latency now c ra of
        Inl e \<Rightarrow> (Inl e, ra)
      | Inr r \<Rightarrow> (case redis_metrics collected_at r ra of (metrics, ra') \<Rightarrow>
          (Inr (normalize_vendor_metrics dependency_id ''redis'' metrics), ra')))"

end
