(* ===== verification/Adapters_Laws.thy ===== *)
theory Adapters_Laws
  imports Adapters "HOL-Library.Sublist"
begin

text \<open>
  What the dependency adapters derive: rates that are the mean slope between two collections, ages and
  latencies that are never negative.
\<close>

section \<open>Loops over counters\<close>

text \<open>An operation is the arguments of one \<open>count_on\<close>.\<close>

type_synonym 'k counting = "pyfloat \<times> 'k \<times> vendor_metric \<times> pystr"

definition run_counts :: "'k counting list \<Rightarrow> vendor_metric list \<times> ('k, pyfloat) dict \<Rightarrow> vendor_metric list \<times> ('k, pyfloat) dict" where
  "run_counts ops acc = fold (\<lambda>(elapsed, key, m, unit). count_on elapsed key m unit) ops acc"

definition counted_metrics :: "('k, pyfloat) dict \<Rightarrow> 'k counting \<Rightarrow> vendor_metric list" where
  "counted_metrics previous = (\<lambda>(elapsed, key, m, unit). m # rates_of elapsed (dict_get previous key) m unit)"

lemma counted_metrics_simp [simp]:
  "counted_metrics previous (elapsed, key, m, unit) = m # rates_of elapsed (dict_get previous key) m unit"
  by (simp add: counted_metrics_def)

definition op_key :: "'k counting \<Rightarrow> 'k" where
  "op_key op = fst (snd op)"

lemma run_counts_Nil [simp]: "run_counts [] acc = acc"
  by (simp add: run_counts_def)

lemma run_counts_Cons [simp]:
  "run_counts ((elapsed, key, m, unit) # ops) acc = run_counts ops (count_on elapsed key m unit acc)"
  by (simp add: run_counts_def)

lemma run_counts_append: "run_counts (xs @ ys) acc = run_counts ys (run_counts xs acc)"
  by (simp add: run_counts_def)

lemma counted_metrics_other:
  "op_key op \<noteq> k \<Longrightarrow> counted_metrics (dict_set k v previous) op = counted_metrics previous op"
  by (cases op) (auto simp: counted_metrics_def op_key_def update_conv')

lemma run_counts_metrics:
  "distinct (map op_key ops) \<Longrightarrow> fst (run_counts ops (ms, previous)) = ms @ concat (map (counted_metrics previous) ops)"
proof (induction ops arbitrary: ms previous)
  case (Cons op ops)
  obtain elapsed k m unit where op: "op = (elapsed, k, m, unit)" by (cases op)
  have "map (counted_metrics (dict_set k (vm_value m) previous)) ops = map (counted_metrics previous) ops"
    using Cons.prems by (intro map_cong refl counted_metrics_other) (auto simp: op op_key_def)
  then show ?case
    using Cons by (simp add: op count_on_def cong: map_cong)
qed simp

lemma run_counts_previous:
  "distinct (map op_key ops) \<Longrightarrow> (elapsed, k, m, unit) \<in> set ops \<Longrightarrow> dict_get (snd (run_counts ops acc)) k = Some (vm_value m)"
proof (induction ops arbitrary: acc)
  case (Cons op ops)
  obtain elapsed' k' m' unit' where op: "op = (elapsed', k', m', unit')" by (cases op)
  have keep: "k \<notin> op_key ` set xs \<Longrightarrow> dict_get (snd (run_counts xs acc)) k = dict_get (snd acc) k" for xs acc and k :: 'a
    by (induction xs arbitrary: acc) (auto simp: op_key_def count_on_def update_conv' split: prod.splits)
  show ?case
    using Cons keep [of k ops] by (cases acc) (auto simp: op count_on_def op_key_def update_conv' image_iff)
qed simp

section \<open>PostgreSQL\<close>

definition gauge :: "pystr \<Rightarrow> bool" where
  "gauge vendor \<longleftrightarrow> vendor \<in> {''numbackends'', ''database_size''}"

definition rate_unit :: "pystr \<Rightarrow> pystr" where
  "rate_unit vendor = (if vendor = ''temp_bytes'' then ''By/s'' else ''1/s'')"

definition count_op :: "pyfloat \<Rightarrow> pg_database \<Rightarrow> pystr \<Rightarrow> pystr \<Rightarrow> pyfloat \<Rightarrow> (pystr \<times> pystr) counting" where
  "count_op elapsed d vendor concept v =
     (if gauge vendor then 0 else elapsed, (pd_datname d, vendor), database_metric d vendor concept v, rate_unit vendor)"

definition vendor_ops :: "pyfloat \<Rightarrow> pg_database \<Rightarrow> pystr \<times> pystr \<Rightarrow> (pystr \<times> pystr) counting list" where
  "vendor_ops elapsed d = (\<lambda>(vendor, concept). case column d vendor of None \<Rightarrow> [] | Some v \<Rightarrow> [count_op elapsed d vendor concept v])"

definition database_ops :: "pyfloat \<Rightarrow> pg_database \<Rightarrow> (pystr \<times> pystr) counting list" where
  "database_ops elapsed d = concat (map (vendor_ops elapsed d) database_mapping)"

definition statement_ops :: "pyfloat \<Rightarrow> pg_result \<Rightarrow> (pystr \<times> pystr) counting list" where
  "statement_ops elapsed r = map (\<lambda>(vendor, concept, unit, v).
     (elapsed, (''pg_stat_statements'', vendor), plain_metric (''pg_stat_statements.'' @ vendor) concept v unit, unit @ ''/s'')) (statement_values r)"

lemma database_fold: "fold (database_step elapsed d) maps acc = run_counts (concat (map (vendor_ops elapsed d) maps)) acc"
  by (induction maps arbitrary: acc)
    (auto simp: database_step_def vendor_ops_def gauge_def count_op_def rate_unit_def run_counts_append split: option.split)

lemma databases_loop_ops: "databases_loop elapsed ds acc = run_counts (concat (map (database_ops elapsed) ds)) acc"
  by (induction ds arbitrary: acc)
    (simp_all add: databases_loop_def database_fold database_ops_def run_counts_append)

lemma statement_loop_ops: "fold (statement_step elapsed) (statement_values r) acc = run_counts (statement_ops elapsed r) acc"
proof -
  have "fold (statement_step elapsed) xs acc = run_counts (map (\<lambda>(vendor, concept, unit, v).
     (elapsed, (''pg_stat_statements'', vendor), plain_metric (''pg_stat_statements.'' @ vendor) concept v unit, unit @ ''/s'')) xs) acc" for xs
    by (induction xs arbitrary: acc) (auto simp: statement_step_def)
  then show ?thesis by (simp add: statement_ops_def)
qed

definition postgres_ops :: "pyfloat \<Rightarrow> pg_result \<Rightarrow> (pystr \<times> pystr) counting list" where
  "postgres_ops elapsed r = concat (map (database_ops elapsed) (pr_databases r)) @ statement_ops elapsed r"

lemma postgres_metrics_ops:
  "postgres_metrics collected_at (Some r) st =
     (case run_counts (postgres_ops (elapsed_since collected_at st) r) (root_metrics r, ad_previous st) of
        (metrics, previous) \<Rightarrow> (metrics, \<lparr>ad_previous = previous, ad_previous_at = Some collected_at\<rparr>))"
  by (simp add: postgres_metrics_def databases_loop_ops statement_loop_ops postgres_ops_def run_counts_append)

lemma op_key_count_op [simp]: "op_key (count_op elapsed d vendor concept v) = (pd_datname d, vendor)"
  by (simp add: op_key_def count_op_def)

lemma database_ops_vendors:
  "map op_key (database_ops elapsed d) = map (Pair (pd_datname d)) (filter (\<lambda>v. column d v \<noteq> None) (map fst database_mapping))"
proof -
  have "map op_key (concat (map (vendor_ops elapsed d) maps))
     = map (Pair (pd_datname d)) (filter (\<lambda>v. column d v \<noteq> None) (map fst maps))" for maps
    by (induction maps) (auto simp: vendor_ops_def split: option.split)
  then show ?thesis by (simp add: database_ops_def)
qed

lemma vendors_distinct: "distinct (map fst database_mapping)" "''calls'' \<notin> fst ` set database_mapping"
  "''total_exec_time_ms'' \<notin> fst ` set database_mapping" "''rows'' \<notin> fst ` set database_mapping"
  by (simp_all add: database_mapping_def)

lemma databases_keys_distinct:
  "distinct (map pd_datname ds) \<Longrightarrow> distinct (map op_key (concat (map (database_ops elapsed) ds)))"
  "op_key ` set (concat (map (database_ops elapsed) ds)) \<subseteq> (pd_datname ` set ds) \<times> (fst ` set database_mapping)"
proof -
  have inj: "inj (Pair a)" for a :: pystr by (simp add: inj_on_def)
  have own: "op_key ` set (database_ops elapsed d) \<subseteq> {pd_datname d} \<times> (fst ` set database_mapping)" for d
    using arg_cong [OF database_ops_vendors [of elapsed d], of set] by auto
  then show *: "op_key ` set (concat (map (database_ops elapsed) ds)) \<subseteq> (pd_datname ` set ds) \<times> (fst ` set database_mapping)" for ds
    by fastforce
  assume "distinct (map pd_datname ds)"
  then show "distinct (map op_key (concat (map (database_ops elapsed) ds)))"
  proof (induction ds)
    case (Cons d ds)
    have "distinct (map op_key (database_ops elapsed d))"
      unfolding database_ops_vendors using distinct_filter [OF vendors_distinct(1)] by (simp add: distinct_map inj_on_def)
    then show ?case
      using Cons own [of d] * [of ds] by auto
  qed simp
qed

lemma statement_vendors:
  "map fst (statement_values r) = (if pr_statements r = None then [] else [''calls'', ''total_exec_time_ms'', ''rows''])"
  by (cases "pr_statements r") (simp_all add: statement_values_def split: prod.split)

lemma statement_ops_vendors: "map op_key (statement_ops elapsed r) = map (Pair ''pg_stat_statements'') (map fst (statement_values r))"
  by (simp add: statement_ops_def op_key_def split_beta comp_def)

lemma times_disjoint: "A \<subseteq> X \<times> Y \<Longrightarrow> B \<subseteq> Z \<times> W \<Longrightarrow> Y \<inter> W = {} \<Longrightarrow> A \<inter> B = {}"
  by auto

lemma postgres_ops_distinct:
  assumes "distinct (map pd_datname (pr_databases r))"
  shows "distinct (map op_key (postgres_ops elapsed r))"
proof -
  have own: "op_key ` set (statement_ops elapsed r) \<subseteq> {''pg_stat_statements''} \<times> {''calls'', ''total_exec_time_ms'', ''rows''}"
    unfolding set_map [symmetric] statement_ops_vendors statement_vendors by simp
  have "distinct (map op_key (statement_ops elapsed r))"
    unfolding statement_ops_vendors statement_vendors by simp
  moreover have "op_key ` set (concat (map (database_ops elapsed) (pr_databases r))) \<inter> op_key ` set (statement_ops elapsed r) = {}"
    by (rule times_disjoint [OF databases_keys_distinct(2) own]) (simp add: vendors_distinct)
  ultimately show ?thesis
    using databases_keys_distinct(1) [OF assms, of elapsed]
    unfolding postgres_ops_def map_append distinct_append set_map by simp
qed

text \<open>The rate of a counter among the metrics of a collection.\<close>

definition attribute :: "vendor_metric \<Rightarrow> pystr \<Rightarrow> json option" where
  "attribute m key = dict_get (vm_attributes m) key"

definition rate_for :: "pystr \<Rightarrow> pystr \<Rightarrow> vendor_metric \<Rightarrow> bool" where
  "rate_for datname vendor m \<longleftrightarrow> vm_vendor_name m = ''pg_stat_database.'' @ vendor
     \<and> attribute m ''database'' = Some (JStr datname) \<and> attribute m ''derived'' = Some (JStr ''counter_rate'')"

lemma metric_attributes [simp]:
  "attribute (database_metric d vendor concept v) ''database'' = Some (JStr (pd_datname d))"
  "attribute (database_metric d vendor concept v) ''derived'' = None"
  "attribute (plain_metric name concept v unit) key = None"
  "attribute (rate_metric elapsed q m unit) ''derived'' = Some (JStr ''counter_rate'')"
  "attribute (rate_metric elapsed q m unit) ''database'' = attribute m ''database''"
  by (simp_all add: attribute_def database_metric_def database_attributes_def plain_metric_def rate_metric_def update_conv')

lemma metric_names [simp]:
  "vm_vendor_name (database_metric d vendor concept v) = ''pg_stat_database.'' @ vendor"
  "vm_value (database_metric d vendor concept v) = v"
  "vm_vendor_name (rate_metric elapsed q m unit) = vm_vendor_name m"
  by (simp_all add: database_metric_def rate_metric_def)

lemma database_ops_mem:
  "op \<in> set (database_ops elapsed d) \<longleftrightarrow>
     (\<exists>vendor concept v. (vendor, concept) \<in> set database_mapping \<and> column d vendor = Some v \<and> op = count_op elapsed d vendor concept v)"
proof -
  have "op \<in> set (vendor_ops elapsed d (vendor, concept)) \<longleftrightarrow> (\<exists>v. column d vendor = Some v \<and> op = count_op elapsed d vendor concept v)"
    for vendor concept
    by (cases "column d vendor") (simp_all add: vendor_ops_def)
  then show ?thesis
    unfolding database_ops_def by (simp add: Bex_def)
qed

lemma rates_of_cases: "x \<in> set (rates_of elapsed previous m unit) \<longleftrightarrow>
  (\<exists>q. previous = Some q \<and> 0 < elapsed \<and> q \<le> vm_value m \<and> x = rate_metric elapsed q m unit)"
  by (auto simp: rates_of_def split: option.splits)

lemma database_rate:
  assumes "op \<in> set (database_ops elapsed d)" and "x \<in> set (counted_metrics previous op)" and "rate_for datname vendor x"
  shows "pd_datname d = datname \<and> \<not> gauge vendor \<and> (\<exists>concept v q. (vendor, concept) \<in> set database_mapping \<and> column d vendor = Some v
    \<and> dict_get previous (datname, vendor) = Some q \<and> 0 < elapsed \<and> q \<le> v
    \<and> x = rate_metric elapsed q (database_metric d vendor concept v) (rate_unit vendor))"
proof -
  obtain vendor' concept v where v: "(vendor', concept) \<in> set database_mapping" "column d vendor' = Some v"
    and op: "op = count_op elapsed d vendor' concept v"
    using assms(1) unfolding database_ops_mem by blast
  have same: "vendor' = vendor" and not: "\<not> gauge vendor'" "0 < elapsed" "pd_datname d = datname"
    and q: "\<exists>q. dict_get previous (datname, vendor) = Some q \<and> q \<le> v
      \<and> x = rate_metric elapsed q (database_metric d vendor concept v) (rate_unit vendor)"
    using assms(2,3) unfolding op count_op_def counted_metrics_simp rate_for_def list.set(2) insert_iff rates_of_cases
    by (auto split: if_splits)
  then show ?thesis
    using v by blast
qed

lemma statement_no_rate:
  assumes "op \<in> set (statement_ops elapsed r)" and "x \<in> set (counted_metrics previous op)"
  shows "\<not> rate_for datname vendor x"
proof -
  obtain key name concept v unit unit' where "op = (elapsed, key, plain_metric name concept v unit, unit')"
    using assms(1) by (auto simp: statement_ops_def)
  then have "attribute x ''database'' = None"
    using assms(2) by (auto simp: rates_of_cases)
  then show ?thesis by (simp add: rate_for_def)
qed

lemma root_no_rate: "x \<in> set (root_metrics r) \<Longrightarrow> \<not> rate_for datname vendor x"
  by (auto simp: root_metrics_def rate_for_def)

lemma postgres_remembers:
  assumes "postgres_metrics t (Some r) st = (ms, st')" and "distinct (map pd_datname (pr_databases r))" and "d \<in> set (pr_databases r)"
    and "(vendor, concept) \<in> set database_mapping" and "column d vendor = Some v"
  shows "dict_get (ad_previous st') (pd_datname d, vendor) = Some v \<and> ad_previous_at st' = Some t"
proof -
  let ?op = "count_op (elapsed_since t st) d vendor concept v"
  have "?op \<in> set (postgres_ops (elapsed_since t st) r)"
    using assms(3-5) by (auto simp: postgres_ops_def database_ops_mem intro!: bexI [of _ d])
  from run_counts_previous [OF postgres_ops_distinct [OF assms(2)] this [unfolded count_op_def], of "(root_metrics r, ad_previous st)"]
  show ?thesis
    using assms(1) by (auto simp: postgres_metrics_ops split: prod.splits)
qed

text \<open>
  C36. The rate of a PostgreSQL counter between two collections that both report it is exact: its growth
  over the time between them, under the database's name, when it did not fall; when it fell (the
  statistics were reset) the collection has no rate for it.
\<close>

theorem dependency_rates_exact:
  assumes "postgres_metrics t1 (Some r1) st = (ms1, st1)" and "postgres_metrics t2 (Some r2) st1 = (ms2, st2)" and "t1 < t2"
    and "distinct (map pd_datname (pr_databases r1))" and "distinct (map pd_datname (pr_databases r2))"
    and "d1 \<in> set (pr_databases r1)" and "d2 \<in> set (pr_databases r2)" and "pd_datname d1 = pd_datname d2"
    and "(vendor, concept) \<in> set database_mapping" and "\<not> gauge vendor"
    and "column d1 vendor = Some old" and "column d2 vendor = Some new"
  shows "{m \<in> set ms2. rate_for (pd_datname d2) vendor m} =
    (if old \<le> new then {rate_metric (t2 - t1) old (database_metric d2 vendor concept new) (rate_unit vendor)} else {})"
proof -
  let ?el = "elapsed_since t2 st1"
  have previous: "dict_get (ad_previous st1) (pd_datname d2, vendor) = Some old" and el: "?el = t2 - t1"
    using postgres_remembers [OF assms(1,4,6,9,11)] assms(8) by (auto simp: elapsed_since_def)
  have ms2: "set ms2 = set (root_metrics r2) \<union> (\<Union>op \<in> set (postgres_ops ?el r2). set (counted_metrics (ad_previous st1) op))"
  proof -
    have "ms2 = fst (run_counts (postgres_ops ?el r2) (root_metrics r2, ad_previous st1))"
      using assms(2) by (simp add: postgres_metrics_ops split: prod.splits)
    then show ?thesis
      using run_counts_metrics [OF postgres_ops_distinct [OF assms(5)], of ?el "root_metrics r2" "ad_previous st1"] by simp
  qed
  have one: "d = d2" if "d \<in> set (pr_databases r2)" "pd_datname d = pd_datname d2" for d
    using that assms(5,7) by (auto simp: distinct_map inj_on_def)
  have concept: "c = concept" if "(vendor, c) \<in> set database_mapping" for c
    using that assms(9) vendors_distinct(1) by (metis eq_key_imp_eq_value)
  let ?x = "rate_metric (t2 - t1) old (database_metric d2 vendor concept new) (rate_unit vendor)"
  have "x = ?x \<and> old \<le> new" if x: "x \<in> set ms2" "rate_for (pd_datname d2) vendor x" for x
  proof -
    obtain op where "op \<in> set (postgres_ops ?el r2)" and xop: "x \<in> set (counted_metrics (ad_previous st1) op)"
      using x root_no_rate unfolding ms2 by blast
    then obtain d where d: "d \<in> set (pr_databases r2)" "op \<in> set (database_ops ?el d)"
      using statement_no_rate [OF _ xop] x(2) unfolding postgres_ops_def by auto
    from database_rate [OF d(2) xop x(2)] show ?thesis
      using one [OF d(1)] concept previous assms(12) el by auto
  qed
  moreover have "?x \<in> set ms2 \<and> rate_for (pd_datname d2) vendor ?x" if "old \<le> new"
  proof -
    let ?op = "count_op ?el d2 vendor concept new"
    have "?op \<in> set (database_ops ?el d2)"
      unfolding database_ops_mem using assms(9,10,12) by auto
    then have "?op \<in> set (postgres_ops ?el r2)"
      using assms(7) unfolding postgres_ops_def by auto
    moreover have "?x \<in> set (counted_metrics (ad_previous st1) ?op)"
      using previous el assms(3,10) that by (auto simp: count_op_def rates_of_cases)
    ultimately show ?thesis
      unfolding ms2 by (auto simp: rate_for_def)
  qed
  ultimately show ?thesis by auto
qed

definition sample_database :: "pyfloat \<Rightarrow> pg_database" where
  "sample_database commits = \<lparr>pd_datname = ''workload'', pd_values = [(''numbackends'', Some 3), (''xact_commit'', Some commits)]\<rparr>"

definition sample_result :: "pyfloat \<Rightarrow> pg_result" where
  "sample_result commits = \<lparr>pr_connect_latency = 1 / 100, pr_locks = 2, pr_waiting_locks = 0,
     pr_databases = [sample_database commits], pr_statements = None\<rparr>"

theorem dependency_rates_exact_witness:
  "\<exists>ms1 st1 ms2 st2. postgres_metrics 10 (Some (sample_result 100)) new_adapter = (ms1, st1)
     \<and> postgres_metrics 25 (Some (sample_result 130)) st1 = (ms2, st2)
     \<and> {m \<in> set ms2. rate_for ''workload'' ''xact_commit'' m} =
       (if (100::pyfloat) \<le> 130 then {rate_metric (25 - 10) 100
         (database_metric (sample_database 130) ''xact_commit'' ''dependency.transactions.committed'' 130) (rate_unit ''xact_commit'')} else {})"
proof -
  obtain ms1 st1 where a: "postgres_metrics 10 (Some (sample_result 100)) new_adapter = (ms1, st1)" by fastforce
  obtain ms2 st2 where b: "postgres_metrics 25 (Some (sample_result 130)) st1 = (ms2, st2)" by fastforce
  have "{m \<in> set ms2. rate_for (pd_datname (sample_database 130)) ''xact_commit'' m} =
       (if (100::pyfloat) \<le> 130 then {rate_metric (25 - 10) 100
         (database_metric (sample_database 130) ''xact_commit'' ''dependency.transactions.committed'' 130) (rate_unit ''xact_commit'')} else {})"
    by (rule dependency_rates_exact [OF a b, of "sample_database 100"])
      (simp_all add: sample_result_def sample_database_def database_mapping_def column_def gauge_def)
  with a b show ?thesis
    by (intro exI conjI) (simp_all add: sample_database_def)
qed

text \<open>
  Only the last collection is timed. A database that one collection does not report has its growth over
  two intervals divided by one: here 60 commits in 30 seconds, 2 a second, are reported as 4.
\<close>

definition empty_result :: pg_result where
  "empty_result = (sample_result 0)\<lparr>pr_databases := []\<rparr>"

lemma gap_inflates_rate:
  "map vm_value (filter (rate_for ''workload'' ''xact_commit'')
     (fst (postgres_metrics 30 (Some (sample_result 160))
       (snd (postgres_metrics 15 (Some empty_result) (snd (postgres_metrics 0 (Some (sample_result 100)) new_adapter)))))))
   = [4]"
  by code_simp

section \<open>Redis\<close>

text \<open>Rates, ages and latencies that are emitted are not negative.\<close>

definition derived_concept :: "pystr \<Rightarrow> bool" where
  "derived_concept name \<longleftrightarrow> suffix ''.rate'' name
     \<or> name \<in> {''dependency.messaging.oldest_item.age'', ''dependency.messaging.processing.latency''}"

definition sane_metric :: "vendor_metric \<Rightarrow> bool" where
  "sane_metric m \<longleftrightarrow> (derived_concept (vm_concept m) \<longrightarrow> 0 \<le> vm_value m)"

definition sane_state :: "vendor_metric list \<times> ('k, pyfloat) dict \<Rightarrow> bool" where
  "sane_state acc \<longleftrightarrow> list_all sane_metric (fst acc)"

lemma sane_plain [simp]: "\<not> derived_concept concept \<Longrightarrow> sane_metric (plain_metric vendor concept v unit)"
  by (simp add: sane_metric_def plain_metric_def)

lemma sane_update [simp]: "sane_metric (m\<lparr>vm_attributes := a\<rparr>) = sane_metric m"
  by (simp add: sane_metric_def)

lemma sane_destination [simp]: "sane_metric (destination_metric d vendor concept v unit) = sane_metric (plain_metric vendor concept v unit)"
  by (simp add: destination_metric_def)

lemma sane_rates: "list_all sane_metric (rates_of elapsed previous m unit)"
  by (auto simp: rates_of_def rate_metric_def sane_metric_def split: option.split)

lemma count_on_sane: "sane_metric m \<Longrightarrow> sane_state acc \<Longrightarrow> sane_state (count_on elapsed key m unit acc)"
  by (auto simp: sane_state_def count_on_def sane_rates split: prod.split)

lemma sane_append [simp]: "sane_state (ms @ ms', previous) \<longleftrightarrow> sane_state (ms, previous) \<and> list_all sane_metric ms'"
  by (simp add: sane_state_def)

lemma sane_previous: "sane_state (fst acc, previous) = sane_state acc"
  by (simp add: sane_state_def)

lemma fold_invariant: "(\<And>x acc. x \<in> set xs \<Longrightarrow> P acc \<Longrightarrow> P (f x acc)) \<Longrightarrow> P acc \<Longrightarrow> P (fold f xs acc)"
  by (induction xs arbitrary: acc) auto

lemma mapping_concepts:
  "list_all (\<lambda>(vendor, concept, unit). \<not> derived_concept concept) redis_mapping"
  "list_all (\<lambda>(statistic, concept). \<not> derived_concept concept) messaging_mapping"
  by (simp_all add: redis_mapping_def messaging_mapping_def derived_concept_def suffix_def)

lemma info_step_sane:
  assumes "p \<in> set redis_mapping" and "sane_state acc"
  shows "sane_state (info_step elapsed info p acc)"
proof -
  obtain vendor concept unit where p: "p = (vendor, concept, unit)" by (cases p)
  then have "\<not> derived_concept concept"
    using assms(1) mapping_concepts(1) by (auto simp: list_all_iff)
  then show ?thesis
    using assms(2) by (simp add: p info_step_def count_on_sane sane_previous split: option.split)
qed

lemma statistic_step_sane:
  assumes "p \<in> set messaging_mapping" and "sane_state acc"
  shows "sane_state (statistic_step stats_key elapsed statistics d p acc)"
proof -
  obtain statistic concept where p: "p = (statistic, concept)" by (cases p)
  then have "\<not> derived_concept concept"
    using assms(1) mapping_concepts(2) by (auto simp: list_all_iff)
  then show ?thesis
    using assms(2) by (auto simp: p statistic_step_def intro: count_on_sane split: option.split)
qed

text \<open>The statistics the workload keeps are totals.\<close>

definition nonneg_stats :: "(pystr, pyfloat) dict \<Rightarrow> bool" where
  "nonneg_stats statistics \<longleftrightarrow> (\<forall>v \<in> snd ` set statistics. 0 \<le> v)"

lemma latency_nonneg:
  assumes "0 \<le> seconds" and "0 \<le> n"
  shows "0 \<le> fst (latency_of seconds n previous_seconds previous_count)"
  using assms by (auto simp: latency_of_def split: option.split)

lemma latency_step_sane:
  assumes "nonneg_stats statistics" and "sane_state acc"
  shows "sane_state (latency_step stats_key statistics d acc)"
proof -
  have nonneg: "0 \<le> v" if "dict_get statistics key = Some v" for key v
    using assms(1) map_of_SomeD [OF that] by (force simp: nonneg_stats_def)
  show ?thesis
  proof (cases "dict_get statistics ''processing_seconds''")
    case (Some seconds)
    show ?thesis
    proof (cases "dict_get statistics ''processing_count''")
      case (Some n)
      have "0 \<le> fst (latency_of seconds n a b)" for a b
        using nonneg Some \<open>dict_get statistics ''processing_seconds'' = Some seconds\<close> by (intro latency_nonneg)
      then show ?thesis
        using assms(2) Some \<open>dict_get statistics ''processing_seconds'' = Some seconds\<close>
        by (cases acc) (simp add: latency_step_def Let_def split_beta sane_state_def sane_metric_def destination_metric_def plain_metric_def)
    qed (use assms(2) in \<open>simp add: latency_step_def split_beta split: option.split\<close>)
  qed (use assms(2) in \<open>simp add: latency_step_def split_beta\<close>)
qed

lemma nonneg_set: "nonneg_stats d \<Longrightarrow> 0 \<le> v \<Longrightarrow> nonneg_stats (dict_set k v d)"
  by (induction d) (auto simp: nonneg_stats_def)

lemma nonneg_get: "nonneg_stats d \<Longrightarrow> dict_get d k = Some v \<Longrightarrow> 0 \<le> v"
  using map_of_SomeD [of d k v] by (force simp: nonneg_stats_def)

lemma fold_result_invariant:
  "fold_result f xs s = Inr t \<Longrightarrow> P s \<Longrightarrow> (\<And>x s t. P s \<Longrightarrow> f x s = Inr t \<Longrightarrow> P t) \<Longrightarrow> P t"
  by (induction xs arbitrary: s) (auto simp: bind_result_Inr_iff)

lemma age_nonneg: "created_at_age surrogate p now = Some age \<Longrightarrow> 0 \<le> age"
  by (auto simp: created_at_age_def age_of_def split: payload.splits option.splits json.splits sum.splits)

lemma fetch_ages_nonneg:
  assumes "fetch_ages surrogate now oldest names = Inr d"
  shows "nonneg_stats d"
  using assms unfolding fetch_ages_def
  by (rule fold_result_invariant)
    (auto simp: bind_result_Inr_iff nonneg_set age_nonneg nonneg_stats_def [of "[]"] split: option.splits)

text \<open>The totals in the statistics hash are not negative.\<close>

definition nonneg_entry :: "pystr \<times> pystr \<Rightarrow> bool" where
  "nonneg_entry = (\<lambda>(key, raw). case py_float raw of None \<Rightarrow> True | Some v \<Rightarrow> 0 \<le> v)"

definition all_nonneg :: "(pystr, (pystr, pyfloat) dict) dict \<Rightarrow> bool" where
  "all_nonneg stats \<longleftrightarrow> (\<forall>d \<in> snd ` set stats. nonneg_stats d)"

lemma all_nonneg_get: "all_nonneg stats \<Longrightarrow> dict_get stats k = Some d \<Longrightarrow> nonneg_stats d"
  using map_of_SomeD [of stats k d] by (force simp: all_nonneg_def)

lemma all_nonneg_set: "all_nonneg stats \<Longrightarrow> nonneg_stats d \<Longrightarrow> all_nonneg (dict_set k d stats)"
  by (induction stats) (auto simp: all_nonneg_def)

lemma nonneg_Nil [simp]: "nonneg_stats []"
  by (simp add: nonneg_stats_def)

lemma all_nonneg_default: "all_nonneg stats \<Longrightarrow> nonneg_stats (case dict_get stats k of None \<Rightarrow> [] | Some d \<Rightarrow> d)"
  by (auto dest: all_nonneg_get split: option.split)

lemma stats_step_nonneg:
  assumes "nonneg_entry e" and "all_nonneg stats"
  shows "all_nonneg (stats_step e stats)"
proof -
  obtain key raw where e: "e = (key, raw)" by (cases e)
  then show ?thesis
    using assms all_nonneg_set [OF assms(2) nonneg_set [OF all_nonneg_default [OF assms(2)]]]
    by (cases "split_field key"; cases "py_float raw") (auto simp: stats_step_def nonneg_entry_def)
qed

lemma queue_stats_nonneg:
  assumes "list_all nonneg_entry entries"
  shows "all_nonneg (queue_stats entries)"
  unfolding queue_stats_def
  by (rule fold_invariant [where P = all_nonneg]) (use assms in \<open>auto simp: list_all_iff all_nonneg_def [of "[]"] stats_step_nonneg\<close>)

lemma destination_step_sane:
  assumes "all_nonneg stats" and "\<forall>age. de_age d = Some age \<longrightarrow> 0 \<le> age" and "sane_state acc"
  shows "sane_state (destination_step stats_key elapsed stats d acc)"
proof -
  have "list_all sane_metric (depth_metrics d)"
    using assms(2)
    by (auto simp: depth_metrics_def sane_metric_def destination_metric_def plain_metric_def split: option.split)
  then have start: "sane_state (fst acc @ depth_metrics d, snd acc)"
    using assms(3) by simp
  show ?thesis
    unfolding destination_step_def Let_def
    by (intro latency_step_sane fold_invariant [where P = sane_state] statistic_step_sane start)
      (use assms(1) in \<open>auto intro: all_nonneg_default\<close>)
qed

lemma role_sane: "list_all sane_metric (role_metrics info)"
  by (auto simp: role_metrics_def sane_metric_def plain_metric_def derived_concept_def suffix_def split: option.split)

lemma redis_metrics_sane:
  assumes "all_nonneg (rd_queue_stats r)" and "nonneg_stats (rd_queue_ages r)" and "nonneg_stats (rd_stream_ages r)"
  shows "list_all sane_metric (fst (redis_metrics collected_at r ra))"
proof -
  let ?el = "elapsed_since collected_at (ra_memory ra)"
  let ?info = "fold (info_step ?el (rd_info r)) redis_mapping ([], ad_previous (ra_memory ra))"
  let ?acc = "(fst ?info @ role_metrics (rd_info r), snd ?info)"
  have "sane_state ?info"
    by (rule fold_invariant [where P = sane_state, OF info_step_sane]) (simp_all add: sane_state_def)
  then have "sane_state ?acc"
    by (simp add: role_sane)
  then have "sane_state (fold (destination_step (ra_stats_key ra) ?el (rd_queue_stats r)) (destinations r) ?acc)"
    by (intro fold_invariant [where P = sane_state] destination_step_sane)
      (use assms in \<open>auto simp: destinations_def dest: nonneg_get\<close>)
  then show ?thesis
    by (simp add: redis_metrics_def Let_def split_beta sane_state_def)
qed

text \<open>
  Whatever the clocks say and however the counters of Redis move, be they reset, lost or restored, no
  emitted rate, age of an oldest item or processing latency is negative, as long as the totals the workload
  keeps in the statistics hash are not.
\<close>

theorem redis_derived_nonnegative:
  assumes "redis_collect surrogate latency now c dependency_id collected_at ra = (Inr events, ra')"
    and "case rc_hgetall c (ra_stats_key ra) of Inl _ \<Rightarrow> True | Inr entries \<Rightarrow> list_all nonneg_entry entries"
    and "e \<in> set events" and "derived_concept (ea_name e)"
  shows "\<exists>v. ea_value e = Some v \<and> 0 \<le> v"
proof -
  obtain r where r: "redis_fetch surrogate latency now c ra = Inr r"
    and events: "events = normalize_vendor_metrics dependency_id ''redis'' (fst (redis_metrics collected_at r ra))"
    using assms(1) by (auto simp: redis_collect_def split: sum.splits prod.splits)
  have "all_nonneg (rd_queue_stats r) \<and> nonneg_stats (rd_queue_ages r) \<and> nonneg_stats (rd_stream_ages r)"
    using r assms(2) by (auto simp: redis_fetch_def bind_result_Inr_iff queue_stats_nonneg dest: fetch_ages_nonneg)
  then have "list_all sane_metric (fst (redis_metrics collected_at r ra))"
    by (simp add: redis_metrics_sane)
  moreover obtain m where "m \<in> set (fst (redis_metrics collected_at r ra))" "e = vendor_event dependency_id ''redis'' m"
    using assms(3) by (auto simp: events normalize_vendor_metrics_def)
  ultimately show ?thesis
    using assms(4) by (auto simp: list_all_iff sane_metric_def vendor_event_def event_default_def)
qed

definition sample_client :: redis_client where
  "sample_client = \<lparr>rc_info = Inr [(''role'', JStr ''master'')], rc_llen = (\<lambda>_. Inr 7), rc_xlen = (\<lambda>_. Inr 0),
     rc_lindex = (\<lambda>_. Inr None), rc_xrange = (\<lambda>_. Inr None),
     rc_hgetall = (\<lambda>_. Inr [(''jobs|processing_seconds'', ''12''), (''jobs|processing_count'', ''4'')])\<rparr>"

definition sample_redis :: redis_adapter where
  "sample_redis = \<lparr>ra_queues = [''jobs''], ra_streams = [], ra_stats_key = ''stats'', ra_memory = new_adapter\<rparr>"

theorem redis_derived_nonnegative_witness:
  "\<exists>events ra' e. redis_collect (\<lambda>_. []) 0 100 sample_client ''r'' 50 sample_redis = (Inr events, ra') \<and> e \<in> set events
     \<and> ea_name e = ''dependency.messaging.processing.latency'' \<and> (\<exists>v. ea_value e = Some v \<and> 0 \<le> v)"
proof -
  have "case fst (redis_collect (\<lambda>_. []) 0 100 sample_client ''r'' 50 sample_redis) of
      Inl _ \<Rightarrow> False | Inr events \<Rightarrow> list_ex (\<lambda>e. ea_name e = ''dependency.messaging.processing.latency'') events"
    by code_simp
  then obtain events ra' e where r: "redis_collect (\<lambda>_. []) 0 100 sample_client ''r'' 50 sample_redis = (Inr events, ra')"
    and e: "e \<in> set events" "ea_name e = ''dependency.messaging.processing.latency''"
    by (cases "redis_collect (\<lambda>_. []) 0 100 sample_client ''r'' 50 sample_redis") (auto simp: list_ex_iff split: sum.splits)
  have "case rc_hgetall sample_client (ra_stats_key sample_redis) of Inl _ \<Rightarrow> True | Inr entries \<Rightarrow> list_all nonneg_entry entries"
    by code_simp
  from redis_derived_nonnegative [OF r this e(1)] have "\<exists>v. ea_value e = Some v \<and> 0 \<le> v"
    by (simp add: derived_concept_def e(2))
  with r e show ?thesis by blast
qed

end
