(* ===== verification/Workload_Laws.thy ===== *)
theory Workload_Laws
  imports Workload Adapters_Laws Experiment_Runner
begin

text \<open>
  The statistics the workload keeps in Redis are a ledger of its queues, and the agent's Redis adapter reads
  them back as they were written.
\<close>

section \<open>Fields and counters\<close>

definition stat :: "(pystr, pyfloat) dict \<Rightarrow> pystr \<Rightarrow> pystr \<Rightarrow> pyfloat" where
  "stat stats d s = value_or stats (queue_stat_field d s) 0"

lemma rsplit_field: "CHR ''|'' \<notin> set s \<Longrightarrow> split_field (queue_stat_field d s) = Some (d, s)"
  using rfind_char_last [of "CHR ''|''" s d] by (simp add: split_field_def queue_stat_field_def)

lemma field_eq:
  assumes "CHR ''|'' \<notin> set s" and "CHR ''|'' \<notin> set s'"
  shows "queue_stat_field d s = queue_stat_field d' s' \<longleftrightarrow> d = d' \<and> s = s'"
  using rsplit_field [OF assms(1), of d] rsplit_field [OF assms(2), of d'] by (metis option.inject prod.inject)

lemma statistics_plain: "s \<in> set statistics \<Longrightarrow> CHR ''|'' \<notin> set s"
  by (auto simp: statistics_def)

lemma statistics_mem [simp]:
  "''produced'' \<in> set statistics" "''consumed'' \<in> set statistics" "''failures'' \<in> set statistics"
  "''processing_seconds'' \<in> set statistics" "''processing_count'' \<in> set statistics"
  by (simp_all add: statistics_def)

lemma value_or_setdefault: "value_or (dict_setdefault k 0 d) k' 0 = value_or d k' 0"
proof (cases "k \<in> fst ` set d")
  case False
  then have "dict_get d k = None" by (simp add: map_of_eq_None_iff)
  with False show ?thesis by (simp add: value_or_def dict_setdefault_get)
qed (simp add: dict_setdefault_def)

lemma stat_seed [simp]: "stat (seed_queue_stats d' stats) d s = stat stats d s"
proof -
  have "value_or (fold (\<lambda>s. dict_setdefault (f s) 0) xs stats) k 0 = value_or stats k 0" for f :: "pystr \<Rightarrow> pystr" and xs k
    by (induction xs arbitrary: stats) (simp_all add: value_or_setdefault)
  then show ?thesis by (simp add: stat_def seed_queue_stats_def)
qed

lemma value_or_set [simp]: "value_or (dict_set k v d) k' other = (if k' = k then v else value_or d k' other)"
  by (simp add: value_or_def update_conv')

lemma stat_incr:
  assumes "s \<in> set statistics" and "s' \<in> set statistics"
  shows "stat (incr_by (queue_stat_field d' s') v stats) d s = stat stats d s + (if d = d' \<and> s = s' then v else 0)"
  using field_eq [OF statistics_plain [OF assms(1)] statistics_plain [OF assms(2)], of d d']
  by (simp add: stat_def incr_by_def)

lemma stat_processing:
  assumes "s \<in> set statistics"
  shows "stat (record_processing d' t ok stats) d s = stat stats d s +
    (if d \<noteq> d' \<or> s = ''produced'' then 0 else if s = ''processing_seconds'' then t else if s = ''failures'' \<and> ok then 0 else 1)"
proof -
  consider "s = ''produced''" | "s = ''consumed''" | "s = ''failures''" | "s = ''processing_seconds''" | "s = ''processing_count''"
    using assms unfolding statistics_def list.set insert_iff empty_iff by blast
  then show ?thesis
    by cases (cases ok; simp add: record_processing_def Let_def stat_incr)+
qed

section \<open>The ledger\<close>

definition job_queues :: "pystr list" where
  "job_queues = [DEFAULT_QUEUE, PRIORITY_QUEUE, SCHEDULED_QUEUE]"

definition entry_ok :: "workload \<Rightarrow> pystr \<Rightarrow> bool" where
  "entry_ok w d \<longleftrightarrow> (let s = stat (wl_stats w) d in
     s ''processing_count'' = s ''consumed'' \<and> 0 \<le> s ''failures'' \<and> s ''failures'' \<le> s ''consumed''
     \<and> 0 \<le> s ''processing_seconds'' \<and> 0 \<le> s ''produced'')"

definition queue_length :: "workload \<Rightarrow> pystr \<Rightarrow> pyfloat" where
  "queue_length w d = of_nat (length (value_or (wl_lists w) d []))"

definition ledger :: "workload \<Rightarrow> bool" where
  "ledger w \<longleftrightarrow> (\<forall>d. entry_ok w d)
     \<and> (\<forall>d \<in> set job_queues. stat (wl_stats w) d ''consumed'' + queue_length w d \<le> stat (wl_stats w) d ''produced'')"

lemma frames [simp]:
  "wl_lists (inc l w) = wl_lists w" "wl_stats (inc l w) = wl_stats w" "wl_lists (dec l w) = wl_lists w" "wl_stats (dec l w) = wl_stats w"
  "wl_lists (gauge_to l v w) = wl_lists w" "wl_stats (gauge_to l v w) = wl_stats w"
  "wl_lists (log_line mo name sev attrs w) = wl_lists w" "wl_stats (log_line mo name sev attrs w) = wl_stats w"
  by (simp_all add: inc_def dec_def gauge_to_def log_line_def)

text \<open>Only the lists and the statistics matter.\<close>

lemma ledger_cong: "wl_lists w' = wl_lists w \<Longrightarrow> wl_stats w' = wl_stats w \<Longrightarrow> ledger w' = ledger w"
  by (simp add: ledger_def entry_ok_def queue_length_def)

lemma ledger_frames [simp]:
  "ledger (inc l w) = ledger w" "ledger (dec l w) = ledger w" "ledger (gauge_to l v w) = ledger w"
  "ledger (log_line mo name sev attrs w) = ledger w"
  by (rule ledger_cong; simp)+

lemma push_ledger: "ledger w \<Longrightarrow> ledger (snd (push_job q item w))"
  by (auto simp: ledger_def entry_ok_def queue_length_def push_job_def Let_def stat_incr)

lemma enqueue_ledger: "ledger w \<Longrightarrow> ledger (snd (enqueue frepr pstr q job role w))"
  using push_ledger [of w q "json_dumps frepr job"] by (simp add: enqueue_def split_beta)

lemma producer_ledger: "ledger w \<Longrightarrow> ledger (snd (producer_turn frepr pstr mo role q job_type n redis w))"
  using enqueue_ledger [of w frepr pstr q "make_job mo job_type role None" role]
  by (auto simp: producer_turn_def Let_def split_beta split: sum.split)

lemma burst_loop_ledger: "ledger w \<Longrightarrow> ledger (snd (burst_loop frepr pstr jobs n w))"
proof (induction frepr pstr jobs n w rule: burst_loop.induct)
  case (3 frepr pstr mo u rest depth w)
  have "ledger (snd (enqueue frepr pstr DEFAULT_QUEUE (make_job mo ''batch'' ''burst-producer'' None) ''burst-producer'' w))"
    using 3 by (simp add: enqueue_ledger)
  then show ?case
    using "3.IH" by (simp add: split_beta)
qed simp_all

lemma burst_ledger: "ledger w \<Longrightarrow> ledger (snd (burst_turn frepr pstr mo ms jobs w))"
  using burst_loop_ledger [of w frepr pstr jobs 0] by (auto simp: burst_turn_def Let_def split_beta split: sum.split)

lemma scheduler_ledger: "ledger w \<Longrightarrow> ledger (scheduler_turn frepr pstr ename mo ms role schedule interval job_type redis w)"
  by (auto simp: scheduler_turn_def Let_def split_beta enqueue_ledger split: sum.split)

lemma publisher_ledger: "ledger w \<Longrightarrow> ledger (snd (publisher_turn mo keep event_type created_at redis w))"
  by (auto simp: publisher_turn_def publish_event_def Let_def ledger_def entry_ok_def queue_length_def stat_incr job_queues_def
      DEFAULT_QUEUE_def PRIORITY_QUEUE_def SCHEDULED_QUEUE_def EVENT_STREAM_NAME_def split: sum.split)

text \<open>An item taken from a queue leaves room for the count of one more consumed.\<close>

definition taken :: "pystr \<Rightarrow> workload \<Rightarrow> bool" where
  "taken q w \<longleftrightarrow> (\<forall>d. entry_ok w d)
     \<and> (\<forall>d \<in> set job_queues. stat (wl_stats w) d ''consumed'' + queue_length w d + (if d = q then 1 else 0) \<le> stat (wl_stats w) d ''produced'')"

lemma taken_ledger: "taken q w \<Longrightarrow> ledger w"
  by (auto simp: taken_def ledger_def split: if_splits)

lemma processing_entries:
  assumes "\<forall>d. entry_ok w d" and "0 \<le> t"
  shows "entry_ok (w\<lparr>wl_stats := record_processing q t ok (wl_stats w)\<rparr>) d"
  using assms(1) [rule_format, of d] assms(2)
  by (cases ok) (auto simp: entry_ok_def Let_def stat_processing)

lemma taken_frames [simp]:
  "taken q (inc l w) = taken q w" "taken q (dec l w) = taken q w" "taken q (gauge_to l v w) = taken q w"
  "taken q (log_line mo name sev attrs w) = taken q w" "taken q (w\<lparr>wl_jobs := js\<rparr>) = taken q w"
  by (simp_all add: taken_def entry_ok_def queue_length_def)

lemma count_taken:
  assumes "taken q w" and "0 \<le> mo_duration mo"
  shows "ledger (count_processing ename mo q answer ok w)"
proof (cases answer)
  case (Inl e)
  then show ?thesis
    using taken_ledger [OF assms(1)] by (simp add: count_processing_def)
next
  case (Inr u)
  have "stat (record_processing q t ok stats) d ''consumed'' = stat stats d ''consumed'' + (if d = q then 1 else 0)"
    "stat (record_processing q t ok stats) d ''produced'' = stat stats d ''produced''" for t stats d
    by (simp_all add: stat_processing)
  then show ?thesis
    using assms processing_entries by (auto simp: Inr count_processing_def ledger_def taken_def queue_length_def add_ac)
qed

lemma take_item:
  assumes "ledger w" and "value_or (wl_lists w) q [] = item # rest"
  shows "taken q (w\<lparr>wl_lists := dict_set q rest (wl_lists w)\<rparr>)"
  using assms by (fastforce simp: taken_def ledger_def entry_ok_def queue_length_def)

lemma finally_ledger:
  assumes "taken q w" and "0 \<le> mo_duration mo"
  shows "ledger (snd (consumer_finally ename mo role q job_type cw ok w))"
  using count_taken [of q "dec [''in_flight'', role, job_type] w" mo] assms
  by (auto simp: consumer_finally_def Let_def split: sum.split)

lemma consumer_ledger:
  assumes "ledger w" and "0 \<le> mo_duration mo"
  shows "ledger (snd (consumer_turn surrogate pstr ename mo ms role q n cw w))"
proof (cases "value_or (wl_lists w) q []")
  case Nil
  then show ?thesis
    using assms(1) by (simp add: consumer_turn_def)
next
  case (Cons item rest)
  let ?w0 = "w\<lparr>wl_lists := dict_set q rest (wl_lists w)\<rparr>"
  have t: "taken q ?w0"
    by (rule take_item [OF assms(1) Cons])
  show ?thesis
  proof (cases "read_job surrogate (mo_now mo) item")
    case (Inl e)
    then show ?thesis
      using taken_ledger [OF t] by (simp add: consumer_turn_def Cons Let_def)
  next
    case (Inr r)
    obtain job wait where r: "r = (job, wait)" by (cases r)
    let ?w1 = "inc [''in_flight'', role, job_type_of pstr job] ?w0"
    have "taken q (job_succeeded pstr mo role q n job ms i ?w1)" "taken q (job_failed pstr ename mo role q job e ?w1)" for i e
      using t by (simp_all add: job_succeeded_def job_failed_def Let_def)
    then show ?thesis
      by (cases "process_job cw job") (simp_all add: consumer_turn_def Cons Let_def Inr r finally_ledger assms(2))
  qed
qed

lemma stream_untaken: "ledger w \<Longrightarrow> taken EVENT_STREAM_NAME w"
  by (auto simp: ledger_def taken_def job_queues_def DEFAULT_QUEUE_def PRIORITY_QUEUE_def SCHEDULED_QUEUE_def EVENT_STREAM_NAME_def)

lemma handle_event_ledger:
  assumes "ledger w" and "0 \<le> mo_duration mo"
  shows "ledger (handle_event ename mo ms cw i payload w)"
  unfolding handle_event_def Let_def
  by (rule count_taken [OF stream_untaken assms(2)])
    (use assms(1) in \<open>auto simp: ledger_cong [of "w\<lparr>wl_events := x\<rparr>" w for x] split: sum.split\<close>)

lemma handle_events_ledger:
  assumes "\<forall>i. 0 \<le> mo_duration (fst (world i))" and "ledger w"
  shows "ledger (snd (handle_events ename world cursor es w))"
  using assms(2)
proof (induction es arbitrary: cursor w)
  case (Cons e es)
  obtain i payload where e: "e = (i, payload)" by (cases e)
  obtain mo ms cw where m: "world i = (mo, ms, cw)" by (cases "world i")
  have "0 \<le> mo_duration mo"
    using assms(1) [rule_format, of i] by (simp add: m)
  then show ?case
    using Cons.IH handle_event_ledger [OF Cons.prems] by (simp add: e m)
qed simp

lemma event_worker_ledger:
  assumes "\<forall>i. 0 \<le> mo_duration (fst (world i))" and "ledger w"
  shows "ledger (snd (event_worker_turn ename world last_id len cursor w))"
  using handle_events_ledger [OF assms] by (auto simp: event_worker_turn_def split_beta split: sum.split)

text \<open>A turn of any task, with whatever the outside answers; elapsed times are not negative.\<close>

inductive workload_step :: "(rat \<Rightarrow> string) \<Rightarrow> (nat \<Rightarrow> pystr) \<Rightarrow> (json \<Rightarrow> pystr) \<Rightarrow> (exn \<Rightarrow> pystr) \<Rightarrow> workload \<Rightarrow> workload \<Rightarrow> bool"
  for frepr surrogate pstr ename where
  produce: "workload_step frepr surrogate pstr ename w (snd (producer_turn frepr pstr mo role q job_type n redis w))"
| burst: "workload_step frepr surrogate pstr ename w (snd (burst_turn frepr pstr mo ms jobs w))"
| schedule: "workload_step frepr surrogate pstr ename w (scheduler_turn frepr pstr ename mo ms role schedule interval job_type redis w)"
| consume: "0 \<le> mo_duration mo \<Longrightarrow>
    workload_step frepr surrogate pstr ename w (snd (consumer_turn surrogate pstr ename mo ms role q n cw w))"
| publish: "workload_step frepr surrogate pstr ename w (snd (publisher_turn mo keep event_type created_at redis w))"
| work: "\<forall>i. 0 \<le> mo_duration (fst (world i)) \<Longrightarrow>
    workload_step frepr surrogate pstr ename w (snd (event_worker_turn ename world last_id len cursor w))"
| snapshot: "workload_step frepr surrogate pstr ename w (database_turn ename mo answer w)"
| process_file: "workload_step frepr surrogate pstr ename w (file_turn_demo mo n content w)"

lemma step_ledger: "workload_step frepr surrogate pstr ename w w' \<Longrightarrow> ledger w \<Longrightarrow> ledger w'"
proof (induction rule: workload_step.induct)
  case (snapshot w mo answer)
  then show ?case by (auto simp: database_turn_def split: sum.split)
next
  case (process_file w mo n content)
  then show ?case by (simp add: file_turn_demo_def Let_def)
qed (simp_all add: producer_ledger burst_ledger scheduler_ledger consumer_ledger publisher_ledger event_worker_ledger)

lemma idle_ledger: "ledger idle_workload"
  by (simp add: ledger_def entry_ok_def Let_def stat_def queue_length_def value_or_def idle_workload_def)

text \<open>
  C39. The statistics hash is a true ledger: over every interleaving of the tasks, failed turns included, each
  queue and the stream has as many processings as it has consumed items, no more failures than that, no
  negative total, and the jobs of a queue that are consumed or still waiting are no more than were produced.
\<close>

theorem workload_ledger_holds:
  assumes "(workload_step frepr surrogate pstr ename)\<^sup>*\<^sup>* idle_workload w"
  shows "stat (wl_stats w) d ''processing_count'' = stat (wl_stats w) d ''consumed''
    \<and> 0 \<le> stat (wl_stats w) d ''failures'' \<and> stat (wl_stats w) d ''failures'' \<le> stat (wl_stats w) d ''consumed''
    \<and> 0 \<le> stat (wl_stats w) d ''processing_seconds''
    \<and> (d \<in> set job_queues \<longrightarrow> stat (wl_stats w) d ''consumed'' + queue_length w d \<le> stat (wl_stats w) d ''produced'')"
proof -
  have "ledger w"
    using assms by (induction rule: rtranclp_induct) (auto intro: idle_ledger step_ledger)
  then show ?thesis by (auto simp: ledger_def entry_ok_def Let_def)
qed

definition demo_moment :: "pystr \<Rightarrow> moment" where
  "demo_moment i = \<lparr>mo_now = 10, mo_service = ''demo'', mo_log_every = 1, mo_id = i, mo_value = 7, mo_duration = 1 / 2\<rparr>"

definition demo_world :: consumer_world where
  "demo_world = \<lparr>cw_simulated = True, cw_insert = Inr (), cw_record = Inr (), cw_length = Inr ()\<rparr>"

text \<open>Two jobs produced, one of them consumed and failed.\<close>

definition demo_first :: workload where
  "demo_first = snd (producer_turn (\<lambda>_. ''1.5'') (\<lambda>_. []) (demo_moment ''a'') ''producer'' DEFAULT_QUEUE ''standard'' 1 (Inr ()) idle_workload)"

definition demo_produced :: workload where
  "demo_produced = snd (producer_turn (\<lambda>_. ''1.5'') (\<lambda>_. []) (demo_moment ''b'') ''producer'' DEFAULT_QUEUE ''standard'' 2 (Inr ()) demo_first)"

definition demo_consumed :: workload where
  "demo_consumed = snd (consumer_turn (\<lambda>_. []) (\<lambda>_. []) (\<lambda>_. []) (demo_moment ''c'') 0 ''consumer'' DEFAULT_QUEUE 1 demo_world demo_produced)"

lemma demo_consumed_reachable: "(workload_step (\<lambda>_. ''1.5'') (\<lambda>_. []) (\<lambda>_. []) (\<lambda>_. []))\<^sup>*\<^sup>* idle_workload demo_consumed"
proof -
  let ?R = "workload_step (\<lambda>_. ''1.5'') (\<lambda>_. []) (\<lambda>_. []) (\<lambda>_. [])"
  have "?R demo_produced demo_consumed"
    unfolding demo_consumed_def by (rule workload_step.consume) (simp add: demo_moment_def)
  moreover have "?R idle_workload demo_first" "?R demo_first demo_produced"
    unfolding demo_first_def demo_produced_def by (rule workload_step.produce)+
  ultimately show ?thesis
    by (meson rtranclp.rtrancl_into_rtrancl rtranclp.rtrancl_refl)
qed

theorem workload_ledger_holds_witness:
  "stat (wl_stats demo_consumed) DEFAULT_QUEUE ''failures'' = 1
   \<and> stat (wl_stats demo_consumed) DEFAULT_QUEUE ''consumed'' + queue_length demo_consumed DEFAULT_QUEUE
       \<le> stat (wl_stats demo_consumed) DEFAULT_QUEUE ''produced''"
proof -
  have "stat (wl_stats demo_consumed) DEFAULT_QUEUE ''failures'' = 1"
    by code_simp
  then show ?thesis
    using workload_ledger_holds [OF demo_consumed_reachable, of DEFAULT_QUEUE] by (simp add: job_queues_def)
qed

section \<open>What the adapter reads\<close>

definition nested :: "(pystr, (pystr, pyfloat) dict) dict \<Rightarrow> pystr \<Rightarrow> pystr \<Rightarrow> pyfloat option" where
  "nested acc d s = (case dict_get acc d of None \<Rightarrow> None | Some x \<Rightarrow> dict_get x s)"

lemma nested_step:
  assumes "py_float raw = Some v"
  shows "nested (stats_step (k, raw) acc) d s = (if split_field k = Some (d, s) then Some v else nested acc d s)"
proof (cases "split_field k")
  case None
  then show ?thesis by (simp add: stats_step_def)
next
  case (Some p)
  obtain d' s' where "p = (d', s')" by (cases p)
  then show ?thesis
    using assms Some by (auto simp: stats_step_def nested_def update_conv' split: option.split)
qed

lemma field_split: "CHR ''|'' \<notin> set s \<Longrightarrow> split_field k = Some (d, s) \<longleftrightarrow> k = queue_stat_field d s"
proof
  assume "split_field k = Some (d, s)"
  then obtain i where i: "rfind_char (CHR ''|'') k = Some i" "d = take i k" "s = drop (Suc i) k"
    by (auto simp: split_field_def)
  have at: "rfind_char c k = Some i \<Longrightarrow> i < length k \<and> k ! i = c" for c k i
    by (induction k arbitrary: i) (auto split: option.splits if_splits)
  have "k = take i k @ k ! i # drop (Suc i) k"
    using at [OF i(1)] by (metis id_take_nth_drop)
  then show "k = queue_stat_field d s"
    using at [OF i(1)] by (simp add: i(2,3) queue_stat_field_def)
qed (use rsplit_field in simp)

lemma nested_fold:
  assumes "\<forall>v \<in> snd ` set stats. py_float (render v) = Some v" and "dict_ok stats" and "CHR ''|'' \<notin> set s"
  shows "nested (fold stats_step (map (map_prod id render) stats) acc) d s =
     (case dict_get stats (queue_stat_field d s) of None \<Rightarrow> nested acc d s | Some v \<Rightarrow> Some v)"
  using assms(1,2)
proof (induction stats arbitrary: acc)
  case (Cons e stats)
  obtain k v where e: "e = (k, v)" by (cases e)
  have "py_float (render v) = Some v"
    using Cons.prems(1) by (simp add: e)
  note step = nested_step [OF this, of k acc d s]
  have "dict_get stats k = None"
    using Cons.prems(2) by (simp add: e map_of_eq_None_iff)
  then show ?case
    using Cons step by (auto simp: e field_split [OF assms(3)] split: option.split)
qed simp

text \<open>
  C40. The agent reads back what the workload counts: from the hash as Redis answers it, the adapter's
  statistics hold exactly the value of each field under its destination and statistic, also when a
  destination's name contains the separator.
\<close>

theorem adapter_reads_workload:
  assumes "dict_ok stats" and "\<forall>v \<in> snd ` set stats. py_float (render v) = Some v" and "s \<in> set statistics"
  shows "(case dict_get (queue_stats (map (map_prod id render) stats)) d of None \<Rightarrow> None | Some x \<Rightarrow> dict_get x s)
    = dict_get stats (queue_stat_field d s)"
  using nested_fold [OF assms(2,1) statistics_plain [OF assms(3)], of "[]" d]
  by (simp add: nested_def queue_stats_def split: option.split)

theorem adapter_reads_workload_witness:
  "(case dict_get (queue_stats (map (map_prod id (\<lambda>_. ''2'')) [(queue_stat_field ''a|b'' ''consumed'', 2)])) ''a|b'' of
      None \<Rightarrow> None | Some x \<Rightarrow> dict_get x ''consumed'') = Some (2 :: pyfloat)"
proof -
  have "py_float ''2'' = Some 2" by code_simp
  then show ?thesis
    using adapter_reads_workload [of "[(queue_stat_field ''a|b'' ''consumed'', 2)]" "\<lambda>_. ''2''" "''consumed''" "''a|b''"] by simp
qed

section \<open>What ends or escapes a task\<close>

text \<open>An item that is not JSON is gone and the consumer with it; so is a consumer whose last \<open>LLEN\<close> fails.\<close>

lemma poison_ends_consumer:
  assumes "value_or (wl_lists w) q [] = item # rest" and "json_loads surrogate item = None"
  shows "fst (consumer_turn surrogate pstr ename mo ms role q n cw w) = Inl ValueError"
  using assms by (simp add: consumer_turn_def read_job_def Let_def)

lemma failed_length_ends_consumer: "cw_length cw = Inl e \<Longrightarrow> fst (consumer_finally ename mo role q job_type cw ok w) = Inl e"
  by (simp add: consumer_finally_def Let_def)

text \<open>An item of the experiment runner has no id: every consumer counts it as a failed job.\<close>

lemma fault_items_fail:
  assumes "json_loads surrogate (fault_value cx i) = Some job"
  shows "isl (process_job cw job)"
proof -
  let ?v = "JObj [(''fault'', JBool True), (''experiment'', JStr (rc_uuid cx i)), (''index'', JInt (int i))]"
  have "json_loads surrogate (fault_value cx i) = Some ?v"
    unfolding fault_value_def by (rule json_roundtrip(1)) simp
  then have "job = ?v" using assms by simp
  then show ?thesis
    by (simp add: process_job_def key_value_def bind_result_def)
qed

text \<open>
  The event worker asks for what comes after the last entry until it got one: an event published while no
  call waits is never handled.
\<close>

lemma dollar_cursor_skips:
  assumes "\<forall>e \<in> set (wl_stream w). fst e \<le> last_id"
  shows "handle_events ename world None (read_after None last_id (wl_stream w)) w = (None, w)"
proof -
  have "filter (\<lambda>e. last_id < fst e) (wl_stream w) = []"
    using assms by (auto simp: filter_empty_conv)
  then show ?thesis by (simp add: read_after_def)
qed

end
