(* ===== verification/Http_Exchange.thy ===== *)
theory Http_Exchange
  imports Json_Text Config Enrolment
begin

text \<open>
  The exchange under the agent's endpoints, \<open>AgentHTTPClient._request\<close> of \<open>transport.py\<close>, against the
  request handling of \<open>server/temporalrca_server/api.py\<close>: headers, compression and JSON on the way out,
  the status and body of an answer on the way back. Compression, the rendering of answers by the web
  framework and the connection (\<open>net\<close>) are parameters; so are texts in UTF-16 or UTF-32, which
  \<open>json.loads\<close> recognises and hands to \<open>utf\<close>. For a caller the exchange is the endpoint it talks to.
\<close>

section \<open>UTF-8\<close>

text \<open>
  The ranges of the bytes that continue a lead byte, and the bits the lead byte contributes.
  \<open>surrogates\<close> is the error handler \<open>surrogatepass\<close>.
\<close>

abbreviation continuation :: "nat \<times> nat" where "continuation \<equiv> (0x80, 0xBF)"

definition utf8_lead :: "bool \<Rightarrow> nat \<Rightarrow> ((nat \<times> nat) list \<times> nat) option" where
  "utf8_lead surrogates b =
     (if b < 0x80 then Some ([], b)
      else if b < 0xC2 then None
      else if b < 0xE0 then Some ([continuation], b - 0xC0)
      else if b = 0xE0 then Some ([(0xA0, 0xBF), continuation], 0)
      else if b = 0xED \<and> \<not> surrogates then Some ([(0x80, 0x9F), continuation], b - 0xE0)
      else if b < 0xF0 then Some ([continuation, continuation], b - 0xE0)
      else if b = 0xF0 then Some ([(0x90, 0xBF), continuation, continuation], 0)
      else if b < 0xF4 then Some ([continuation, continuation, continuation], b - 0xF0)
      else if b = 0xF4 then Some ([(0x80, 0x8F), continuation, continuation], 4)
      else None)"

fun utf8_tail :: "(nat \<times> nat) list \<Rightarrow> nat \<Rightarrow> bytes \<Rightarrow> nat option \<times> bytes" where
  "utf8_tail [] acc bs = (Some acc, bs)"
| "utf8_tail (r # rs) acc [] = (None, [])"
| "utf8_tail ((lo, hi) # rs) acc (b # bs) =
     (if lo \<le> of_char b \<and> of_char b \<le> hi then utf8_tail rs (64 * acc + (of_char b - 0x80)) bs else (None, b # bs))"

lemma utf8_tail_length: "utf8_tail rs acc bs = (c, rest) \<Longrightarrow> length rest \<le> length bs"
  by (induction rs acc bs rule: utf8_tail.induct) (auto split: if_split_asm)

text \<open>The code points of a byte string, \<open>None\<close> for each ill-formed part of it.\<close>

function utf8_points :: "bool \<Rightarrow> bytes \<Rightarrow> nat option list" where
  "utf8_points surrogates [] = []"
| "utf8_points surrogates (b # bs) =
     (case utf8_lead surrogates (of_char b) of
        None \<Rightarrow> None # utf8_points surrogates bs
      | Some (rs, acc) \<Rightarrow> (case utf8_tail rs acc bs of (c, rest) \<Rightarrow> c # utf8_points surrogates rest))"
  by pat_completeness auto
termination by (relation "measure (\<lambda>(surrogates, bs). length bs)") (auto dest: utf8_tail_length [OF sym])

definition utf8_strict :: "(nat \<Rightarrow> pystr) \<Rightarrow> bytes \<Rightarrow> pystr option" where
  "utf8_strict wide bs = (let points = utf8_points True bs in
     if None \<in> set points then None else Some (concat (map (\<lambda>p. code_point wide (the p)) points)))"

definition utf8_replace :: "(nat \<Rightarrow> pystr) \<Rightarrow> bytes \<Rightarrow> pystr" where
  "utf8_replace wide bs =
     concat (map (\<lambda>p. code_point wide (case p of None \<Rightarrow> 0xFFFD | Some n \<Rightarrow> n)) (utf8_points False bs))"

section \<open>JSON of bytes\<close>

datatype loads_error = JSONDecodeError | UnicodeDecodeError

text \<open>What \<open>json.detect_encoding\<close> takes for UTF-16 or UTF-32.\<close>

definition wide_encoded :: "bytes \<Rightarrow> bool" where
  "wide_encoded bs \<longleftrightarrow> startswith [CHR 0xFE, CHR 0xFF] bs \<or> startswith [CHR 0xFF, CHR 0xFE] bs
     \<or> ((4 \<le> length bs \<or> length bs = 2) \<and> (bs ! 0 = CHR 0x00 \<or> bs ! 1 = CHR 0x00))"

abbreviation utf8_mark :: bytes where "utf8_mark \<equiv> [CHR 0xEF, CHR 0xBB, CHR 0xBF]"

definition decode_text :: "(nat \<Rightarrow> pystr) \<Rightarrow> (bytes \<Rightarrow> pystr option) \<Rightarrow> bytes \<Rightarrow> pystr option" where
  "decode_text wide utf bs =
     (if wide_encoded bs then utf bs else utf8_strict wide (if startswith utf8_mark bs then drop 3 bs else bs))"

definition json_loads_bytes :: "(nat \<Rightarrow> pystr) \<Rightarrow> (bytes \<Rightarrow> pystr option) \<Rightarrow> bytes \<Rightarrow> loads_error + json" where
  "json_loads_bytes wide utf bs =
     (case decode_text wide utf bs of
        None \<Rightarrow> Inl UnicodeDecodeError
      | Some s \<Rightarrow> (case json_loads wide s of None \<Rightarrow> Inl JSONDecodeError | Some v \<Rightarrow> Inr v))"

section \<open>The client\<close>

record http_client =
  hc_base_url :: pystr
  hc_credential :: "pystr option"
  hc_timeout :: pyfloat

definition http_client_of :: "pystr \<Rightarrow> pystr option \<Rightarrow> pyfloat \<Rightarrow> http_client" where
  "http_client_of base_url credential timeout =
     \<lparr>hc_base_url = rstrip_char (CHR ''/'') base_url, hc_credential = credential, hc_timeout = timeout\<rparr>"

record http_request =
  rq_method :: pystr
  rq_url :: pystr
  rq_headers :: "(pystr, pystr) dict"
  rq_data :: bytes
  rq_timeout :: pyfloat

definition header :: "pystr \<Rightarrow> http_request \<Rightarrow> pystr option" where
  "header name rq = dict_get (rq_headers rq) name"

text \<open>The text a JSON rendering encodes to is the rendering itself: \<open>ensure_ascii\<close> leaves ASCII only.\<close>

definition request_of ::
  "(rat \<Rightarrow> string) \<Rightarrow> (bytes \<Rightarrow> bytes) \<Rightarrow> http_client \<Rightarrow> pystr \<Rightarrow> pystr \<Rightarrow> json \<Rightarrow> bool \<Rightarrow> pystr option \<Rightarrow> pyfloat option
    \<Rightarrow> http_request" where
  "request_of frepr gzip client method path body compressed bearer_token timeout =
     (let raw = json_dumps frepr body;
          headers = [(''Content-Type'', ''application/json''), (''Accept'', ''application/json'')]
            @ (if compressed then [(''Content-Encoding'', ''gzip'')] else []);
          token = (if bearer_token = None then hc_credential client else bearer_token)
      in \<lparr>rq_method = method, rq_url = hc_base_url client @ path,
          rq_headers = headers @ (if truthy token then [(''Authorization'', ''Bearer '' @ the token)] else []),
          rq_data = (if compressed then gzip raw else raw),
          rq_timeout = (case timeout of None \<Rightarrow> hc_timeout client | Some t \<Rightarrow> if t = 0 then hc_timeout client else t)\<rparr>)"

text \<open>
  How opening the connection and reading the payload ends: a status below 300 with its payload, another
  status, which \<open>urlopen\<close> raises as \<open>HTTPError\<close>, or another exception.
\<close>

datatype opened = Opened int bytes | ErrorAnswer int bytes | NotOpened exn

text \<open>Both errors of \<open>json.loads\<close> are instances of \<open>ValueError\<close>; only the first is caught, around an error answer.\<close>

fun read_answer :: "(nat \<Rightarrow> pystr) \<Rightarrow> (bytes \<Rightarrow> pystr option) \<Rightarrow> opened \<Rightarrow> exn + http_result" where
  "read_answer wide utf (NotOpened e) = Inl e"
| "read_answer wide utf (Opened status payload) =
     (if payload = [] then Inr \<lparr>hr_status = status, hr_body = JObj []\<rparr>
      else (case json_loads_bytes wide utf payload of
          Inl _ \<Rightarrow> Inl ValueError | Inr v \<Rightarrow> Inr \<lparr>hr_status = status, hr_body = v\<rparr>))"
| "read_answer wide utf (ErrorAnswer status payload) =
     (if payload = [] then Inr \<lparr>hr_status = status, hr_body = JObj []\<rparr>
      else (case json_loads_bytes wide utf payload of
          Inl JSONDecodeError \<Rightarrow>
            Inr \<lparr>hr_status = status, hr_body = JObj [(''detail'', JStr (utf8_replace wide payload))]\<rparr>
        | Inl UnicodeDecodeError \<Rightarrow> Inl ValueError
        | Inr v \<Rightarrow> Inr \<lparr>hr_status = status, hr_body = v\<rparr>))"

text \<open>What the agent's side of an exchange depends on.\<close>

record exchange =
  ex_frepr :: "rat \<Rightarrow> string"
  ex_gzip :: "bytes \<Rightarrow> bytes"
  ex_wide :: "nat \<Rightarrow> pystr"
  ex_utf :: "bytes \<Rightarrow> pystr option"

definition http_request_answer ::
  "exchange \<Rightarrow> (http_request \<Rightarrow> opened) \<Rightarrow> http_client \<Rightarrow> pystr \<Rightarrow> pystr \<Rightarrow> bool \<Rightarrow> pystr option \<Rightarrow> pyfloat option \<Rightarrow> endpoint" where
  "http_request_answer ex net client method path compressed bearer_token timeout body =
     read_answer (ex_wide ex) (ex_utf ex)
       (net (request_of (ex_frepr ex) (ex_gzip ex) client method path body compressed bearer_token timeout))"

definition registration_call :: "exchange \<Rightarrow> (http_request \<Rightarrow> opened) \<Rightarrow> http_client \<Rightarrow> endpoint" where
  "registration_call ex net client =
     http_request_answer ex net client ''POST'' ''/api/v1/agents/register'' False (Some []) None"

definition inventory_call :: "exchange \<Rightarrow> (http_request \<Rightarrow> opened) \<Rightarrow> http_client \<Rightarrow> endpoint" where
  "inventory_call ex net client = http_request_answer ex net client ''PUT'' ''/api/v1/agents/me/inventory'' False None None"

definition heartbeat_call :: "exchange \<Rightarrow> (http_request \<Rightarrow> opened) \<Rightarrow> http_client \<Rightarrow> endpoint" where
  "heartbeat_call ex net client = http_request_answer ex net client ''POST'' ''/api/v1/agents/me/heartbeat'' False None None"

definition batch_call :: "exchange \<Rightarrow> (http_request \<Rightarrow> opened) \<Rightarrow> http_client \<Rightarrow> endpoint" where
  "batch_call ex net client = http_request_answer ex net client ''POST'' ''/api/v1/telemetry/batches'' True None
     (Some (max 60 (hc_timeout client)))"

section \<open>The server's side\<close>

definition request_payload ::
  "(nat \<Rightarrow> pystr) \<Rightarrow> (bytes \<Rightarrow> pystr option) \<Rightarrow> (bytes \<Rightarrow> bytes option) \<Rightarrow> pystr option \<Rightarrow> bytes \<Rightarrow> json option" where
  "request_payload wide utf gunzip content_encoding raw =
     (case (if content_encoding = Some ''gzip'' then gunzip raw else Some raw) of
        None \<Rightarrow> None
      | Some decoded \<Rightarrow> (case json_loads_bytes wide utf decoded of Inl _ \<Rightarrow> None | Inr payload \<Rightarrow> Some payload))"

text \<open>A batch request on the wire: who sends it, what it holds, what the endpoint makes of it.\<close>

definition receive_batch ::
  "exchange \<Rightarrow> (bytes \<Rightarrow> bytes option) \<Rightarrow> access_env \<Rightarrow> datetime \<Rightarrow> database \<Rightarrow> http_request \<Rightarrow> server
    \<Rightarrow> (failure + batch_response) \<times> server" where
  "receive_batch ex gunzip env now seen rq sv =
     (case authenticated_agent (av_hmac env) (av_settings env) (header ''Authorization'' rq) (sv_db sv) of
        Inl f \<Rightarrow> (Inl f, sv)
      | Inr ident \<Rightarrow> telemetry_batch_endpoint
          ((av_api env)\<lparr>en_parse := request_payload (ex_wide ex) (ex_utf ex) gunzip (header ''Content-Encoding'' rq)\<rparr>)
          (av_settings env) ident now (rq_data rq) seen sv)"

text \<open>
  The answer as it is sent: a failure of the handler as its detail, an exception that escapes it as the
  framework's plain text.
\<close>

fun sent_answer :: "(json \<Rightarrow> bytes) \<Rightarrow> failure + batch_response \<Rightarrow> opened" where
  "sent_answer render (Inr r) = Opened 200 (render (response_json r))"
| "sent_answer render (Inl (HTTPException status detail)) = ErrorAnswer status (render (JObj [(''detail'', JStr detail)]))"
| "sent_answer render (Inl (Unhandled e)) = ErrorAnswer 500 ''Internal Server Error''"

end
