(* ===== verification/Http_Laws.thy ===== *)
theory Http_Laws
  imports Http_Exchange
begin

text \<open>
  The exchange is the endpoint behind it: what the agent sends is what the endpoint is given, and what the
  endpoint answers is what the agent reads. Where the answer is not text, the agent does not see its status.
\<close>

section \<open>Texts that are sent\<close>

lemma ascii_points: "printable s \<Longrightarrow> utf8_points surrogates s = map (\<lambda>c. Some (of_char c)) s"
  by (induction s) (simp_all add: utf8_lead_def)

lemma points_text: "concat (map (\<lambda>c. code_point wide (of_char c)) s) = s"
  by (induction s) (simp_all add: code_point_def nat_of_char_less_256)

lemma strict_printable: "printable s \<Longrightarrow> utf8_strict wide s = Some s"
  using points_text [of wide s] by (auto simp: utf8_strict_def ascii_points Let_def o_def)

lemma replace_printable: "printable s \<Longrightarrow> utf8_replace wide s = s"
  using points_text [of wide s] by (simp add: utf8_replace_def ascii_points o_def)

lemma printable_nth: "printable s \<Longrightarrow> i < length s \<Longrightarrow> 32 \<le> (of_char (s ! i) :: nat) \<and> (of_char (s ! i) :: nat) < 128"
  by (simp add: printable_def list_all_length)

lemma decode_printable:
  assumes "printable s"
  shows "decode_text wide utf s = Some s"
proof -
  have nth: "s ! i \<noteq> CHR 0x00" if "i < length s" for i using printable_nth [OF assms that] by auto
  have "\<not> wide_encoded s"
    using assms nth [of 0] nth [of 1] by (cases s; cases "tl s") (auto simp: wide_encoded_def startswith_def)
  moreover have "\<not> startswith utf8_mark s" using assms by (cases s) (auto simp: startswith_def)
  ultimately show ?thesis by (simp add: decode_text_def strict_printable [OF assms])
qed

text \<open>A value the client can render arrives as that value.\<close>

lemma loads_dumps: "read_back frepr v \<Longrightarrow> json_loads_bytes wide utf (json_dumps frepr v) = Inr v"
  using printable_dumps [of "'',''" "'':''" frepr v] read_back_roundtrip(1) [of frepr v wide]
  by (simp add: json_loads_bytes_def decode_printable)

section \<open>Answers that are read\<close>

lemma plain_response: "plain_json (response_json r)"
  by (auto simp: response_json_def rejected_json_def error_json_def list_all_iff opt_str_def split: option.split)

lemma server_error_text: "json_loads_bytes wide utf ''Internal Server Error'' = Inl JSONDecodeError"
proof -
  have "parse_value wide n ''Internal Server Error'' = None" for n
    by (cases n) (simp_all add: startswith_def parse_number_def Let_def is_digit_def)
  then have "json_loads wide ''Internal Server Error'' = None" by (simp add: json_loads_def skip_def json_blank_def)
  then show ?thesis by (simp add: json_loads_bytes_def decode_printable)
qed

lemma not_empty:
  assumes "json_loads_bytes wide utf payload = Inr v"
  shows "payload \<noteq> []"
  using assms by (auto simp: json_loads_bytes_def decode_text_def wide_encoded_def startswith_def utf8_strict_def
      json_loads_def skip_def parse_number_def split: option.split_asm)

lemma read_sent:
  assumes "\<And>v. plain_json v \<Longrightarrow> json_loads_bytes wide utf (render v) = Inr v"
  shows "read_answer wide utf (sent_answer render answer) = Inr (http_answer answer)"
proof (cases "(render, answer)" rule: sent_answer.cases)
  case (1 render' r)
  then show ?thesis using assms [OF plain_response] not_empty [OF assms [OF plain_response]] by simp
next
  case (2 render' status detail)
  have "plain_json (JObj [(''detail'', JStr detail)])" by simp
  from assms [OF this] not_empty [OF assms [OF this]] 2 show ?thesis by simp
next
  case (3 render' e)
  have "printable ''Internal Server Error''" by simp
  from 3 replace_printable [OF this] show ?thesis by (simp add: server_error_text)
qed

section \<open>Requests that are received\<close>

definition authorization :: "pystr option \<Rightarrow> pystr option" where
  "authorization token = (if truthy token then Some (''Bearer '' @ the token) else None)"

lemma request_headers:
  "header ''Authorization'' (request_of frepr gzip client method path body compressed bearer_token timeout)
     = authorization (if bearer_token = None then hc_credential client else bearer_token)"
  "header ''Content-Encoding'' (request_of frepr gzip client method path body compressed bearer_token timeout)
     = (if compressed then Some ''gzip'' else None)"
  by (simp_all add: header_def request_of_def authorization_def Let_def)

lemma request_data: "rq_data (request_of frepr gzip client method path body compressed bearer_token timeout)
    = (if compressed then gzip (json_dumps frepr body) else json_dumps frepr body)"
  by (simp add: request_of_def Let_def)

lemma payload_received:
  assumes "gunzip packed = Some (json_dumps frepr body)" and "read_back frepr body"
  shows "request_payload wide utf gunzip (Some ''gzip'') packed = Some body"
  by (simp add: request_payload_def assms(1) loads_dumps [OF assms(2)])

text \<open>The endpoint parses the request it gets, nothing else.\<close>

lemma endpoint_parse:
  assumes "parse raw = Some body"
  shows "telemetry_batch_endpoint (api\<lparr>en_parse := parse\<rparr>) st ident now raw seen sv
    = telemetry_batch_endpoint (api\<lparr>en_parse := \<lambda>_. Some body\<rparr>) st ident now raw seen sv"
proof -
  have same: "en_sha (api\<lparr>en_parse := f\<rparr>) = en_sha api" "en_frepr (api\<lparr>en_parse := f\<rparr>) = en_frepr api"
    "en_pstr (api\<lparr>en_parse := f\<rparr>) = en_pstr api" "en_decode_batch (api\<lparr>en_parse := f\<rparr>) = en_decode_batch api"
    "en_decode (api\<lparr>en_parse := f\<rparr>) = en_decode api" "en_parse (api\<lparr>en_parse := f\<rparr>) = f" for f
    by simp_all
  show ?thesis unfolding telemetry_batch_endpoint_def same assms ..
qed

section \<open>The exchange\<close>

text \<open>What a request of a client with this credential leads to, on the body itself.\<close>

definition serve_batch ::
  "access_env \<Rightarrow> pystr option \<Rightarrow> datetime \<Rightarrow> database \<Rightarrow> bytes \<Rightarrow> json \<Rightarrow> server \<Rightarrow> (failure + batch_response) \<times> server" where
  "serve_batch env credential now seen raw body sv =
     (case authenticated_agent (av_hmac env) (av_settings env) (authorization credential) (sv_db sv) of
        Inl f \<Rightarrow> (Inl f, sv)
      | Inr ident \<Rightarrow> telemetry_batch_endpoint ((av_api env)\<lparr>en_parse := \<lambda>_. Some body\<rparr>) (av_settings env) ident now raw seen sv)"

lemma received_batch:
  assumes "\<And>x. gunzip (ex_gzip ex x) = Some x" and "read_back (ex_frepr ex) body"
  shows "receive_batch ex gunzip env now seen (request_of (ex_frepr ex) (ex_gzip ex) client method path body True None timeout) sv
    = serve_batch env (hc_credential client) now seen (ex_gzip ex (json_dumps (ex_frepr ex) body)) body sv"
proof -
  let ?packed = "ex_gzip ex (json_dumps (ex_frepr ex) body)" and ?parse = "request_payload (ex_wide ex) (ex_utf ex) gunzip (Some ''gzip'')"
  have "?parse ?packed = Some body" by (rule payload_received) (rule assms)+
  note same = endpoint_parse [where parse = ?parse and raw = ?packed, OF this]
  show ?thesis unfolding receive_batch_def serve_batch_def request_headers request_data by (simp add: same split: sum.split)
qed

text \<open>
  C38. The exchange is transparent. Whatever the agent sends as a batch, the server runs the endpoint on
  exactly that value, for the agent whose credential the client holds, and the agent reads exactly the status
  and body of the answer: accepted, refused with a detail, or failed inside, where the framework answers with
  a text that is no JSON. This needs that compression can be undone, that the renderings of answers and of
  the body's floats can be read back, and nothing of what the batch holds.
\<close>

theorem exchange_is_transparent:
  assumes "\<And>x. gunzip (ex_gzip ex x) = Some x"
    and "\<And>v. plain_json v \<Longrightarrow> json_loads_bytes (ex_wide ex) (ex_utf ex) (render v) = Inr v"
    and "read_back (ex_frepr ex) body"
  shows "batch_call ex (\<lambda>rq. sent_answer render (fst (receive_batch ex gunzip env now seen rq sv))) client body
    = Inr (http_answer (fst (serve_batch env (hc_credential client) now seen
        (ex_gzip ex (json_dumps (ex_frepr ex) body)) body sv)))"
  by (simp add: batch_call_def http_request_answer_def received_batch [OF assms(1,3)] read_sent [OF assms(2)])

definition demo_exchange :: exchange where
  "demo_exchange = \<lparr>ex_frepr = (\<lambda>_. ''0.5''), ex_gzip = rev, ex_wide = (\<lambda>_. []), ex_utf = (\<lambda>_. None)\<rparr>"

theorem exchange_is_transparent_witness:
  "batch_call demo_exchange
     (\<lambda>rq. sent_answer (json_dumps (\<lambda>_. [])) (fst (receive_batch demo_exchange (Some \<circ> rev) demo_access_env 5 empty_database rq
        demo_access_server)))
     (http_client_of ''http://central/'' (Some ''unknown'') 10) (JObj [(''value'', JFloat (1 / 2))])
   = Inr \<lparr>hr_status = 401, hr_body = JObj [(''detail'', JStr ''invalid agent credential'')]\<rparr>"
proof -
  have half: "read_back (\<lambda>_. ''0.5'') (JObj [(''value'', JFloat (1 / 2))])" by code_simp
  have auth: "authenticated_agent (av_hmac demo_access_env) (av_settings demo_access_env)
      (authorization (Some ''unknown'')) (sv_db demo_access_server) = Inl (HTTPException 401 ''invalid agent credential'')"
    by (simp add: authenticated_agent_def authorization_def truthy_def bearer_def startswith_def identities_def
        demo_access_server_def empty_database_def)
  have "batch_call demo_exchange
     (\<lambda>rq. sent_answer (json_dumps (\<lambda>_. [])) (fst (receive_batch demo_exchange (Some \<circ> rev) demo_access_env 5 empty_database rq
        demo_access_server)))
     (http_client_of ''http://central/'' (Some ''unknown'') 10) (JObj [(''value'', JFloat (1 / 2))])
   = Inr (http_answer (fst (serve_batch demo_access_env (hc_credential (http_client_of ''http://central/'' (Some ''unknown'') 10)) 5
       empty_database (ex_gzip demo_exchange (json_dumps (ex_frepr demo_exchange) (JObj [(''value'', JFloat (1 / 2))])))
       (JObj [(''value'', JFloat (1 / 2))]) demo_access_server)))"
    by (rule exchange_is_transparent) (simp_all add: demo_exchange_def half [simplified] loads_dumps plain_read_back)
  then show ?thesis by (simp add: serve_batch_def http_client_of_def auth)
qed

section \<open>Answers that are no text\<close>

text \<open>
  An error answer whose payload is no UTF-8, such as the page of a proxy in another encoding, raises
  instead of giving its status: the handler around \<open>json.loads\<close> catches \<open>JSONDecodeError\<close> only.
  A refusal that is final is then taken for a failed connection, and the batch stays in the queue to be sent again.
\<close>

theorem undecodable_refusal_is_retried:
  assumes "payload \<noteq> []" and "decode_text wide utf payload = None"
  shows "read_answer wide utf (ErrorAnswer status payload) = Inl ValueError"
    and "sd_spool (finish frepr pstr estr now random ids (read_answer wide utf (ErrorAnswer status payload)) s) = sd_spool s"
proof -
  show v: "read_answer wide utf (ErrorAnswer status payload) = Inl ValueError"
    using assms by (simp add: json_loads_bytes_def)
  show "sd_spool (finish frepr pstr estr now random ids (read_answer wide utf (ErrorAnswer status payload)) s) = sd_spool s"
    unfolding v by (simp add: finish_def settle_batch_def Let_def split: sum.split)
qed

end
