(* ===== verification/Spec2Isabelle.thy ===== *)
theory Spec2Isabelle
  imports Spool_Eviction Spool_Queue Contracts PyText Metric_Series Exactly_Once Commit Delivery Runtime
    Rollup_History Proc_Collector Discovery Inventory_Laws Metric_Splice Log_Query File_Log_Laws Enrolment Experiments Reads Live
    Collection_Laws Open_Metrics_Laws Agent_Loop Experiment_Runner_Laws Export_Laws Workload_Laws Http_Laws
begin

text \<open>
  TemporalRCA collects telemetry of hosts, containers and processes. An agent on each host
  (\<open>agent/src/temporalrca_agent\<close>) samples \<open>/proc\<close>, Docker, logs and
  dependencies, normalises what it finds into events, queues them in a SQLite spool and sends them
  in batches to a server (\<open>server/temporalrca_server\<close>), which deduplicates and stores them,
  keeps an inventory of the host's resources, rolls old samples up, answers queries and exports
  experiments. Both sides share the wire contract \<open>shared/temporalrca_contracts/models.py\<close>. A demo
  workload (\<open>demo-workload/workload\<close>) is what the agent observes in the demonstration, and an experiment
  runner (\<open>deployment/experiment-runner\<close>) injects faults into it and records the ground truth at the
  server. A theory named \<open>X_Laws\<close> holds the laws of the model in \<open>X\<close>.

  \<^bold>\<open>Shared ground.\<close>
  \<open>Prelude\<close>: dictionaries as association lists, exceptions, results. \<open>Json\<close>: JSON values and
  \<open>json.dumps\<close>; \<open>Json_Text\<close>: \<open>json.loads\<close>, which reads back what is dumped. \<open>PyText\<close>: the \<open>str\<close> operations and number parsing.
  \<open>Clock\<close>, \<open>Calendar\<close>: instants, their ISO form and reading it back. \<open>Tables\<close>: unique-keyed tables with insert-or-ignore and
  delete, a locale that the spool's and the server's tables interpret.

  \<^bold>\<open>Agent.\<close>
  \<open>Spool\<close>, \<open>Spool_Eviction\<close>, \<open>Spool_Queue\<close> (\<open>spool.py\<close>): the
  durable queue; the eviction loop has a closed form, eviction is accounted for, the queue's bound
  is exact, batches are maximal windows.
  \<open>Normalization\<close> (\<open>models.py\<close>, \<open>normalization.py\<close>): events and their
  attribute bounds against the contract. \<open>Transport\<close> (\<open>transport.py\<close>) and
  \<open>Sender\<close> (\<open>runtime.py\<close>): one turn of the delivery loop with every kind of answer.
  \<open>Config\<close> (\<open>config.py\<close>): the tables of the configuration file, the environment and the
  checks; a configuration that loads is within its bounds.
  \<open>Runtime\<close> (\<open>runtime.py\<close>): start-up, emitting with its loss report, restart.
  \<open>Collection\<close>, \<open>Collection_Laws\<close> (\<open>runtime.py\<close>): a turn of the host, container and
  process samplers and of discovery with its report. \<open>Agent_Loop\<close> (\<open>runtime.py\<close>): the guarded
  loops, the tasks a configuration starts, the heartbeat, and a locale of collectors whose restarts are
  invisible, interpreted on the file tailer.
  \<open>Procfs\<close>, \<open>Proc_Collector\<close> (\<open>procfs.py\<close>,
  \<open>collectors/proc.py\<close>): the parsers and the sampler with its rates.
  \<open>Discovery\<close> (\<open>discovery.py\<close>): services of processes and their lifecycle changes.
  \<open>File_Logs\<close>, \<open>File_Log_Laws\<close> (\<open>collectors/logs.py\<close>): following a log
  file and the journal from a stored cursor.
  \<open>Docker\<close>, \<open>Docker_Collector\<close> (\<open>collectors/docker.py\<close>): parsing the Engine's answers,
  the inventory of containers, their statistics and rates.
  \<open>Open_Metrics\<close>, \<open>Open_Metrics_Laws\<close> (\<open>collectors/openmetrics.py\<close>): the exposition
  parser with its two regular expressions as matchers; it ends, and samples are read back as written.
  \<open>Adapters\<close>, \<open>Adapters_Laws\<close> (\<open>adapters.py\<close>): PostgreSQL and Redis statistics, their
  rates, ages and latencies.

  \<^bold>\<open>Server.\<close>
  \<open>Contracts\<close>, \<open>Inventory_Contract\<close>: validation of the wire models.
  \<open>Database\<close> (\<open>models.py\<close>, \<open>partitions.py\<close>): the tables and their keys.
  \<open>Ingestion\<close>, \<open>Metric_Series\<close>, \<open>Exactly_Once\<close>, \<open>Commit\<close>
  (\<open>ingestion.py\<close>): the transaction, the bulk resolution of series against a per-event
  reference, exactly-once storage, the exact condition of a commit. \<open>Telemetry_Api\<close>
  (\<open>api.py\<close>, \<open>live.py\<close>): the endpoint.
  \<open>Access\<close>, \<open>Access_Laws\<close> (\<open>security.py\<close>, \<open>api.py\<close>): enrolment, rotation,
  authentication and heartbeat; a credential is accepted exactly when it is the last one handed out.
  \<open>Inventory\<close>, \<open>Inventory_Laws\<close> (\<open>api.py\<close>): the inventory request; the
  locale \<open>resource_kind\<close> is what the four kinds of resource have in common.
  \<open>Rollup_Tables\<close>, \<open>Maintenance\<close>, \<open>Rollup_History\<close>
  (\<open>maintenance.py\<close>): rollups, retention and what they guarantee over a history.
  \<open>Metric_Query\<close>, \<open>Metric_Splice\<close> (\<open>api.py\<close>): metric queries; rollups spliced
  with the live tail answer what the raw samples answer. \<open>Cursor\<close>, \<open>Log_Query\<close>
  (\<open>api.py\<close>): the pagination cursor and the pages of logs and events. \<open>Reads\<close>
  (\<open>api.py\<close>): topology, resources, experiments and collector health. \<open>Live\<close>
  (\<open>live.py\<close>): watermarks and the server-sent events a client gets.
  \<open>Experiments\<close> (\<open>api.py\<close>): the ground truth of experiments, recorded once.
  \<open>Export\<close>, \<open>Export_Laws\<close> (\<open>export.py\<close>, \<open>api.py\<close>): the rows and files of an
  experiment's bundle; its references stay inside, and agent telemetry is not in it.

  \<^bold>\<open>Together.\<close>
  \<open>Delivery\<close> composes the agent's sender with a service known by a locale's laws, interpreted on
  the telemetry endpoint: whatever is appended is queued, quarantined, reported as lost or stored.
  \<open>Enrolment\<close> composes the agent's start-up with the server's registration, lost answers included.

  \<^bold>\<open>Experiments and demonstration.\<close>
  \<open>Experiment_Runner\<close>, \<open>Experiment_Runner_Laws\<close>
  (\<open>deployment/experiment-runner/runner.py\<close>): every fault with its checks, injection and clean-up as a
  program that performs actions, and a run with its records; by a weakest-precondition calculus the effects
  of a fault are undone on every path, and the records agree with how the run ended.
  \<open>Workload\<close>, \<open>Workload_Laws\<close> (\<open>demo-workload/workload/__main__.py\<close>): one turn of each task
  on the shared queues, stream, statistics and tables; the statistics are a ledger of the queues, and the
  agent's Redis adapter reads them back as they were written.

  \<^bold>\<open>Numbers and parameters.\<close>
  Python integers are \<open>int\<close>. A Python float is a rational without rounding: NaN and
  infinities do not occur. Strings are lists of the first 256 code points. Hashes,
  \<open>repr\<close> of floats, regular expressions of the configuration, the file system, fresh UUIDs,
  clocks and random numbers are parameters. No operation needs fuel: every loop of the modelled code
  ends, shown by structural recursion or a measure.

  \<^bold>\<open>Not modelled.\<close>
  The HTTP exchange, sockets, gzip, asyncio scheduling, cancellation and signals; the SQL driver (statements
  are operations on tables) and the Parquet encoding; process start-up and database sessions
  (\<open>main.py\<close>, \<open>database.py\<close>, \<open>cli.py\<close>); the metrics server and the connection
  loops of the demo workload; the dashboard; acceptance and benchmark scripts, ansible roles and container
  start-up, which drive a deployed system from outside.
\<close>

end
